(* ===== verification/Prelude.thy ===== *)
theory Prelude
  imports Main "HOL-Library.Word"
begin

text \<open>
  Shared vocabulary of the development: Go's \<open>error\<close> values, \<open>int64\<close> arithmetic,
  \<open>time.Time\<close> and \<open>time.Duration\<close>, and the list facts the components share.

  \<^item> A Go function that returns \<open>(T, error)\<close> returns \<open>go_error + T\<close>: \<open>Inl e\<close> for a
    non-nil error, \<open>Inr x\<close> otherwise. A method with a pointer receiver also returns the
    receiver's new value, on the error paths too.
  \<^item> A \<open>time.Time\<close> is the number of nanoseconds since the zero \<open>Time\<close>, an \<open>int\<close>, so that
    \<open>t.IsZero()\<close> is \<open>t = 0\<close>, \<open>Before\<close> is \<open><\<close>, \<open>After\<close> is \<open>>\<close> and \<open>Add\<close> is \<open>+\<close>.
    \<open>Sub\<close> saturates at the bounds of \<open>int64\<close>, as Go's does (\<open>time_sub\<close>).
  \<^item> An \<open>int64\<close> (and \<open>int\<close>, which is 64 bits wide on the release platforms) is an \<open>int\<close>;
    every operation whose result may leave the range is wrapped with \<open>s64\<close>.
\<close>

named_theorems go_simps \<open>unfolding rules for the Go vocabulary\<close>

section \<open>Errors\<close>

text \<open>
  \<open>Err\<close> is an \<open>errors.New\<close> or a formatted error made on the spot, \<open>Sentinel\<close> a package
  variable compared by identity, \<open>Wrap\<close> is \<open>fmt.Errorf("...: %w", err)\<close>, \<open>Join\<close> is
  \<open>errors.Join\<close>. \<open>Staged\<close> is an error struct that carries a stage and unwraps to its cause:
  its first argument names the struct type.
\<close>

datatype go_error =
    Err string
  | Sentinel string
  | Wrap string go_error
  | Join "go_error list"
  | Staged string string go_error

text \<open>\<open>errors.Is\<close> against a sentinel: a pre-order walk of the wrapped errors.\<close>

fun errors_is :: "go_error \<Rightarrow> string \<Rightarrow> bool" where
  "errors_is (Err m) s = False"
| "errors_is (Sentinel n) s = (n = s)"
| "errors_is (Wrap m e) s = errors_is e s"
| "errors_is (Join es) s = (\<exists>e \<in> set es. errors_is e s)"
| "errors_is (Staged ty st e) s = errors_is e s"

text \<open>\<open>errors.As\<close> with a target of the struct type \<open>ty\<close>: the stage of the first match.\<close>

fun errors_as :: "string \<Rightarrow> go_error \<Rightarrow> string option"
  and errors_as_list :: "string \<Rightarrow> go_error list \<Rightarrow> string option" where
  "errors_as ty (Err m) = None"
| "errors_as ty (Sentinel n) = None"
| "errors_as ty (Wrap m e) = errors_as ty e"
| "errors_as ty (Join es) = errors_as_list ty es"
| "errors_as ty (Staged ty' st e) = (if ty' = ty then Some st else errors_as ty e)"
| "errors_as_list ty [] = None"
| "errors_as_list ty (e # es) =
     (case errors_as ty e of Some st \<Rightarrow> Some st | None \<Rightarrow> errors_as_list ty es)"

text \<open>\<open>errors.Join\<close>: nil errors are dropped, and a join of nils is nil.\<close>

definition errors_join :: "go_error option list \<Rightarrow> go_error option" where
  "errors_join es =
     (case [e. Some e \<leftarrow> es] of [] \<Rightarrow> None | ds \<Rightarrow> Some (Join ds))"

lemma errors_join_None: "errors_join es = None \<longleftrightarrow> (\<forall>e \<in> set es. e = None)"
proof (induction es)
  case Nil
  then show ?case by (simp add: errors_join_def)
next
  case (Cons e es)
  then show ?case
    by (cases e) (auto simp: errors_join_def split: list.splits)
qed

definition is_ok :: "'e + 'a \<Rightarrow> bool" where
  "is_ok r = (case r of Inl _ \<Rightarrow> False | Inr _ \<Rightarrow> True)"

lemma is_ok_simps [simp]: "is_ok (Inr x)" "\<not> is_ok (Inl e)"
  by (simp_all add: is_ok_def)

lemma is_ok_iff: "is_ok r \<longleftrightarrow> (\<exists>x. r = Inr x)"
  by (cases r) auto

text \<open>The error of a call whose value is dropped: \<open>nil\<close> or the error.\<close>

definition err_of :: "'e + 'a \<Rightarrow> 'e option" where
  "err_of r = (case r of Inl e \<Rightarrow> Some e | Inr _ \<Rightarrow> None)"

lemma err_of_simps [simp]: "err_of (Inl e) = Some e" "err_of (Inr x) = None"
  by (simp_all add: err_of_def)

section \<open>Calls that may fail and change a state\<close>

text \<open>
  \<open>and_then m f\<close> is the idiom \<open>x, err := m(); if err != nil { return err }; ...f(x)\<close> over a
  state: an error ends the computation with the state reached so far.
\<close>

type_synonym ('s, 'a) call = "'s \<Rightarrow> (go_error + 'a) \<times> 's"

definition and_then :: "('s, 'a) call \<Rightarrow> ('a \<Rightarrow> ('s, 'b) call) \<Rightarrow> ('s, 'b) call" where
  "and_then m f s = (case m s of (Inl e, s1) \<Rightarrow> (Inl e, s1) | (Inr x, s1) \<Rightarrow> f x s1)"

definition ok :: "'a \<Rightarrow> ('s, 'a) call" where
  "ok x s = (Inr x, s)"

definition fail_with :: "go_error \<Rightarrow> ('s, 'a) call" where
  "fail_with e s = (Inl e, s)"

text \<open>\<open>fmt.Errorf("msg: %w", err)\<close> around the error of a call.\<close>

definition wrapping :: "string \<Rightarrow> ('s, 'a) call \<Rightarrow> ('s, 'a) call" where
  "wrapping msg m s = (case m s of (Inl e, s1) \<Rightarrow> (Inl (Wrap msg e), s1) | (Inr x, s1) \<Rightarrow> (Inr x, s1))"

lemma ok_simps [simp]: "ok x s = (Inr x, s)" "fail_with e s = (Inl e, s)"
  by (simp_all add: ok_def fail_with_def)

lemma and_then_Inr:
  "and_then m f s = (Inr y, s2) \<longleftrightarrow> (\<exists>x s1. m s = (Inr x, s1) \<and> f x s1 = (Inr y, s2))"
  by (auto simp: and_then_def split: prod.splits sum.splits)

lemma and_thenE:
  assumes "and_then m f s = (r, s2)"
  obtains e where "m s = (Inl e, s2)" "r = Inl e"
  | x s1 where "m s = (Inr x, s1)" "f x s1 = (r, s2)"
  using assms by (auto simp: and_then_def split: prod.splits sum.splits)

lemma wrappingE:
  assumes "wrapping msg m s = (r, s1)"
  obtains e where "m s = (Inl e, s1)" "r = Inl (Wrap msg e)"
  | x where "m s = (Inr x, s1)" "r = Inr x"
  using assms by (auto simp: wrapping_def split: prod.splits sum.splits)

lemma and_then_InrE:
  assumes "and_then m f s = (Inr y, s2)"
  obtains x s1 where "m s = (Inr x, s1)" "f x s1 = (Inr y, s2)"
  using assms by (auto simp: and_then_Inr)

lemma and_then_Inl:
  "and_then m f s = (Inl e, s2) \<longleftrightarrow>
     m s = (Inl e, s2) \<or> (\<exists>x s1. m s = (Inr x, s1) \<and> f x s1 = (Inl e, s2))"
  by (auto simp: and_then_def split: prod.splits sum.splits)

lemma wrapping_Inr [simp]: "wrapping msg m s = (Inr x, s1) \<longleftrightarrow> m s = (Inr x, s1)"
  by (auto simp: wrapping_def split: prod.splits sum.splits)

lemma wrapping_Inl: "wrapping msg m s = (Inl e, s1) \<longleftrightarrow> (\<exists>e'. e = Wrap msg e' \<and> m s = (Inl e', s1))"
  by (auto simp: wrapping_def split: prod.splits sum.splits)

text \<open>Taking a call's answer apart, for concrete runs.\<close>

lemma split_result: "fst x = a \<Longrightarrow> x = (a, snd x)"
  by (cases x) auto

lemma split_result3: "fst x = a \<Longrightarrow> x = (a, (fst (snd x), snd (snd x)))"
  by (cases x) auto

section \<open>64-bit integers\<close>

abbreviation max_int64 :: int where "max_int64 \<equiv> 9223372036854775807"
abbreviation min_int64 :: int where "min_int64 \<equiv> - 9223372036854775808"

definition s64 :: "int \<Rightarrow> int" where
  "s64 x = (x + 9223372036854775808) mod 18446744073709551616 - 9223372036854775808"

definition int64 :: "int \<Rightarrow> bool" where
  "int64 x \<longleftrightarrow> min_int64 \<le> x \<and> x \<le> max_int64"

lemma s64_id: "min_int64 \<le> x \<Longrightarrow> x \<le> max_int64 \<Longrightarrow> s64 x = x"
  by (simp add: s64_def)

lemma s64_range: "int64 (s64 x)"
proof -
  have "0 \<le> (x + 9223372036854775808) mod 18446744073709551616"
    and "(x + 9223372036854775808) mod 18446744073709551616 < 18446744073709551616"
    by simp_all
  then show ?thesis unfolding int64_def s64_def by linarith
qed

lemma s64_ident_iff: "s64 x = x \<longleftrightarrow> int64 x"
  using s64_range [of x] s64_id [of x] by (auto simp: int64_def)

text \<open>Go's \<open>/\<close> on integers truncates towards zero.\<close>

definition go_div :: "int \<Rightarrow> int \<Rightarrow> int" where
  "go_div a b = sgn a * sgn b * (\<bar>a\<bar> div \<bar>b\<bar>)"

lemma go_div_nonneg: "0 \<le> a \<Longrightarrow> 0 < b \<Longrightarrow> go_div a b = a div b"
  by (cases "a = 0") (simp_all add: go_div_def)

section \<open>Time\<close>

type_synonym go_time = int
type_synonym duration = int

abbreviation (input) zero_time :: go_time where "zero_time \<equiv> 0"
abbreviation second :: duration where "second \<equiv> 1000000000"
abbreviation minute :: duration where "minute \<equiv> 60000000000"
abbreviation hour :: duration where "hour \<equiv> 3600000000000"

text \<open>\<open>t.Sub(u)\<close>: the difference, saturated at the bounds of \<open>Duration\<close>.\<close>

definition time_sub :: "go_time \<Rightarrow> go_time \<Rightarrow> duration" where
  "time_sub t u = max min_int64 (min max_int64 (t - u))"

lemma time_sub_exact: "min_int64 \<le> t - u \<Longrightarrow> t - u \<le> max_int64 \<Longrightarrow> time_sub t u = t - u"
  by (simp add: time_sub_def)

lemma time_sub_range: "min_int64 \<le> time_sub t u" "time_sub t u \<le> max_int64"
  by (simp_all add: time_sub_def)

lemma time_sub_le: "0 \<le> t - u \<Longrightarrow> 0 \<le> time_sub t u \<and> time_sub t u \<le> t - u"
  by (simp add: time_sub_def)

section \<open>Strictly increasing pages\<close>

text \<open>
  Several loops of the source walk a slice with a \<open>previous\<close> variable and reject an element
  that is not larger.
\<close>

fun increasing_after :: "int \<Rightarrow> int list \<Rightarrow> bool" where
  "increasing_after p [] = True"
| "increasing_after p (x # xs) = (p < x \<and> increasing_after x xs)"

lemma increasing_after_iff: "increasing_after p xs \<longleftrightarrow> sorted_wrt (<) (p # xs)"
proof (induction xs arbitrary: p)
  case Nil
  then show ?case by simp
next
  case (Cons x xs)
  then show ?case by (auto dest: less_trans)
qed

lemma increasing_after_gt: "increasing_after p xs \<Longrightarrow> x \<in> set xs \<Longrightarrow> p < x"
  by (simp add: increasing_after_iff)

lemma sorted_wrt_less_distinct: "sorted_wrt (<) (xs :: 'a :: linorder list) \<Longrightarrow> distinct xs"
  using strict_sorted_iff by blast

lemma increasing_after_distinct: "increasing_after p xs \<Longrightarrow> distinct xs"
  by (auto simp: increasing_after_iff intro: sorted_wrt_less_distinct)

lemma increasing_after_last:
  assumes "increasing_after p xs" and "x \<in> set xs"
  shows "x \<le> last xs"
proof -
  from assms(2) obtain as bs where xs: "xs = as @ x # bs" by (meson split_list)
  show ?thesis
  proof (cases "bs = []")
    case True
    with xs show ?thesis by simp
  next
    case False
    then have "last bs \<in> set bs" by simp
    with assms(1) xs False show ?thesis
      by (auto simp: increasing_after_iff sorted_wrt_append intro: less_imp_le)
  qed
qed

lemma increasing_after_append:
  "increasing_after p (xs @ ys) \<longleftrightarrow>
     increasing_after p xs \<and> increasing_after (if xs = [] then p else last xs) ys"
  by (induction xs arbitrary: p) auto

section \<open>Monotone loops that drop a prefix\<close>

lemma dropWhile_sorted_filter:
  "sorted_wrt (\<le>) (map f xs) \<Longrightarrow>
     dropWhile (\<lambda>x. f x \<le> (c::'a::linorder)) xs = filter (\<lambda>x. c < f x) xs"
proof (induction xs)
  case Nil
  then show ?case by simp
next
  case (Cons x xs)
  show ?case
  proof (cases "f x \<le> c")
    case True
    with Cons show ?thesis by (simp add: not_less)
  next
    case False
    with Cons.prems have "\<forall>y \<in> set xs. c < f y" by auto
    with False show ?thesis by (simp add: filter_True)
  qed
qed

lemma set_dropWhile_subset: "set (dropWhile P xs) \<subseteq> set xs"
  by (auto dest: set_dropWhileD)

section \<open>Association lists\<close>

lemma map_of_map_rows:
  "map_of (map (\<lambda>(i, row). (i, f i row)) xs) k = map_option (f k) (map_of xs k)"
  by (induction xs) auto

lemma map_fst_map_rows [simp]: "map fst (map (\<lambda>(i, row). (i, f i row)) xs) = map fst xs"
  by (induction xs) auto

section \<open>Splitting text\<close>

text \<open>\<open>strings.Split(s, sep)\<close> for a separator of one byte.\<close>

fun split_at :: "char \<Rightarrow> string \<Rightarrow> string list" where
  "split_at sep [] = [[]]"
| "split_at sep (c # cs) =
     (if c = sep then [] # split_at sep cs
      else case split_at sep cs of [] \<Rightarrow> [[c]] | p # ps \<Rightarrow> (c # p) # ps)"

lemma split_at_not_Nil [simp]: "split_at sep cs \<noteq> []"
  by (induction cs) (auto split: list.splits)

lemma split_at_no_sep: "p \<in> set (split_at sep cs) \<Longrightarrow> sep \<notin> set p"
proof (induction cs arbitrary: p)
  case Nil
  then show ?case by simp
next
  case (Cons c cs)
  then show ?case by (cases "split_at sep cs") (auto split: if_splits)
qed

lemma split_at_append:
  "sep \<notin> set p \<Longrightarrow> split_at sep (p @ sep # cs) = p # split_at sep cs"
  by (induction p) auto

lemma split_at_plain: "sep \<notin> set p \<Longrightarrow> split_at sep p = [p]"
  by (induction p) auto

end
