(* ===== verification/Encoding.thy ===== *)
theory Encoding
  imports Prelude
begin

text \<open>
  The encodings of the Go standard library that the source uses: unpadded URL-safe base64
  (\<open>base64.RawURLEncoding\<close>), lower-case hexadecimal, and \<open>io.ReadFull\<close> on a byte source.
  A Go string or byte slice of text is a \<open>string\<close>, raw bytes are \<open>8 word list\<close>.
\<close>

type_synonym byte = "8 word"

unbundle bit_operations_syntax

section \<open>Byte sources\<close>

text \<open>
  An \<open>io.Reader\<close> is the list of bytes it will deliver; at its end every read fails.
  \<open>io.ReadFull\<close> takes exactly \<open>n\<close> bytes or fails, having consumed what there was.
\<close>

definition read_full :: "nat \<Rightarrow> byte list \<Rightarrow> (go_error + byte list) \<times> byte list" where
  "read_full n src =
     (if length src < n then (Inl (Err ''unexpected EOF''), []) else (Inr (take n src), drop n src))"

section \<open>Base64\<close>

definition b64_alphabet :: string where
  "b64_alphabet = ''ABCDEFGHIJKLMNOPQRSTUVWXYZabcdefghijklmnopqrstuvwxyz0123456789-_''"

definition b64_char :: "nat \<Rightarrow> char" where
  "b64_char i = b64_alphabet ! i"

fun index_of :: "'a \<Rightarrow> 'a list \<Rightarrow> nat option" where
  "index_of x [] = None"
| "index_of x (y # ys) = (if x = y then Some 0 else map_option Suc (index_of x ys))"

definition b64_value :: "char \<Rightarrow> nat option" where
  "b64_value c = index_of c b64_alphabet"

fun b64_sextets :: "byte list \<Rightarrow> nat list" where
  "b64_sextets [] = []"
| "b64_sextets [a] = [unat a div 4, unat a mod 4 * 16]"
| "b64_sextets [a, b] = [unat a div 4, unat a mod 4 * 16 + unat b div 16, unat b mod 16 * 4]"
| "b64_sextets (a # b # c # rest) =
     [unat a div 4, unat a mod 4 * 16 + unat b div 16, unat b mod 16 * 4 + unat c div 64, unat c mod 64]
     @ b64_sextets rest"

definition b64_encode :: "byte list \<Rightarrow> string" where
  "b64_encode bs = map b64_char (b64_sextets bs)"

text \<open>
  The decoder is not strict: unused low bits of the last character are ignored, and the
  characters CR and LF are skipped anywhere, so several strings decode to the same bytes.
\<close>

fun b64_bytes :: "nat list \<Rightarrow> byte list option" where
  "b64_bytes [] = Some []"
| "b64_bytes [x] = None"
| "b64_bytes [x, y] = Some [word_of_nat (x * 4 + y div 16)]"
| "b64_bytes [x, y, z] = Some [word_of_nat (x * 4 + y div 16), word_of_nat (y mod 16 * 16 + z div 4)]"
| "b64_bytes (x # y # z # w # rest) =
     map_option (\<lambda>bs. [word_of_nat (x * 4 + y div 16), word_of_nat (y mod 16 * 16 + z div 4),
                       word_of_nat (z mod 4 * 64 + w)] @ bs) (b64_bytes rest)"

fun all_some :: "'a option list \<Rightarrow> 'a list option" where
  "all_some [] = Some []"
| "all_some (None # xs) = None"
| "all_some (Some x # xs) = map_option (Cons x) (all_some xs)"

definition b64_decode :: "string \<Rightarrow> byte list option" where
  "b64_decode s =
     (case all_some (map b64_value (filter (\<lambda>c. c \<noteq> CHR 0x0A \<and> c \<noteq> CHR 0x0D) s)) of
        None \<Rightarrow> None
      | Some xs \<Rightarrow> b64_bytes xs)"

text \<open>
  The check the source makes in five places: the text decodes to \<open>n\<close> bytes and is the
  canonical encoding of them.
\<close>

definition canonical_b64 :: "nat \<Rightarrow> string \<Rightarrow> bool" where
  "canonical_b64 n s =
     (case b64_decode s of None \<Rightarrow> False | Some d \<Rightarrow> length d = n \<and> b64_encode d = s)"

lemma unat_byte_lt: "unat (a :: byte) < 256"
  using unsigned_less [of a] by simp

lemma byte_parts:
  fixes a :: byte
  shows "unat a div 4 < 64" "unat a div 16 < 16" "unat a div 64 < 4"
    "unat a mod 4 < 4" "unat a mod 16 < 16" "unat a mod 64 < 64"
  using unat_byte_lt [of a] by simp_all

lemma b64_sextets_bound: "\<forall>x \<in> set (b64_sextets bs). x < 64"
proof -
  have "unat (a :: byte) mod 4 * 16 + unat (b :: byte) div 16 < 64"
    "unat a mod 16 * 4 + unat b div 64 < 64" "unat a mod 4 * 16 < 64" "unat a mod 16 * 4 < 64" for a b
    using byte_parts(4,5) [of a] byte_parts(2,3) [of b] by linarith+
  then show ?thesis by (induction bs rule: b64_sextets.induct) (auto simp: byte_parts)
qed

lemma b64_alphabet_facts:
  "length b64_alphabet = 64" "distinct b64_alphabet"
  "CHR 0x0A \<notin> set b64_alphabet" "CHR 0x0D \<notin> set b64_alphabet"
  by (simp_all add: b64_alphabet_def)

lemma index_of_nth: "distinct xs \<Longrightarrow> i < length xs \<Longrightarrow> index_of (xs ! i) xs = Some i"
proof (induction xs arbitrary: i)
  case Nil
  then show ?case by simp
next
  case (Cons x xs)
  then show ?case by (cases i) auto
qed

lemma index_of_Some: "index_of x xs = Some i \<Longrightarrow> i < length xs \<and> xs ! i = x"
  by (induction xs arbitrary: i) (auto split: if_splits)

lemma b64_value_char: "i < 64 \<Longrightarrow> b64_value (b64_char i) = Some i"
  by (simp add: b64_value_def b64_char_def index_of_nth b64_alphabet_facts)

lemma b64_char_in: "i < 64 \<Longrightarrow> b64_char i \<in> set b64_alphabet"
  by (simp add: b64_char_def b64_alphabet_facts)

lemma b64_char_no_newline: "i < 64 \<Longrightarrow> b64_char i \<noteq> CHR 0x0A \<and> b64_char i \<noteq> CHR 0x0D"
  using b64_char_in b64_alphabet_facts by metis

lemma all_some_map_Some: "all_some (map Some xs) = Some xs"
  by (induction xs) auto

lemma b64_bytes_sextets: "b64_bytes (b64_sextets bs) = Some bs"
proof -
  have e0: "unat a div 4 * 4 + (unat (a :: byte) mod 4 * 16) div 16 = unat a" for a by simp
  have d1: "(unat (a :: byte) mod 4 * 16 + unat (b :: byte) div 16) div 16 = unat a mod 4"
    "(unat a mod 4 * 16 + unat b div 16) mod 16 = unat b div 16" for a b
    using byte_parts(2) [of b] by simp_all
  have d2: "(unat (a :: byte) mod 16 * 4 + unat (b :: byte) div 64) div 4 = unat a mod 16"
    "(unat a mod 16 * 4 + unat b div 64) mod 4 = unat b div 64" for a b
    using byte_parts(3) [of b] by simp_all
  have w: "word_of_nat (unat (a :: byte)) = a" for a by simp
  have d3: "(unat (a :: byte) mod 16 * 4) div 4 = unat a mod 16" for a by simp
  show ?thesis
    by (induction bs rule: b64_sextets.induct)
      (simp_all only: b64_sextets.simps b64_bytes.simps append.simps e0 d1 d2 d3 option.map
        div_mult_mod_eq w)
qed

theorem b64_decode_encode: "b64_decode (b64_encode bs) = Some bs"
proof -
  have bound: "\<forall>x \<in> set (b64_sextets bs). x < 64" by (rule b64_sextets_bound)
  then have "filter (\<lambda>c. c \<noteq> CHR 0x0A \<and> c \<noteq> CHR 0x0D) (b64_encode bs) = b64_encode bs"
    by (auto simp: b64_encode_def b64_char_no_newline intro!: filter_True)
  moreover have "map b64_value (b64_encode bs) = map Some (b64_sextets bs)"
    using bound by (simp add: b64_encode_def b64_value_char)
  ultimately show ?thesis by (simp add: b64_decode_def all_some_map_Some b64_bytes_sextets)
qed

lemma canonical_b64_iff: "canonical_b64 n s \<longleftrightarrow> (\<exists>bs. length bs = n \<and> s = b64_encode bs)"
  by (auto simp: canonical_b64_def b64_decode_encode split: option.splits)

lemma b64_encode_inj: "b64_encode xs = b64_encode ys \<longleftrightarrow> xs = ys"
  using b64_decode_encode by (metis option.inject)

lemma b64_encode_alphabet: "set (b64_encode bs) \<subseteq> set b64_alphabet"
  using b64_sextets_bound [of bs] b64_char_in by (auto simp: b64_encode_def)

lemma length_b64_encode: "length (b64_encode bs) = (4 * length bs + 2) div 3"
proof -
  have "length (b64_sextets bs) = (4 * length bs + 2) div 3"
    by (induction bs rule: b64_sextets.induct) simp_all
  then show ?thesis by (simp add: b64_encode_def)
qed

section \<open>Hexadecimal\<close>

definition hex_alphabet :: string where
  "hex_alphabet = ''0123456789abcdef''"

definition hex_digit :: "nat \<Rightarrow> char" where
  "hex_digit i = hex_alphabet ! i"

fun hex_bytes :: "byte list \<Rightarrow> string" where
  "hex_bytes [] = []"
| "hex_bytes (b # bs) = hex_digit (unat b div 16) # hex_digit (unat b mod 16) # hex_bytes bs"

lemma length_hex_bytes [simp]: "length (hex_bytes bs) = 2 * length bs"
  by (induction bs) simp_all

lemma hex_alphabet_facts: "length hex_alphabet = 16" "distinct hex_alphabet"
  by (simp_all add: hex_alphabet_def)

lemma hex_digit_in: "i < 16 \<Longrightarrow> hex_digit i \<in> set hex_alphabet"
  by (simp add: hex_digit_def hex_alphabet_facts)

lemma hex_digit_inj: "i < 16 \<Longrightarrow> j < 16 \<Longrightarrow> hex_digit i = hex_digit j \<longleftrightarrow> i = j"
  by (simp add: hex_digit_def hex_alphabet_facts nth_eq_iff_index_eq)

lemma byte_nibbles: "unat (b :: byte) div 16 < 16" "unat (b :: byte) mod 16 < 16"
  using unat_byte_lt [of b] by simp_all

lemma hex_bytes_alphabet: "set (hex_bytes bs) \<subseteq> set hex_alphabet"
  by (induction bs) (auto simp: hex_digit_in byte_nibbles)

lemma hex_bytes_append [simp]: "hex_bytes (xs @ ys) = hex_bytes xs @ hex_bytes ys"
  by (induction xs) simp_all

lemma hex_bytes_inj: "hex_bytes xs = hex_bytes ys \<Longrightarrow> xs = ys"
proof (induction xs arbitrary: ys)
  case Nil
  then show ?case by (cases ys) simp_all
next
  case (Cons x xs)
  then obtain y ys' where ys: "ys = y # ys'" by (cases ys) simp_all
  with Cons.prems have "unat x div 16 = unat y div 16" "unat x mod 16 = unat y mod 16"
    and "hex_bytes xs = hex_bytes ys'"
    by (simp_all add: hex_digit_inj byte_nibbles)
  then have "unat x = unat y" by (metis div_mult_mod_eq)
  then show ?case using ys Cons.IH \<open>hex_bytes xs = hex_bytes ys'\<close> by (simp add: word_unat_eq_iff)
qed

end
