(* ===== verification/Traffic_Batch.thy ===== *)
theory Traffic_Batch
  imports Encoding
begin

text \<open>
  Traffic samples and pending batches (\<open>internal/trafficstats/collector.go\<close>,
  \<open>internal/trafficstats/file_spool.go\<close>). A batch carries an identity that is the hash of its
  content; \<open>sha\<close> is SHA-256, with a 256-bit result, and \<open>fmt\<close> the RFC 3339 text of a UTC time.
\<close>

record sample =
  sm_TelegramID :: int
  sm_Uplink :: int
  sm_Downlink :: int

record pending_batch =
  pb_ID :: string
  pb_CollectedAt :: go_time
  pb_Samples :: "sample list"

text \<open>The test that both the spool and the store make on every sample.\<close>

definition invalid_sample :: "sample \<Rightarrow> bool" where
  "invalid_sample s \<longleftrightarrow> sm_TelegramID s \<le> 0 \<or> sm_Uplink s < 0 \<or> sm_Downlink s < 0 \<or>
     s64 (max_int64 - sm_Downlink s) < sm_Uplink s"

text \<open>The loop of \<open>validatePendingSamples\<close>, with \<open>previousID\<close>.\<close>

fun validate_samples_from :: "nat \<Rightarrow> int \<Rightarrow> sample list \<Rightarrow> go_error option" where
  "validate_samples_from index previousID [] = None"
| "validate_samples_from index previousID (s # ss) =
     (if invalid_sample s then Some (Err ''traffic batch contains an invalid sample'')
      else if 0 < index \<and> sm_TelegramID s \<le> previousID
      then Some (Err ''traffic batch users must be strictly increasing'')
      else validate_samples_from (index + 1) (sm_TelegramID s) ss)"

definition validate_pending_samples :: "go_time \<Rightarrow> sample list \<Rightarrow> go_error option" where
  "validate_pending_samples collectedAt ss =
     (if collectedAt = 0 then Some (Err ''traffic batch collection time is required'')
      else validate_samples_from 0 0 ss)"

text \<open>\<open>binary.BigEndian.PutUint64\<close>.\<close>

definition big_endian :: "int \<Rightarrow> byte list" where
  "big_endian n = map (\<lambda>k. word_of_int (n div 256 ^ k)) (rev [0..<8])"

definition ascii_bytes :: "string \<Rightarrow> byte list" where
  "ascii_bytes xs = map of_char xs"

definition batch_preimage :: "(go_time \<Rightarrow> byte list) \<Rightarrow> go_time \<Rightarrow> sample list \<Rightarrow> byte list" where
  "batch_preimage fmt collectedAt ss =
     ascii_bytes ''s12ryt-traffic-batch-v1'' @ [0] @ fmt collectedAt @ big_endian (int (length ss)) @
     concat (map (\<lambda>s. big_endian (sm_TelegramID s) @ big_endian (sm_Uplink s) @ big_endian (sm_Downlink s)) ss)"

definition digest_bytes :: "256 word \<Rightarrow> byte list" where
  "digest_bytes w = map (\<lambda>k. word_of_int (uint w div 256 ^ k)) (rev [0..<32])"

lemma length_digest_bytes [simp]: "length (digest_bytes w) = 32"
  by (simp add: digest_bytes_def)

lemma digest_bytes_not_Nil [simp]: "digest_bytes w \<noteq> []"
  by (simp add: digest_bytes_def)

definition pending_batch_id ::
    "(byte list \<Rightarrow> 256 word) \<Rightarrow> (go_time \<Rightarrow> byte list) \<Rightarrow> go_time \<Rightarrow> sample list \<Rightarrow> string" where
  "pending_batch_id sha fmt collectedAt ss = hex_bytes (digest_bytes (sha (batch_preimage fmt collectedAt ss)))"

definition new_pending_batch ::
    "(byte list \<Rightarrow> 256 word) \<Rightarrow> (go_time \<Rightarrow> byte list) \<Rightarrow> go_time \<Rightarrow> sample list \<Rightarrow> go_error + pending_batch" where
  "new_pending_batch sha fmt collectedAt ss =
     (case validate_pending_samples collectedAt ss of
        Some e \<Rightarrow> Inl e
      | None \<Rightarrow> Inr \<lparr>pb_ID = pending_batch_id sha fmt collectedAt ss, pb_CollectedAt = collectedAt, pb_Samples = ss\<rparr>)"

text \<open>\<open>validatePendingBatch\<close>; \<open>hex.DecodeString\<close> accepts either case.\<close>

definition hex_value :: "char \<Rightarrow> bool" where
  "hex_value c \<longleftrightarrow> c \<in> set ''0123456789abcdefABCDEF''"

definition validate_pending_batch ::
    "(byte list \<Rightarrow> 256 word) \<Rightarrow> (go_time \<Rightarrow> byte list) \<Rightarrow> pending_batch \<Rightarrow> go_error option" where
  "validate_pending_batch sha fmt b =
     (if length (pb_ID b) \<noteq> 64 then Some (Err ''traffic batch ID is invalid'')
      else if \<not> list_all hex_value (pb_ID b) then Some (Err ''traffic batch ID is invalid'')
      else case validate_pending_samples (pb_CollectedAt b) (pb_Samples b) of
        Some e \<Rightarrow> Some e
      | None \<Rightarrow>
          if pb_ID b \<noteq> pending_batch_id sha fmt (pb_CollectedAt b) (pb_Samples b)
          then Some (Err ''traffic batch ID does not match its content'') else None)"

section \<open>Facts\<close>

definition wf_samples :: "sample list \<Rightarrow> bool" where
  "wf_samples ss \<longleftrightarrow> list_all (\<lambda>s. \<not> invalid_sample s) ss \<and> increasing_after 0 (map sm_TelegramID ss)"

lemma validate_samples_from_None:
  "0 < index \<Longrightarrow> validate_samples_from index p ss = None \<longleftrightarrow>
     list_all (\<lambda>s. \<not> invalid_sample s) ss \<and> increasing_after p (map sm_TelegramID ss)"
  by (induction index p ss rule: validate_samples_from.induct) auto

lemma validate_pending_samples_None:
  "validate_pending_samples t ss = None \<longleftrightarrow> t \<noteq> 0 \<and> wf_samples ss"
proof (cases ss)
  case Nil
  then show ?thesis by (simp add: validate_pending_samples_def wf_samples_def)
next
  case (Cons s ss')
  have "\<not> invalid_sample s \<Longrightarrow> 0 < sm_TelegramID s" by (auto simp: invalid_sample_def)
  with Cons show ?thesis
    by (auto simp: validate_pending_samples_def wf_samples_def validate_samples_from_None)
qed

lemma hex_bytes_facts: "length (hex_bytes v) = 2 * length v" "list_all hex_value (hex_bytes v)"
proof -
  have d: "hex_value (hex_digit n)" if "n < 16" for n
  proof -
    from that have "hex_digit n \<in> set hex_alphabet"
      unfolding hex_digit_def by (intro nth_mem) (simp add: hex_alphabet_facts)
    then show ?thesis by (auto simp: hex_value_def hex_alphabet_def)
  qed
  show "length (hex_bytes v) = 2 * length v" by (induction v) auto
  show "list_all hex_value (hex_bytes v)"
  proof (induction v)
    case Nil
    then show ?case by simp
  next
    case (Cons b v)
    have "unat b < 256" using unsigned_less [of b] by simp
    then have "unat b div 16 < 16" "unat b mod 16 < 16" by simp_all
    with d Cons show ?case by simp
  qed
qed

text \<open>Every batch that \<open>NewPendingBatch\<close> makes passes the spool's checks, and only those do.\<close>

lemma validate_pending_batch_None:
  "validate_pending_batch sha fmt b = None \<longleftrightarrow>
    new_pending_batch sha fmt (pb_CollectedAt b) (pb_Samples b) = Inr b"
  using hex_bytes_facts [of "digest_bytes (sha (batch_preimage fmt (pb_CollectedAt b) (pb_Samples b)))"]
  by (cases b) (auto simp: validate_pending_batch_def new_pending_batch_def pending_batch_id_def
      split: option.splits)

lemma hex_bytes_Nil [simp]: "hex_bytes v = [] \<longleftrightarrow> v = []"
  by (cases v) simp_all

end
