(* ===== verification/Collector.thy ===== *)
theory Collector
  imports Traffic_Batch "HOL-Library.AList" "HOL-Library.Multiset"
begin

text \<open>
  \<open>internal/trafficstats/collector.go\<close>: reading the core's per-user counters. The RPC answers
  with a list of named counters, which it has reset; the collector turns it into samples.
\<close>

text \<open>
  \<open>^user>>>([1-9][0-9]*)>>>traffic>>>(uplink|downlink)$\<close>: after the literal, the digits run up to
  the first character that is none, so the match is unique.
\<close>

datatype direction = Uplink | Downlink

definition is_digit :: "char \<Rightarrow> bool" where
  "is_digit c \<longleftrightarrow> c \<in> set ''0123456789''"

definition strip_prefix :: "string \<Rightarrow> string \<Rightarrow> string option" where
  "strip_prefix p xs = (if take (length p) xs = p then Some (drop (length p) xs) else None)"

definition parse_stat_name :: "string \<Rightarrow> (string \<times> direction) option" where
  "parse_stat_name name =
     (case strip_prefix ''user>>>'' name of
        None \<Rightarrow> None
      | Some rest \<Rightarrow>
          let digits = takeWhile is_digit rest in
          if digits = [] \<or> hd digits = CHR ''0'' then None
          else case strip_prefix ''>>>traffic>>>'' (dropWhile is_digit rest) of
            None \<Rightarrow> None
          | Some dir \<Rightarrow>
              if dir = ''uplink'' then Some (digits, Uplink)
              else if dir = ''downlink'' then Some (digits, Downlink) else None)"

definition digit_value :: "char \<Rightarrow> int" where
  "digit_value c = int (of_char c) - 48"

text \<open>\<open>strconv.ParseInt(s, 10, 64)\<close> on a string of digits.\<close>

definition parse_int :: "string \<Rightarrow> int option" where
  "parse_int digits = (let n = foldl (\<lambda>acc c. acc * 10 + digit_value c) 0 digits
     in if n \<le> max_int64 then Some n else None)"

record counters =
  ct_uplinkSet :: bool
  ct_downlinkSet :: bool
  ct_uplink :: int
  ct_downlink :: int

definition no_counters :: counters where
  "no_counters = \<lparr>ct_uplinkSet = False, ct_downlinkSet = False, ct_uplink = 0, ct_downlink = 0\<rparr>"

definition set_counter :: "direction \<Rightarrow> int \<Rightarrow> counters \<Rightarrow> counters option" where
  "set_counter dir v c =
     (case dir of
        Uplink \<Rightarrow> if ct_uplinkSet c then None else Some (c\<lparr>ct_uplinkSet := True, ct_uplink := v\<rparr>)
      | Downlink \<Rightarrow> if ct_downlinkSet c then None else Some (c\<lparr>ct_downlinkSet := True, ct_downlink := v\<rparr>))"

text \<open>The loop of \<open>Collect\<close> over the response; the map \<open>byUser\<close> is an association list.\<close>

fun collect_counters ::
    "(string \<times> int) list \<Rightarrow> (int \<times> counters) list \<Rightarrow> go_error + (int \<times> counters) list" where
  "collect_counters [] byUser = Inr byUser"
| "collect_counters ((name, v) # stats) byUser =
     (case parse_stat_name name of
        None \<Rightarrow> Inl (Err ''stats response contains an invalid counter'')
      | Some (digits, dir) \<Rightarrow>
          if v < 0 then Inl (Err ''stats response contains an invalid counter'')
          else case parse_int digits of
            None \<Rightarrow> Inl (Err ''stats response contains an invalid user'')
          | Some telegramID \<Rightarrow>
              if telegramID \<le> 0 then Inl (Err ''stats response contains an invalid user'')
              else case set_counter dir v
                  (case map_of byUser telegramID of None \<Rightarrow> no_counters | Some c \<Rightarrow> c) of
                None \<Rightarrow> Inl (Err ''stats response contains a duplicate counter'')
              | Some current \<Rightarrow>
                  if s64 (max_int64 - ct_downlink current) < ct_uplink current
                  then Inl (Err ''stats response counters overflow'')
                  else collect_counters stats (AList.update telegramID current byUser))"

definition samples_of :: "(int \<times> counters) list \<Rightarrow> sample list" where
  "samples_of byUser = map (\<lambda>i. case map_of byUser i of
       None \<Rightarrow> \<lparr>sm_TelegramID = i, sm_Uplink = 0, sm_Downlink = 0\<rparr>
     | Some c \<Rightarrow> \<lparr>sm_TelegramID = i, sm_Uplink = ct_uplink c, sm_Downlink = ct_downlink c\<rparr>)
     (sort (map fst byUser))"

definition collect :: "('k, (string \<times> int) list) call \<Rightarrow> ('k, sample list) call" where
  "collect queryStats =
     and_then (wrapping ''query user traffic'' queryStats) (\<lambda>stats.
       case collect_counters stats [] of
         Inl e \<Rightarrow> fail_with e
       | Inr byUser \<Rightarrow> ok (samples_of byUser))"

section \<open>Facts\<close>

text \<open>The loop invariant: what the map holds of the part of the response read so far.\<close>

definition total :: "counters \<Rightarrow> int" where
  "total c = ct_uplink c + ct_downlink c"

definition counters_ok :: "(int \<times> counters) list \<Rightarrow> bool" where
  "counters_ok m \<longleftrightarrow> distinct (map fst m) \<and>
     (\<forall>(i, c) \<in> set m. 0 < i \<and> 0 \<le> ct_uplink c \<and> 0 \<le> ct_downlink c \<and>
        (\<not> ct_uplinkSet c \<longrightarrow> ct_uplink c = 0) \<and> (\<not> ct_downlinkSet c \<longrightarrow> ct_downlink c = 0) \<and>
        ct_downlink c \<le> max_int64 \<and> ct_uplink c \<le> max_int64 - ct_downlink c)"

lemma counters_ok_lookup:
  "counters_ok m \<Longrightarrow> map_of m i = Some c \<Longrightarrow> 0 < i \<and> 0 \<le> ct_uplink c \<and> 0 \<le> ct_downlink c \<and>
        (\<not> ct_uplinkSet c \<longrightarrow> ct_uplink c = 0) \<and> (\<not> ct_downlinkSet c \<longrightarrow> ct_downlink c = 0) \<and>
        ct_downlink c \<le> max_int64 \<and> ct_uplink c \<le> max_int64 - ct_downlink c"
  unfolding counters_ok_def by (drule map_of_SomeD) blast

lemma counters_ok_update:
  assumes "counters_ok m" and "0 < i" "0 \<le> ct_uplink c" "0 \<le> ct_downlink c"
    "\<not> ct_uplinkSet c \<longrightarrow> ct_uplink c = 0" "\<not> ct_downlinkSet c \<longrightarrow> ct_downlink c = 0"
    "ct_downlink c \<le> max_int64" "ct_uplink c \<le> max_int64 - ct_downlink c"
  shows "counters_ok (AList.update i c m)"
proof -
  have "set (AList.update i c m) \<subseteq> insert (i, c) (set m)"
    by (induction m) auto
  then show ?thesis using assms unfolding counters_ok_def by (auto simp: distinct_update)
qed

definition sum_totals :: "(int \<times> counters) list \<Rightarrow> int" where
  "sum_totals m = sum_list (map (\<lambda>(i, c). total c) m)"

lemma sum_totals_update:
  "distinct (map fst m) \<Longrightarrow> sum_totals (AList.update i c m) =
     sum_totals m + total c - (case map_of m i of None \<Rightarrow> 0 | Some c0 \<Rightarrow> total c0)"
  by (induction m) (auto simp: sum_totals_def split: option.splits)

lemma set_counter_Some:
  assumes "set_counter dir v c = Some c'" "0 \<le> v" "0 \<le> ct_uplink c" "0 \<le> ct_downlink c"
    "\<not> ct_uplinkSet c \<longrightarrow> ct_uplink c = 0" "\<not> ct_downlinkSet c \<longrightarrow> ct_downlink c = 0"
  shows "total c' = total c + v" "0 \<le> ct_uplink c'" "0 \<le> ct_downlink c'"
    "\<not> ct_uplinkSet c' \<longrightarrow> ct_uplink c' = 0" "\<not> ct_downlinkSet c' \<longrightarrow> ct_downlink c' = 0"
    "ct_downlink c \<le> max_int64 \<Longrightarrow> v \<le> max_int64 \<Longrightarrow> ct_downlink c' \<le> max_int64"
  using assms by (auto simp: set_counter_def total_def split: direction.splits if_splits)

lemma collect_counters_inv:
  "collect_counters stats m = Inr m' \<Longrightarrow> counters_ok m \<Longrightarrow> \<forall>(n, v) \<in> set stats. v \<le> max_int64 \<Longrightarrow>
     counters_ok m' \<and> sum_totals m' = sum_totals m + sum_list (map snd stats)"
proof (induction stats m rule: collect_counters.induct)
  case (1 m)
  then show ?case by simp
next
  case (2 name v stats m)
  from 2(2) obtain digits dir i c' where
      p: "parse_stat_name name = Some (digits, dir)" "0 \<le> v" "parse_int digits = Some i" "0 < i"
    and c': "set_counter dir v (case map_of m i of None \<Rightarrow> no_counters | Some c \<Rightarrow> c) = Some c'"
    and fit: "\<not> s64 (max_int64 - ct_downlink c') < ct_uplink c'"
    and rest: "collect_counters stats (AList.update i c' m) = Inr m'"
    by (auto split: option.splits if_splits prod.splits)
  let ?c = "case map_of m i of None \<Rightarrow> no_counters | Some c \<Rightarrow> c"
  have c: "0 \<le> ct_uplink ?c" "0 \<le> ct_downlink ?c" "\<not> ct_uplinkSet ?c \<longrightarrow> ct_uplink ?c = 0"
      "\<not> ct_downlinkSet ?c \<longrightarrow> ct_downlink ?c = 0" "ct_downlink ?c \<le> max_int64"
    using counters_ok_lookup [OF 2(3), of i] by (auto simp: no_counters_def split: option.splits)
  note n = set_counter_Some [OF c' p(2) c(1-4)]
  have v: "v \<le> max_int64" using 2(4) by simp
  from n(6) [OF c(5) v] n(3) have "s64 (max_int64 - ct_downlink c') = max_int64 - ct_downlink c'"
    by (intro s64_id) simp_all
  with fit have "ct_uplink c' \<le> max_int64 - ct_downlink c'" by simp
  with n v p(4) n(6) [OF c(5) v] have ok: "counters_ok (AList.update i c' m)"
    by (intro counters_ok_update [OF 2(3)]) simp_all
  have "sum_totals (AList.update i c' m) = sum_totals m + v"
    using 2(3) n(1) by (auto simp: sum_totals_update counters_ok_def total_def no_counters_def split: option.splits)
  moreover have "counters_ok m' \<and> sum_totals m' = sum_totals (AList.update i c' m) + sum_list (map snd stats)"
    using p c' fit 2(4) ok rest by (intro 2(1) [OF p(1) refl _ p(3) _ c']) auto
  ultimately show ?case by simp
qed

lemma sum_list_map_sort: "sum_list (map f (sort xs)) = (sum_list (map f xs) :: int)"
  by (metis mset_map mset_sort sum_mset_sum_list)

lemma samples_of_sum:
  assumes "distinct (map fst m)"
  shows "sum_list (map (\<lambda>s. sm_Uplink s + sm_Downlink s) (samples_of m)) = sum_totals m"
proof -
  let ?f = "\<lambda>i. case map_of m i of None \<Rightarrow> 0 | Some c \<Rightarrow> total c"
  have "map (\<lambda>s. sm_Uplink s + sm_Downlink s) (samples_of m) = map ?f (sort (map fst m))"
    by (auto simp: samples_of_def total_def split: option.splits)
  then have "sum_list (map (\<lambda>s. sm_Uplink s + sm_Downlink s) (samples_of m)) = sum_list (map ?f (map fst m))"
    by (simp only: sum_list_map_sort)
  also have "map ?f (map fst m) = map (\<lambda>(i, c). total c) m"
    using assms by (auto simp: map_of_is_SomeI)
  finally show ?thesis by (simp only: sum_totals_def)
qed

lemma samples_of_wf:
  assumes "counters_ok m"
  shows "wf_samples (samples_of m)"
proof -
  have ids: "map sm_TelegramID (samples_of m) = sort (map fst m)"
    unfolding samples_of_def by (simp add: comp_def map_idI option.case_eq_if cong: map_cong)
  have "sorted_wrt (<) (sort (map fst m))"
    using assms by (simp add: strict_sorted_iff counters_ok_def)
  moreover have "\<forall>i \<in> set (sort (map fst m)). 0 < i" using assms by (auto simp: counters_ok_def)
  ultimately have inc: "increasing_after 0 (sort (map fst m))" by (simp add: increasing_after_iff)
  have "\<not> invalid_sample s" if s: "s \<in> set (samples_of m)" for s
  proof -
    from s obtain i where i: "i \<in> set (map fst m)"
      and s': "s = (case map_of m i of None \<Rightarrow> \<lparr>sm_TelegramID = i, sm_Uplink = 0, sm_Downlink = 0\<rparr>
        | Some c \<Rightarrow> \<lparr>sm_TelegramID = i, sm_Uplink = ct_uplink c, sm_Downlink = ct_downlink c\<rparr>)"
      by (auto simp: samples_of_def)
    from i obtain c where c: "map_of m i = Some c" by (metis image_set map_of_eq_None_iff not_None_eq)
    from counters_ok_lookup [OF assms c] have "s64 (max_int64 - ct_downlink c) = max_int64 - ct_downlink c"
      by (intro s64_id) simp_all
    with counters_ok_lookup [OF assms c] c show ?thesis by (simp add: s' invalid_sample_def)
  qed
  with inc show ?thesis by (simp add: wf_samples_def ids list_all_iff)
qed



end
