(* ===== verification/Database.thy ===== *)
theory Database
  imports Prelude
begin

text \<open>
  Statements and transactions on a database (\<open>internal/postgres/transaction_runner.go\<close>).
  The tables are a state \<open>'d\<close>. The connection is unreliable: a list of fault marks says what
  happens to the next statements, commits and begins; past its end nothing fails. A fault can
  lose the statement, or let the server execute it and lose the answer, so that the caller of
  an autocommitted statement or of a commit cannot tell. The error of a fault is none of the
  sentinels that the stores compare with.
\<close>

datatype fault =
    Fine
  | Lost string
  | Unacknowledged string

type_synonym faults = "fault list"

definition next_fault :: "faults \<Rightarrow> fault \<times> faults" where
  "next_fault fs = (case fs of [] \<Rightarrow> (Fine, []) | f # fs1 \<Rightarrow> (f, fs1))"

text \<open>
  One SQL statement whose effect on the tables is \<open>f\<close>; \<open>f\<close> itself may answer with an error (no
  rows, a violated constraint), and then leaves the tables alone.
\<close>

definition statement :: "('d, 'a) call \<Rightarrow> ('d \<times> faults, 'a) call" where
  "statement f st =
     (let (d, fs) = st; (flt, fs1) = next_fault fs in
      case flt of
        Fine \<Rightarrow> (let (r, d1) = f d in (r, (d1, fs1)))
      | Lost e \<Rightarrow> (Inl (Err e), (d, fs1))
      | Unacknowledged e \<Rightarrow>
          (Inl (Err e), (case f d of (Inl _, _) \<Rightarrow> d | (Inr _, d1) \<Rightarrow> d1, fs1)))"

text \<open>
  \<open>RunInTransaction\<close>: begin, the operation on the transaction's own view of the tables, then
  commit; on an error of the operation the deferred rollback discards the view. After a commit,
  failed or not, the deferred \<open>Rollback\<close> returns \<open>pgx.ErrTxClosed\<close>, which is ignored.
\<close>

definition run_in_transaction :: "('d \<times> faults, 'a) call \<Rightarrow> ('d \<times> faults, 'a) call" where
  "run_in_transaction operation st =
     (let (d, fs) = st; (begun, fs1) = next_fault fs in
      case begun of
        Lost e \<Rightarrow> (Inl (Wrap ''begin transaction'' (Err e)), (d, fs1))
      | Unacknowledged e \<Rightarrow> (Inl (Wrap ''begin transaction'' (Err e)), (d, fs1))
      | Fine \<Rightarrow>
          (case operation (d, fs1) of
             (Inl e, (_, fs2)) \<Rightarrow>
               (let (rolled, fs3) = next_fault fs2 in
                case rolled of
                  Fine \<Rightarrow> (Inl e, (d, fs3))
                | Lost e' \<Rightarrow> (Inl (Join [e, Wrap ''rollback transaction'' (Err e')]), (d, fs3))
                | Unacknowledged e' \<Rightarrow> (Inl (Join [e, Wrap ''rollback transaction'' (Err e')]), (d, fs3)))
           | (Inr x, (d1, fs2)) \<Rightarrow>
               (let (committed, fs3) = next_fault fs2 in
                case committed of
                  Fine \<Rightarrow> (Inr x, (d1, fs3))
                | Lost e \<Rightarrow> (Inl (Wrap ''commit transaction'' (Err e)), (d, fs3))
                | Unacknowledged e \<Rightarrow> (Inl (Wrap ''commit transaction'' (Err e)), (d1, fs3)))))"

text \<open>A call on one half of a state of two.\<close>

definition with_tables :: "('t \<Rightarrow> 'r \<times> 't) \<Rightarrow> 't \<times> 'w \<Rightarrow> 'r \<times> ('t \<times> 'w)" where
  "with_tables f st = (let (r, t) = f (fst st) in (r, (t, snd st)))"

definition with_world :: "('w \<Rightarrow> 'r \<times> 'w) \<Rightarrow> 't \<times> 'w \<Rightarrow> 'r \<times> ('t \<times> 'w)" where
  "with_world f st = (let (r, w) = f (snd st) in (r, (fst st, w)))"

lemma with_tables_snd: "with_tables f st = (r, st1) \<Longrightarrow> snd st1 = snd st"
  by (auto simp: with_tables_def split: prod.splits)

lemma with_world_fst: "with_world f st = (r, st1) \<Longrightarrow> fst st1 = fst st"
  by (auto simp: with_world_def split: prod.splits)

section \<open>What a caller can rely on\<close>

text \<open>The outcome of a statement: its effect with its answer, or an error with or without its effect.\<close>

lemma statement_outcome:
  assumes "statement f (d, fs) = (r, (d', fs'))"
  shows "f d = (r, d') \<or> (\<exists>e. r = Inl e \<and> (d' = d \<or> (\<exists>x. f d = (Inr x, d'))))"
  using assms
  by (auto simp: statement_def Let_def split: prod.splits fault.splits sum.splits)

lemma statement_Inr:
  "statement f (d, fs) = (Inr x, (d', fs')) \<Longrightarrow> f d = (Inr x, d')"
  by (auto simp: statement_def Let_def split: prod.splits fault.splits sum.splits)

lemma statement_InrD: "statement f s = (Inr x, s') \<Longrightarrow> f (fst s) = (Inr x, fst s')"
  using statement_Inr [of f "fst s" "snd s" x "fst s'" "snd s'"] by simp

lemma statement_total: "statement (\<lambda>d. (Inr (), g d)) s = (Inr u, s') \<Longrightarrow> fst s' = g (fst s)"
  by (drule statement_InrD) simp

lemma statement_either:
  "statement (\<lambda>d. (Inr (), g d)) s = (r, s') \<Longrightarrow>
     (fst s' = g (fst s) \<and> r = Inr ()) \<or> (\<exists>e. r = Inl e \<and> (fst s' = g (fst s) \<or> fst s' = fst s))"
  by (auto simp: statement_def Let_def split: prod.splits fault.splits)

lemma statement_read_either:
  "statement (\<lambda>d. (Inr (g d), d)) s = (r, s') \<Longrightarrow>
     fst s' = fst s \<and> (r = Inr (g (fst s)) \<or> (\<exists>e. r = Inl e))"
  by (auto simp: statement_def Let_def split: prod.splits fault.splits)

lemma statement_ok_either:
  "statement (ok x) s = (r, s') \<Longrightarrow> fst s' = fst s \<and> (r = Inr x \<or> (\<exists>e. r = Inl e))"
  by (auto simp: statement_def Let_def split: prod.splits fault.splits)

lemma statement_read: "statement (\<lambda>d. (Inr (g d), d)) s = (Inr x, s') \<Longrightarrow> fst s' = fst s \<and> x = g (fst s)"
  by (drule statement_InrD) auto

lemma statement_no_faults [simp]:
  "statement f (d, []) = (let (r, d1) = f d in (r, (d1, [])))"
  by (simp add: statement_def next_fault_def)

text \<open>All or nothing: the tables after a transaction are those before, or the operation's.\<close>

lemma transaction_outcome:
  assumes "run_in_transaction operation (d, fs) = (r, (d', fs'))"
  shows "(\<exists>e. r = Inl e \<and> d' = d) \<or>
         (\<exists>x fs1 fs2. operation (d, fs1) = (Inr x, (d', fs2)) \<and> (r = Inr x \<or> (\<exists>e. r = Inl e)))"
  using assms
  by (auto simp: run_in_transaction_def Let_def split: prod.splits fault.splits sum.splits)

lemma transaction_Inr:
  assumes "run_in_transaction operation (d, fs) = (Inr x, (d', fs'))"
  shows "\<exists>fs1 fs2. operation (d, fs1) = (Inr x, (d', fs2))"
  using transaction_outcome [OF assms] by auto

lemma transaction_no_faults:
  "run_in_transaction operation (d, []) =
     (case operation (d, []) of
        (Inl e, (_, fs2)) \<Rightarrow>
          (case next_fault fs2 of
             (Fine, fs3) \<Rightarrow> (Inl e, (d, fs3))
           | (Lost e', fs3) \<Rightarrow> (Inl (Join [e, Wrap ''rollback transaction'' (Err e')]), (d, fs3))
           | (Unacknowledged e', fs3) \<Rightarrow> (Inl (Join [e, Wrap ''rollback transaction'' (Err e')]), (d, fs3)))
      | (Inr x, (d1, fs2)) \<Rightarrow>
          (case next_fault fs2 of
             (Fine, fs3) \<Rightarrow> (Inr x, (d1, fs3))
           | (Lost e, fs3) \<Rightarrow> (Inl (Wrap ''commit transaction'' (Err e)), (d, fs3))
           | (Unacknowledged e, fs3) \<Rightarrow> (Inl (Wrap ''commit transaction'' (Err e)), (d1, fs3))))"
  by (auto simp: run_in_transaction_def Let_def next_fault_def
      split: prod.splits fault.splits sum.splits)

end
