(* ===== verification/File_Spool.thy ===== *)
theory File_Spool
  imports Traffic_Batch Database
begin

text \<open>
  The file that keeps a pending batch across failures and restarts
  (\<open>internal/trafficstats/file_spool.go\<close>), on a file system whose calls can fail before or after
  their effect. The mutex makes the calls sequential. The contents of a file are what
  \<open>encoding/json\<close> makes of them, with the length of the text that \<open>Encode\<close> writes.
\<close>

section \<open>Data\<close>

abbreviation spoolVersion :: int where "spoolVersion \<equiv> 1"
abbreviation maxSpoolSize :: int where "maxSpoolSize \<equiv> 1048576"
abbreviation "ErrPendingBatchExists \<equiv> Sentinel ''a traffic batch is already pending''"

record spool_envelope =
  se_Version :: int
  se_BatchID :: string
  se_CollectedAt :: go_time
  se_Samples :: "sample list"

datatype file_text =
    NoEnvelope int
  | Envelope spool_envelope
  | EnvelopeAndMore spool_envelope int

text \<open>The JSON text of an envelope: \<open>fmt_json\<close> is the RFC 3339 text of a time.\<close>

fun digits_of :: "nat \<Rightarrow> string" where
  "digits_of n = (if n < 10 then [char_of (48 + n)] else digits_of (n div 10) @ [char_of (48 + n mod 10)])"

definition int_text :: "int \<Rightarrow> string" where
  "int_text n = (if n < 0 then CHR ''-'' # digits_of (nat (- n)) else digits_of (nat n))"

definition quote_char :: char where "quote_char = CHR 0x22"

definition quoted :: "string \<Rightarrow> string" where
  "quoted xs = quote_char # xs @ [quote_char]"

definition sample_text :: "sample \<Rightarrow> string" where
  "sample_text s = ''{'' @ quoted ''telegram_id'' @ '':'' @ int_text (sm_TelegramID s) @ '','' @
     quoted ''uplink'' @ '':'' @ int_text (sm_Uplink s) @ '','' @
     quoted ''downlink'' @ '':'' @ int_text (sm_Downlink s) @ ''}''"

fun comma_separated :: "string list \<Rightarrow> string" where
  "comma_separated [] = []"
| "comma_separated [x] = x"
| "comma_separated (x # y # xs) = x @ '','' @ comma_separated (y # xs)"

definition envelope_text :: "(go_time \<Rightarrow> string) \<Rightarrow> spool_envelope \<Rightarrow> string" where
  "envelope_text fmt_json e =
     ''{'' @ quoted ''version'' @ '':'' @ int_text (se_Version e) @ '','' @
     quoted ''id'' @ '':'' @ quoted (se_BatchID e) @ '','' @
     quoted ''collected_at'' @ '':'' @ quoted (fmt_json (se_CollectedAt e)) @ '','' @
     quoted ''samples'' @ '':'' @
       (if se_Samples e = [] then ''null''
        else ''['' @ comma_separated (map sample_text (se_Samples e)) @ '']'') @ ''}'' @ [CHR 0x0A]"

definition text_size :: "(go_time \<Rightarrow> string) \<Rightarrow> file_text \<Rightarrow> int" where
  "text_size fmt_json t = (case t of NoEnvelope n \<Rightarrow> n
     | Envelope e \<Rightarrow> int (length (envelope_text fmt_json e))
     | EnvelopeAndMore e n \<Rightarrow> int (length (envelope_text fmt_json e)) + n)"

text \<open>A file: whether it is regular, whether group and others have no rights, and its text.\<close>

record spool_file =
  fl_regular :: bool
  fl_private :: bool
  fl_text :: file_text

record spool_fs =
  fs_main :: "spool_file option"
  fs_temporary :: "spool_file option"
  fs_directory :: bool

type_synonym spool_state = "spool_fs \<times> faults"

record codec =
  cd_sha :: "byte list \<Rightarrow> 256 word"
  cd_fmt :: "go_time \<Rightarrow> byte list"
  cd_fmt_json :: "go_time \<Rightarrow> string"

section \<open>Operations\<close>

definition sync_directory :: "(spool_state, unit) call" where
  "sync_directory = and_then (statement (ok ())) (\<lambda>_. statement (ok ()))"

text \<open>The deferred function of \<open>Save\<close>: the result of \<open>os.Remove\<close> is ignored.\<close>

definition remove_temporary :: "spool_state \<Rightarrow> spool_state" where
  "remove_temporary s = snd (statement (\<lambda>fs. (Inr (), fs\<lparr>fs_temporary := None\<rparr>)) s)"

definition discarding :: "(spool_state, unit) call \<Rightarrow> (spool_state, unit) call" where
  "discarding m s = (case m s of (Inl e, s1) \<Rightarrow> (Inl e, remove_temporary s1) | (Inr x, s1) \<Rightarrow> (Inr x, s1))"

definition write_temporary :: "(file_text \<Rightarrow> file_text) \<Rightarrow> spool_fs \<Rightarrow> (go_error + unit) \<times> spool_fs" where
  "write_temporary g fs =
     (Inr (), fs\<lparr>fs_temporary := map_option (\<lambda>f. f\<lparr>fl_text := g (fl_text f)\<rparr>) (fs_temporary fs)\<rparr>)"

definition save_temporary :: "pending_batch \<Rightarrow> (spool_state, unit) call" where
  "save_temporary batch =
     and_then (wrapping ''secure temporary traffic spool'' (statement (\<lambda>fs. (Inr (), fs\<lparr>fs_temporary :=
         map_option (\<lambda>f. f\<lparr>fl_private := True\<rparr>) (fs_temporary fs)\<rparr>)))) (\<lambda>_.
     and_then (wrapping ''encode traffic spool'' (statement (write_temporary (\<lambda>_. Envelope
         \<lparr>se_Version = spoolVersion, se_BatchID = pb_ID batch, se_CollectedAt = pb_CollectedAt batch,
          se_Samples = pb_Samples batch\<rparr>)))) (\<lambda>_.
     and_then (wrapping ''sync temporary traffic spool'' (statement (ok ()))) (\<lambda>_.
     and_then (wrapping ''close temporary traffic spool'' (statement (ok ()))) (\<lambda>_.
     wrapping ''promote traffic spool'' (statement (\<lambda>fs. (Inr (),
         fs\<lparr>fs_main := fs_temporary fs, fs_temporary := None\<rparr>)))))))"

text \<open>The part of \<open>Save\<close> up to the temporary file.\<close>

definition spool_prepare :: "(spool_state, unit) call" where
  "spool_prepare =
     and_then (wrapping ''inspect traffic spool'' (statement (\<lambda>fs. (Inr (fs_main fs), fs)))) (\<lambda>present.
     if present \<noteq> None then fail_with ErrPendingBatchExists
     else
       and_then (wrapping ''create traffic spool directory'' (statement (\<lambda>fs.
           (Inr (), fs\<lparr>fs_directory := True\<rparr>)))) (\<lambda>_.
       wrapping ''create temporary traffic spool'' (statement (\<lambda>fs.
           (Inr (), fs\<lparr>fs_temporary := Some \<lparr>fl_regular = True, fl_private = True, fl_text = NoEnvelope 0\<rparr>\<rparr>)))))"

definition spool_save :: "codec \<Rightarrow> bool \<Rightarrow> pending_batch \<Rightarrow> (spool_state, unit) call" where
  "spool_save cd cancelled batch =
     (case validate_pending_batch (cd_sha cd) (cd_fmt cd) batch of
        Some e \<Rightarrow> fail_with e
      | None \<Rightarrow>
          if cancelled then fail_with (Sentinel ''context canceled'')
          else
            and_then spool_prepare (\<lambda>_.
            and_then (discarding (save_temporary batch)) (\<lambda>_.
            wrapping ''sync traffic spool directory'' sync_directory)))"

definition batch_of :: "spool_envelope \<Rightarrow> pending_batch" where
  "batch_of e = \<lparr>pb_ID = se_BatchID e, pb_CollectedAt = se_CollectedAt e, pb_Samples = se_Samples e\<rparr>"

text \<open>The decoding of \<open>Load\<close> and its checks, after the file is open.\<close>

definition decode_spool :: "codec \<Rightarrow> file_text \<Rightarrow> go_error + pending_batch" where
  "decode_spool cd t =
     (case t of
        NoEnvelope _ \<Rightarrow> Inl (Err ''traffic spool contains invalid JSON'')
      | EnvelopeAndMore e _ \<Rightarrow> Inl (Err ''traffic spool contains trailing data'')
      | Envelope e \<Rightarrow>
          if se_Version e \<noteq> spoolVersion then Inl (Err ''traffic spool version is unsupported'')
          else case validate_pending_batch (cd_sha cd) (cd_fmt cd) (batch_of e) of
            Some _ \<Rightarrow> Inl (Err ''traffic spool contains an invalid batch'')
          | None \<Rightarrow> Inr (batch_of e))"

definition spool_load :: "codec \<Rightarrow> bool \<Rightarrow> (spool_state, pending_batch option) call" where
  "spool_load cd cancelled =
     (if cancelled then fail_with (Sentinel ''context canceled'')
      else
        and_then (wrapping ''inspect traffic spool'' (statement (\<lambda>fs. (Inr (fs_main fs), fs)))) (\<lambda>present.
        case present of
          None \<Rightarrow> ok None
        | Some info \<Rightarrow>
            if \<not> fl_regular info \<or> \<not> fl_private info \<or> maxSpoolSize < text_size (cd_fmt_json cd) (fl_text info)
            then fail_with (Err ''traffic spool has unsafe metadata'')
            else
              and_then (wrapping ''open traffic spool'' (statement (ok ()))) (\<lambda>_.
              case decode_spool cd (fl_text info) of
                Inl e \<Rightarrow> fail_with e
              | Inr batch \<Rightarrow> ok (Some batch))))"

definition spool_delete :: "bool \<Rightarrow> (spool_state, unit) call" where
  "spool_delete cancelled =
     (if cancelled then fail_with (Sentinel ''context canceled'')
      else
        and_then (wrapping ''inspect traffic spool'' (statement (\<lambda>fs. (Inr (fs_main fs), fs)))) (\<lambda>present.
        case present of
          None \<Rightarrow> ok ()
        | Some info \<Rightarrow>
            if \<not> fl_regular info then fail_with (Err ''traffic spool is not a regular file'')
            else
              and_then (wrapping ''delete traffic spool'' (statement (\<lambda>fs. (Inr (), fs\<lparr>fs_main := None\<rparr>)))) (\<lambda>_.
              wrapping ''sync traffic spool directory'' sync_directory)))"

section \<open>What the spool holds\<close>

text \<open>The batch in the spool: what decoding the file gives, whatever its metadata.\<close>

definition held :: "codec \<Rightarrow> spool_state \<Rightarrow> pending_batch option" where
  "held cd s = (case fs_main (fst s) of
     None \<Rightarrow> None
   | Some f \<Rightarrow> (case decode_spool cd (fl_text f) of Inl _ \<Rightarrow> None | Inr batch \<Rightarrow> Some batch))"

lemma held_main: "fs_main (fst s') = fs_main (fst s) \<Longrightarrow> held cd s' = held cd s"
  by (simp add: held_def)

lemma sync_directory_frame: "sync_directory s = (r, s') \<Longrightarrow> fst s' = fst s"
  by (auto simp: sync_directory_def elim!: and_thenE dest!: statement_ok_either)

lemma remove_temporary_frame: "fs_main (fst (remove_temporary s)) = fs_main (fst s)"
proof -
  obtain r s' where "statement (\<lambda>fs. (Inr (), fs\<lparr>fs_temporary := None\<rparr>)) s = (r, s')"
    by (metis prod.exhaust)
  with statement_either [OF this] show ?thesis by (auto simp: remove_temporary_def)
qed

definition envelope_of :: "pending_batch \<Rightarrow> spool_envelope" where
  "envelope_of batch = \<lparr>se_Version = spoolVersion, se_BatchID = pb_ID batch,
     se_CollectedAt = pb_CollectedAt batch, se_Samples = pb_Samples batch\<rparr>"

lemma batch_of_envelope_of [simp]: "batch_of (envelope_of b) = b"
  by (simp add: batch_of_def envelope_of_def)

text \<open>
  The temporary file is promoted only after all of it was written: whatever fails, the spool
  file is the one before or the complete new one.
\<close>

lemma save_temporary_outcome:
  assumes "save_temporary batch s = (r, s')" and "fs_temporary (fst s) = Some f" "fl_regular f"
  shows "(fs_main (fst s') = fs_main (fst s) \<and> \<not> is_ok r) \<or>
    (fs_main (fst s') = Some \<lparr>fl_regular = True, fl_private = True, fl_text = Envelope (envelope_of batch)\<rparr> \<and>
     fs_temporary (fst s') = None)"
  using assms unfolding save_temporary_def write_temporary_def
  by (auto elim!: and_thenE wrappingE dest!: statement_either statement_ok_either
      simp: envelope_of_def)

lemma spool_prepare_outcome:
  assumes "spool_prepare s = (r, s')"
  shows "fs_main (fst s') = fs_main (fst s)"
    "r = Inr () \<Longrightarrow> fs_main (fst s) = None \<and>
       fs_temporary (fst s') = Some \<lparr>fl_regular = True, fl_private = True, fl_text = NoEnvelope 0\<rparr>"
  using assms
  by (auto simp: spool_prepare_def elim!: and_thenE wrappingE
      dest!: statement_read_either statement_either split: if_splits)

lemma discarding_outcome:
  assumes "discarding (save_temporary batch) s = (r, s')"
    and "fs_temporary (fst s) = Some f" "fl_regular f"
  shows "(fs_main (fst s') = fs_main (fst s) \<and> \<not> is_ok r) \<or>
    fs_main (fst s') = Some \<lparr>fl_regular = True, fl_private = True, fl_text = Envelope (envelope_of batch)\<rparr>"
proof -
  obtain r3 s3 where st: "save_temporary batch s = (r3, s3)" by (metis prod.exhaust)
  from assms(1) st have "r = r3" "fs_main (fst s') = fs_main (fst s3)"
    by (auto simp: discarding_def remove_temporary_frame split: sum.splits)
  with save_temporary_outcome [OF st assms(2,3)] show ?thesis by auto
qed

lemma spool_save_outcome:
  assumes "spool_save cd cancelled batch s = (r, s')"
  shows "(fs_main (fst s') = fs_main (fst s) \<and> \<not> is_ok r) \<or>
    (fs_main (fst s) = None \<and> validate_pending_batch (cd_sha cd) (cd_fmt cd) batch = None \<and>
     fs_main (fst s') = Some \<lparr>fl_regular = True, fl_private = True, fl_text = Envelope (envelope_of batch)\<rparr>)"
proof (cases "validate_pending_batch (cd_sha cd) (cd_fmt cd) batch = None \<and> \<not> cancelled")
  case False
  with assms show ?thesis by (auto simp: spool_save_def split: option.splits if_splits)
next
  case True
  with assms have "and_then spool_prepare (\<lambda>_. and_then (discarding (save_temporary batch)) (\<lambda>_.
      wrapping ''sync traffic spool directory'' sync_directory)) s = (r, s')"
    by (simp add: spool_save_def)
  then show ?thesis
  proof (cases rule: and_thenE)
    case (1 e)
    with spool_prepare_outcome(1) show ?thesis by auto
  next
    case (2 x s1)
    note p = spool_prepare_outcome(1) [OF 2(1)] spool_prepare_outcome(2) [OF 2(1)]
    from p(2) have t: "fs_main (fst s) = None"
      "fs_temporary (fst s1) = Some \<lparr>fl_regular = True, fl_private = True, fl_text = NoEnvelope 0\<rparr>"
      by auto
    from 2(2) show ?thesis
    proof (cases rule: and_thenE)
      case (1 e)
      with discarding_outcome [OF 1(1) t(2)] p(1) t(1) True show ?thesis by auto
    next
      case (2 y s2)
      then have "fst s' = fst s2" by (auto elim!: wrappingE dest!: sync_directory_frame)
      with discarding_outcome [OF 2(1) t(2)] p(1) t(1) True show ?thesis by auto
    qed
  qed
qed

lemma spool_load_outcome:
  assumes "spool_load cd cancelled s = (r, s')"
  shows "fst s' = fst s" "r = Inr (Some batch) \<Longrightarrow> held cd s = Some batch"
    "r = Inr None \<Longrightarrow> fs_main (fst s) = None"
  using assms
  by (auto simp: spool_load_def held_def elim!: and_thenE wrappingE
      dest!: statement_read_either statement_ok_either split: if_splits option.splits sum.splits)

lemma spool_delete_outcome:
  assumes "spool_delete cancelled s = (r, s')"
  shows "(fs_main (fst s') = fs_main (fst s) \<and> \<not> is_ok r) \<or> fs_main (fst s') = None"
  using assms
  by (auto simp: spool_delete_def elim!: and_thenE wrappingE
      dest!: statement_read_either statement_either sync_directory_frame split: if_splits option.splits)

text \<open>
  C12. A batch that was saved is read back exactly, whatever became of the process in between,
  as long as its JSON text fits into one mebibyte; a longer one is saved all the same, and then
  every load refuses it.
\<close>

theorem spool_roundtrip:
  assumes "spool_save cd cancelled batch s = (Inr (), s1)"
  shows "fst (spool_load cd False (fst s1, [])) =
    (if text_size (cd_fmt_json cd) (Envelope (envelope_of batch)) \<le> maxSpoolSize then Inr (Some batch)
     else Inl (Err ''traffic spool has unsafe metadata''))"
proof -
  from spool_save_outcome [OF assms]
  have m: "fs_main (fst s1) = Some \<lparr>fl_regular = True, fl_private = True, fl_text = Envelope (envelope_of batch)\<rparr>"
    and v: "validate_pending_batch (cd_sha cd) (cd_fmt cd) batch = None"
    by auto
  have "decode_spool cd (Envelope (envelope_of batch)) = Inr batch"
    using v by (simp add: decode_spool_def) (simp add: envelope_of_def)
  with m show ?thesis
    by (simp add: spool_load_def and_then_def wrapping_def Let_def)
qed

end
