(* ===== verification/Access.thy ===== *)
theory Access
  imports Prelude "HOL-Library.Multiset"
begin

text \<open>
  The access account of a VPN user (\<open>internal/domain/access.go\<close>), the qualification
  decision that makes it eligible (\<open>internal/domain/qualification.go\<close>) and the
  inactivity preview (\<open>internal/domain/inactivity.go\<close>). Every method with a pointer
  receiver returns its result and the account after the call, on error paths too.
\<close>

section \<open>Data\<close>

text \<open>
  A Go string enumeration is a datatype with one constructor per declared constant and one
  for every other string, which the \<open>default\<close> branches of the code see.
\<close>

datatype access_status =
    Unclaimed | Active | PendingApproval | ApprovalRejected | SelfService
  | PermanentlyBlocked | OtherStatus string

datatype revocation_mode =
    ModeSelfService | ModeRequireApproval | ModePermanentBlock | OtherRevocationMode string

record access_account =
  aa_telegramID :: int
  aa_eligible :: bool
  aa_status :: access_status
  aa_credentialGeneration :: "64 word"
  aa_periodStartedAt :: go_time
  aa_lastVPNActivityAt :: go_time

record access_change =
  revokeCredentialsImmediately :: bool

record issuance =
  iss_CredentialGeneration :: "64 word"
  iss_PeriodStartedAt :: go_time

record access_snapshot =
  as_TelegramID :: int
  as_Eligible :: bool
  as_Status :: access_status
  as_CredentialGeneration :: "64 word"
  as_PeriodStartedAt :: go_time
  as_LastVPNActivityAt :: go_time

abbreviation "ErrNotEligible \<equiv> Sentinel ''user is not eligible''"
abbreviation "ErrApprovalRequired \<equiv> Sentinel ''administrator approval is required''"
abbreviation "ErrAlreadyActive \<equiv> Sentinel ''access is already active''"
abbreviation "ErrPermanentlyBlocked \<equiv> Sentinel ''access is permanently blocked''"

section \<open>Operations\<close>

definition new_access_account :: "int \<Rightarrow> go_error + access_account" where
  "new_access_account telegramID =
     (if telegramID \<le> 0 then Inl (Err ''Telegram ID must be positive'')
      else Inr \<lparr>aa_telegramID = telegramID, aa_eligible = False, aa_status = Unclaimed,
                 aa_credentialGeneration = 0, aa_periodStartedAt = 0, aa_lastVPNActivityAt = 0\<rparr>)"

text \<open>The switch of \<open>RestoreAccessAccount\<close> on the status.\<close>

definition restore_status_check :: "access_snapshot \<Rightarrow> go_error option" where
  "restore_status_check s =
     (case as_Status s of
        Unclaimed \<Rightarrow>
          (if as_CredentialGeneration s \<noteq> 0 \<or> as_PeriodStartedAt s \<noteq> 0 \<or> as_LastVPNActivityAt s \<noteq> 0
           then Some (Err ''unclaimed access cannot have issuance state'') else None)
      | OtherStatus _ \<Rightarrow> Some (Err ''access status is invalid'')
      | _ \<Rightarrow>
          (if as_CredentialGeneration s = 0 \<or> as_PeriodStartedAt s = 0 \<or> as_LastVPNActivityAt s = 0
           then Some (Err ''issued access requires complete issuance state'')
           else if as_LastVPNActivityAt s < as_PeriodStartedAt s
           then Some (Err ''VPN activity cannot predate the access period'')
           else None))"

definition restore_access_account :: "access_snapshot \<Rightarrow> go_error + access_account" where
  "restore_access_account s =
     (if as_TelegramID s \<le> 0 then Inl (Err ''Telegram ID must be positive'')
      else case restore_status_check s of
        Some e \<Rightarrow> Inl e
      | None \<Rightarrow>
          if as_Status s = Active \<and> \<not> as_Eligible s
          then Inl (Err ''active access must be eligible'')
          else Inr \<lparr>aa_telegramID = as_TelegramID s, aa_eligible = as_Eligible s,
                     aa_status = as_Status s,
                     aa_credentialGeneration = as_CredentialGeneration s,
                     aa_periodStartedAt = as_PeriodStartedAt s,
                     aa_lastVPNActivityAt = as_LastVPNActivityAt s\<rparr>)"

definition set_eligibility :: "bool \<Rightarrow> access_account \<Rightarrow> access_change \<times> access_account" where
  "set_eligibility eligible a =
     (let a1 = a\<lparr>aa_eligible := eligible\<rparr> in
      if \<not> eligible \<and> aa_status a1 = Active
      then (\<lparr>revokeCredentialsImmediately = True\<rparr>, a1\<lparr>aa_status := PendingApproval\<rparr>)
      else if \<not> eligible \<and> aa_status a1 = SelfService
      then (\<lparr>revokeCredentialsImmediately = False\<rparr>, a1\<lparr>aa_status := PendingApproval\<rparr>)
      else (\<lparr>revokeCredentialsImmediately = False\<rparr>, a1))"

definition issue :: "go_time \<Rightarrow> access_account \<Rightarrow> issuance \<times> access_account" where
  "issue now a =
     (let a1 = a\<lparr>aa_status := Active,
                 aa_credentialGeneration := aa_credentialGeneration a + 1,
                 aa_periodStartedAt := now,
                 aa_lastVPNActivityAt := now\<rparr>
      in (\<lparr>iss_CredentialGeneration = aa_credentialGeneration a1,
            iss_PeriodStartedAt = aa_periodStartedAt a1\<rparr>, a1))"

definition claim :: "go_time \<Rightarrow> access_account \<Rightarrow> (go_error + issuance) \<times> access_account" where
  "claim now a =
     (if now = 0 then (Inl (Err ''issuance timestamp is required''), a)
      else if \<not> aa_eligible a then (Inl ErrNotEligible, a)
      else case aa_status a of
        PermanentlyBlocked \<Rightarrow> (Inl ErrPermanentlyBlocked, a)
      | PendingApproval \<Rightarrow> (Inl ErrApprovalRequired, a)
      | ApprovalRejected \<Rightarrow> (Inl ErrApprovalRequired, a)
      | Active \<Rightarrow> (Inl ErrAlreadyActive, a)
      | _ \<Rightarrow> (let (i, a1) = issue now a in (Inr i, a1)))"

definition revoke :: "revocation_mode \<Rightarrow> access_account \<Rightarrow> (go_error + access_change) \<times> access_account" where
  "revoke mode a =
     (if aa_status a \<noteq> Active then (Inl (Err ''only active access can be revoked''), a)
      else case mode of
        ModeSelfService \<Rightarrow>
          (Inr \<lparr>revokeCredentialsImmediately = True\<rparr>, a\<lparr>aa_status := SelfService\<rparr>)
      | ModeRequireApproval \<Rightarrow>
          (Inr \<lparr>revokeCredentialsImmediately = True\<rparr>, a\<lparr>aa_status := PendingApproval\<rparr>)
      | ModePermanentBlock \<Rightarrow>
          (Inr \<lparr>revokeCredentialsImmediately = True\<rparr>, a\<lparr>aa_status := PermanentlyBlocked\<rparr>)
      | OtherRevocationMode _ \<Rightarrow> (Inl (Err ''revocation mode is invalid''), a))"

definition rotate_access :: "go_time \<Rightarrow> bool \<Rightarrow> access_account \<Rightarrow> (go_error + issuance) \<times> access_account" where
  "rotate_access now resetPeriod a =
     (if aa_status a \<noteq> Active then (Inl (Err ''only active access can be rotated''), a)
      else if now = 0 \<or> now < aa_periodStartedAt a
      then (Inl (Err ''rotation timestamp is invalid''), a)
      else
        let a1 = a\<lparr>aa_credentialGeneration := aa_credentialGeneration a + 1\<rparr>;
            a2 = (if resetPeriod
                  then a1\<lparr>aa_periodStartedAt := now, aa_lastVPNActivityAt := now\<rparr> else a1)
        in (Inr \<lparr>iss_CredentialGeneration = aa_credentialGeneration a2,
                  iss_PeriodStartedAt = aa_periodStartedAt a2\<rparr>, a2))"

definition record_vpn_activity :: "go_time \<Rightarrow> int \<Rightarrow> access_account \<Rightarrow> (go_error + unit) \<times> access_account" where
  "record_vpn_activity observedAt bytes a =
     (if aa_status a \<noteq> Active then (Inl (Err ''VPN activity requires active access''), a)
      else if bytes \<le> 0 then (Inl (Err ''VPN activity bytes must be positive''), a)
      else if observedAt = 0 \<or> observedAt < aa_lastVPNActivityAt a
      then (Inl (Err ''VPN activity timestamp is invalid''), a)
      else (Inr (), a\<lparr>aa_lastVPNActivityAt := observedAt\<rparr>))"

abbreviation day :: duration where "day \<equiv> 86400000000000"

definition is_inactive_at :: "go_time \<Rightarrow> int \<Rightarrow> access_account \<Rightarrow> go_error + bool" where
  "is_inactive_at now thresholdDays a =
     (if thresholdDays < 0 then Inl (Err ''inactivity threshold cannot be negative'')
      else if thresholdDays = 0 \<or> aa_status a \<noteq> Active then Inr False
      else if now = 0 \<or> now < aa_lastVPNActivityAt a
      then Inl (Err ''inactivity evaluation timestamp is invalid'')
      else if go_div max_int64 day < thresholdDays
      then Inl (Err ''inactivity threshold is too large'')
      else
        let boundary = aa_lastVPNActivityAt a + s64 (thresholdDays * day)
        in Inr (\<not> now < boundary))"

definition remove_for_inactivity :: "access_account \<Rightarrow> (go_error + access_change) \<times> access_account" where
  "remove_for_inactivity a = revoke ModeSelfService a"

definition reject_approval :: "access_account \<Rightarrow> (go_error + unit) \<times> access_account" where
  "reject_approval a =
     (if aa_status a \<noteq> PendingApproval then (Inl (Err ''access is not pending approval''), a)
      else (Inr (), a\<lparr>aa_status := ApprovalRejected\<rparr>))"

definition approve :: "go_time \<Rightarrow> access_account \<Rightarrow> (go_error + issuance) \<times> access_account" where
  "approve now a =
     (if now = 0 then (Inl (Err ''approval timestamp is required''), a)
      else if \<not> aa_eligible a then (Inl ErrNotEligible, a)
      else if aa_status a \<noteq> PendingApproval \<and> aa_status a \<noteq> ApprovalRejected
      then (Inl (Err ''access is not pending approval''), a)
      else (let (i, a1) = issue now a in (Inr i, a1)))"

definition snapshot :: "access_account \<Rightarrow> access_snapshot" where
  "snapshot a = \<lparr>as_TelegramID = aa_telegramID a, as_Eligible = aa_eligible a,
     as_Status = aa_status a, as_CredentialGeneration = aa_credentialGeneration a,
     as_PeriodStartedAt = aa_periodStartedAt a, as_LastVPNActivityAt = aa_lastVPNActivityAt a\<rparr>"

section \<open>Inactivity preview\<close>

text \<open>The loop of \<open>PreviewInactiveAccounts\<close>; a nil pointer of the slice is \<open>None\<close>.\<close>

fun preview_loop :: "access_account option list \<Rightarrow> go_time \<Rightarrow> int \<Rightarrow> int list \<Rightarrow> go_error + int list" where
  "preview_loop [] now thresholdDays ids = Inr ids"
| "preview_loop (None # accounts) now thresholdDays ids = Inl (Err ''access account is required'')"
| "preview_loop (Some a # accounts) now thresholdDays ids =
     (case is_inactive_at now thresholdDays a of
        Inl e \<Rightarrow> Inl e
      | Inr inactive \<Rightarrow>
          preview_loop accounts now thresholdDays
            (if inactive then ids @ [aa_telegramID a] else ids))"

definition preview_inactive_accounts ::
    "access_account option list \<Rightarrow> go_time \<Rightarrow> int \<Rightarrow> go_error + int list" where
  "preview_inactive_accounts accounts now thresholdDays =
     (if thresholdDays < 0 then Inl (Err ''inactivity threshold cannot be negative'')
      else if thresholdDays = 0 then Inr []
      else case preview_loop accounts now thresholdDays [] of
        Inl e \<Rightarrow> Inl e
      | Inr ids \<Rightarrow> Inr (sort ids))"

section \<open>Qualification\<close>

datatype qualification_mode = QualificationAny | QualificationAll | OtherQualificationMode string

datatype membership_result = Member | NotMember | IndeterminateMember | OtherMembership string

datatype qualification_decision =
    Eligible | Ineligible | IndeterminateDecision | OtherDecision string

text \<open>The three flags of the loop in \<open>EvaluateQualification\<close>; an unknown result ends it.\<close>

fun scan_results ::
    "membership_result list \<Rightarrow> bool \<times> bool \<times> bool \<Rightarrow> go_error + (bool \<times> bool \<times> bool)" where
  "scan_results [] flags = Inr flags"
| "scan_results (r # rs) (hasMember, hasNotMember, hasIndeterminate) =
     (case r of
        Member \<Rightarrow> scan_results rs (True, hasNotMember, hasIndeterminate)
      | NotMember \<Rightarrow> scan_results rs (hasMember, True, hasIndeterminate)
      | IndeterminateMember \<Rightarrow> scan_results rs (hasMember, hasNotMember, True)
      | OtherMembership s \<Rightarrow> Inl (Err ''unknown membership result''))"

definition evaluate_qualification ::
    "qualification_mode \<Rightarrow> membership_result list \<Rightarrow> go_error + qualification_decision" where
  "evaluate_qualification mode results =
     (if mode \<noteq> QualificationAny \<and> mode \<noteq> QualificationAll
      then Inl (Err ''unknown qualification mode'')
      else if length results = 0
      then Inl (Err ''at least one membership result is required'')
      else case scan_results results (False, False, False) of
        Inl e \<Rightarrow> Inl e
      | Inr (hasMember, hasNotMember, hasIndeterminate) \<Rightarrow>
          if mode = QualificationAny
          then (if hasMember then Inr Eligible
                else if hasIndeterminate then Inr IndeterminateDecision
                else Inr Ineligible)
          else (if hasNotMember then Inr Ineligible
                else if hasIndeterminate then Inr IndeterminateDecision
                else Inr Eligible))"

text \<open>\<open>ApplyQualification\<close>; a nil account is \<open>None\<close> and stays so.\<close>

definition apply_qualification ::
    "qualification_decision \<Rightarrow> access_account option
       \<Rightarrow> (go_error + access_change) \<times> access_account option" where
  "apply_qualification decision account =
     (case account of
        None \<Rightarrow> (Inl (Err ''access account is required''), None)
      | Some a \<Rightarrow>
          (case decision of
             Eligible \<Rightarrow> (let (c, a1) = set_eligibility True a in (Inr c, Some a1))
           | Ineligible \<Rightarrow> (let (c, a1) = set_eligibility False a in (Inr c, Some a1))
           | IndeterminateDecision \<Rightarrow> (Inr \<lparr>revokeCredentialsImmediately = False\<rparr>, Some a)
           | OtherDecision s \<Rightarrow> (Inl (Err ''unknown qualification decision''), Some a)))"


section \<open>Well-formed accounts\<close>

text \<open>What \<open>RestoreAccessAccount\<close> demands of a persisted snapshot, read as an invariant.\<close>

definition wf_account :: "access_account \<Rightarrow> bool" where
  "wf_account a \<longleftrightarrow>
     0 < aa_telegramID a \<and>
     (case aa_status a of
        Unclaimed \<Rightarrow> aa_credentialGeneration a = 0 \<and> aa_periodStartedAt a = 0 \<and> aa_lastVPNActivityAt a = 0
      | OtherStatus _ \<Rightarrow> False
      | _ \<Rightarrow> aa_credentialGeneration a \<noteq> 0 \<and> aa_periodStartedAt a \<noteq> 0 \<and>
            aa_lastVPNActivityAt a \<noteq> 0 \<and> aa_periodStartedAt a \<le> aa_lastVPNActivityAt a) \<and>
     (aa_status a = Active \<longrightarrow> aa_eligible a)"

lemma restore_Inr_snapshot: "restore_access_account s = Inr a \<Longrightarrow> s = snapshot a"
  by (auto simp: restore_access_account_def snapshot_def split: if_splits option.splits)

lemma restore_snapshot_wf: "restore_access_account (snapshot a) = Inr a \<longleftrightarrow> wf_account a"
  by (auto simp: restore_access_account_def restore_status_check_def snapshot_def wf_account_def
      split: access_status.splits if_splits)

lemma restore_wf: "restore_access_account s = Inr a \<Longrightarrow> wf_account a"
  using restore_Inr_snapshot restore_snapshot_wf by blast

section \<open>Lifecycle\<close>

text \<open>
  A call on an account, with its arguments, and the account after it. The rest of the system
  reaches an account through these calls only, since its fields are private to the package.
\<close>

datatype access_op =
    OpSetEligibility bool
  | OpClaim go_time
  | OpRevoke revocation_mode
  | OpRotate go_time bool
  | OpRecordActivity go_time int
  | OpRemoveForInactivity
  | OpRejectApproval
  | OpApprove go_time

fun access_step :: "access_op \<Rightarrow> access_account \<Rightarrow> issuance option \<times> access_account" where
  "access_step (OpSetEligibility e) a = (None, snd (set_eligibility e a))"
| "access_step (OpClaim now) a =
     (case claim now a of (Inr i, a1) \<Rightarrow> (Some i, a1) | (Inl _, a1) \<Rightarrow> (None, a1))"
| "access_step (OpRevoke m) a = (None, snd (revoke m a))"
| "access_step (OpRotate now b) a =
     (case rotate_access now b a of (Inr i, a1) \<Rightarrow> (Some i, a1) | (Inl _, a1) \<Rightarrow> (None, a1))"
| "access_step (OpRecordActivity t n) a = (None, snd (record_vpn_activity t n a))"
| "access_step OpRemoveForInactivity a = (None, snd (remove_for_inactivity a))"
| "access_step OpRejectApproval a = (None, snd (reject_approval a))"
| "access_step (OpApprove now) a =
     (case approve now a of (Inr i, a1) \<Rightarrow> (Some i, a1) | (Inl _, a1) \<Rightarrow> (None, a1))"

text \<open>A run: the credential generations handed out, in order, and the final account.\<close>

fun access_run :: "access_op list \<Rightarrow> access_account \<Rightarrow> 64 word list \<times> access_account" where
  "access_run [] a = ([], a)"
| "access_run (x # xs) a =
     (let (i, a1) = access_step x a; (gs, a2) = access_run xs a1
      in ((case i of None \<Rightarrow> gs | Some iss \<Rightarrow> iss_CredentialGeneration iss # gs), a2))"

lemmas access_defs =
  set_eligibility_def claim_def revoke_def rotate_access_def record_vpn_activity_def
  remove_for_inactivity_def reject_approval_def approve_def issue_def Let_def

lemmas access_splits = if_splits access_status.splits revocation_mode.splits

lemma access_step_telegramID [simp]: "aa_telegramID (snd (access_step x a)) = aa_telegramID a"
  by (cases x) (auto simp: access_defs split: access_splits)

lemma access_step_generation:
  "aa_credentialGeneration (snd (access_step x a)) =
     (case fst (access_step x a) of None \<Rightarrow> aa_credentialGeneration a
      | Some i \<Rightarrow> aa_credentialGeneration a + 1)"
  by (cases x) (auto simp: access_defs split: access_splits)

lemma access_step_issued:
  "fst (access_step x a) = Some i \<Longrightarrow>
     iss_CredentialGeneration i = aa_credentialGeneration a + 1 \<and>
     aa_status (snd (access_step x a)) = Active \<and>
     iss_PeriodStartedAt i = aa_periodStartedAt (snd (access_step x a))"
  by (cases x) (auto simp: access_defs split: access_splits)

lemma access_step_wf:
  assumes "wf_account a" and "aa_credentialGeneration a + 1 \<noteq> 0"
  shows "wf_account (snd (access_step x a))"
  using assms
  by (cases x; cases "aa_status a") (auto simp: wf_account_def access_defs split: access_splits)

lemma access_step_blocked:
  "aa_status a = PermanentlyBlocked \<Longrightarrow>
     fst (access_step x a) = None \<and> aa_status (snd (access_step x a)) = PermanentlyBlocked"
  by (cases x) (auto simp: access_defs split: access_splits)

definition awaits_approval :: "access_account \<Rightarrow> bool" where
  "awaits_approval a \<longleftrightarrow> aa_status a = PendingApproval \<or> aa_status a = ApprovalRejected"

definition is_approve :: "access_op \<Rightarrow> bool" where
  "is_approve x = (case x of OpApprove _ \<Rightarrow> True | _ \<Rightarrow> False)"

lemma access_step_awaits:
  "awaits_approval a \<Longrightarrow> \<not> is_approve x \<Longrightarrow>
     fst (access_step x a) = None \<and> awaits_approval (snd (access_step x a))"
  by (cases x) (auto simp: awaits_approval_def is_approve_def access_defs split: access_splits)

lemma access_run_Cons_snd:
  "snd (access_run (x # xs) a) = snd (access_run xs (snd (access_step x a)))"
  by (simp add: Let_def split: prod.splits)

lemma access_run_Cons_fst:
  "fst (access_run (x # xs) a) =
     (case fst (access_step x a) of None \<Rightarrow> fst (access_run xs (snd (access_step x a)))
      | Some i \<Rightarrow> iss_CredentialGeneration i # fst (access_run xs (snd (access_step x a))))"
  by (cases "fst (access_step x a)") (simp_all add: Let_def case_prod_unfold)

lemmas access_run_Cons = access_run_Cons_snd access_run_Cons_fst

declare access_run.simps(2) [simp del]

lemma length_access_run: "length (fst (access_run xs a)) \<le> length xs"
proof (induction xs arbitrary: a)
  case Nil
  then show ?case by simp
next
  case (Cons x xs)
  have "length (fst (access_run xs (snd (access_step x a)))) \<le> length xs" by (rule Cons.IH)
  then show ?case by (simp add: access_run_Cons split: option.splits)
qed

lemma access_run_generations:
  "fst (access_run xs a) =
     map (\<lambda>k. aa_credentialGeneration a + of_nat (Suc k)) [0..<length (fst (access_run xs a))]"
proof (induction xs arbitrary: a)
  case Nil
  then show ?case by simp
next
  case (Cons x xs)
  let ?a1 = "snd (access_step x a)" and ?gs = "fst (access_run xs (snd (access_step x a)))"
  show ?case
  proof (cases "fst (access_step x a)")
    case None
    then have "aa_credentialGeneration ?a1 = aa_credentialGeneration a"
      by (simp add: access_step_generation)
    with None Cons.IH [of ?a1] show ?thesis by (simp add: access_run_Cons)
  next
    case (Some i)
    then have g: "aa_credentialGeneration ?a1 = aa_credentialGeneration a + 1"
      and i: "iss_CredentialGeneration i = aa_credentialGeneration a + 1"
      by (simp_all add: access_step_generation access_step_issued)
    have "?gs = map (\<lambda>k. aa_credentialGeneration a + of_nat (Suc (Suc k))) [0..<length ?gs]"
      by (subst Cons.IH) (simp add: g algebra_simps)
    then have "iss_CredentialGeneration i # ?gs =
        map (\<lambda>k. aa_credentialGeneration a + of_nat (Suc k)) (0 # map Suc [0..<length ?gs])"
      by (simp add: i comp_def)
    with Some show ?thesis
      by (simp add: access_run_Cons map_Suc_upt upt_conv_Cons del: upt_Suc)
  qed
qed

lemma access_run_final_generation:
  "aa_credentialGeneration (snd (access_run xs a)) =
     aa_credentialGeneration a + of_nat (length (fst (access_run xs a)))"
proof (induction xs arbitrary: a)
  case Nil
  then show ?case by simp
next
  case (Cons x xs)
  show ?case
    by (cases "fst (access_step x a)")
      (simp_all add: access_run_Cons Cons.IH access_step_generation algebra_simps)
qed

lemma word64_Suc_nonzero: "unat (g :: 64 word) + 1 < 2 ^ 64 \<Longrightarrow> unat (g + 1) = unat g + 1"
  by (simp add: unat_word_ariths)

lemma access_run_wf:
  "wf_account a \<Longrightarrow> unat (aa_credentialGeneration a) + length xs < 2 ^ 64 \<Longrightarrow>
     wf_account (snd (access_run xs a))"
proof (induction xs arbitrary: a)
  case Nil
  then show ?case by simp
next
  case (Cons x xs)
  let ?g = "aa_credentialGeneration a"
  from Cons.prems(2) have "unat ?g + 1 < 2 ^ 64" by simp
  then have u: "unat (?g + 1) = unat ?g + 1" by (rule word64_Suc_nonzero)
  then have "?g + 1 \<noteq> 0" by (metis add_is_0 one_neq_zero unat_0)
  with Cons.prems(1) have "wf_account (snd (access_step x a))" by (rule access_step_wf)
  moreover have "unat (aa_credentialGeneration (snd (access_step x a))) + length xs < 2 ^ 64"
    using Cons.prems(2) u by (simp add: access_step_generation split: option.splits)
  ultimately show ?case by (simp add: access_run_Cons Cons.IH)
qed

lemma access_run_blocked:
  "aa_status a = PermanentlyBlocked \<Longrightarrow>
     fst (access_run xs a) = [] \<and> aa_status (snd (access_run xs a)) = PermanentlyBlocked"
proof (induction xs arbitrary: a)
  case Nil
  then show ?case by simp
next
  case (Cons x xs)
  from access_step_blocked [OF Cons.prems, of x] Cons.IH show ?case by (simp add: access_run_Cons)
qed

lemma access_run_awaits:
  "awaits_approval a \<Longrightarrow> \<forall>x \<in> set xs. \<not> is_approve x \<Longrightarrow>
     fst (access_run xs a) = [] \<and> awaits_approval (snd (access_run xs a))"
proof (induction xs arbitrary: a)
  case Nil
  then show ?case by simp
next
  case (Cons x xs)
  then have "fst (access_step x a) = None" "awaits_approval (snd (access_step x a))"
    using access_step_awaits [of a x] by simp_all
  with Cons show ?case by (simp add: access_run_Cons)
qed

lemma distinct_generations:
  assumes "n < 2 ^ 64"
  shows "distinct (map (\<lambda>k. g + of_nat (Suc k) :: 64 word) [0..<n])"
proof (subst distinct_map, intro conjI inj_onI)
  fix x y
  assume "x \<in> set [0..<n]" "y \<in> set [0..<n]" and eq: "g + of_nat (Suc x) = g + of_nat (Suc y)"
  then have "x < 2 ^ 64" "y < 2 ^ 64"
    using assms by simp_all
  then have "unat (of_nat x :: 64 word) = x" "unat (of_nat y :: 64 word) = y"
    by (simp_all add: unat_of_nat)
  moreover from eq have "(of_nat x :: 64 word) = of_nat y" by simp
  ultimately show "x = y" by metis
qed simp


section \<open>Facts about qualification and inactivity\<close>

definition known_result :: "membership_result \<Rightarrow> bool" where
  "known_result r = (case r of OtherMembership _ \<Rightarrow> False | _ \<Rightarrow> True)"

lemma scan_results_known:
  "\<forall>r \<in> set rs. known_result r \<Longrightarrow>
     scan_results rs (m, n, i) =
       Inr (m \<or> Member \<in> set rs, n \<or> NotMember \<in> set rs, i \<or> IndeterminateMember \<in> set rs)"
  by (induction rs arbitrary: m n i) (auto simp: known_result_def split: membership_result.splits)

lemma scan_results_unknown:
  "\<exists>r \<in> set rs. \<not> known_result r \<Longrightarrow> \<exists>e. scan_results rs (m, n, i) = Inl e"
  by (induction rs arbitrary: m n i) (auto simp: known_result_def split: membership_result.splits)

lemma evaluate_known:
  assumes "\<forall>r \<in> set rs. known_result r" and "rs \<noteq> []"
  shows "evaluate_qualification QualificationAny rs =
           Inr (if Member \<in> set rs then Eligible
                else if IndeterminateMember \<in> set rs then IndeterminateDecision else Ineligible)"
    and "evaluate_qualification QualificationAll rs =
           Inr (if NotMember \<in> set rs then Ineligible
                else if IndeterminateMember \<in> set rs then IndeterminateDecision else Eligible)"
  using assms by (simp_all add: evaluate_qualification_def scan_results_known)

text \<open>
  A resolution replaces every indeterminate answer by one of the two definite ones and keeps
  the rest.
\<close>

definition resolves :: "membership_result \<Rightarrow> membership_result \<Rightarrow> bool" where
  "resolves r r' \<longleftrightarrow> (r' = Member \<or> r' = NotMember) \<and> (r = IndeterminateMember \<or> r = r')"

definition resolve_as :: "membership_result \<Rightarrow> membership_result \<Rightarrow> membership_result" where
  "resolve_as d r = (if r = IndeterminateMember then d else r)"

lemma resolution_facts:
  assumes "list_all2 resolves rs rs'"
  shows "set rs' \<subseteq> {Member, NotMember}" "rs = [] \<longleftrightarrow> rs' = []"
    and "Member \<in> set rs \<Longrightarrow> Member \<in> set rs'" "NotMember \<in> set rs \<Longrightarrow> NotMember \<in> set rs'"
    and "set rs \<subseteq> {Member} \<Longrightarrow> NotMember \<notin> set rs'"
    and "set rs \<subseteq> {NotMember} \<Longrightarrow> Member \<notin> set rs'"
  using assms by (induction rule: list_all2_induct) (auto simp: resolves_def)

lemma resolution_exists:
  assumes "\<forall>r \<in> set rs. known_result r" "d = Member \<or> d = NotMember"
  shows "list_all2 resolves rs (map (resolve_as d) rs)"
  using assms
  by (induction rs)
    (auto simp: resolves_def resolve_as_def known_result_def split: membership_result.splits)

lemma known_definite: "set rs \<subseteq> {Member, NotMember} \<Longrightarrow> \<forall>r \<in> set rs. known_result r"
  by (auto simp: known_result_def)

lemma evaluate_resolution:
  assumes "list_all2 resolves rs rs'" and "rs \<noteq> []"
  shows "evaluate_qualification QualificationAny rs' =
           Inr (if Member \<in> set rs' then Eligible else Ineligible)"
    and "evaluate_qualification QualificationAll rs' =
           Inr (if NotMember \<in> set rs' then Ineligible else Eligible)"
proof -
  have known: "\<forall>r \<in> set rs'. known_result r" and "rs' \<noteq> []"
    and no: "IndeterminateMember \<notin> set rs'"
    using resolution_facts(1,2) [OF assms(1)] assms(2) known_definite by auto
  then show "evaluate_qualification QualificationAny rs' =
      Inr (if Member \<in> set rs' then Eligible else Ineligible)"
    "evaluate_qualification QualificationAll rs' =
      Inr (if NotMember \<in> set rs' then Ineligible else Eligible)"
    using evaluate_known [OF known \<open>rs' \<noteq> []\<close>] by simp_all
qed

lemma known_result_cases:
  "known_result r \<Longrightarrow> r = Member \<or> r = NotMember \<or> r = IndeterminateMember"
  by (cases r) (auto simp: known_result_def)

lemma is_inactive_at_Inr_True:
  assumes "is_inactive_at now d a = Inr b"
  shows "b \<longleftrightarrow> 0 < d \<and> aa_status a = Active \<and> d * day \<le> now - aa_lastVPNActivityAt a"
proof (cases "d = 0 \<or> aa_status a \<noteq> Active")
  case True
  with assms show ?thesis by (auto simp: is_inactive_at_def split: if_splits)
next
  case False
  with assms have d: "0 < d" "d \<le> 106751"
    and b: "b = (\<not> now < aa_lastVPNActivityAt a + s64 (d * day))"
    by (auto simp: is_inactive_at_def go_div_def Let_def split: if_splits)
  from d have "s64 (d * day) = d * day" by (intro s64_id) simp_all
  with False b d show ?thesis by auto
qed

lemma preview_loop_Inr:
  "preview_loop accounts now d ids = Inr r \<Longrightarrow>
     None \<notin> set accounts \<and>
     (\<forall>a. Some a \<in> set accounts \<longrightarrow> is_ok (is_inactive_at now d a)) \<and>
     r = ids @ map aa_telegramID (filter (\<lambda>a. is_inactive_at now d a = Inr True) (map the accounts))"
proof (induction accounts now d ids rule: preview_loop.induct)
  case (3 a accounts now d ids)
  from "3.prems" obtain b where b: "is_inactive_at now d a = Inr b"
    by (auto split: sum.splits)
  with 3 show ?case by (cases b) auto
qed simp_all

section \<open>Properties\<close>

text \<open>
  The database round trip of an account: \<open>RestoreAccessAccount\<close> accepts a snapshot with
  result \<open>a\<close> exactly when the snapshot is \<open>a\<close>'s own and \<open>a\<close> satisfies the account
  invariant. So restoring a persisted account loses nothing, and no snapshot that breaks the
  invariant becomes an account.
\<close>

theorem restore_iff_snapshot_wf:
  "restore_access_account s = Inr a \<longleftrightarrow> s = snapshot a \<and> wf_account a"
  using restore_Inr_snapshot restore_snapshot_wf by blast

text \<open>
  C5. From a new account, every sequence of fewer than \<open>2^64\<close> calls, with any arguments and in
  any order, leaves an account that \<open>RestoreAccessAccount\<close> accepts; in particular an active
  account is always eligible.
\<close>

theorem access_lifecycle_wf:
  assumes "new_access_account telegramID = Inr a" and "length xs < 2 ^ 64"
  shows "restore_access_account (snapshot (snd (access_run xs a))) = Inr (snd (access_run xs a)) \<and>
         (aa_status (snd (access_run xs a)) = Active \<longrightarrow> aa_eligible (snd (access_run xs a)))"
proof -
  from assms(1) have "wf_account a" "aa_credentialGeneration a = 0"
    by (auto simp: new_access_account_def wf_account_def split: if_splits)
  with assms(2) have wf: "wf_account (snd (access_run xs a))" by (intro access_run_wf) simp_all
  then show ?thesis by (simp add: restore_snapshot_wf wf_account_def)
qed

definition sample_account :: access_account where
  "sample_account = \<lparr>aa_telegramID = 7, aa_eligible = False, aa_status = Unclaimed,
     aa_credentialGeneration = 0, aa_periodStartedAt = 0, aa_lastVPNActivityAt = 0\<rparr>"

theorem access_lifecycle_wf_witness:
  "restore_access_account
     (snapshot (snd (access_run [OpSetEligibility True, OpClaim 5, OpRecordActivity 9 1] sample_account)))
   = Inr (snd (access_run [OpSetEligibility True, OpClaim 5, OpRecordActivity 9 1] sample_account)) \<and>
   aa_eligible (snd (access_run [OpSetEligibility True, OpClaim 5, OpRecordActivity 9 1] sample_account))"
proof -
  have new: "new_access_account 7 = Inr sample_account"
    by (simp add: new_access_account_def sample_account_def)
  have len: "length [OpSetEligibility True, OpClaim 5, OpRecordActivity 9 1] < 2 ^ 64" by simp
  have act: "aa_status (snd (access_run [OpSetEligibility True, OpClaim 5, OpRecordActivity 9 1] sample_account)) = Active"
    by (simp add: access_run_Cons access_defs sample_account_def)
  show ?thesis using access_lifecycle_wf [OF new len] act by simp
qed

text \<open>
  C3. A permanently blocked account stays so: no sequence of calls issues credentials for it or
  changes its status.
\<close>

theorem permanent_block_is_final:
  assumes "aa_status a = PermanentlyBlocked"
  shows "fst (access_run xs a) = [] \<and> aa_status (snd (access_run xs a)) = PermanentlyBlocked"
  using assms by (rule access_run_blocked)

theorem permanent_block_is_final_witness:
  "fst (access_run [OpSetEligibility True, OpClaim 5, OpApprove 6]
     (sample_account\<lparr>aa_status := PermanentlyBlocked\<rparr>)) = []"
  using permanent_block_is_final [of "sample_account\<lparr>aa_status := PermanentlyBlocked\<rparr>"] by simp

text \<open>
  Losing eligibility closes the self-service path: after an \<open>Ineligible\<close> decision on an
  active or self-service account, whatever is called next except \<open>Approve\<close> issues no
  credentials and leaves the account waiting for an administrator, also when the user becomes
  eligible again. An active account's credentials are revoked at once.
\<close>

theorem ineligible_requires_approval:
  assumes "aa_status a = Active \<or> aa_status a = SelfService"
    and "apply_qualification Ineligible (Some a) = (r, Some a')"
    and "\<forall>x \<in> set xs. \<not> is_approve x"
  shows "r = Inr \<lparr>revokeCredentialsImmediately = (aa_status a = Active)\<rparr> \<and>
         fst (access_run xs a') = [] \<and> awaits_approval (snd (access_run xs a'))"
proof -
  have "awaits_approval a'"
    using assms(1,2) by (auto simp: apply_qualification_def awaits_approval_def set_eligibility_def Let_def
        split: if_splits)
  moreover have "r = Inr \<lparr>revokeCredentialsImmediately = (aa_status a = Active)\<rparr>"
    using assms(1,2) by (auto simp: apply_qualification_def set_eligibility_def Let_def split: if_splits)
  ultimately show ?thesis using access_run_awaits [OF _ assms(3)] by blast
qed

theorem ineligible_requires_approval_witness:
  "awaits_approval (snd (access_run [OpSetEligibility True, OpClaim 5]
     (sample_account\<lparr>aa_status := PendingApproval\<rparr>)))"
proof -
  let ?a = "sample_account\<lparr>aa_eligible := True, aa_status := SelfService\<rparr>"
  have q: "apply_qualification Ineligible (Some ?a) =
      (Inr \<lparr>revokeCredentialsImmediately = False\<rparr>, Some (sample_account\<lparr>aa_status := PendingApproval\<rparr>))"
    by (simp add: apply_qualification_def set_eligibility_def sample_account_def)
  show ?thesis
    using ineligible_requires_approval [OF _ q, of "[OpSetEligibility True, OpClaim 5]"]
    by (simp add: is_approve_def)
qed

text \<open>
  The credential generations handed out by a run are the consecutive successors of the
  starting one, so a run of at most \<open>2^64 - 1\<close> calls never hands out a generation twice; the
  account's counter ends at the last one.
\<close>

theorem generations_consecutive:
  assumes "length xs < 2 ^ 64"
  shows "fst (access_run xs a) =
           map (\<lambda>k. aa_credentialGeneration a + of_nat (Suc k)) [0..<length (fst (access_run xs a))] \<and>
         distinct (fst (access_run xs a)) \<and>
         aa_credentialGeneration (snd (access_run xs a)) =
           aa_credentialGeneration a + of_nat (length (fst (access_run xs a)))"
proof (intro conjI)
  show gs: "fst (access_run xs a) =
      map (\<lambda>k. aa_credentialGeneration a + of_nat (Suc k)) [0..<length (fst (access_run xs a))]"
    by (rule access_run_generations)
  have "length (fst (access_run xs a)) < 2 ^ 64"
    using length_access_run [of xs a] assms by linarith
  then show "distinct (fst (access_run xs a))"
    by (subst gs) (rule distinct_generations)
qed (rule access_run_final_generation)

theorem generations_consecutive_witness:
  "distinct (fst (access_run [OpSetEligibility True, OpClaim 5, OpRotate 6 False] sample_account)) \<and>
   fst (access_run [OpSetEligibility True, OpClaim 5, OpRotate 6 False] sample_account) = [1, 2]"
proof -
  have "length [OpSetEligibility True, OpClaim 5, OpRotate 6 False] < 2 ^ 64" by simp
  then show ?thesis
    using generations_consecutive [of "[OpSetEligibility True, OpClaim 5, OpRotate 6 False]" sample_account]
    by (simp add: access_run_Cons access_defs sample_account_def)
qed

text \<open>
  The three-valued qualification is exact: over answers from a working lookup, a decision
  is \<open>Eligible\<close> (or \<open>Ineligible\<close>) if and only if every way of resolving the indeterminate
  answers gives that same decision. So no temporary failure changes a decision, and one is
  left open only when the missing answers matter.
\<close>

theorem qualification_exact:
  assumes "mode = QualificationAny \<or> mode = QualificationAll"
    and "rs \<noteq> []" and "\<forall>r \<in> set rs. known_result r"
    and "d = Eligible \<or> d = Ineligible"
  shows "evaluate_qualification mode rs = Inr d \<longleftrightarrow>
           (\<forall>rs'. list_all2 resolves rs rs' \<longrightarrow> evaluate_qualification mode rs' = Inr d)"
proof -
  note eval = evaluate_known [OF assms(3,2)]
  note res = evaluate_resolution [OF _ assms(2)]
  note ex = resolution_exists [OF assms(3)]
  have sub: "Member \<notin> set rs \<Longrightarrow> IndeterminateMember \<notin> set rs \<Longrightarrow> set rs \<subseteq> {NotMember}"
    "NotMember \<notin> set rs \<Longrightarrow> IndeterminateMember \<notin> set rs \<Longrightarrow> set rs \<subseteq> {Member}"
    using assms(3) known_result_cases by blast+
  have member: "Member \<in> resolve_as NotMember ` set rs \<longleftrightarrow> Member \<in> set rs"
    "NotMember \<in> resolve_as Member ` set rs \<longleftrightarrow> NotMember \<in> set rs"
    "IndeterminateMember \<in> set rs \<Longrightarrow> Member \<in> resolve_as Member ` set rs"
    "IndeterminateMember \<in> set rs \<Longrightarrow> NotMember \<in> resolve_as NotMember ` set rs"
    by (auto simp: resolve_as_def image_iff)
  show ?thesis (is "?L \<longleftrightarrow> ?R")
  proof
    assume ?L
    with assms(1,4) eval sub show ?R
      by (auto simp: res split: if_splits dest: resolution_facts(3-6))
  next
    assume R: ?R
    then have "evaluate_qualification mode (map (resolve_as Member) rs) = Inr d"
      "evaluate_qualification mode (map (resolve_as NotMember) rs) = Inr d"
      using ex by blast+
    with assms(1,4) show ?L
      by (auto simp: res ex eval member split: if_splits)
  qed
qed

theorem qualification_exact_witness:
  "evaluate_qualification QualificationAny [IndeterminateMember, NotMember] \<noteq> Inr Ineligible \<and>
   evaluate_qualification QualificationAny [NotMember, Member] = Inr Eligible"
proof -
  have k: "\<forall>r \<in> set [IndeterminateMember, Member]. known_result r" by (simp add: known_result_def)
  have e: "evaluate_qualification QualificationAny [IndeterminateMember, Member] = Inr Eligible"
    by (simp add: evaluate_qualification_def)
  have "list_all2 resolves [IndeterminateMember, Member] [NotMember, Member]"
    by (simp add: resolves_def)
  with e have "evaluate_qualification QualificationAny [NotMember, Member] = Inr Eligible"
    using qualification_exact [OF _ _ k, of QualificationAny Eligible] by blast
  then show ?thesis by (simp add: evaluate_qualification_def)
qed

text \<open>
  The inactivity preview: a result is the sorted list of the Telegram IDs of exactly the
  active accounts with no VPN activity for \<open>d\<close> whole days, each as often as it occurs; the
  threshold 0 switches the rule off.
\<close>

theorem preview_inactive_exact:
  assumes "preview_inactive_accounts accounts now d = Inr ids"
  shows "sorted ids \<and>
         mset ids = mset (if d = 0 then []
           else map aa_telegramID (filter (\<lambda>a. aa_status a = Active \<and>
                  d * day \<le> now - aa_lastVPNActivityAt a) (map the accounts)))"
proof (cases "d = 0")
  case True
  with assms show ?thesis by (simp add: preview_inactive_accounts_def)
next
  case False
  with assms obtain r where d: "0 < d" and r: "preview_loop accounts now d [] = Inr r"
    and ids: "ids = sort r"
    by (auto simp: preview_inactive_accounts_def split: if_splits sum.splits)
  from preview_loop_Inr [OF r] have ok: "\<forall>a \<in> set (map the accounts). is_ok (is_inactive_at now d a)"
    and r': "r = map aa_telegramID (filter (\<lambda>a. is_inactive_at now d a = Inr True) (map the accounts))"
    by (auto, metis option.exhaust_sel)
  have "(is_inactive_at now d a = Inr True) = (aa_status a = Active \<and>
      d * day \<le> now - aa_lastVPNActivityAt a)" if "a \<in> set (map the accounts)" for a
  proof -
    from ok that obtain b where "is_inactive_at now d a = Inr b" by (auto simp: is_ok_iff)
    with is_inactive_at_Inr_True [OF this] d show ?thesis by auto
  qed
  then have "filter (\<lambda>a. is_inactive_at now d a = Inr True) (map the accounts) =
      filter (\<lambda>a. aa_status a = Active \<and> d * day \<le> now - aa_lastVPNActivityAt a) (map the accounts)"
    by (rule filter_cong [OF refl])
  with False r' ids show ?thesis by simp
qed

theorem preview_inactive_exact_witness:
  "preview_inactive_accounts
     [Some (sample_account\<lparr>aa_status := Active, aa_lastVPNActivityAt := 1\<rparr>)] (1 + 2 * day) 2 = Inr [7] \<and>
   sorted [7 :: int]"
proof -
  have p: "preview_inactive_accounts
     [Some (sample_account\<lparr>aa_status := Active, aa_lastVPNActivityAt := 1\<rparr>)] (1 + 2 * day) 2 = Inr [7]"
    by (simp add: preview_inactive_accounts_def is_inactive_at_def go_div_def s64_def sample_account_def)
  show ?thesis using p preview_inactive_exact [OF p] by blast
qed

end
