(* ===== verification/Quota.thy ===== *)
theory Quota
  imports Access
begin

text \<open>
  The shared quota window (\<open>internal/domain/quota.go\<close>) and the accounting of a traffic
  sample against an account and its window (\<open>internal/domain/traffic_accounting.go\<close>).
  Counters are \<open>int64\<close>, so sums and products are wrapped with \<open>s64\<close>.
\<close>

section \<open>Data\<close>

datatype protocol = VLESS | Hysteria2 | TUIC | AnyTLS | OtherProtocol string

datatype address_family = IPv4 | IPv6 | OtherFamily string

record traffic_sample =
  ts_ObservedAt :: go_time
  ts_Protocol :: protocol
  ts_Family :: address_family
  ts_Uplink :: int
  ts_Downlink :: int

record quota_snapshot =
  qs_PeriodStartedAt :: go_time
  qs_UsedBytes :: int
  qs_Blocked :: bool

record quota_window =
  qw_periodStartedAt :: go_time
  qw_limitBytes :: int
  qw_period :: duration
  qw_usedBytes :: int

section \<open>Operations\<close>

definition valid_protocol :: "protocol \<Rightarrow> bool" where
  "valid_protocol p = (case p of OtherProtocol _ \<Rightarrow> False | _ \<Rightarrow> True)"

definition valid_family :: "address_family \<Rightarrow> bool" where
  "valid_family f \<longleftrightarrow> f = IPv4 \<or> f = IPv6"

definition add_non_negative :: "int \<Rightarrow> int \<Rightarrow> int option" where
  "add_non_negative left right =
     (if s64 (max_int64 - left) < right then None else Some (s64 (left + right)))"

definition new_quota_window :: "go_time \<Rightarrow> int \<Rightarrow> duration \<Rightarrow> go_error + quota_window" where
  "new_quota_window start limitBytes period =
     (if start = 0 then Inl (Err ''quota period start is required'')
      else if limitBytes \<le> 0 then Inl (Err ''quota limit must be positive'')
      else if period \<le> 0 then Inl (Err ''quota period must be positive'')
      else Inr \<lparr>qw_periodStartedAt = start, qw_limitBytes = limitBytes,
                 qw_period = period, qw_usedBytes = 0\<rparr>)"

definition restore_quota_window ::
    "go_time \<Rightarrow> int \<Rightarrow> duration \<Rightarrow> int \<Rightarrow> go_error + quota_window" where
  "restore_quota_window start limitBytes period usedBytes =
     (case new_quota_window start limitBytes period of
        Inl e \<Rightarrow> Inl e
      | Inr w \<Rightarrow>
          if usedBytes < 0 then Inl (Err ''quota usage cannot be negative'')
          else Inr (w\<lparr>qw_usedBytes := usedBytes\<rparr>))"

definition quota_snapshot_of :: "quota_window \<Rightarrow> quota_snapshot" where
  "quota_snapshot_of w = \<lparr>qs_PeriodStartedAt = qw_periodStartedAt w, qs_UsedBytes = qw_usedBytes w,
     qs_Blocked = (qw_limitBytes w \<le> qw_usedBytes w)\<rparr>"

definition advance_to :: "go_time \<Rightarrow> quota_window \<Rightarrow> quota_window" where
  "advance_to now w =
     (let elapsed = time_sub now (qw_periodStartedAt w) in
      if qw_period w \<le> elapsed
      then let elapsedPeriods = go_div elapsed (qw_period w)
           in w\<lparr>qw_periodStartedAt := qw_periodStartedAt w + s64 (elapsedPeriods * qw_period w),
                qw_usedBytes := 0\<rparr>
      else w)"

definition record_counters ::
    "go_time \<Rightarrow> int \<Rightarrow> int \<Rightarrow> quota_window \<Rightarrow> (go_error + quota_snapshot) \<times> quota_window" where
  "record_counters observedAt uplink downlink w =
     (if observedAt = 0 \<or> observedAt < qw_periodStartedAt w
      then (Inl (Err ''traffic sample predates the quota period''), w)
      else if uplink < 0 \<or> downlink < 0
      then (Inl (Err ''traffic counters cannot be negative''), w)
      else case add_non_negative uplink downlink of
        None \<Rightarrow> (Inl (Err ''traffic counters overflow''), w)
      | Some sampleBytes \<Rightarrow>
          let w1 = advance_to observedAt w in
          (case add_non_negative (qw_usedBytes w1) sampleBytes of
             None \<Rightarrow> (Inl (Err ''quota usage overflow''), w1)
           | Some usedBytes \<Rightarrow>
               let w2 = w1\<lparr>qw_usedBytes := usedBytes\<rparr>
               in (Inr (quota_snapshot_of w2), w2)))"

definition record_sample ::
    "traffic_sample \<Rightarrow> quota_window \<Rightarrow> (go_error + quota_snapshot) \<times> quota_window" where
  "record_sample sample w =
     (if \<not> valid_protocol (ts_Protocol sample) then (Inl (Err ''traffic protocol is invalid''), w)
      else if \<not> valid_family (ts_Family sample)
      then (Inl (Err ''traffic address family is invalid''), w)
      else record_counters (ts_ObservedAt sample) (ts_Uplink sample) (ts_Downlink sample) w)"

definition record_aggregated ::
    "go_time \<Rightarrow> int \<Rightarrow> int \<Rightarrow> quota_window \<Rightarrow> (go_error + quota_snapshot) \<times> quota_window" where
  "record_aggregated observedAt uplink downlink w = record_counters observedAt uplink downlink w"

definition advance_window :: "go_time \<Rightarrow> quota_window \<Rightarrow> (go_error + quota_snapshot) \<times> quota_window" where
  "advance_window now w =
     (if now = 0 \<or> now < qw_periodStartedAt w
      then (Inl (Err ''quota advancement timestamp is invalid''), w)
      else let w1 = advance_to now w in (Inr (quota_snapshot_of w1), w1))"

definition adjust_limit :: "int \<Rightarrow> quota_window \<Rightarrow> (go_error + quota_snapshot) \<times> quota_window" where
  "adjust_limit limitBytes w =
     (if limitBytes \<le> 0 then (Inl (Err ''quota limit must be positive''), w)
      else let w1 = w\<lparr>qw_limitBytes := limitBytes\<rparr> in (Inr (quota_snapshot_of w1), w1))"

section \<open>Accounting a sample\<close>

record traffic_accounting_change =
  tac_Quota :: quota_snapshot
  tac_RevokeCredentialsImmediately :: bool
  tac_RestoreCredentialsImmediately :: bool

text \<open>
  \<open>recordAccountTraffic\<close> works on copies and stores them only at the end. The pointers are
  options; the recorder is never nil, since both callers pass a function literal.
\<close>

definition record_account_traffic_with ::
    "access_account option \<Rightarrow> quota_window option \<Rightarrow> go_time \<Rightarrow> int \<Rightarrow> int
       \<Rightarrow> (quota_window \<Rightarrow> (go_error + quota_snapshot) \<times> quota_window)
       \<Rightarrow> (go_error + traffic_accounting_change) \<times> access_account option \<times> quota_window option" where
  "record_account_traffic_with account quota observedAt uplink downlink rec =
     (case account of
        None \<Rightarrow> (Inl (Err ''access account is required''), account, quota)
      | Some accountCopy \<Rightarrow>
     (case quota of
        None \<Rightarrow> (Inl (Err ''quota window is required''), account, quota)
      | Some quotaCopy \<Rightarrow>
          let wasBlocked = qs_Blocked (quota_snapshot_of quotaCopy) in
          (case rec quotaCopy of
             (Inl e, _) \<Rightarrow> (Inl e, account, quota)
           | (Inr snap, quotaCopy1) \<Rightarrow>
               (case add_non_negative uplink downlink of
                  None \<Rightarrow> (Inl (Err ''traffic counters overflow''), account, quota)
                | Some sampleBytes \<Rightarrow>
                    let (err, accountCopy1) =
                      (if 0 < sampleBytes
                       then (case record_vpn_activity observedAt sampleBytes accountCopy of
                               (Inl e, a1) \<Rightarrow> (Some e, a1)
                             | (Inr _, a1) \<Rightarrow> (None, a1))
                       else (None, accountCopy))
                    in (case err of
                          Some e \<Rightarrow> (Inl e, account, quota)
                        | None \<Rightarrow>
                            (Inr \<lparr>tac_Quota = snap,
                                  tac_RevokeCredentialsImmediately = (\<not> wasBlocked \<and> qs_Blocked snap),
                                  tac_RestoreCredentialsImmediately = (wasBlocked \<and> \<not> qs_Blocked snap)\<rparr>,
                             Some accountCopy1, Some quotaCopy1))))))"

definition record_account_traffic ::
    "access_account option \<Rightarrow> quota_window option \<Rightarrow> traffic_sample
       \<Rightarrow> (go_error + traffic_accounting_change) \<times> access_account option \<times> quota_window option" where
  "record_account_traffic account quota sample =
     record_account_traffic_with account quota (ts_ObservedAt sample) (ts_Uplink sample)
       (ts_Downlink sample) (record_sample sample)"

definition record_aggregated_account_traffic ::
    "access_account option \<Rightarrow> quota_window option \<Rightarrow> go_time \<Rightarrow> int \<Rightarrow> int
       \<Rightarrow> (go_error + traffic_accounting_change) \<times> access_account option \<times> quota_window option" where
  "record_aggregated_account_traffic account quota observedAt uplink downlink =
     record_account_traffic_with account quota observedAt uplink downlink
       (record_aggregated observedAt uplink downlink)"

section \<open>The window invariant\<close>

definition wf_window :: "quota_window \<Rightarrow> bool" where
  "wf_window w \<longleftrightarrow> qw_periodStartedAt w \<noteq> 0 \<and> 0 < qw_limitBytes w \<and> 0 < qw_period w \<and>
     qw_period w \<le> max_int64 \<and> 0 \<le> qw_usedBytes w \<and> qw_usedBytes w \<le> max_int64"

lemma add_non_negative_exact:
  assumes "0 \<le> l" "l \<le> max_int64" "0 \<le> r" "r \<le> max_int64"
  shows "add_non_negative l r = (if l + r \<le> max_int64 then Some (l + r) else None)"
proof -
  have "s64 (max_int64 - l) = max_int64 - l" using assms by (intro s64_id) simp_all
  moreover have "l + r \<le> max_int64 \<Longrightarrow> s64 (l + r) = l + r" using assms by (intro s64_id) simp_all
  ultimately show ?thesis by (auto simp: add_non_negative_def)
qed

text \<open>The window after \<open>advanceTo\<close>, with its arithmetic done.\<close>

lemma advance_to_exact:
  assumes "wf_window w" and "qw_periodStartedAt w \<le> now" and "now - qw_periodStartedAt w \<le> max_int64"
  shows "advance_to now w =
    (if qw_period w \<le> now - qw_periodStartedAt w
     then w\<lparr>qw_periodStartedAt := now - (now - qw_periodStartedAt w) mod qw_period w, qw_usedBytes := 0\<rparr>
     else w)"
proof -
  let ?e = "now - qw_periodStartedAt w" and ?p = "qw_period w"
  from assms have p: "0 < ?p" and e: "0 \<le> ?e" "?e \<le> max_int64" by (simp_all add: wf_window_def)
  have sub: "time_sub now (qw_periodStartedAt w) = ?e" using e by (intro time_sub_exact) simp_all
  have div: "go_div ?e ?p = ?e div ?p" using p e by (intro go_div_nonneg) simp_all
  have prod: "?e div ?p * ?p = ?e - ?e mod ?p" by (simp add: minus_mod_eq_div_mult)
  have "0 \<le> ?e - ?e mod ?p" "?e - ?e mod ?p \<le> max_int64"
    using p e pos_mod_sign [OF p, of ?e] pos_imp_zdiv_nonneg_iff [OF p, of ?e] prod
    by (metis mult_nonneg_nonneg less_imp_le, linarith)
  then have "s64 (?e div ?p * ?p) = ?e - ?e mod ?p" by (simp add: prod s64_id)
  then show ?thesis by (simp add: advance_to_def Let_def sub div)
qed

lemma advance_to_frame [simp]:
  "qw_limitBytes (advance_to now w) = qw_limitBytes w" "qw_period (advance_to now w) = qw_period w"
  by (simp_all add: advance_to_def Let_def)

text \<open>
  Where the window stands after \<open>advanceTo\<close>: \<open>now\<close> lies in it, it starts a whole number of
  periods after the old start, and usage is kept only if it did not move.
\<close>

lemma advance_to_position:
  assumes wf: "wf_window w" and now: "qw_periodStartedAt w \<le> now" "now \<noteq> 0"
    and near: "now - qw_periodStartedAt w \<le> max_int64"
    and sgn: "0 < qw_periodStartedAt w"
  defines "w' \<equiv> advance_to now w"
  shows "wf_window w'" "qw_periodStartedAt w' \<le> now" "now < qw_periodStartedAt w' + qw_period w'"
    and "qw_period w dvd qw_periodStartedAt w' - qw_periodStartedAt w"
    and "qw_periodStartedAt w \<le> qw_periodStartedAt w'"
    and "w' = w \<or> qw_periodStartedAt w + qw_period w \<le> qw_periodStartedAt w' \<and> qw_usedBytes w' = 0"
proof -
  let ?e = "now - qw_periodStartedAt w" and ?p = "qw_period w"
  from wf have p: "0 < ?p" by (simp add: wf_window_def)
  note ex = advance_to_exact [OF wf now(1) near, folded w'_def]
  have m: "0 \<le> ?e mod ?p" "?e mod ?p < ?p" using p by simp_all
  have d: "?e - ?e mod ?p = ?p * (?e div ?p)" by (simp add: minus_mod_eq_mult_div)
  have far: "?p \<le> ?e - ?e mod ?p" if "?p \<le> ?e"
  proof -
    from that p have "1 \<le> ?e div ?p" by (simp add: pos_imp_zdiv_pos_iff int_one_le_iff_zero_less)
    then have "?p * 1 \<le> ?p * (?e div ?p)" using p by (intro mult_left_mono) simp_all
    with d show ?thesis by simp
  qed
  show "qw_periodStartedAt w \<le> qw_periodStartedAt w'"
    using ex far p by (cases "?p \<le> ?e") auto
  then show "wf_window w'" using wf sgn ex by (auto simp: wf_window_def)
  show "qw_periodStartedAt w' \<le> now" using ex m now by auto
  show "now < qw_periodStartedAt w' + qw_period w'" using ex m p by auto
  have "now - ?e mod ?p - qw_periodStartedAt w = ?p * (?e div ?p)" using d by simp
  then show "?p dvd qw_periodStartedAt w' - qw_periodStartedAt w" using ex by auto
  show "w' = w \<or> qw_periodStartedAt w + ?p \<le> qw_periodStartedAt w' \<and> qw_usedBytes w' = 0"
    using ex far by (cases "?p \<le> ?e") auto
qed


section \<open>Runs of a window\<close>

datatype quota_op =
    QRecord go_time int int
  | QAdvance go_time
  | QAdjustLimit int

text \<open>One call: the time and the bytes of the sample if it was accepted, and the window after it.\<close>

fun quota_step :: "quota_op \<Rightarrow> quota_window \<Rightarrow> (go_time \<times> int) list \<times> quota_window" where
  "quota_step (QRecord t u d) w =
     (case record_counters t u d w of
        (Inr _, w1) \<Rightarrow> ([(t, u + d)], w1) | (Inl _, w1) \<Rightarrow> ([], w1))"
| "quota_step (QAdvance t) w = ([], snd (advance_window t w))"
| "quota_step (QAdjustLimit l) w = ([], snd (adjust_limit l w))"

fun quota_run :: "quota_op list \<Rightarrow> (go_time \<times> int) list \<Rightarrow> quota_window
    \<Rightarrow> (go_time \<times> int) list \<times> quota_window" where
  "quota_run [] acc w = (acc, w)"
| "quota_run (x # xs) acc w = (let (ss, w1) = quota_step x w in quota_run xs (acc @ ss) w1)"

text \<open>The bytes of the samples that fall at or after a time.\<close>

definition bytes_since :: "go_time \<Rightarrow> (go_time \<times> int) list \<Rightarrow> int" where
  "bytes_since start acc = sum_list (map snd (filter (\<lambda>(t, b). start \<le> t) acc))"

lemma bytes_since_append [simp]: "bytes_since s (xs @ ys) = bytes_since s xs + bytes_since s ys"
  by (simp add: bytes_since_def)

lemma bytes_since_single [simp]: "bytes_since s [(t, b)] = (if s \<le> t then b else 0)"
  by (simp add: bytes_since_def)

lemma bytes_since_Nil [simp]: "bytes_since s [] = 0"
  by (simp add: bytes_since_def)

lemma bytes_since_none: "\<forall>(t, b) \<in> set acc. t < s \<Longrightarrow> bytes_since s acc = 0"
  by (induction acc) (auto simp: bytes_since_def)

text \<open>
  Arguments a caller can pass: \<open>int64\<close> counters and limits, and times within the \<open>Duration\<close>
  range (292 years) of the first period start, so that \<open>Sub\<close> does not saturate.
\<close>

fun op_in_range :: "go_time \<Rightarrow> quota_op \<Rightarrow> bool" where
  "op_in_range s (QRecord t u d) = (t \<le> s + max_int64 \<and> u \<le> max_int64 \<and> d \<le> max_int64)"
| "op_in_range s (QAdvance t) = (t \<le> s + max_int64)"
| "op_in_range s (QAdjustLimit l) = (l \<le> max_int64)"

text \<open>The simulation between a window and the list of accepted samples.\<close>

definition quota_inv :: "go_time \<Rightarrow> duration \<Rightarrow> (go_time \<times> int) list \<Rightarrow> quota_window \<Rightarrow> bool" where
  "quota_inv s p acc w \<longleftrightarrow>
     wf_window w \<and> 0 < s \<and> s \<le> qw_periodStartedAt w \<and> qw_period w = p \<and>
     p dvd qw_periodStartedAt w - s \<and>
     (\<forall>(t, b) \<in> set acc. t < qw_periodStartedAt w + p) \<and>
     qw_usedBytes w = bytes_since (qw_periodStartedAt w) acc"

lemma quota_inv_advance:
  assumes inv: "quota_inv s p acc w" and t: "qw_periodStartedAt w \<le> t" "t \<noteq> 0" "t \<le> s + max_int64"
  shows "quota_inv s p acc (advance_to t w)" "qw_periodStartedAt (advance_to t w) \<le> t"
    "t < qw_periodStartedAt (advance_to t w) + p"
proof -
  let ?w' = "advance_to t w"
  from inv have wf: "wf_window w" and s: "0 < qw_periodStartedAt w" "t - qw_periodStartedAt w \<le> max_int64"
    and p: "qw_period w = p" using t by (auto simp: quota_inv_def)
  note pos = advance_to_position [OF wf t(1,2) s(2,1)]
  show "qw_periodStartedAt ?w' \<le> t" and "t < qw_periodStartedAt ?w' + p"
    using pos(2,3) p by simp_all
  have "p dvd qw_periodStartedAt ?w' - s"
  proof -
    have "p dvd (qw_periodStartedAt ?w' - qw_periodStartedAt w) + (qw_periodStartedAt w - s)"
      using inv pos(4) p by (intro dvd_add) (auto simp: quota_inv_def)
    then show ?thesis by simp
  qed
  moreover have "bytes_since (qw_periodStartedAt ?w') acc = qw_usedBytes ?w'"
  proof (cases "?w' = w")
    case True
    with inv show ?thesis by (simp add: quota_inv_def)
  next
    case False
    with pos(6) p have far: "qw_periodStartedAt w + p \<le> qw_periodStartedAt ?w'" "qw_usedBytes ?w' = 0"
      by auto
    with inv have "\<forall>(t, b) \<in> set acc. t < qw_periodStartedAt ?w'" by (fastforce simp: quota_inv_def)
    with far show ?thesis by (simp add: bytes_since_none)
  qed
  moreover have "\<forall>(t, b) \<in> set acc. t < qw_periodStartedAt ?w' + p"
    using pos(5) inv by (fastforce simp: quota_inv_def)
  ultimately show "quota_inv s p acc ?w'" using inv pos(1,5) p by (auto simp: quota_inv_def)
qed

lemma quota_inv_step:
  assumes inv: "quota_inv s p acc w" and rng: "op_in_range s x"
  shows "quota_inv s p (acc @ fst (quota_step x w)) (snd (quota_step x w))"
proof (cases x)
  case (QRecord t u d)
  show ?thesis
  proof (cases "t = 0 \<or> t < qw_periodStartedAt w \<or> u < 0 \<or> d < 0 \<or> max_int64 < u + d")
    case True
    with QRecord inv rng show ?thesis
      by (auto simp: record_counters_def add_non_negative_exact)
  next
    case False
    with rng QRecord have t: "qw_periodStartedAt w \<le> t" "t \<noteq> 0" "t \<le> s + max_int64"
      and sum: "add_non_negative u d = Some (u + d)" "0 \<le> u + d" "u + d \<le> max_int64"
      by (auto simp: add_non_negative_exact)
    let ?w = "advance_to t w"
    note adv = quota_inv_advance [OF inv t]
    from adv(1) have "0 \<le> qw_usedBytes ?w" "qw_usedBytes ?w \<le> max_int64"
      by (simp_all add: quota_inv_def wf_window_def)
    note add = add_non_negative_exact [OF this sum(2,3)]
    have step: "quota_step x w = (if qw_usedBytes ?w + (u + d) \<le> max_int64
        then ([(t, u + d)], ?w\<lparr>qw_usedBytes := qw_usedBytes ?w + (u + d)\<rparr>) else ([], ?w))"
      using False QRecord sum add by (simp add: record_counters_def Let_def)
    show ?thesis
      unfolding step using adv sum(2) by (auto simp: quota_inv_def wf_window_def)
  qed
next
  case (QAdvance t)
  with inv rng quota_inv_advance(1) [OF inv, of t] show ?thesis
    by (auto simp: advance_window_def Let_def)
next
  case (QAdjustLimit l)
  with inv show ?thesis by (auto simp: adjust_limit_def quota_inv_def wf_window_def Let_def)
qed

lemma quota_inv_run:
  "quota_inv s p acc w \<Longrightarrow> \<forall>x \<in> set xs. op_in_range s x \<Longrightarrow>
     quota_inv s p (fst (quota_run xs acc w)) (snd (quota_run xs acc w))"
proof (induction xs arbitrary: acc w)
  case Nil
  then show ?case by simp
next
  case (Cons x xs)
  from quota_inv_step [OF Cons.prems(1), of x] Cons.prems(2)
  have "quota_inv s p (acc @ fst (quota_step x w)) (snd (quota_step x w))" by simp
  from Cons.IH [OF this] Cons.prems(2) show ?case by (simp add: case_prod_unfold Let_def)
qed

section \<open>Atomic accounting\<close>

lemma record_counters_error_window:
  "fst (record_counters t u d w) = Inl e \<Longrightarrow>
     snd (record_counters t u d w) = w \<or> snd (record_counters t u d w) = advance_to t w"
  by (auto simp: record_counters_def Let_def split: if_splits option.splits)

lemma record_counters_Inr:
  assumes "record_counters t u d w = (Inr snap, w')"
  shows "snap = quota_snapshot_of w' \<and> t \<noteq> 0 \<and> qw_periodStartedAt w \<le> t \<and> 0 \<le> u \<and> 0 \<le> d \<and>
         qw_limitBytes w' = qw_limitBytes w"
  using assms by (auto simp: record_counters_def Let_def split: if_splits option.splits)

lemma record_aggregated_account_traffic_Inl:
  "fst (record_aggregated_account_traffic acc q t u d) = Inl e \<Longrightarrow>
     snd (record_aggregated_account_traffic acc q t u d) = (acc, q)"
  by (auto simp: record_aggregated_account_traffic_def record_account_traffic_with_def Let_def
      split: option.splits prod.splits sum.splits if_splits)

lemma record_aggregated_account_traffic_Inr:
  assumes "record_aggregated_account_traffic (Some a) (Some q) t u d = (Inr c, acc', q')"
  obtains w' a' where "record_counters t u d q = (Inr (tac_Quota c), w')" "q' = Some w'" "acc' = Some a'"
    "a' = a\<lparr>aa_lastVPNActivityAt := aa_lastVPNActivityAt a'\<rparr>"
    "tac_RevokeCredentialsImmediately c =
       (\<not> qs_Blocked (quota_snapshot_of q) \<and> qs_Blocked (tac_Quota c))"
    "tac_RestoreCredentialsImmediately c =
       (qs_Blocked (quota_snapshot_of q) \<and> \<not> qs_Blocked (tac_Quota c))"
    "a' = a \<or> aa_status a = Active \<and> aa_lastVPNActivityAt a' = t \<and> aa_lastVPNActivityAt a \<le> t"
  using assms
  by (auto simp: record_aggregated_account_traffic_def record_account_traffic_with_def Let_def
      record_aggregated_def record_vpn_activity_def
      split: option.splits prod.splits sum.splits if_splits)

section \<open>Properties\<close>



text \<open>
  Accounting a sample is all or nothing: on every error the account and the window are
  unchanged, although \<open>recordCounters\<close> itself advances the window before it reports a usage
  overflow.
\<close>

theorem accounting_error_changes_nothing:
  assumes "record_aggregated_account_traffic acc q t u d = (Inl e, acc', q')"
  shows "acc' = acc \<and> q' = q"
  using record_aggregated_account_traffic_Inl [of acc q t u d e] assms by simp

theorem accounting_error_changes_nothing_witness:
  "let w = \<lparr>qw_periodStartedAt = 10, qw_limitBytes = 9, qw_period = 10, qw_usedBytes = 0\<rparr> in
   record_aggregated_account_traffic (Some sample_account) (Some w) 35 1 1 =
     (Inl (Err ''VPN activity requires active access''), Some sample_account, Some w) \<and>
   snd (record_counters 35 1 1 w) \<noteq> w"
proof -
  let ?w = "\<lparr>qw_periodStartedAt = 10, qw_limitBytes = 9, qw_period = 10, qw_usedBytes = 0\<rparr>"
  have rc: "record_counters 35 1 1 ?w =
      (Inr \<lparr>qs_PeriodStartedAt = 30, qs_UsedBytes = 2, qs_Blocked = False\<rparr>,
       ?w\<lparr>qw_periodStartedAt := 30, qw_usedBytes := 2\<rparr>)"
    by (simp add: record_counters_def add_non_negative_def advance_to_def time_sub_def go_div_def
        s64_def Let_def quota_snapshot_of_def)
  have r: "record_aggregated_account_traffic (Some sample_account) (Some ?w) 35 1 1 =
      (Inl (Err ''VPN activity requires active access''), Some sample_account, Some ?w)"
    by (simp add: record_aggregated_account_traffic_def record_account_traffic_with_def
        record_aggregated_def rc add_non_negative_def s64_def Let_def record_vpn_activity_def
        sample_account_def)
  show ?thesis
    using r rc accounting_error_changes_nothing [OF r] by (simp add: Let_def)
qed

text \<open>
  An accounted sample asks for a revocation exactly when it takes an open window over its
  limit and for a restoration exactly when it reopens a blocked one, never for both; an
  \<open>int64\<close> sample that stays in the period never reopens it; and the account changes in its
  last-activity time at most.
\<close>

theorem accounting_transitions:
  assumes "record_aggregated_account_traffic (Some a) (Some q) t u d = (Inr c, Some a', Some q')"
    and "wf_window q" and "u \<le> max_int64" and "d \<le> max_int64"
  shows "tac_RevokeCredentialsImmediately c = (qw_usedBytes q < qw_limitBytes q \<and> qw_limitBytes q \<le> qw_usedBytes q') \<and>
         tac_RestoreCredentialsImmediately c = (qw_limitBytes q \<le> qw_usedBytes q \<and> qw_usedBytes q' < qw_limitBytes q) \<and>
         \<not> (tac_RevokeCredentialsImmediately c \<and> tac_RestoreCredentialsImmediately c) \<and>
         (time_sub t (qw_periodStartedAt q) < qw_period q \<longrightarrow> \<not> tac_RestoreCredentialsImmediately c) \<and>
         a' = a\<lparr>aa_lastVPNActivityAt := aa_lastVPNActivityAt a'\<rparr>"
proof -
  from assms(1) obtain rc: "record_counters t u d q = (Inr (tac_Quota c), q')"
    and a': "a' = a\<lparr>aa_lastVPNActivityAt := aa_lastVPNActivityAt a'\<rparr>"
    and rv: "tac_RevokeCredentialsImmediately c = (\<not> qs_Blocked (quota_snapshot_of q) \<and> qs_Blocked (tac_Quota c))"
    and rs: "tac_RestoreCredentialsImmediately c = (qs_Blocked (quota_snapshot_of q) \<and> \<not> qs_Blocked (tac_Quota c))"
    by (rule record_aggregated_account_traffic_Inr) auto
  note inr = record_counters_Inr [OF rc]
  have stay: "qw_usedBytes q \<le> qw_usedBytes q'" if "time_sub t (qw_periodStartedAt q) < qw_period q"
  proof -
    have "advance_to t q = q" using that by (simp add: advance_to_def Let_def)
    with rc inr assms(2-4) show ?thesis
      by (auto simp: record_counters_def Let_def wf_window_def add_non_negative_exact
          split: if_splits option.splits)
  qed
  show ?thesis
    using rv rs inr a' stay by (auto simp: quota_snapshot_of_def not_le)
qed

theorem accounting_transitions_witness:
  "\<exists>c a' q'. record_aggregated_account_traffic (Some (sample_account\<lparr>aa_status := Active\<rparr>))
       (Some \<lparr>qw_periodStartedAt = 10, qw_limitBytes = 9, qw_period = 10, qw_usedBytes = 4\<rparr>) 12 3 2
     = (Inr c, Some a', Some q') \<and> tac_RevokeCredentialsImmediately c \<and> 9 \<le> qw_usedBytes q'"
proof -
  let ?q = "\<lparr>qw_periodStartedAt = 10, qw_limitBytes = 9, qw_period = 10, qw_usedBytes = 4\<rparr>"
  let ?a = "sample_account\<lparr>aa_status := Active\<rparr>"
  have r: "record_aggregated_account_traffic (Some ?a) (Some ?q) 12 3 2 =
     (Inr \<lparr>tac_Quota = \<lparr>qs_PeriodStartedAt = 10, qs_UsedBytes = 9, qs_Blocked = True\<rparr>,
        tac_RevokeCredentialsImmediately = True, tac_RestoreCredentialsImmediately = False\<rparr>,
      Some (?a\<lparr>aa_lastVPNActivityAt := 12\<rparr>), Some (?q\<lparr>qw_usedBytes := 9\<rparr>))"
    by (simp add: record_aggregated_account_traffic_def record_account_traffic_with_def
        record_aggregated_def record_counters_def add_non_negative_def advance_to_def time_sub_def
        go_div_def s64_def Let_def record_vpn_activity_def sample_account_def quota_snapshot_of_def)
  have "wf_window ?q" by (simp add: wf_window_def)
  from accounting_transitions [OF r this] have "tac_RevokeCredentialsImmediately
      \<lparr>tac_Quota = \<lparr>qs_PeriodStartedAt = 10, qs_UsedBytes = 9, qs_Blocked = True\<rparr>,
       tac_RevokeCredentialsImmediately = True, tac_RestoreCredentialsImmediately = False\<rparr>" by simp
  with r show ?thesis by fastforce
qed

end
