(* ===== verification/Vpn_Tables.thy ===== *)
theory Vpn_Tables
  imports Quota Database "HOL-Library.AList"
begin

text \<open>
  The tables of the VPN domain (\<open>internal/postgres/migrations\<close>): users, credential bundles,
  quota windows, the traffic health singleton, the outbox of core actions, and the statements
  that several stores share. A table with a primary key is an association list; a \<open>CHECK\<close>
  constraint is a predicate that a statement has to respect. Timestamps are kept exactly (the
  columns keep microseconds); \<open>NOW()\<close> is the field \<open>db_clock\<close>. The columns \<open>created_at\<close> and
  \<open>updated_at\<close>, which nothing modelled here reads, are left out.
\<close>

section \<open>Rows\<close>

datatype core_action_type = CoreActionRevoke | CoreActionReconcile | OtherCoreAction string

record vpn_user_row =
  vu_eligible :: bool
  vu_status :: access_status
  vu_credential_generation :: int
  vu_period_started_at :: "go_time option"
  vu_last_vpn_activity_at :: "go_time option"

record sealed_bundle =
  sb_SubscriptionTokenDigest :: "8 word list"
  sb_Nonce :: "8 word list"
  sb_Ciphertext :: "8 word list"

record bundle_row =
  br_generation :: int
  br_sealed :: sealed_bundle

record quota_row =
  qr_period_started_at :: go_time
  qr_period_seconds :: int
  qr_limit_bytes :: int
  qr_used_bytes :: int
  qr_blocked :: bool

record traffic_health_row =
  th_fail_closed :: bool
  th_failure_started_at :: "go_time option"
  th_failure_stage :: "string option"
  th_last_notified_at :: "go_time option"

record outbox_row =
  ob_id :: int
  ob_telegram_id :: int
  ob_action :: core_action_type
  ob_attempts :: int
  ob_available_at :: go_time
  ob_last_error :: string
  ob_completed_at :: "go_time option"

record settings_row =
  st_mode :: string
  st_recheck_interval_minutes :: int
  st_inactivity_threshold_days :: int
  st_quota_limit_bytes :: int
  st_quota_period_seconds :: int
  st_recheck_requests_per_second :: int
  st_recheck_batch_size :: int

record rule_row =
  ru_chat_type :: string
  ru_title :: string
  ru_enabled :: bool
  ru_bot_admin_verified_at :: "go_time option"

text \<open>A sealed value is its nonce and its ciphertext; \<open>None\<close> where the columns are null.\<close>

record tls_row =
  tr_configured :: bool
  tr_mode :: string
  tr_domain :: string
  tr_challenge :: string
  tr_email :: string
  tr_ca_directory_urls :: "string list"
  tr_terms_accepted :: bool
  tr_duckdns_token :: "(8 word list \<times> 8 word list) option"
  tr_state :: string
  tr_certificate_expires_at :: "go_time option"
  tr_last_issued_ca :: string
  tr_last_failure_at :: "go_time option"
  tr_last_failure_reason :: string

record core_settings_row =
  cr_configured :: bool
  cr_listen_ipv4 :: "string option"
  cr_listen_ipv6 :: "string option"
  cr_vless_port :: int
  cr_hysteria2_port :: int
  cr_tuic_port :: int
  cr_anytls_port :: int
  cr_tls_server_name :: string
  cr_tls_certificate_path :: string
  cr_tls_key_path :: string
  cr_reality_server :: string
  cr_reality_server_port :: int
  cr_reality_private_key :: "8 word list \<times> 8 word list"
  cr_reality_short_id :: string
  cr_stats_listen :: string
  cr_allow_ipv4_outbound :: bool

text \<open>The rows that the migrations insert.\<close>

definition settings_defaults :: settings_row where
  "settings_defaults = \<lparr>st_mode = ''any'', st_recheck_interval_minutes = 60, st_inactivity_threshold_days = 0,
     st_quota_limit_bytes = 50000000000, st_quota_period_seconds = 2592000,
     st_recheck_requests_per_second = 10, st_recheck_batch_size = 50\<rparr>"

definition tls_defaults :: tls_row where
  "tls_defaults = \<lparr>tr_configured = False, tr_mode = ''custom'', tr_domain = '''', tr_challenge = ''http_01'',
     tr_email = '''', tr_ca_directory_urls = [], tr_terms_accepted = False, tr_duckdns_token = None,
     tr_state = ''unissued'', tr_certificate_expires_at = None, tr_last_issued_ca = '''',
     tr_last_failure_at = None, tr_last_failure_reason = ''''\<rparr>"

definition core_settings_defaults :: core_settings_row where
  "core_settings_defaults = \<lparr>cr_configured = False, cr_listen_ipv4 = None, cr_listen_ipv6 = None,
     cr_vless_port = 443, cr_hysteria2_port = 443, cr_tuic_port = 8443, cr_anytls_port = 8443,
     cr_tls_server_name = '''', cr_tls_certificate_path = '''', cr_tls_key_path = '''',
     cr_reality_server = '''', cr_reality_server_port = 443, cr_reality_private_key = ([], []),
     cr_reality_short_id = '''', cr_stats_listen = ''127.0.0.1:10085'', cr_allow_ipv4_outbound = False\<rparr>"

text \<open>An audit event keeps the actor (\<open>0\<close> for none), the action and the target user.\<close>

record vpn_db =
  vpn_users :: "(int \<times> vpn_user_row) list"
  credential_bundles :: "(int \<times> bundle_row) list"
  quota_windows :: "(int \<times> quota_row) list"
  traffic_health :: traffic_health_row
  core_action_outbox :: "outbox_row list"
  outbox_next_id :: int
  traffic_ingestion_batches :: "string list"
  qualification_settings :: settings_row
  qualification_rules :: "(int \<times> rule_row) list"
  tls_settings :: tls_row
  core_settings_table :: core_settings_row
  audit_events :: "(int \<times> string \<times> int) list"
  db_clock :: go_time

abbreviation "constraint_violated \<equiv> Err ''constraint violation''"
abbreviation "ErrNoRows \<equiv> Sentinel ''no rows in result set''"

section \<open>Constraints\<close>

definition user_row_ok :: "vpn_user_row \<Rightarrow> bool" where
  "user_row_ok row \<longleftrightarrow>
     (case vu_status row of OtherStatus _ \<Rightarrow> False | _ \<Rightarrow> True) \<and>
     0 \<le> vu_credential_generation row \<and>
     ((vu_credential_generation row = 0 \<and> vu_period_started_at row = None \<and> vu_last_vpn_activity_at row = None) \<or>
      (0 < vu_credential_generation row \<and> vu_period_started_at row \<noteq> None \<and> vu_last_vpn_activity_at row \<noteq> None)) \<and>
     (case (vu_last_vpn_activity_at row, vu_period_started_at row) of
        (Some activity, Some period) \<Rightarrow> period \<le> activity | _ \<Rightarrow> True)"

definition quota_row_ok :: "quota_row \<Rightarrow> bool" where
  "quota_row_ok row \<longleftrightarrow> 0 < qr_period_seconds row \<and> 0 < qr_limit_bytes row \<and> 0 \<le> qr_used_bytes row \<and>
     qr_blocked row = (qr_limit_bytes row \<le> qr_used_bytes row)"

section \<open>Statements on one table\<close>

text \<open>\<open>UPDATE vpn_users SET ... WHERE telegram_id = i\<close>; no row is no error.\<close>

definition update_user :: "int \<Rightarrow> (vpn_user_row \<Rightarrow> vpn_user_row) \<Rightarrow> (vpn_db, unit) call" where
  "update_user i f d =
     (case map_of (vpn_users d) i of
        None \<Rightarrow> (Inr (), d)
      | Some row \<Rightarrow>
          if user_row_ok (f row) then (Inr (), d\<lparr>vpn_users := AList.update i (f row) (vpn_users d)\<rparr>)
          else (Inl constraint_violated, d))"

definition update_quota :: "int \<Rightarrow> (quota_row \<Rightarrow> quota_row) \<Rightarrow> (vpn_db, unit) call" where
  "update_quota i f d =
     (case map_of (quota_windows d) i of
        None \<Rightarrow> (Inr (), d)
      | Some row \<Rightarrow>
          if quota_row_ok (f row) then (Inr (), d\<lparr>quota_windows := AList.update i (f row) (quota_windows d)\<rparr>)
          else (Inl constraint_violated, d))"

text \<open>
  \<open>INSERT INTO core_action_outbox ... ON CONFLICT (telegram_id, action) WHERE completed_at IS
  NULL DO NOTHING\<close>.
\<close>

definition is_open :: "int \<Rightarrow> core_action_type \<Rightarrow> outbox_row \<Rightarrow> bool" where
  "is_open i action row \<longleftrightarrow>
     ob_telegram_id row = i \<and> ob_action row = action \<and> ob_completed_at row = None"

definition queue_action :: "core_action_type \<Rightarrow> go_time \<Rightarrow> int \<Rightarrow> vpn_db \<Rightarrow> vpn_db" where
  "queue_action action at i d =
     (if list_ex (is_open i action) (core_action_outbox d) then d
      else d\<lparr>core_action_outbox := core_action_outbox d @
               [\<lparr>ob_id = outbox_next_id d, ob_telegram_id = i, ob_action = action, ob_attempts = 0,
                 ob_available_at = at, ob_last_error = '''', ob_completed_at = None\<rparr>],
             outbox_next_id := outbox_next_id d + 1\<rparr>)"

definition queue_actions :: "core_action_type \<Rightarrow> go_time \<Rightarrow> int list \<Rightarrow> vpn_db \<Rightarrow> vpn_db" where
  "queue_actions action at is d = fold (queue_action action at) is d"

definition record_audit :: "int \<Rightarrow> string \<Rightarrow> int \<Rightarrow> vpn_db \<Rightarrow> vpn_db" where
  "record_audit actor action target d = d\<lparr>audit_events := audit_events d @ [(actor, action, target)]\<rparr>"

text \<open>\<open>lockAccessSnapshot\<close>: a null timestamp is the zero time.\<close>

definition null_time :: "go_time option \<Rightarrow> go_time" where
  "null_time t = (case t of None \<Rightarrow> 0 | Some x \<Rightarrow> x)"

definition nullable_time :: "go_time \<Rightarrow> go_time option" where
  "nullable_time t = (if t = 0 then None else Some t)"

definition lock_access_snapshot :: "int \<Rightarrow> (vpn_db \<times> faults, access_snapshot) call" where
  "lock_access_snapshot i =
     and_then (wrapping ''lock VPN user'' (statement (\<lambda>d.
         (case map_of (vpn_users d) i of None \<Rightarrow> Inl ErrNoRows | Some row \<Rightarrow> Inr row, d))))
       (\<lambda>row. if vu_credential_generation row < 0
              then fail_with (Err ''persisted credential generation is invalid'')
              else ok \<lparr>as_TelegramID = i, as_Eligible = vu_eligible row, as_Status = vu_status row,
                       as_CredentialGeneration = word_of_int (vu_credential_generation row),
                       as_PeriodStartedAt = null_time (vu_period_started_at row),
                       as_LastVPNActivityAt = null_time (vu_last_vpn_activity_at row)\<rparr>)"

section \<open>Who is served\<close>

text \<open>
  The users the core is to be configured with, as \<open>CredentialStore.ListActive\<close> selects them:
  an active, eligible user with a bundle and an unblocked quota window, while traffic is not
  failing closed and the certificate is good.
\<close>

definition live :: "vpn_user_row option \<Rightarrow> bool" where
  "live user \<longleftrightarrow> (case user of None \<Rightarrow> False | Some row \<Rightarrow> vu_status row = Active \<and> vu_eligible row)"

definition unblocked :: "quota_row option \<Rightarrow> bool" where
  "unblocked quota \<longleftrightarrow> (case quota of None \<Rightarrow> False | Some row \<Rightarrow> \<not> qr_blocked row)"

definition unexpired :: "go_time \<Rightarrow> go_time option \<Rightarrow> bool" where
  "unexpired now t = (case t of None \<Rightarrow> False | Some expiry \<Rightarrow> now < expiry)"

definition admitting :: "vpn_db \<Rightarrow> bool" where
  "admitting d \<longleftrightarrow> \<not> th_fail_closed (traffic_health d) \<and> tr_state (tls_settings d) = ''issued'' \<and>
     unexpired (db_clock d) (tr_certificate_expires_at (tls_settings d))"

definition servable :: "vpn_db \<Rightarrow> int \<Rightarrow> bool" where
  "servable d i \<longleftrightarrow> live (map_of (vpn_users d) i) \<and> unblocked (map_of (quota_windows d) i) \<and> admitting d"

definition serves :: "vpn_db \<Rightarrow> int \<Rightarrow> bundle_row option" where
  "serves d i = (if servable d i then map_of (credential_bundles d) i else None)"

definition has_open :: "vpn_db \<Rightarrow> core_action_type \<Rightarrow> int \<Rightarrow> bool" where
  "has_open d action i \<longleftrightarrow> list_ex (is_open i action) (core_action_outbox d)"

text \<open>
  What the core has to be told: a user who is no longer served needs an open revocation, one
  who is newly served, or with another bundle, an open reconciliation.
\<close>

definition announced :: "vpn_db \<Rightarrow> vpn_db \<Rightarrow> bool" where
  "announced d d' \<longleftrightarrow>
     (\<forall>i. serves d' i \<noteq> serves d i \<longrightarrow>
        (case serves d' i of None \<Rightarrow> has_open d' CoreActionRevoke i
         | Some _ \<Rightarrow> has_open d' CoreActionReconcile i))"

definition open_action :: "vpn_db \<Rightarrow> int \<Rightarrow> bool" where
  "open_action d k \<longleftrightarrow> (\<exists>row \<in> set (core_action_outbox d). ob_id row = k \<and> ob_completed_at row = None)"

text \<open>
  Nothing that was open is closed, the keys of the quota windows and the bundles stay keys, and
  the core settings are left alone.
\<close>

definition keeps_open :: "vpn_db \<Rightarrow> vpn_db \<Rightarrow> bool" where
  "keeps_open d d' \<longleftrightarrow> (\<forall>action i. has_open d action i \<longrightarrow> has_open d' action i) \<and>
     (\<forall>k. open_action d k \<longrightarrow> open_action d' k) \<and>
     (distinct (map fst (quota_windows d)) \<longrightarrow> distinct (map fst (quota_windows d'))) \<and>
     (distinct (map fst (credential_bundles d)) \<longrightarrow> distinct (map fst (credential_bundles d'))) \<and>
     core_settings_table d' = core_settings_table d"

lemma announced_refl [simp]: "announced d d"
  by (simp add: announced_def)

lemma keeps_open_refl [simp]: "keeps_open d d"
  by (simp add: keeps_open_def)

lemma keeps_open_trans: "keeps_open d d' \<Longrightarrow> keeps_open d' d'' \<Longrightarrow> keeps_open d d''"
  by (simp add: keeps_open_def)

lemma announced_trans:
  "announced d d' \<Longrightarrow> announced d' d'' \<Longrightarrow> keeps_open d' d'' \<Longrightarrow> announced d d''"
  unfolding announced_def keeps_open_def by (smt (verit, del_insts) option.case_eq_if)

lemma has_open_queue_action:
  "has_open (queue_action action at i d) action' i' \<longleftrightarrow>
     has_open d action' i' \<or> (action' = action \<and> i' = i)"
  by (auto simp: has_open_def queue_action_def is_open_def list_ex_iff)

lemma open_action_queue: "open_action d k \<Longrightarrow> open_action (queue_action action at i d) k"
  by (auto simp: open_action_def queue_action_def)

lemma queue_action_frame [simp]:
  "vpn_users (queue_action action at i d) = vpn_users d"
  "credential_bundles (queue_action action at i d) = credential_bundles d"
  "quota_windows (queue_action action at i d) = quota_windows d"
  "traffic_health (queue_action action at i d) = traffic_health d"
  "traffic_ingestion_batches (queue_action action at i d) = traffic_ingestion_batches d"
  "qualification_settings (queue_action action at i d) = qualification_settings d"
  "qualification_rules (queue_action action at i d) = qualification_rules d"
  "tls_settings (queue_action action at i d) = tls_settings d"
  "core_settings_table (queue_action action at i d) = core_settings_table d"
  "audit_events (queue_action action at i d) = audit_events d"
  "db_clock (queue_action action at i d) = db_clock d"
  by (simp_all add: queue_action_def)

lemma queue_actions_simps:
  "queue_actions action at [] d = d"
  "queue_actions action at (i # is) d = queue_actions action at is (queue_action action at i d)"
  by (simp_all add: queue_actions_def)

lemma queue_actions_frame [simp]:
  "vpn_users (queue_actions action at is d) = vpn_users d"
  "credential_bundles (queue_actions action at is d) = credential_bundles d"
  "quota_windows (queue_actions action at is d) = quota_windows d"
  "traffic_health (queue_actions action at is d) = traffic_health d"
  "traffic_ingestion_batches (queue_actions action at is d) = traffic_ingestion_batches d"
  "qualification_settings (queue_actions action at is d) = qualification_settings d"
  "qualification_rules (queue_actions action at is d) = qualification_rules d"
  "tls_settings (queue_actions action at is d) = tls_settings d"
  "core_settings_table (queue_actions action at is d) = core_settings_table d"
  "audit_events (queue_actions action at is d) = audit_events d"
  "db_clock (queue_actions action at is d) = db_clock d"
  by (induction "is" arbitrary: d) (simp_all add: queue_actions_simps)

lemma has_open_queue_actions:
  "has_open (queue_actions action at is d) action' i' \<longleftrightarrow>
     has_open d action' i' \<or> (action' = action \<and> i' \<in> set is)"
  by (induction "is" arbitrary: d) (auto simp: queue_actions_simps has_open_queue_action)

lemma open_action_queues: "open_action d k \<Longrightarrow> open_action (queue_actions action at is d) k"
  by (induction "is" arbitrary: d) (auto simp: queue_actions_simps open_action_queue)

lemma record_audit_frame [simp]:
  "open_action (record_audit a x t d) k = open_action d k"
  "credential_bundles (record_audit a x t d) = credential_bundles d"
  "core_settings_table (record_audit a x t d) = core_settings_table d"
  "serves (record_audit a x t d) i = serves d i" "has_open (record_audit a x t d) action i = has_open d action i"
  "core_action_outbox (record_audit a x t d) = core_action_outbox d"
  "quota_windows (record_audit a x t d) = quota_windows d"
  by (simp_all add: record_audit_def serves_def servable_def admitting_def has_open_def open_action_def)

lemma keeps_open_tables:
  "core_action_outbox d' = core_action_outbox d \<Longrightarrow> core_settings_table d' = core_settings_table d \<Longrightarrow>
     (distinct (map fst (quota_windows d)) \<Longrightarrow> distinct (map fst (quota_windows d'))) \<Longrightarrow>
     (distinct (map fst (credential_bundles d)) \<Longrightarrow> distinct (map fst (credential_bundles d'))) \<Longrightarrow>
     keeps_open d d'"
  by (simp add: keeps_open_def has_open_def open_action_def)

lemma keeps_open_queue:
  "keeps_open d d' \<Longrightarrow> keeps_open d (queue_action action at i d')"
  "keeps_open d d' \<Longrightarrow> keeps_open d (queue_actions action at is d')"
  "keeps_open d d' \<Longrightarrow> keeps_open d (record_audit a x t d')"
  by (auto simp: keeps_open_def has_open_queue_action has_open_queue_actions open_action_queue open_action_queues)

lemma serves_queue [simp]:
  "serves (queue_action action at j d) i = serves d i"
  "serves (queue_actions action at js d) i = serves d i"
  by (simp_all add: serves_def servable_def admitting_def)

text \<open>One user's rows changed, and what that calls for is queued.\<close>

lemma announced_one:
  assumes "\<And>j. j \<noteq> i \<Longrightarrow> serves d' j = serves d j"
    and "serves d' i = None \<Longrightarrow> serves d i \<noteq> None \<Longrightarrow> has_open d' CoreActionRevoke i"
    and "serves d' i \<noteq> None \<Longrightarrow> serves d' i \<noteq> serves d i \<Longrightarrow> has_open d' CoreActionReconcile i"
  shows "announced d d'"
  unfolding announced_def using assms by (metis option.case_eq_if)

lemma serves_users:
  "serves (d\<lparr>vpn_users := us\<rparr>) j =
     (if live (map_of us j) \<and> unblocked (map_of (quota_windows d) j) \<and> admitting d
      then map_of (credential_bundles d) j else None)"
  by (simp add: serves_def servable_def admitting_def)

lemma serves_alt:
  "serves d j =
     (if live (map_of (vpn_users d) j) \<and> unblocked (map_of (quota_windows d) j) \<and> admitting d
      then map_of (credential_bundles d) j else None)"
  by (simp add: serves_def servable_def)

lemma update_user_Inr:
  "update_user i f d = (Inr u, d') \<Longrightarrow>
     (map_of (vpn_users d) i = None \<and> d' = d) \<or>
     (\<exists>row. map_of (vpn_users d) i = Some row \<and> user_row_ok (f row) \<and>
        d' = d\<lparr>vpn_users := AList.update i (f row) (vpn_users d)\<rparr>)"
  by (auto simp: update_user_def split: option.splits if_splits)

lemma update_quota_Inr:
  "update_quota i f d = (Inr u, d') \<Longrightarrow>
     (map_of (quota_windows d) i = None \<and> d' = d) \<or>
     (\<exists>row. map_of (quota_windows d) i = Some row \<and> quota_row_ok (f row) \<and>
        d' = d\<lparr>quota_windows := AList.update i (f row) (quota_windows d)\<rparr>)"
  by (auto simp: update_quota_def split: option.splits if_splits)

lemma lock_access_snapshot_Inr:
  assumes "lock_access_snapshot i s = (Inr snap, s')"
  shows "fst s' = fst s \<and> (\<exists>row. map_of (vpn_users (fst s)) i = Some row \<and>
    0 \<le> vu_credential_generation row \<and>
    snap = \<lparr>as_TelegramID = i, as_Eligible = vu_eligible row, as_Status = vu_status row,
            as_CredentialGeneration = word_of_int (vu_credential_generation row),
            as_PeriodStartedAt = null_time (vu_period_started_at row),
            as_LastVPNActivityAt = null_time (vu_last_vpn_activity_at row)\<rparr>)"
  using assms
  by (auto simp: lock_access_snapshot_def and_then_Inr dest!: statement_InrD
      split: option.splits if_splits)

text \<open>A transaction whose operation announces what it changes does so under any faults.\<close>

definition announcing :: "(vpn_db \<times> faults, 'a) call \<Rightarrow> bool" where
  "announcing operation \<longleftrightarrow>
     (\<forall>s x s'. operation s = (Inr x, s') \<longrightarrow> announced (fst s) (fst s') \<and> keeps_open (fst s) (fst s'))"

lemma announcing_transaction:
  assumes "announcing operation" and "run_in_transaction operation (d, fs) = (r, (d', fs'))"
  shows "announced d d' \<and> keeps_open d d'"
  using transaction_outcome [OF assms(2)] assms(1) by (fastforce simp: announcing_def)

lemma announcing_run:
  assumes "announcing operation"
  shows "announced (fst s) (fst (snd (run_in_transaction operation s))) \<and>
    keeps_open (fst s) (fst (snd (run_in_transaction operation s)))"
  using announcing_transaction [OF assms, of "fst s" "snd s"] by (metis prod.collapse)

end
