(* ===== verification/Credentials.thy ===== *)
theory Credentials
  imports Access Encoding
begin

text \<open>
  Credential bundles (\<open>internal/domain/credentials.go\<close>) drawn from a byte source, and the
  provisioning service that ties a bundle to an issuance of an account
  (\<open>internal/domain/provisioning.go\<close>).
\<close>

section \<open>Issuing a bundle\<close>

record credential_bundle =
  cb_SubscriptionToken :: string
  cb_VLESSUUID :: string
  cb_Hysteria2Password :: string
  cb_TUICUUID :: string
  cb_TUICPassword :: string
  cb_AnyTLSPassword :: string

abbreviation credentialBytes :: nat where "credentialBytes \<equiv> 32"

definition random_token :: "(byte list, string) call" where
  "random_token =
     and_then (wrapping ''read random credential'' (read_full credentialBytes))
       (\<lambda>value. ok (b64_encode value))"

text \<open>The version and variant bits of a version 4 UUID, then the 8-4-4-4-12 grouping.\<close>

definition uuid_bits :: "byte list \<Rightarrow> byte list" where
  "uuid_bits v =
     (let v1 = v[6 := (v ! 6 AND 0x0f) OR 0x40]
      in v1[8 := (v1 ! 8 AND 0x3f) OR 0x80])"

definition byte_range :: "nat \<Rightarrow> nat \<Rightarrow> 'a list \<Rightarrow> 'a list" where
  "byte_range i j xs = take (j - i) (drop i xs)"

definition format_uuid :: "byte list \<Rightarrow> string" where
  "format_uuid v = hex_bytes (byte_range 0 4 v) @ ''-'' @ hex_bytes (byte_range 4 6 v) @ ''-'' @
     hex_bytes (byte_range 6 8 v) @ ''-'' @ hex_bytes (byte_range 8 10 v) @ ''-'' @ hex_bytes (byte_range 10 16 v)"

definition random_uuid :: "(byte list, string) call" where
  "random_uuid =
     and_then (wrapping ''read random UUID'' (read_full 16)) (\<lambda>value. ok (format_uuid (uuid_bits value)))"

definition issue_bundle :: "(byte list, credential_bundle) call" where
  "issue_bundle =
     and_then random_token (\<lambda>subscriptionToken.
     and_then random_uuid (\<lambda>vlessUUID.
     and_then random_token (\<lambda>hysteria2Password.
     and_then random_uuid (\<lambda>tuicUUID.
     and_then random_token (\<lambda>tuicPassword.
     and_then random_token (\<lambda>anyTLSPassword.
     ok \<lparr>cb_SubscriptionToken = subscriptionToken, cb_VLESSUUID = vlessUUID,
          cb_Hysteria2Password = hysteria2Password, cb_TUICUUID = tuicUUID,
          cb_TUICPassword = tuicPassword, cb_AnyTLSPassword = anyTLSPassword\<rparr>))))))"

section \<open>Provisioning\<close>

record provisioned_access =
  pa_Issuance :: issuance
  pa_Credentials :: credential_bundle

text \<open>
  The issuer is an interface of the service (\<open>BundleIssuer\<close>) over a state \<open>'r\<close> of its own; a
  nil interface or account is \<open>None\<close>. The credentials are drawn before the account changes.
\<close>

definition provision ::
    "('r, credential_bundle) call option \<Rightarrow> access_account option
       \<Rightarrow> (access_account \<Rightarrow> (go_error + issuance) \<times> access_account) \<Rightarrow> 'r
       \<Rightarrow> (go_error + provisioned_access) \<times> access_account option \<times> 'r" where
  "provision issuer account issueAccess r =
     (case account of
        None \<Rightarrow> (Inl (Err ''access account is required''), None, r)
      | Some a \<Rightarrow>
     (case issuer of
        None \<Rightarrow> (Inl (Err ''credential issuer is required''), Some a, r)
      | Some issueBundle \<Rightarrow>
     (case issueBundle r of
        (Inl e, r1) \<Rightarrow> (Inl (Wrap ''issue credentials'' e), Some a, r1)
      | (Inr credentials, r1) \<Rightarrow>
     (case issueAccess a of
        (Inl e, a1) \<Rightarrow> (Inl e, Some a1, r1)
      | (Inr i, a1) \<Rightarrow>
          (Inr \<lparr>pa_Issuance = i, pa_Credentials = credentials\<rparr>, Some a1, r1)))))"

definition provision_claim ::
    "('r, credential_bundle) call option \<Rightarrow> access_account option \<Rightarrow> go_time \<Rightarrow> 'r
       \<Rightarrow> (go_error + provisioned_access) \<times> access_account option \<times> 'r" where
  "provision_claim issuer account now r = provision issuer account (claim now) r"

definition provision_approve ::
    "('r, credential_bundle) call option \<Rightarrow> access_account option \<Rightarrow> go_time \<Rightarrow> 'r
       \<Rightarrow> (go_error + provisioned_access) \<times> access_account option \<times> 'r" where
  "provision_approve issuer account now r = provision issuer account (approve now) r"

definition provision_rotate ::
    "('r, credential_bundle) call option \<Rightarrow> access_account option \<Rightarrow> go_time \<Rightarrow> bool \<Rightarrow> 'r
       \<Rightarrow> (go_error + provisioned_access) \<times> access_account option \<times> 'r" where
  "provision_rotate issuer account now resetPeriod r =
     provision issuer account (rotate_access now resetPeriod) r"

section \<open>Facts\<close>

lemma read_full_Inr:
  "read_full n src = (Inr v, rest) \<longleftrightarrow> src = v @ rest \<and> length v = n"
  by (auto simp: read_full_def)

lemma random_token_Inr:
  "random_token src = (Inr t, rest) \<longleftrightarrow> (\<exists>v. src = v @ rest \<and> length v = 32 \<and> t = b64_encode v)"
  by (auto simp: random_token_def and_then_Inr read_full_Inr)

lemma random_uuid_Inr:
  "random_uuid src = (Inr t, rest) \<longleftrightarrow>
     (\<exists>v. src = v @ rest \<and> length v = 16 \<and> t = format_uuid (uuid_bits v))"
  by (auto simp: random_uuid_def and_then_Inr read_full_Inr)

lemma and_then_random_token:
  "and_then random_token f src = (Inr y, rest) \<longleftrightarrow>
     (\<exists>v s. src = v @ s \<and> length v = 32 \<and> f (b64_encode v) s = (Inr y, rest))"
  by (auto simp: and_then_Inr random_token_Inr)

lemma and_then_random_uuid:
  "and_then random_uuid f src = (Inr y, rest) \<longleftrightarrow>
     (\<exists>v s. src = v @ s \<and> length v = 16 \<and> f (format_uuid (uuid_bits v)) s = (Inr y, rest))"
  by (auto simp: and_then_Inr random_uuid_Inr)

lemma issue_bundle_Inr:
  "issue_bundle src = (Inr b, rest) \<longleftrightarrow>
     (\<exists>v1 v2 v3 v4 v5 v6. src = v1 @ v2 @ v3 @ v4 @ v5 @ v6 @ rest \<and>
        length v1 = 32 \<and> length v2 = 16 \<and> length v3 = 32 \<and> length v4 = 16 \<and> length v5 = 32 \<and> length v6 = 32 \<and>
        b = \<lparr>cb_SubscriptionToken = b64_encode v1, cb_VLESSUUID = format_uuid (uuid_bits v2),
             cb_Hysteria2Password = b64_encode v3, cb_TUICUUID = format_uuid (uuid_bits v4),
             cb_TUICPassword = b64_encode v5, cb_AnyTLSPassword = b64_encode v6\<rparr>)"
  by (simp add: issue_bundle_def and_then_random_token and_then_random_uuid) (safe; metis)

lemma byte_range_append:
  "i \<le> j \<Longrightarrow> j \<le> k \<Longrightarrow> byte_range i j xs @ byte_range j k xs = byte_range i k xs"
proof -
  assume ij: "i \<le> j" and jk: "j \<le> k"
  then have "byte_range i k xs = take ((j - i) + (k - j)) (drop i xs)" by (simp add: byte_range_def)
  also have "\<dots> = take (j - i) (drop i xs) @ take (k - j) (drop (j - i) (drop i xs))"
    by (rule take_add)
  finally show ?thesis using ij by (simp add: byte_range_def)
qed

lemma length_byte_range [simp]: "length (byte_range i j xs) = min (length xs - i) (j - i)"
  by (simp add: byte_range_def)

lemma format_uuid_inj:
  assumes "length v = 16" "length w = 16" "format_uuid v = format_uuid w"
  shows "v = w"
proof -
  have "hex_bytes (byte_range 0 4 v) = hex_bytes (byte_range 0 4 w)" "hex_bytes (byte_range 4 6 v) = hex_bytes (byte_range 4 6 w)"
    "hex_bytes (byte_range 6 8 v) = hex_bytes (byte_range 6 8 w)" "hex_bytes (byte_range 8 10 v) = hex_bytes (byte_range 8 10 w)"
    "hex_bytes (byte_range 10 16 v) = hex_bytes (byte_range 10 16 w)"
    using assms by (simp_all add: format_uuid_def append_eq_append_conv)
  then have "byte_range 0 4 v @ byte_range 4 6 v @ byte_range 6 8 v @ byte_range 8 10 v @ byte_range 10 16 v =
      byte_range 0 4 w @ byte_range 4 6 w @ byte_range 6 8 w @ byte_range 8 10 w @ byte_range 10 16 w"
    using hex_bytes_inj by metis
  then have "byte_range 0 16 v = byte_range 0 16 w" by (simp add: byte_range_append)
  with assms(1,2) show ?thesis by (simp add: byte_range_def)
qed

lemma uuid_bits_facts:
  assumes "length v = 16"
  shows "length (uuid_bits v) = 16" "uuid_bits v ! 6 = (v ! 6 AND 0x0f) OR 0x40"
    "uuid_bits v ! 8 = (v ! 8 AND 0x3f) OR 0x80"
    "\<And>i. i < 16 \<Longrightarrow> i \<noteq> 6 \<Longrightarrow> i \<noteq> 8 \<Longrightarrow> uuid_bits v ! i = v ! i"
  using assms by (auto simp: uuid_bits_def Let_def nth_list_update)

section \<open>Properties\<close>

text \<open>
  A bundle takes exactly 160 bytes from the source and fails if there are fewer; and it
  carries the randomness it took: two issues with the same bundle drew the same bytes for
  every token and password, and bytes that agree outside the six fixed UUID bits for each UUID.
\<close>

theorem bundle_keeps_randomness:
  assumes "issue_bundle src = (Inr b, rest)" and "issue_bundle src' = (Inr b, rest')"
  shows "length src = 160 + length rest \<and>
         take 32 src = take 32 src' \<and> byte_range 48 80 src = byte_range 48 80 src' \<and>
         byte_range 96 128 src = byte_range 96 128 src' \<and> byte_range 128 160 src = byte_range 128 160 src' \<and>
         uuid_bits (byte_range 32 48 src) = uuid_bits (byte_range 32 48 src') \<and>
         uuid_bits (byte_range 80 96 src) = uuid_bits (byte_range 80 96 src')"
proof -
  from assms(1) obtain v1 v2 v3 v4 v5 v6 where v:
      "src = v1 @ v2 @ v3 @ v4 @ v5 @ v6 @ rest" "length v1 = 32" "length v2 = 16" "length v3 = 32"
      "length v4 = 16" "length v5 = 32" "length v6 = 32"
    and b: "b = \<lparr>cb_SubscriptionToken = b64_encode v1, cb_VLESSUUID = format_uuid (uuid_bits v2),
             cb_Hysteria2Password = b64_encode v3, cb_TUICUUID = format_uuid (uuid_bits v4),
             cb_TUICPassword = b64_encode v5, cb_AnyTLSPassword = b64_encode v6\<rparr>"
    unfolding issue_bundle_Inr by blast
  from assms(2) obtain w1 w2 w3 w4 w5 w6 where w:
      "src' = w1 @ w2 @ w3 @ w4 @ w5 @ w6 @ rest'" "length w1 = 32" "length w2 = 16" "length w3 = 32"
      "length w4 = 16" "length w5 = 32" "length w6 = 32"
    and b': "b = \<lparr>cb_SubscriptionToken = b64_encode w1, cb_VLESSUUID = format_uuid (uuid_bits w2),
             cb_Hysteria2Password = b64_encode w3, cb_TUICUUID = format_uuid (uuid_bits w4),
             cb_TUICPassword = b64_encode w5, cb_AnyTLSPassword = b64_encode w6\<rparr>"
    unfolding issue_bundle_Inr by blast
  from b b' have "v1 = w1" "v3 = w3" "v5 = w5" "v6 = w6"
    "uuid_bits v2 = uuid_bits w2" "uuid_bits v4 = uuid_bits w4"
    using v w format_uuid_inj uuid_bits_facts(1) by (auto simp: b64_encode_inj)
  with v w show ?thesis by (simp add: byte_range_def)
qed

theorem bundle_keeps_randomness_witness:
  "\<exists>b. issue_bundle (replicate 161 7) = (Inr b, [7]) \<and>
       length (replicate 161 (7 :: byte)) = 160 + length [7 :: byte]"
proof -
  let ?b = "\<lparr>cb_SubscriptionToken = b64_encode (replicate 32 7),
     cb_VLESSUUID = format_uuid (uuid_bits (replicate 16 7)),
     cb_Hysteria2Password = b64_encode (replicate 32 7),
     cb_TUICUUID = format_uuid (uuid_bits (replicate 16 7)),
     cb_TUICPassword = b64_encode (replicate 32 7), cb_AnyTLSPassword = b64_encode (replicate 32 7)\<rparr>"
  have i: "issue_bundle (replicate 161 7) = (Inr ?b, [7])"
    unfolding issue_bundle_Inr
    by (intro exI conjI) (auto simp: replicate_add [symmetric] replicate_append_same
        simp flip: replicate_Suc)
  show ?thesis using bundle_keeps_randomness [OF i i] i by blast
qed

text \<open>
  Provisioning never issues access without credentials: if the issuer fails, or the account
  operation refuses, the account is unchanged; on success the account changed by exactly that
  operation and the credentials are the ones just drawn.
\<close>

theorem provision_claim_atomic:
  "case provision_claim (Some issueBundle) (Some a) now r of
     (Inl e, acc, r') \<Rightarrow> acc = Some a \<and> r' = snd (issueBundle r)
   | (Inr p, acc, r') \<Rightarrow>
       issueBundle r = (Inr (pa_Credentials p), r') \<and>
       (\<exists>a'. acc = Some a' \<and> claim now a = (Inr (pa_Issuance p), a') \<and>
             aa_credentialGeneration a' = iss_CredentialGeneration (pa_Issuance p) \<and>
             aa_status a' = Active)"
  by (auto simp: provision_claim_def provision_def claim_def issue_def Let_def
      split: prod.splits sum.splits if_splits access_status.splits)

end
