(* ===== verification/Access_Store.thy ===== *)
theory Access_Store
  imports Vpn_Tables Credentials
begin

text \<open>
  The stores that change a VPN user: qualification (\<open>internal/postgres/access_store.go\<close>),
  provisioning (\<open>internal/postgres/provisioning_store.go\<close>) and management
  (\<open>internal/postgres/user_management_store.go\<close>). Each is one transaction that restores the
  domain account, applies one of its methods and queues the core action it calls for.
\<close>

section \<open>Qualification\<close>

text \<open>\<open>INSERT INTO vpn_users ... ON CONFLICT DO NOTHING\<close>, with the column defaults.\<close>

definition ensure_user :: "int \<Rightarrow> (vpn_db, unit) call" where
  "ensure_user i d =
     (if map_of (vpn_users d) i \<noteq> None then (Inr (), d)
      else (Inr (), d\<lparr>vpn_users := vpn_users d @
              [(i, \<lparr>vu_eligible = False, vu_status = Unclaimed, vu_credential_generation = 0,
                    vu_period_started_at = None, vu_last_vpn_activity_at = None\<rparr>)]\<rparr>))"

definition persist_qualification :: "access_snapshot \<Rightarrow> (vpn_db, unit) call" where
  "persist_qualification updated =
     update_user (as_TelegramID updated) (\<lambda>row.
       \<lparr>vu_eligible = as_Eligible updated, vu_status = as_Status updated,
        vu_credential_generation = sint (as_CredentialGeneration updated),
        vu_period_started_at = nullable_time (as_PeriodStartedAt updated),
        vu_last_vpn_activity_at = nullable_time (as_LastVPNActivityAt updated)\<rparr>)"

definition apply_qualification_operation ::
    "int \<Rightarrow> qualification_decision \<Rightarrow> (vpn_db \<times> faults, access_change) call" where
  "apply_qualification_operation telegramID decision =
     and_then (wrapping ''ensure VPN user'' (statement (ensure_user telegramID))) (\<lambda>_.
     and_then (lock_access_snapshot telegramID) (\<lambda>s.
       case restore_access_account s of
         Inl e \<Rightarrow> fail_with (Wrap ''restore VPN user'' e)
       | Inr account \<Rightarrow>
       (case apply_qualification decision (Some account) of
          (Inl e, _) \<Rightarrow> fail_with (Wrap ''apply qualification'' e)
        | (Inr change, None) \<Rightarrow> fail_with (Err ''nil account'')
        | (Inr change, Some account1) \<Rightarrow>
            let updated = snapshot account1 in
            and_then (wrapping ''persist VPN user qualification'' (statement (persist_qualification updated))) (\<lambda>_.
            if revokeCredentialsImmediately change
            then and_then (wrapping ''queue credential revocation'' (statement (\<lambda>d.
                     (Inr (), queue_action CoreActionRevoke (db_clock d) (as_TelegramID updated) d))))
                   (\<lambda>_. ok change)
            else ok change))))"

definition apply_qualification_stored ::
    "int \<Rightarrow> qualification_decision \<Rightarrow> (vpn_db \<times> faults, access_change) call" where
  "apply_qualification_stored telegramID decision =
     (if telegramID \<le> 0 then fail_with (Err ''Telegram ID must be positive'')
      else if decision = IndeterminateDecision then ok \<lparr>revokeCredentialsImmediately = False\<rparr>
      else if decision \<noteq> Eligible \<and> decision \<noteq> Ineligible
      then fail_with (Err ''qualification decision is invalid'')
      else run_in_transaction (apply_qualification_operation telegramID decision))"

section \<open>Management\<close>

text \<open>\<open>UserManagementStore.update\<close>; \<open>mutate\<close> says whether the credentials are revoked.\<close>

definition managed_operation ::
    "int \<Rightarrow> int \<Rightarrow> go_time \<Rightarrow> string \<Rightarrow> (access_account \<Rightarrow> (go_error + bool) \<times> access_account)
       \<Rightarrow> (vpn_db \<times> faults, unit) call" where
  "managed_operation actorID telegramID now action mutate =
     and_then (lock_access_snapshot telegramID) (\<lambda>s.
       case restore_access_account s of
         Inl e \<Rightarrow> fail_with (Wrap ''restore VPN user'' e)
       | Inr account \<Rightarrow>
       (case mutate account of
          (Inl e, _) \<Rightarrow> fail_with e
        | (Inr revokes, account1) \<Rightarrow>
            let updated = snapshot account1 in
            and_then (wrapping ''persist managed VPN user'' (statement
                (update_user telegramID (\<lambda>row. row\<lparr>vu_status := as_Status updated\<rparr>)))) (\<lambda>_.
            and_then (if revokes
                then wrapping ''queue managed revocation'' (statement (\<lambda>d.
                       (Inr (), queue_action CoreActionRevoke now telegramID d)))
                else ok ()) (\<lambda>_.
            wrapping ''record managed VPN audit event'' (statement (\<lambda>d.
                (Inr (), record_audit actorID action telegramID d)))))))"

definition managed_update ::
    "int \<Rightarrow> int \<Rightarrow> go_time \<Rightarrow> string \<Rightarrow> (access_account \<Rightarrow> (go_error + bool) \<times> access_account)
       \<Rightarrow> (vpn_db \<times> faults, unit) call" where
  "managed_update actorID telegramID now action mutate =
     run_in_transaction (managed_operation actorID telegramID now action mutate)"

definition managed_revoke :: "int \<Rightarrow> int \<Rightarrow> revocation_mode \<Rightarrow> go_time \<Rightarrow> (vpn_db \<times> faults, unit) call" where
  "managed_revoke actorID telegramID mode now =
     (if actorID \<le> 0 \<or> telegramID \<le> 0 \<or> now = 0
      then fail_with (Err ''management operation input is invalid'')
      else case mode of
        OtherRevocationMode _ \<Rightarrow> fail_with (Err ''revocation mode is invalid'')
      | _ \<Rightarrow> managed_update actorID telegramID now ''vpn.revoke''
               (\<lambda>a. case revoke mode a of
                      (Inl e, a1) \<Rightarrow> (Inl e, a1)
                    | (Inr change, a1) \<Rightarrow> (Inr (revokeCredentialsImmediately change), a1)))"

definition managed_reject :: "int \<Rightarrow> int \<Rightarrow> go_time \<Rightarrow> (vpn_db \<times> faults, unit) call" where
  "managed_reject actorID telegramID now =
     (if actorID \<le> 0 \<or> telegramID \<le> 0 \<or> now = 0
      then fail_with (Err ''management operation input is invalid'')
      else managed_update actorID telegramID now ''vpn.reject''
             (\<lambda>a. case reject_approval a of (Inl e, a1) \<Rightarrow> (Inl e, a1) | (Inr _, a1) \<Rightarrow> (Inr False, a1)))"

section \<open>Provisioning\<close>

text \<open>
  The sealer (\<open>secrets.CredentialCipher\<close>) is asked once, so a function of its arguments stands
  for it; the issuer is a call on its random source \<open>'r\<close>.
\<close>

type_synonym sealer = "int \<Rightarrow> 64 word \<Rightarrow> credential_bundle \<Rightarrow> go_error + sealed_bundle"

definition valid_sealed :: "sealed_bundle \<Rightarrow> bool" where
  "valid_sealed s \<longleftrightarrow> length (sb_Nonce s) = 12 \<and> 16 < length (sb_Ciphertext s) \<and>
     sb_SubscriptionTokenDigest s \<noteq> replicate 32 0"

definition persist_bundle :: "int \<Rightarrow> 64 word \<Rightarrow> sealed_bundle \<Rightarrow> (vpn_db, unit) call" where
  "persist_bundle i generation s d =
     (if sint generation \<le> 0 \<or> length (sb_SubscriptionTokenDigest s) \<noteq> 32 \<or> length (sb_Nonce s) \<noteq> 12
         \<or> length (sb_Ciphertext s) \<le> 16
         \<or> list_ex (\<lambda>(j, b). j \<noteq> i \<and> sb_SubscriptionTokenDigest (br_sealed b) = sb_SubscriptionTokenDigest s)
             (credential_bundles d)
      then (Inl constraint_violated, d)
      else (Inr (), d\<lparr>credential_bundles := AList.update i
              \<lparr>br_generation = sint generation, br_sealed = s\<rparr> (credential_bundles d)\<rparr>))"

definition persist_quota_window :: "int \<Rightarrow> go_time \<Rightarrow> int \<Rightarrow> int \<Rightarrow> (vpn_db, unit) call" where
  "persist_quota_window i start periodSeconds limit d =
     (let row = \<lparr>qr_period_started_at = start, qr_period_seconds = periodSeconds,
                 qr_limit_bytes = limit, qr_used_bytes = 0, qr_blocked = False\<rparr>
      in if quota_row_ok row then (Inr (), d\<lparr>quota_windows := AList.update i row (quota_windows d)\<rparr>)
         else (Inl constraint_violated, d))"

definition load_quota_settings :: "(vpn_db \<times> faults, int \<times> int) call" where
  "load_quota_settings =
     and_then (wrapping ''load quota settings'' (statement (\<lambda>d. (Inr (qualification_settings d), d))))
       (\<lambda>st. if st_quota_limit_bytes st \<le> 0 \<or> st_quota_period_seconds st \<le> 0
             then fail_with (Err ''persisted quota settings are invalid'')
             else ok (st_quota_limit_bytes st, st_quota_period_seconds st))"

definition persist_provisioned :: "access_snapshot \<Rightarrow> (vpn_db, unit) call" where
  "persist_provisioned updated =
     update_user (as_TelegramID updated) (\<lambda>row. row
       \<lparr>vu_status := as_Status updated,
        vu_credential_generation := sint (as_CredentialGeneration updated),
        vu_period_started_at := Some (as_PeriodStartedAt updated),
        vu_last_vpn_activity_at := Some (as_LastVPNActivityAt updated)\<rparr>)"

definition provision_writes ::
    "int \<Rightarrow> go_time \<Rightarrow> string \<Rightarrow> access_account \<Rightarrow> issuance \<Rightarrow> sealed_bundle
       \<Rightarrow> (int \<times> int) option \<Rightarrow> (vpn_db \<times> faults, unit) call" where
  "provision_writes telegramID now auditAction account1 i sealed quota =
     and_then (wrapping ''persist provisioned VPN user'' (statement (persist_provisioned (snapshot account1)))) (\<lambda>_.
     and_then (wrapping ''persist credential bundle'' (statement
         (persist_bundle telegramID (iss_CredentialGeneration i) sealed))) (\<lambda>_.
     and_then (case quota of
         None \<Rightarrow> ok ()
       | Some (quotaLimit, quotaPeriodSeconds) \<Rightarrow> wrapping ''persist quota window'' (statement
           (persist_quota_window telegramID (iss_PeriodStartedAt i) quotaPeriodSeconds quotaLimit))) (\<lambda>_.
     and_then (wrapping ''queue core reconciliation'' (statement (\<lambda>d.
         (Inr (), queue_action CoreActionReconcile now telegramID d)))) (\<lambda>_.
     wrapping ''record VPN claim audit event'' (statement (\<lambda>d.
         (Inr (), record_audit 0 auditAction telegramID d)))))))"

definition provision_operation ::
    "sealer \<Rightarrow> int \<Rightarrow> go_time \<Rightarrow> bool \<Rightarrow> string \<Rightarrow> credential_bundle
       \<Rightarrow> (access_account \<Rightarrow> (go_error + issuance) \<times> access_account)
       \<Rightarrow> (vpn_db \<times> faults, provisioned_access) call" where
  "provision_operation seal telegramID now resetQuota auditAction bundle issueAccess =
     and_then (lock_access_snapshot telegramID) (\<lambda>s.
       case restore_access_account s of
         Inl e \<Rightarrow> fail_with (Wrap ''restore VPN user'' e)
       | Inr account \<Rightarrow>
       (case issueAccess account of
          (Inl e, _) \<Rightarrow> fail_with e
        | (Inr i, account1) \<Rightarrow>
       (case seal telegramID (iss_CredentialGeneration i) bundle of
          Inl e \<Rightarrow> fail_with (Wrap ''seal credentials'' e)
        | Inr sealed \<Rightarrow>
          if \<not> valid_sealed sealed then fail_with (Err ''sealed credentials are invalid'')
          else
            and_then (if resetQuota then and_then load_quota_settings (\<lambda>q. ok (Some q)) else ok None) (\<lambda>quota.
            and_then (provision_writes telegramID now auditAction account1 i sealed quota) (\<lambda>_.
            ok \<lparr>pa_Issuance = i, pa_Credentials = bundle\<rparr>)))))"

definition provision_stored ::
    "('r, credential_bundle) call \<Rightarrow> sealer \<Rightarrow> int \<Rightarrow> go_time \<Rightarrow> bool \<Rightarrow> string
       \<Rightarrow> (access_account \<Rightarrow> (go_error + issuance) \<times> access_account)
       \<Rightarrow> ((vpn_db \<times> faults) \<times> 'r, provisioned_access) call" where
  "provision_stored issuer seal telegramID now resetQuota auditAction issueAccess st =
     (let (s, r) = st in
      if telegramID \<le> 0 then (Inl (Err ''Telegram ID must be positive''), st)
      else if now = 0 then (Inl (Err ''issuance timestamp is required''), st)
      else if auditAction = '''' then (Inl (Err ''provisioning operation is required''), st)
      else case issuer r of
        (Inl e, r1) \<Rightarrow> (Inl (Wrap ''issue credentials'' e), (s, r1))
      | (Inr bundle, r1) \<Rightarrow>
          (let (res, s1) = run_in_transaction
                 (provision_operation seal telegramID now resetQuota auditAction bundle issueAccess) s
           in (res, (s1, r1))))"

definition store_claim ::
    "('r, credential_bundle) call \<Rightarrow> sealer \<Rightarrow> int \<Rightarrow> go_time \<Rightarrow> ((vpn_db \<times> faults) \<times> 'r, provisioned_access) call" where
  "store_claim issuer seal telegramID now =
     provision_stored issuer seal telegramID now True ''vpn.claim'' (claim now)"

definition store_approve ::
    "('r, credential_bundle) call \<Rightarrow> sealer \<Rightarrow> int \<Rightarrow> go_time \<Rightarrow> ((vpn_db \<times> faults) \<times> 'r, provisioned_access) call" where
  "store_approve issuer seal telegramID now =
     provision_stored issuer seal telegramID now True ''vpn.approve'' (approve now)"

definition store_rotate ::
    "('r, credential_bundle) call \<Rightarrow> sealer \<Rightarrow> int \<Rightarrow> go_time \<Rightarrow> bool \<Rightarrow> ((vpn_db \<times> faults) \<times> 'r, provisioned_access) call" where
  "store_rotate issuer seal telegramID now resetPeriod =
     provision_stored issuer seal telegramID now resetPeriod ''vpn.rotate'' (rotate_access now resetPeriod)"

section \<open>Every change is announced to the core\<close>

lemma ensure_user_effect:
  "ensure_user i d = (Inr u, d') \<Longrightarrow> serves d' j = serves d j \<and>
     core_action_outbox d' = core_action_outbox d \<and> quota_windows d' = quota_windows d \<and>
     credential_bundles d' = credential_bundles d \<and> core_settings_table d' = core_settings_table d"
  by (auto simp: ensure_user_def serves_alt serves_users map_add_def live_def admitting_def
      split: if_splits option.splits)

lemma apply_qualification_announcing: "announcing (apply_qualification_operation i decision)"
  unfolding announcing_def
proof (intro allI impI)
  fix s x s'
  assume "apply_qualification_operation i decision s = (Inr x, s')"
  then obtain s1 s2 s3 snap account change account1 where
      ensure: "statement (ensure_user i) s = (Inr (), s1)"
    and lock: "lock_access_snapshot i s1 = (Inr snap, s2)"
    and acc: "restore_access_account snap = Inr account"
    and app: "apply_qualification decision (Some account) = (Inr change, Some account1)"
    and per: "statement (persist_qualification (snapshot account1)) s2 = (Inr (), s3)"
    and queue: "fst s' = (if revokeCredentialsImmediately change
        then queue_action CoreActionRevoke (db_clock (fst s3)) (as_TelegramID (snapshot account1)) (fst s3)
        else fst s3)"
    unfolding apply_qualification_operation_def
    by (elim and_then_InrE)
      (auto simp: Let_def elim!: and_then_InrE dest!: statement_total
        split: sum.splits prod.splits option.splits if_splits)
  from lock_access_snapshot_Inr [OF lock] obtain row where
      d2: "fst s2 = fst s1" and row: "map_of (vpn_users (fst s1)) i = Some row"
    and snap: "as_TelegramID snap = i" "as_Eligible snap = vu_eligible row" "as_Status snap = vu_status row"
    by auto
  have account: "aa_telegramID account = i" "aa_eligible account = vu_eligible row"
      "aa_status account = vu_status row" and wf: "wf_account account"
    using restore_Inr_snapshot [OF acc] restore_wf [OF acc] snap by (auto simp: snapshot_def)
  have account1: "aa_telegramID account1 = i"
      "aa_status account1 = Active \<and> aa_eligible account1 \<longleftrightarrow>
         aa_status account = Active \<and> aa_eligible account \<and> \<not> revokeCredentialsImmediately change"
    using app wf account
    by (auto simp: apply_qualification_def set_eligibility_def Let_def wf_account_def
        split: qualification_decision.splits if_splits)
  from ensure_user_effect [OF statement_InrD [OF ensure]]
  have d1: "serves (fst s1) j = serves (fst s) j"
      "core_action_outbox (fst s1) = core_action_outbox (fst s)"
      "quota_windows (fst s1) = quota_windows (fst s)"
      "credential_bundles (fst s1) = credential_bundles (fst s)"
      "core_settings_table (fst s1) = core_settings_table (fst s)" for j
    by simp_all
  from update_user_Inr [OF statement_InrD [OF per, unfolded persist_qualification_def]] row d2
  obtain row' where d3: "fst s3 = (fst s1)\<lparr>vpn_users := AList.update i row' (vpn_users (fst s1))\<rparr>"
    and row': "live (Some row') \<longleftrightarrow> live (Some row) \<and> \<not> revokeCredentialsImmediately change"
    using account account1 by (auto simp: snapshot_def live_def)
  have sv: "serves (fst s') j = (if j = i \<and> revokeCredentialsImmediately change then None else serves (fst s) j)" for j
    using row row' unfolding d1(1) [symmetric] queue d3
    by (auto simp: serves_users serves_alt update_conv' admitting_def)
  have "has_open (fst s') CoreActionRevoke i" if "revokeCredentialsImmediately change"
    using that account1(1) by (simp add: queue has_open_queue_action snapshot_def)
  moreover have "keeps_open (fst s) (fst s')"
    unfolding queue d3 using d1 by (auto intro!: keeps_open_queue keeps_open_tables)
  ultimately show "announced (fst s) (fst s') \<and> keeps_open (fst s) (fst s')"
    using sv by (intro conjI announced_one [of i]) (auto split: if_splits)
qed

lemma managed_announcing:
  assumes mut: "\<And>a revokes a1. mutate a = (Inr revokes, a1) \<Longrightarrow> wf_account a \<Longrightarrow>
    (aa_status a1 = Active) = (aa_status a = Active \<and> \<not> revokes) \<and> (aa_status a = Active \<or> \<not> revokes)"
  shows "announcing (managed_operation actorID i now action mutate)"
  unfolding announcing_def
proof (intro allI impI)
  fix s x s'
  assume "managed_operation actorID i now action mutate s = (Inr x, s')"
  then obtain s1 s2 s3 snap account revokes account1 where
      lock: "lock_access_snapshot i s = (Inr snap, s1)"
    and acc: "restore_access_account snap = Inr account"
    and app: "mutate account = (Inr revokes, account1)"
    and per: "statement (update_user i (\<lambda>row. row\<lparr>vu_status := as_Status (snapshot account1)\<rparr>)) s1 = (Inr (), s2)"
    and queue: "fst s3 = (if revokes then queue_action CoreActionRevoke now i (fst s2) else fst s2)"
    and audit: "fst s' = record_audit actorID action i (fst s3)"
    unfolding managed_operation_def
    by (elim and_then_InrE)
      (auto simp: Let_def elim!: and_then_InrE dest!: statement_total
        split: sum.splits prod.splits option.splits if_splits)
  from lock_access_snapshot_Inr [OF lock] obtain row where
      d1: "fst s1 = fst s" and row: "map_of (vpn_users (fst s)) i = Some row"
    and snap: "as_Eligible snap = vu_eligible row" "as_Status snap = vu_status row"
    by auto
  have account: "aa_eligible account = vu_eligible row" "aa_status account = vu_status row"
    and wf: "wf_account account"
    using restore_Inr_snapshot [OF acc] restore_wf [OF acc] snap by (auto simp: snapshot_def)
  from update_user_Inr [OF statement_InrD [OF per]] row d1
  have d2: "fst s2 = (fst s)\<lparr>vpn_users := AList.update i (row\<lparr>vu_status := aa_status account1\<rparr>) (vpn_users (fst s))\<rparr>"
    by (auto simp: snapshot_def)
  have lv: "live (Some (row\<lparr>vu_status := aa_status account1\<rparr>)) \<longleftrightarrow> live (Some row) \<and> \<not> revokes"
    using mut [OF app wf] account by (simp add: live_def) blast
  have sv: "serves (fst s') j = (if j = i \<and> revokes then None else serves (fst s) j)" for j
    using row lv unfolding queue audit d2
    by (simp add: serves_users serves_alt [of "fst s"] update_conv')
  have "has_open (fst s') CoreActionRevoke i" if "revokes"
    using that by (simp add: queue audit has_open_queue_action)
  moreover have "keeps_open (fst s) (fst s')"
    unfolding queue audit d2 by (auto intro!: keeps_open_queue keeps_open_tables)
  ultimately show "announced (fst s) (fst s') \<and> keeps_open (fst s) (fst s')"
    using sv by (intro conjI announced_one [of i]) (auto split: if_splits)
qed

lemma managed_revoke_announced:
  "announced (fst s) (fst (snd (managed_revoke actorID i mode now s))) \<and>
   keeps_open (fst s) (fst (snd (managed_revoke actorID i mode now s)))"
proof -
  have "announcing (managed_operation actorID i now ''vpn.revoke''
      (\<lambda>a. case revoke mode a of
             (Inl e, a1) \<Rightarrow> (Inl e, a1)
           | (Inr change, a1) \<Rightarrow> (Inr (revokeCredentialsImmediately change), a1)))"
    by (rule managed_announcing)
      (auto simp: revoke_def split: prod.splits sum.splits if_splits revocation_mode.splits)
  from announcing_run [OF this, of s] show ?thesis
    by (auto simp: managed_revoke_def managed_update_def split: revocation_mode.splits)
qed

lemma managed_reject_announced:
  "announced (fst s) (fst (snd (managed_reject actorID i now s))) \<and>
   keeps_open (fst s) (fst (snd (managed_reject actorID i now s)))"
proof -
  have "announcing (managed_operation actorID i now ''vpn.reject''
      (\<lambda>a. case reject_approval a of (Inl e, a1) \<Rightarrow> (Inl e, a1) | (Inr _, a1) \<Rightarrow> (Inr False, a1)))"
    by (rule managed_announcing)
      (auto simp: reject_approval_def split: prod.splits sum.splits if_splits)
  from announcing_run [OF this, of s] show ?thesis
    by (auto simp: managed_reject_def managed_update_def)
qed

text \<open>Provisioning leaves every other user alone and always queues a reconciliation.\<close>

lemma provision_writes_effect:
  assumes "provision_writes i now action account1 iss sealed quota s = (Inr u, s')"
    and "aa_telegramID account1 = i"
  shows "j \<noteq> i \<Longrightarrow> serves (fst s') j = serves (fst s) j" "keeps_open (fst s) (fst s')"
    "has_open (fst s') CoreActionReconcile i"
    "aa_status account1 = Active \<Longrightarrow> serves (fst s) i \<noteq> None \<Longrightarrow> serves (fst s') i \<noteq> None"
proof -
  from assms(1) obtain s1 s2 s3 s4 where
      u: "statement (persist_provisioned (snapshot account1)) s = (Inr (), s1)"
    and b: "statement (persist_bundle i (iss_CredentialGeneration iss) sealed) s1 = (Inr (), s2)"
    and q: "case quota of None \<Rightarrow> s3 = s2 | Some (l, p) \<Rightarrow>
        statement (persist_quota_window i (iss_PeriodStartedAt iss) p l) s2 = (Inr (), s3)"
    and o: "fst s4 = queue_action CoreActionReconcile now i (fst s3)"
    and a: "fst s' = record_audit 0 action i (fst s4)"
    unfolding provision_writes_def
    by (elim and_then_InrE) (auto dest!: statement_total split: option.splits prod.splits)
  have 1: "(j \<noteq> i \<longrightarrow> map_of (vpn_users (fst s1)) j = map_of (vpn_users (fst s)) j) \<and>
      quota_windows (fst s1) = quota_windows (fst s) \<and> admitting (fst s1) = admitting (fst s) \<and>
      credential_bundles (fst s1) = credential_bundles (fst s) \<and>
      core_settings_table (fst s1) = core_settings_table (fst s) \<and>
      core_action_outbox (fst s1) = core_action_outbox (fst s)" for j
    using update_user_Inr [OF statement_InrD [OF u, unfolded persist_provisioned_def]] assms(2)
    by (auto simp: snapshot_def update_conv' admitting_def)
  have "persist_bundle i g w d = (Inr u, d') \<Longrightarrow> vpn_users d' = vpn_users d \<and> quota_windows d' = quota_windows d \<and>
      admitting d' = admitting d \<and> core_action_outbox d' = core_action_outbox d \<and>
      core_settings_table d' = core_settings_table d \<and>
      (distinct (map fst (credential_bundles d)) \<longrightarrow> distinct (map fst (credential_bundles d'))) \<and>
      (\<forall>j. j \<noteq> i \<longrightarrow> map_of (credential_bundles d') j = map_of (credential_bundles d) j) \<and>
      map_of (credential_bundles d') i \<noteq> None" for g w d u d'
    by (auto simp: persist_bundle_def update_conv' admitting_def distinct_update split: if_splits)
  note 2 = this [OF statement_InrD [OF b]]
  have "persist_quota_window i t p l d = (Inr u, d') \<Longrightarrow> vpn_users d' = vpn_users d \<and>
      credential_bundles d' = credential_bundles d \<and> core_settings_table d' = core_settings_table d \<and>
      admitting d' = admitting d \<and> core_action_outbox d' = core_action_outbox d \<and>
      (\<forall>j. j \<noteq> i \<longrightarrow> map_of (quota_windows d') j = map_of (quota_windows d) j) \<and>
      unblocked (map_of (quota_windows d') i) \<and>
      (distinct (map fst (quota_windows d)) \<longrightarrow> distinct (map fst (quota_windows d')))" for t p l d u d'
    by (auto simp: persist_quota_window_def Let_def update_conv' admitting_def unblocked_def distinct_update split: if_splits)
  note pq = this
  have 3: "vpn_users (fst s3) = vpn_users (fst s2) \<and> credential_bundles (fst s3) = credential_bundles (fst s2) \<and>
      core_settings_table (fst s3) = core_settings_table (fst s2) \<and> admitting (fst s3) = admitting (fst s2) \<and> core_action_outbox (fst s3) = core_action_outbox (fst s2) \<and>
      (\<forall>j. j \<noteq> i \<longrightarrow> map_of (quota_windows (fst s3)) j = map_of (quota_windows (fst s2)) j) \<and>
      (unblocked (map_of (quota_windows (fst s2)) i) \<longrightarrow> unblocked (map_of (quota_windows (fst s3)) i)) \<and>
      (distinct (map fst (quota_windows (fst s2))) \<longrightarrow> distinct (map fst (quota_windows (fst s3))))"
    using q pq by (cases quota) (auto dest!: statement_InrD)
  show "j \<noteq> i \<Longrightarrow> serves (fst s') j = serves (fst s) j"
    unfolding a o by (simp add: serves_alt [of "fst s3"] serves_alt [of "fst s"] 1 2 3)
  show "has_open (fst s') CoreActionReconcile i"
    unfolding a o by (simp add: has_open_queue_action)
  show "keeps_open (fst s) (fst s')"
    unfolding a o using 1 2 3 by (auto intro!: keeps_open_queue keeps_open_tables)
  show "serves (fst s') i \<noteq> None" if act: "aa_status account1 = Active" and sv: "serves (fst s) i \<noteq> None"
  proof -
    from sv have l: "live (map_of (vpn_users (fst s)) i)" and q: "unblocked (map_of (quota_windows (fst s)) i)"
      and ad: "admitting (fst s)"
      by (auto simp: serves_alt split: if_splits)
    have "live (map_of (vpn_users (fst s1)) i)"
      using update_user_Inr [OF statement_InrD [OF u, unfolded persist_provisioned_def]] assms(2) l act
      by (auto simp: snapshot_def update_conv' live_def split: option.splits)
    with q ad show ?thesis
      unfolding a o by (simp add: serves_alt [of "fst s3"] 1 2 3)
  qed
qed

lemma provision_announcing:
  assumes issue: "\<And>a i a1. issueAccess a = (Inr i, a1) \<Longrightarrow> aa_telegramID a1 = aa_telegramID a \<and> aa_status a1 = Active"
  shows "announcing (provision_operation seal i now resetQuota action bundle issueAccess)"
  unfolding announcing_def
proof (intro allI impI)
  fix s x s'
  assume "provision_operation seal i now resetQuota action bundle issueAccess s = (Inr x, s')"
  then obtain s1 s2 snap account iss account1 sealed quota where
      lock: "lock_access_snapshot i s = (Inr snap, s1)"
    and acc: "restore_access_account snap = Inr account"
    and app: "issueAccess account = (Inr iss, account1)"
    and load: "fst s2 = fst s1"
    and writes: "provision_writes i now action account1 iss sealed quota s2 = (Inr (), s')"
    unfolding provision_operation_def load_quota_settings_def
    by (elim and_then_InrE)
      (auto elim!: and_then_InrE dest!: statement_read
        split: sum.splits prod.splits option.splits if_splits)
  from lock_access_snapshot_Inr [OF lock] restore_Inr_snapshot [OF acc]
  have d1: "fst s2 = fst s" and "aa_telegramID account = i" using load by (auto simp: snapshot_def)
  with issue [OF app] have act: "aa_telegramID account1 = i" "aa_status account1 = Active" by simp_all
  note e = provision_writes_effect [OF writes act(1)]
  show "announced (fst s) (fst s') \<and> keeps_open (fst s) (fst s')"
    using e(1,2,3) e(4) [OF act(2)] unfolding d1 by (intro conjI announced_one [of i]) auto
qed

lemma provision_stored_announced:
  assumes "\<And>a i a1. issueAccess a = (Inr i, a1) \<Longrightarrow> aa_telegramID a1 = aa_telegramID a \<and> aa_status a1 = Active"
  shows "announced (fst (fst st)) (fst (fst (snd (provision_stored issuer seal i now resetQuota action issueAccess st)))) \<and>
    keeps_open (fst (fst st)) (fst (fst (snd (provision_stored issuer seal i now resetQuota action issueAccess st))))"
proof -
  obtain s r where st: "st = (s, r)" by fastforce
  have "announced (fst s) (fst (snd (run_in_transaction (provision_operation seal i now resetQuota action b issueAccess) s))) \<and>
    keeps_open (fst s) (fst (snd (run_in_transaction (provision_operation seal i now resetQuota action b issueAccess) s)))" for b
    by (rule announcing_run [OF provision_announcing]) (rule assms)
  then show ?thesis
    by (simp add: provision_stored_def st case_prod_unfold Let_def split: sum.splits)
qed

text \<open>The three ways to provision issue through methods that leave the account active.\<close>

lemma issuing_methods:
  "claim now a = (Inr i, a1) \<Longrightarrow> aa_telegramID a1 = aa_telegramID a \<and> aa_status a1 = Active"
  "approve now a = (Inr i, a1) \<Longrightarrow> aa_telegramID a1 = aa_telegramID a \<and> aa_status a1 = Active"
  "rotate_access now b a = (Inr i, a1) \<Longrightarrow> aa_telegramID a1 = aa_telegramID a \<and> aa_status a1 = Active"
  by (auto simp: claim_def approve_def rotate_access_def issue_def Let_def
      split: if_splits access_status.splits)

lemma provision_announced:
  "announced (fst (fst st)) (fst (fst (snd (store_claim issuer seal i now st)))) \<and>
   keeps_open (fst (fst st)) (fst (fst (snd (store_claim issuer seal i now st))))"
  "announced (fst (fst st)) (fst (fst (snd (store_approve issuer seal i now st)))) \<and>
   keeps_open (fst (fst st)) (fst (fst (snd (store_approve issuer seal i now st))))"
  "announced (fst (fst st)) (fst (fst (snd (store_rotate issuer seal i now b st)))) \<and>
   keeps_open (fst (fst st)) (fst (fst (snd (store_rotate issuer seal i now b st))))"
  unfolding store_claim_def store_approve_def store_rotate_def
  by (rule provision_stored_announced; erule issuing_methods)+

end
