(* ===== verification/Traffic_Store.thy ===== *)
theory Traffic_Store
  imports Vpn_Tables Traffic_Batch "HOL-Library.Product_Lexorder"
begin

text \<open>
  \<open>internal/postgres/traffic_store.go\<close>: recording a traffic batch against the quota windows,
  the sweep of due quota periods, and the traffic health that fails closed.
\<close>

section \<open>Recording a batch\<close>

record traffic_batch_result =
  br_Applied :: int
  br_RevokedTelegramIDs :: "int list"
  br_RestoredTelegramIDs :: "int list"

abbreviation no_traffic :: traffic_batch_result where
  "no_traffic \<equiv> \<lparr>br_Applied = 0, br_RevokedTelegramIDs = [], br_RestoredTelegramIDs = []\<rparr>"

abbreviation max_period_seconds :: int where "max_period_seconds \<equiv> 9223372036"

definition traffic_row_snapshot :: "int \<Rightarrow> vpn_user_row \<Rightarrow> go_time \<Rightarrow> go_time \<Rightarrow> access_snapshot" where
  "traffic_row_snapshot i user period activity =
     \<lparr>as_TelegramID = i, as_Eligible = vu_eligible user, as_Status = vu_status user,
      as_CredentialGeneration = word_of_int (vu_credential_generation user),
      as_PeriodStartedAt = period, as_LastVPNActivityAt = activity\<rparr>"

text \<open>The part of \<open>lockTrafficAccount\<close> after the scan, on the joined row.\<close>

definition restore_traffic_row ::
    "int \<Rightarrow> vpn_user_row \<Rightarrow> quota_row \<Rightarrow> go_error + (access_account \<times> quota_window \<times> bool)" where
  "restore_traffic_row i user quota =
     (case (vu_period_started_at user, vu_last_vpn_activity_at user) of
        (Some accountPeriod, Some lastActivity) \<Rightarrow>
          if vu_credential_generation user \<le> 0 \<or> qr_period_seconds quota \<le> 0
             \<or> max_period_seconds < qr_period_seconds quota
          then Inl (Err ''persisted traffic state is invalid'')
          else if accountPeriod \<noteq> qr_period_started_at quota
          then Inl (Err ''persisted access and quota periods differ'')
          else (case restore_access_account (traffic_row_snapshot i user accountPeriod lastActivity) of
              Inl e \<Rightarrow> Inl (Wrap ''restore traffic account'' e)
            | Inr account \<Rightarrow>
                (case restore_quota_window (qr_period_started_at quota) (qr_limit_bytes quota)
                        (s64 (qr_period_seconds quota * second)) (qr_used_bytes quota) of
                   Inl e \<Rightarrow> Inl (Wrap ''restore quota window'' e)
                 | Inr window \<Rightarrow> Inr (account, window, qr_blocked quota)))
      | _ \<Rightarrow> Inl (Err ''persisted traffic state is invalid''))"

definition lock_traffic_account ::
    "int \<Rightarrow> (vpn_db \<times> faults, access_account \<times> quota_window \<times> bool) call" where
  "lock_traffic_account i =
     and_then (statement (\<lambda>d.
         (case (map_of (vpn_users d) i, map_of (quota_windows d) i) of
            (Some user, Some quota) \<Rightarrow>
              if vu_status user = Active \<and> vu_eligible user then Inr (user, quota) else Inl ErrNoRows
          | _ \<Rightarrow> Inl ErrNoRows, d)))
       (\<lambda>(user, quota) s. (restore_traffic_row i user quota, s))"

text \<open>The rest of the body of the loop over the positive samples.\<close>

definition persist_traffic ::
    "int \<Rightarrow> access_account \<Rightarrow> quota_snapshot \<Rightarrow> core_action_type option \<Rightarrow> (vpn_db \<times> faults, unit) call" where
  "persist_traffic i account q action =
     and_then (wrapping ''persist VPN activity'' (statement (update_user i (\<lambda>row. row
         \<lparr>vu_last_vpn_activity_at := Some (as_LastVPNActivityAt (snapshot account))\<rparr>)))) (\<lambda>_.
     and_then (wrapping ''persist quota usage'' (statement (update_quota i (\<lambda>row. row
         \<lparr>qr_period_started_at := qs_PeriodStartedAt q, qr_used_bytes := qs_UsedBytes q,
          qr_blocked := qs_Blocked q\<rparr>)))) (\<lambda>_.
     (case action of
        None \<Rightarrow> ok ()
      | Some a \<Rightarrow> wrapping ''queue quota core action'' (statement (\<lambda>d.
          (Inr (), queue_action a (db_clock d) i d))))))"

definition record_one ::
    "go_time \<Rightarrow> sample \<Rightarrow> access_account \<Rightarrow> quota_window \<Rightarrow> bool \<Rightarrow> traffic_batch_result
       \<Rightarrow> (vpn_db \<times> faults, traffic_batch_result) call" where
  "record_one observedAt sample account quota persistedBlocked pending =
     (case advance_window (as_PeriodStartedAt (snapshot account)) quota of
        (Inl e, _) \<Rightarrow> fail_with (Wrap ''inspect persisted quota'' e)
      | (Inr before, quota1) \<Rightarrow>
          if qs_Blocked before \<noteq> persistedBlocked
          then fail_with (Err ''persisted quota blocked state is inconsistent'')
          else
            (case record_aggregated_account_traffic (Some account) (Some quota1) observedAt
                    (sm_Uplink sample) (sm_Downlink sample) of
               (Inl e, _) \<Rightarrow> fail_with (Wrap ''record traffic for Telegram ID'' e)
             | (Inr change, None, _) \<Rightarrow> fail_with (Err ''nil account'')
             | (Inr change, Some account1, _) \<Rightarrow>
                 let i = sm_TelegramID sample;
                     action = (if tac_RevokeCredentialsImmediately change then Some CoreActionRevoke
                               else if tac_RestoreCredentialsImmediately change then Some CoreActionReconcile
                               else None);
                     pending1 = (case action of
                         None \<Rightarrow> pending
                       | Some CoreActionRevoke \<Rightarrow>
                           pending\<lparr>br_RevokedTelegramIDs := br_RevokedTelegramIDs pending @ [i]\<rparr>
                       | Some _ \<Rightarrow>
                           pending\<lparr>br_RestoredTelegramIDs := br_RestoredTelegramIDs pending @ [i]\<rparr>)
                 in and_then (persist_traffic i account1 (tac_Quota change) action)
                      (\<lambda>_. ok (pending1\<lparr>br_Applied := br_Applied pending1 + 1\<rparr>))))"

fun record_samples ::
    "go_time \<Rightarrow> sample list \<Rightarrow> traffic_batch_result \<Rightarrow> (vpn_db \<times> faults, traffic_batch_result) call" where
  "record_samples observedAt [] pending st = (Inr pending, st)"
| "record_samples observedAt (sample # ss) pending st =
     (case lock_traffic_account (sm_TelegramID sample) st of
        (Inl e, st1) \<Rightarrow>
          if errors_is e ''no rows in result set'' then record_samples observedAt ss pending st1
          else (Inl e, st1)
      | (Inr (account, quota, persistedBlocked), st1) \<Rightarrow>
          (case record_one observedAt sample account quota persistedBlocked pending st1 of
             (Inl e, st2) \<Rightarrow> (Inl e, st2)
           | (Inr pending1, st2) \<Rightarrow> record_samples observedAt ss pending1 st2))"

text \<open>The first loop of \<open>recordBatch\<close>: the samples are checked, those with traffic kept.\<close>

fun positive_samples_from :: "nat \<Rightarrow> int \<Rightarrow> sample list \<Rightarrow> go_error + sample list" where
  "positive_samples_from index previousID [] = Inr []"
| "positive_samples_from index previousID (s # ss) =
     (if invalid_sample s then Inl (Err ''traffic sample is invalid'')
      else if 0 < index \<and> sm_TelegramID s \<le> previousID
      then Inl (Err ''traffic samples must be strictly ordered'')
      else case positive_samples_from (index + 1) (sm_TelegramID s) ss of
        Inl e \<Rightarrow> Inl e
      | Inr positive \<Rightarrow>
          Inr (if 0 < s64 (sm_Uplink s + sm_Downlink s) then s # positive else positive))"

definition insert_batch_id :: "string \<Rightarrow> (vpn_db, bool) call" where
  "insert_batch_id batchID d =
     (if batchID \<in> set (traffic_ingestion_batches d) then (Inr False, d)
      else (Inr True, d\<lparr>traffic_ingestion_batches := traffic_ingestion_batches d @ [batchID]\<rparr>))"

definition record_batch_operation ::
    "go_time \<Rightarrow> sample list \<Rightarrow> string \<Rightarrow> (vpn_db \<times> faults, traffic_batch_result) call" where
  "record_batch_operation observedAt positive batchID =
     (if batchID = '''' then record_samples observedAt positive no_traffic
      else and_then (wrapping ''record traffic batch identity'' (statement (insert_batch_id batchID)))
             (\<lambda>inserted. if \<not> inserted then ok no_traffic
                          else record_samples observedAt positive no_traffic))"

definition record_batch ::
    "go_time \<Rightarrow> sample list \<Rightarrow> string \<Rightarrow> (vpn_db \<times> faults, traffic_batch_result) call" where
  "record_batch observedAt ss batchID =
     (if observedAt = 0 then fail_with (Err ''traffic observation timestamp is required'')
      else case positive_samples_from 0 0 ss of
        Inl e \<Rightarrow> fail_with e
      | Inr positive \<Rightarrow>
          if positive = [] then ok no_traffic
          else run_in_transaction (record_batch_operation observedAt positive batchID))"

definition record_pending_batch ::
    "(byte list \<Rightarrow> 256 word) \<Rightarrow> (go_time \<Rightarrow> byte list) \<Rightarrow> pending_batch
       \<Rightarrow> (vpn_db \<times> faults, traffic_batch_result) call" where
  "record_pending_batch sha fmt batch =
     (case new_pending_batch sha fmt (pb_CollectedAt batch) (pb_Samples batch) of
        Inl e \<Rightarrow> fail_with (Err ''pending traffic batch is invalid'')
      | Inr validated \<Rightarrow>
          if pb_ID validated \<noteq> pb_ID batch then fail_with (Err ''pending traffic batch is invalid'')
          else record_batch (pb_CollectedAt batch) (pb_Samples batch) (pb_ID batch))"

section \<open>The sweep of due quota periods\<close>

definition period_length :: "quota_row \<Rightarrow> duration" where
  "period_length q = qr_period_seconds q * second"

definition due_windows :: "go_time \<Rightarrow> nat \<Rightarrow> vpn_db \<Rightarrow> (int \<times> quota_row) list" where
  "due_windows now limit d =
     take limit (sort_key (\<lambda>(i, q). (qr_period_started_at q, i))
       (filter (\<lambda>(i, q). qr_period_started_at q + period_length q \<le> now) (quota_windows d)))"

definition advance_quota_row :: "go_time \<Rightarrow> quota_row \<Rightarrow> quota_row" where
  "advance_quota_row now q =
     q\<lparr>qr_period_started_at := qr_period_started_at q +
         (now - qr_period_started_at q) div period_length q * period_length q,
       qr_used_bytes := 0, qr_blocked := False\<rparr>"

definition sweep_statement :: "go_time \<Rightarrow> nat \<Rightarrow> (vpn_db, int \<times> int) call" where
  "sweep_statement now limit d =
     (let due = due_windows now limit d;
          ids = map fst due;
          d1 = d\<lparr>quota_windows := map (\<lambda>(i, q). (i, if i \<in> set ids then advance_quota_row now q else q))
                                    (quota_windows d)\<rparr>;
          restorable = filter (\<lambda>i. live (map_of (vpn_users d) i) \<and> \<not> th_fail_closed (traffic_health d))
             (map fst (filter (\<lambda>(i, q). qr_blocked q) due));
          queued = filter (\<lambda>i. \<not> has_open d CoreActionReconcile i) restorable
      in (Inr (int (length due), int (length queued)),
          queue_actions CoreActionReconcile (db_clock d) restorable d1))"

definition advance_due_quota_periods :: "go_time \<Rightarrow> int \<Rightarrow> (vpn_db \<times> faults, int \<times> int) call" where
  "advance_due_quota_periods now limit =
     (if now = 0 \<or> limit < 1 \<or> 1000 < limit then fail_with (Err ''quota period sweep is invalid'')
      else run_in_transaction
        (wrapping ''advance due quota periods'' (statement (sweep_statement now (nat limit)))))"

section \<open>Traffic health\<close>

record traffic_fault_observation =
  fo_StartedAt :: go_time
  fo_FailClosed :: bool
  fo_Notify :: bool

record traffic_fault_recovery =
  fr_Recovered :: bool
  fr_WasFailClosed :: bool
  fr_StartedAt :: go_time

definition valid_traffic_failure_stage :: "string \<Rightarrow> bool" where
  "valid_traffic_failure_stage stage \<longleftrightarrow>
     stage = ''collect'' \<or> stage = ''spool'' \<or> stage = ''record'' \<or> stage = ''cleanup''"

definition queue_traffic_health_actions :: "core_action_type \<Rightarrow> (vpn_db, unit) call" where
  "queue_traffic_health_actions action d =
     (Inr (), queue_actions action (db_clock d)
        (map fst (filter (\<lambda>(i, user). live (Some user) \<and>
             (case map_of (quota_windows d) i of None \<Rightarrow> False
              | Some q \<Rightarrow> action = CoreActionRevoke \<or> \<not> qr_blocked q)) (vpn_users d))) d)"

definition observe_failure_statement ::
    "string \<Rightarrow> go_time \<Rightarrow> (vpn_db, traffic_fault_observation \<times> bool) call" where
  "observe_failure_statement stage now d =
     (let h = traffic_health d;
          started = (case th_failure_started_at h of None \<Rightarrow> now | Some t \<Rightarrow> t);
          closed = (th_fail_closed h \<or> started \<le> now - 5 * minute);
          notified = (case th_last_notified_at h of
              None \<Rightarrow> now | Some t \<Rightarrow> if t \<le> now - 15 * minute then now else t)
      in (Inr (\<lparr>fo_StartedAt = started, fo_FailClosed = closed, fo_Notify = (notified = now)\<rparr>,
               \<not> th_fail_closed h \<and> closed),
          d\<lparr>traffic_health := \<lparr>th_fail_closed = closed, th_failure_started_at = Some started,
               th_failure_stage = Some stage, th_last_notified_at = Some notified\<rparr>\<rparr>))"

definition observe_failure :: "string \<Rightarrow> go_time \<Rightarrow> (vpn_db \<times> faults, traffic_fault_observation) call" where
  "observe_failure stage now =
     (if now = 0 \<or> \<not> valid_traffic_failure_stage stage
      then fail_with (Err ''traffic failure observation is invalid'')
      else run_in_transaction
        (and_then (wrapping ''observe traffic failure'' (statement (observe_failure_statement stage now)))
           (\<lambda>(observation, transitioned).
              if transitioned
              then and_then (wrapping ''queue traffic health core actions''
                       (statement (queue_traffic_health_actions CoreActionRevoke))) (\<lambda>_. ok observation)
              else ok observation)))"

definition observe_recovery_statement :: "(vpn_db, (go_time \<times> bool) option) call" where
  "observe_recovery_statement d =
     (let h = traffic_health d in
      case th_failure_started_at h of
        None \<Rightarrow> (Inr None, d)
      | Some started \<Rightarrow>
          (Inr (Some (started, th_fail_closed h)),
           d\<lparr>traffic_health := \<lparr>th_fail_closed = False, th_failure_started_at = None,
               th_failure_stage = None, th_last_notified_at = None\<rparr>\<rparr>))"

definition observe_recovery :: "go_time \<Rightarrow> (vpn_db \<times> faults, traffic_fault_recovery) call" where
  "observe_recovery now =
     (if now = 0 then fail_with (Err ''traffic recovery observation is invalid'')
      else run_in_transaction
        (and_then (wrapping ''observe traffic recovery'' (statement observe_recovery_statement))
           (\<lambda>row. case row of
              None \<Rightarrow> ok \<lparr>fr_Recovered = False, fr_WasFailClosed = False, fr_StartedAt = 0\<rparr>
            | Some (started, wasFailClosed) \<Rightarrow>
                let recovery = \<lparr>fr_Recovered = True, fr_WasFailClosed = wasFailClosed, fr_StartedAt = started\<rparr>
                in if wasFailClosed
                   then and_then (wrapping ''queue traffic health core actions''
                            (statement (queue_traffic_health_actions CoreActionReconcile))) (\<lambda>_. ok recovery)
                   else ok recovery)))"

definition set_fail_closed_statement :: "bool \<Rightarrow> go_time \<Rightarrow> (vpn_db, bool) call" where
  "set_fail_closed_statement failClosed now d =
     (if th_fail_closed (traffic_health d) = failClosed then (Inr False, d)
      else (Inr True, d\<lparr>traffic_health := \<lparr>th_fail_closed = failClosed,
              th_failure_started_at = (if failClosed then Some now else None),
              th_failure_stage = (if failClosed then Some ''record'' else None),
              th_last_notified_at = (if failClosed then Some now else None)\<rparr>\<rparr>))"

definition set_fail_closed :: "bool \<Rightarrow> go_time \<Rightarrow> (vpn_db \<times> faults, bool) call" where
  "set_fail_closed failClosed now =
     (if now = 0 then fail_with (Err ''traffic health transition time is required'')
      else run_in_transaction
        (and_then (wrapping ''transition traffic health'' (statement (set_fail_closed_statement failClosed now)))
           (\<lambda>transitioned.
              if \<not> transitioned then ok False
              else and_then (wrapping ''queue traffic health core actions''
                       (statement (queue_traffic_health_actions
                          (if failClosed then CoreActionRevoke else CoreActionReconcile)))) (\<lambda>_. ok True))))"

section \<open>Every change is announced to the core\<close>

lemma restore_traffic_row_Inr:
  assumes "restore_traffic_row i user quota = Inr (account, window, blocked)"
  shows "blocked = qr_blocked quota \<and> vu_period_started_at user = Some (qr_period_started_at quota) \<and>
    wf_account account \<and> aa_telegramID account = i \<and> aa_status account = vu_status user \<and>
    aa_periodStartedAt account = qr_period_started_at quota \<and>
    0 < qr_period_seconds quota \<and> qr_period_seconds quota \<le> max_period_seconds \<and>
    window = \<lparr>qw_periodStartedAt = qr_period_started_at quota, qw_limitBytes = qr_limit_bytes quota,
       qw_period = s64 (qr_period_seconds quota * second), qw_usedBytes = qr_used_bytes quota\<rparr>"
proof -
  from assms obtain activity where acc: "restore_access_account
        (traffic_row_snapshot i user (qr_period_started_at quota) activity) = Inr account"
    and rest: "blocked = qr_blocked quota \<and> vu_period_started_at user = Some (qr_period_started_at quota) \<and>
      0 < qr_period_seconds quota \<and> qr_period_seconds quota \<le> max_period_seconds \<and>
      window = \<lparr>qw_periodStartedAt = qr_period_started_at quota, qw_limitBytes = qr_limit_bytes quota,
        qw_period = s64 (qr_period_seconds quota * second), qw_usedBytes = qr_used_bytes quota\<rparr>"
    by (auto simp: restore_traffic_row_def restore_quota_window_def new_quota_window_def
        split: option.splits if_splits sum.splits)
  from restore_wf [OF acc] restore_Inr_snapshot [OF acc] rest show ?thesis
    by (auto simp: traffic_row_snapshot_def snapshot_def)
qed

lemma lock_traffic_account_Inr:
  assumes "lock_traffic_account i s = (Inr (account, window, blocked), s')"
  obtains user quota where "fst s' = fst s" "map_of (vpn_users (fst s)) i = Some user"
    "map_of (quota_windows (fst s)) i = Some quota" "vu_status user = Active" "vu_eligible user"
    "restore_traffic_row i user quota = Inr (account, window, blocked)"
  using assms
  by (auto simp: lock_traffic_account_def elim!: and_then_InrE dest!: statement_InrD
      split: option.splits if_splits)

lemma lock_traffic_account_frame:
  assumes "lock_traffic_account i s = (r, s')"
  shows "fst s' = fst s"
  using assms
  by (auto simp: lock_traffic_account_def and_then_def statement_def Let_def
      split: prod.splits sum.splits fault.splits option.splits if_splits)

lemma record_one_Inr:
  assumes "record_one t sample account window blocked pending s = (Inr p, s')"
    and "qw_periodStartedAt window = aa_periodStartedAt account" "0 < qw_period window"
  obtains change account1 window1 action where
    "record_aggregated_account_traffic (Some account) (Some window) t (sm_Uplink sample) (sm_Downlink sample)
       = (Inr change, Some account1, window1)"
    "blocked = (qw_limitBytes window \<le> qw_usedBytes window)"
    "action = (if tac_RevokeCredentialsImmediately change then Some CoreActionRevoke
               else if tac_RestoreCredentialsImmediately change then Some CoreActionReconcile else None)"
    "persist_traffic (sm_TelegramID sample) account1 (tac_Quota change) action s = (Inr (), s')"
proof -
  from assms(1) obtain before window1 where adv: "advance_window (aa_periodStartedAt account) window = (Inr before, window1)"
    by (auto simp: record_one_def snapshot_def split: prod.splits sum.splits)
  have w1: "window1 = window" "before = quota_snapshot_of window"
    using adv assms(2,3) by (auto simp: advance_window_def advance_to_def time_sub_def Let_def split: if_splits)
  from assms(1) adv w1 that show thesis
    by (auto simp: record_one_def snapshot_def Let_def quota_snapshot_of_def elim!: and_then_InrE
        split: prod.splits sum.splits option.splits if_splits)
qed

lemma persist_traffic_effect:
  assumes "persist_traffic i account q action s = (Inr u, s')"
    and "map_of (vpn_users (fst s)) i = Some user" "map_of (quota_windows (fst s)) i = Some quota"
  shows "fst s' = (let d1 = (fst s)
      \<lparr>vpn_users := AList.update i (user\<lparr>vu_last_vpn_activity_at := Some (aa_lastVPNActivityAt account)\<rparr>)
           (vpn_users (fst s)),
       quota_windows := AList.update i (quota\<lparr>qr_period_started_at := qs_PeriodStartedAt q,
           qr_used_bytes := qs_UsedBytes q, qr_blocked := qs_Blocked q\<rparr>) (quota_windows (fst s))\<rparr>
     in case action of None \<Rightarrow> d1 | Some a \<Rightarrow> queue_action a (db_clock (fst s)) i d1)"
proof -
  from assms(1) obtain s1 s2 where
      u: "statement (update_user i (\<lambda>row. row
         \<lparr>vu_last_vpn_activity_at := Some (as_LastVPNActivityAt (snapshot account))\<rparr>)) s = (Inr (), s1)"
    and q: "statement (update_quota i (\<lambda>row. row
         \<lparr>qr_period_started_at := qs_PeriodStartedAt q, qr_used_bytes := qs_UsedBytes q,
          qr_blocked := qs_Blocked q\<rparr>)) s1 = (Inr (), s2)"
    and a: "case action of None \<Rightarrow> fst s' = fst s2
        | Some x \<Rightarrow> fst s' = queue_action x (db_clock (fst s2)) i (fst s2)"
    unfolding persist_traffic_def
    by (elim and_then_InrE) (auto dest!: statement_total split: option.splits)
  have d1: "fst s1 = (fst s)\<lparr>vpn_users := AList.update i
        (user\<lparr>vu_last_vpn_activity_at := Some (aa_lastVPNActivityAt account)\<rparr>) (vpn_users (fst s))\<rparr>"
    using update_user_Inr [OF statement_InrD [OF u]] assms(2) by (auto simp: snapshot_def)
  have d2: "fst s2 = (fst s1)\<lparr>quota_windows := AList.update i
      (quota\<lparr>qr_period_started_at := qs_PeriodStartedAt q, qr_used_bytes := qs_UsedBytes q,
          qr_blocked := qs_Blocked q\<rparr>) (quota_windows (fst s1))\<rparr>"
    using update_quota_Inr [OF statement_InrD [OF q]] assms(3) d1 by auto
  show ?thesis using a unfolding d2 d1 by (cases action) (simp_all add: Let_def)
qed

text \<open>One sample of a user whose rows are consistent: what the tables become.\<close>

lemma record_one_effect:
  assumes lock: "lock_traffic_account (sm_TelegramID sample) s = (Inr (account, window, blocked), s1)"
    and one: "record_one t sample account window blocked pending s1 = (Inr p, s2)"
  obtains user quota and change :: traffic_accounting_change and account1 :: access_account
      and window1 :: quota_window and action where
    "map_of (vpn_users (fst s)) (sm_TelegramID sample) = Some user"
    "map_of (quota_windows (fst s)) (sm_TelegramID sample) = Some quota"
    "live (Some user)"
    "record_counters t (sm_Uplink sample) (sm_Downlink sample) window = (Inr (tac_Quota change), window1)"
    "window = \<lparr>qw_periodStartedAt = qr_period_started_at quota, qw_limitBytes = qr_limit_bytes quota,
       qw_period = s64 (qr_period_seconds quota * second), qw_usedBytes = qr_used_bytes quota\<rparr>"
    "action = (if \<not> qr_blocked quota \<and> qs_Blocked (tac_Quota change) then Some CoreActionRevoke
       else if qr_blocked quota \<and> \<not> qs_Blocked (tac_Quota change) then Some CoreActionReconcile else None)"
    "fst s2 = (let d1 = (fst s)
      \<lparr>vpn_users := AList.update (sm_TelegramID sample)
           (user\<lparr>vu_last_vpn_activity_at := Some (aa_lastVPNActivityAt account1)\<rparr>) (vpn_users (fst s)),
       quota_windows := AList.update (sm_TelegramID sample)
          (quota\<lparr>qr_period_started_at := qs_PeriodStartedAt (tac_Quota change),
           qr_used_bytes := qs_UsedBytes (tac_Quota change), qr_blocked := qs_Blocked (tac_Quota change)\<rparr>)
          (quota_windows (fst s))\<rparr>
     in case action of None \<Rightarrow> d1 | Some a \<Rightarrow> queue_action a (db_clock (fst s)) (sm_TelegramID sample) d1)"
proof -
  from lock obtain user quota where d1: "fst s1 = fst s"
    and user: "map_of (vpn_users (fst s)) (sm_TelegramID sample) = Some user"
      "vu_status user = Active" "vu_eligible user"
    and quota: "map_of (quota_windows (fst s)) (sm_TelegramID sample) = Some quota"
    and row: "restore_traffic_row (sm_TelegramID sample) user quota = Inr (account, window, blocked)"
    by (rule lock_traffic_account_Inr)
  note r = restore_traffic_row_Inr [OF row]
  have per: "0 < qw_period window" "qw_periodStartedAt window = aa_periodStartedAt account"
    using r by (simp_all add: s64_id)
  from record_one_Inr [OF one per(2,1)] obtain change account1 window1 action where
      rec: "record_aggregated_account_traffic (Some account) (Some window) t (sm_Uplink sample) (sm_Downlink sample)
        = (Inr change, Some account1, window1)"
    and blocked: "blocked = (qw_limitBytes window \<le> qw_usedBytes window)"
    and action: "action = (if tac_RevokeCredentialsImmediately change then Some CoreActionRevoke
               else if tac_RestoreCredentialsImmediately change then Some CoreActionReconcile else None)"
    and per: "persist_traffic (sm_TelegramID sample) account1 (tac_Quota change) action s1 = (Inr (), s2)"
    by metis
  from rec obtain w1 where w1: "record_counters t (sm_Uplink sample) (sm_Downlink sample) window = (Inr (tac_Quota change), w1)"
    and fl: "tac_RevokeCredentialsImmediately change = (\<not> qs_Blocked (quota_snapshot_of window) \<and> qs_Blocked (tac_Quota change))"
      "tac_RestoreCredentialsImmediately change = (qs_Blocked (quota_snapshot_of window) \<and> \<not> qs_Blocked (tac_Quota change))"
    by (rule record_aggregated_account_traffic_Inr) blast
  have act: "action = (if \<not> qr_blocked quota \<and> qs_Blocked (tac_Quota change) then Some CoreActionRevoke
       else if qr_blocked quota \<and> \<not> qs_Blocked (tac_Quota change) then Some CoreActionReconcile else None)"
    using action fl blocked r by (simp add: quota_snapshot_of_def)
  have lv: "live (Some user)" using user by (simp add: live_def)
  have win: "window = \<lparr>qw_periodStartedAt = qr_period_started_at quota, qw_limitBytes = qr_limit_bytes quota,
       qw_period = s64 (qr_period_seconds quota * second), qw_usedBytes = qr_used_bytes quota\<rparr>"
    using r by blast
  show thesis
    by (rule that [OF user(1) quota lv w1 win act persist_traffic_effect [OF per, unfolded d1, OF user(1) quota]])
qed

lemma record_one_announced:
  assumes "lock_traffic_account (sm_TelegramID sample) s = (Inr (account, window, blocked), s1)"
    and "record_one t sample account window blocked pending s1 = (Inr p, s2)"
  shows "announced (fst s) (fst s2) \<and> keeps_open (fst s) (fst s2)"
proof -
  let ?i = "sm_TelegramID sample"
  obtain user quota and change :: traffic_accounting_change and account1 :: access_account
      and window1 :: quota_window and action where
      user1: "map_of (vpn_users (fst s)) ?i = Some user"
    and quota: "map_of (quota_windows (fst s)) ?i = Some quota"
    and user2: "live (Some user)"
    and "record_counters t (sm_Uplink sample) (sm_Downlink sample) window = (Inr (tac_Quota change), window1)"
    and "window = \<lparr>qw_periodStartedAt = qr_period_started_at quota, qw_limitBytes = qr_limit_bytes quota,
       qw_period = s64 (qr_period_seconds quota * second), qw_usedBytes = qr_used_bytes quota\<rparr>"
    and action: "action = (if \<not> qr_blocked quota \<and> qs_Blocked (tac_Quota change) then Some CoreActionRevoke
       else if qr_blocked quota \<and> \<not> qs_Blocked (tac_Quota change) then Some CoreActionReconcile else None)"
    and d2: "fst s2 = (let d1 = (fst s)
      \<lparr>vpn_users := AList.update ?i (user\<lparr>vu_last_vpn_activity_at := Some (aa_lastVPNActivityAt account1)\<rparr>) (vpn_users (fst s)),
       quota_windows := AList.update ?i
          (quota\<lparr>qr_period_started_at := qs_PeriodStartedAt (tac_Quota change),
           qr_used_bytes := qs_UsedBytes (tac_Quota change), qr_blocked := qs_Blocked (tac_Quota change)\<rparr>)
          (quota_windows (fst s))\<rparr>
     in case action of None \<Rightarrow> d1 | Some a \<Rightarrow> queue_action a (db_clock (fst s)) ?i d1)"
    by (rule record_one_effect [OF assms])
  note user = user1 user2
  let ?d1 = "(fst s)
      \<lparr>vpn_users := AList.update ?i (user\<lparr>vu_last_vpn_activity_at := Some (aa_lastVPNActivityAt account1)\<rparr>) (vpn_users (fst s)),
       quota_windows := AList.update ?i
          (quota\<lparr>qr_period_started_at := qs_PeriodStartedAt (tac_Quota change),
           qr_used_bytes := qs_UsedBytes (tac_Quota change), qr_blocked := qs_Blocked (tac_Quota change)\<rparr>)
          (quota_windows (fst s))\<rparr>"
  have sv1: "serves ?d1 j = (if j = ?i then
      (if \<not> qs_Blocked (tac_Quota change) \<and> admitting (fst s) then map_of (credential_bundles (fst s)) ?i else None)
      else serves (fst s) j)" for j
    using user by (simp add: serves_alt update_conv' live_def unblocked_def admitting_def)
  have svi: "serves (fst s) ?i =
      (if \<not> qr_blocked quota \<and> admitting (fst s) then map_of (credential_bundles (fst s)) ?i else None)"
    using user quota by (simp add: serves_alt unblocked_def)
  have ho: "has_open ?d1 a k = has_open (fst s) a k" for a k
    by (simp add: has_open_def)
  have sv: "serves (fst s2) j = serves ?d1 j" for j
    unfolding d2 by (cases action) (simp_all add: Let_def)
  have open2: "has_open (fst s2) a k \<longleftrightarrow> has_open (fst s) a k \<or> (action = Some a \<and> k = ?i)" for a k
    unfolding d2 by (cases action) (auto simp: Let_def has_open_queue_action ho)
  have "announced (fst s) (fst s2)"
    by (rule announced_one [of ?i]) (auto simp: sv sv1 svi open2 action split: if_splits)
  moreover have "keeps_open (fst s) (fst s2)"
    unfolding d2 by (cases action) (auto simp: Let_def distinct_update intro!: keeps_open_queue keeps_open_tables)
  ultimately show ?thesis by blast
qed

lemma record_samples_announced:
  "record_samples t ss pending s = (Inr p, s') \<Longrightarrow> announced (fst s) (fst s') \<and> keeps_open (fst s) (fst s')"
proof (induction t ss pending s rule: record_samples.induct)
  case (1 t pending s)
  then show ?case by simp
next
  case (2 t sample ss pending s)
  obtain r s1 where lock: "lock_traffic_account (sm_TelegramID sample) s = (r, s1)" by (metis prod.exhaust)
  show ?case
  proof (cases r)
    case (Inl e)
    with 2 lock lock_traffic_account_frame [OF lock] show ?thesis by (auto split: if_splits)
  next
    case (Inr x)
    obtain account window blocked where x: "x = (account, window, blocked)" by (cases x)
    from 2(3) lock Inr x obtain p1 s2 where
        one: "record_one t sample account window blocked pending s1 = (Inr p1, s2)"
      and rest: "record_samples t ss p1 s2 = (Inr p, s')"
      by (auto split: prod.splits sum.splits)
    from 2(2) [OF lock [symmetric] Inr x [symmetric] refl one [symmetric] refl rest]
    have "announced (fst s2) (fst s') \<and> keeps_open (fst s2) (fst s')" .
    with record_one_announced [OF lock [unfolded Inr x] one] show ?thesis
      using announced_trans keeps_open_trans by blast
  qed
qed

lemma record_batch_announced:
  "announced (fst s) (fst (snd (record_batch t ss batchID s))) \<and>
   keeps_open (fst s) (fst (snd (record_batch t ss batchID s)))"
proof -
  have ins: "insert_batch_id b d = (Inr x, d') \<Longrightarrow> announced d d' \<and> keeps_open d d'" for b d x d'
    by (auto simp: insert_batch_id_def announced_def serves_alt admitting_def split: if_splits
        intro!: keeps_open_tables)
  have "announcing (record_batch_operation t positive batchID)" for positive
    unfolding announcing_def
  proof (intro allI impI)
    fix s x s'
    assume a: "record_batch_operation t positive batchID s = (Inr x, s')"
    show "announced (fst s) (fst s') \<and> keeps_open (fst s) (fst s')"
    proof (cases "batchID = ''''")
      case True
      with a show ?thesis by (auto simp: record_batch_operation_def dest: record_samples_announced)
    next
      case False
      with a obtain inserted s1 where i: "statement (insert_batch_id batchID) s = (Inr inserted, s1)"
        and r: "(if \<not> inserted then ok no_traffic else record_samples t positive no_traffic) s1 = (Inr x, s')"
        by (auto simp: record_batch_operation_def elim!: and_then_InrE)
      from r have "announced (fst s1) (fst s') \<and> keeps_open (fst s1) (fst s')"
        by (auto split: if_splits dest: record_samples_announced)
      with ins [OF statement_InrD [OF i]] show ?thesis
        using announced_trans keeps_open_trans by blast
    qed
  qed
  from announcing_run [OF this, of s] show ?thesis
    by (simp add: record_batch_def split: sum.splits)
qed

lemma record_pending_batch_announced:
  "announced (fst s) (fst (snd (record_pending_batch sha fmt b s))) \<and>
   keeps_open (fst s) (fst (snd (record_pending_batch sha fmt b s)))"
  using record_batch_announced by (simp add: record_pending_batch_def split: sum.splits)

text \<open>Changes of the traffic health: only admitting changes, for everybody at once.\<close>

lemma health_announced:
  assumes h: "d1 = d\<lparr>traffic_health := h\<rparr>" and q: "queue_traffic_health_actions action d1 = (Inr u, d')"
    and a: "action = (if th_fail_closed h then CoreActionRevoke else CoreActionReconcile)"
  shows "announced d d' \<and> keeps_open d d'"
proof
  have d': "d' = queue_actions action (db_clock d1)
        (map fst (filter (\<lambda>(i, user). live (Some user) \<and>
             (case map_of (quota_windows d1) i of None \<Rightarrow> False
              | Some q \<Rightarrow> action = CoreActionRevoke \<or> \<not> qr_blocked q)) (vpn_users d1))) d1"
    using q by (simp add: queue_traffic_health_actions_def)
  have ho: "has_open d1 x k = has_open d x k" for x k by (simp add: h has_open_def)
  show "keeps_open d d'" unfolding d' by (intro keeps_open_queue keeps_open_tables) (simp_all add: h)
  have sv: "serves d' i = serves d1 i" for i by (simp add: d')
  have member: "has_open d' action i"
    if "live (map_of (vpn_users d) i)" "unblocked (map_of (quota_windows d) i)" for i
  proof -
    from that obtain user q where "map_of (vpn_users d) i = Some user" "live (Some user)"
        "map_of (quota_windows d) i = Some q" "\<not> qr_blocked q"
      by (cases "map_of (vpn_users d) i"; cases "map_of (quota_windows d) i") (auto simp: live_def unblocked_def)
    then show ?thesis
      unfolding d' has_open_queue_actions by (force simp: h dest: map_of_SomeD)
  qed
  have nr: "serves d1 i = None" if "th_fail_closed h" for i
    using that by (simp add: h serves_alt admitting_def)
  have same: "serves d1 i \<noteq> None \<Longrightarrow> serves d i \<noteq> None \<Longrightarrow> serves d1 i = serves d i" for i
    by (auto simp: h serves_alt admitting_def split: if_splits)
  show "announced d d'"
    unfolding announced_def
  proof (intro allI impI)
    fix i
    assume ne: "serves d' i \<noteq> serves d i"
    then have lu: "live (map_of (vpn_users d) i)" "unblocked (map_of (quota_windows d) i)"
      unfolding sv by (auto simp: h serves_alt admitting_def split: if_splits)
    show "case serves d' i of None \<Rightarrow> has_open d' CoreActionRevoke i
        | Some _ \<Rightarrow> has_open d' CoreActionReconcile i"
    proof (cases "th_fail_closed h")
      case True
      with member [OF lu] nr a show ?thesis by (simp add: sv)
    next
      case False
      have "serves d i = None \<or> serves d1 i \<noteq> None"
        using False ne lu unfolding sv by (auto simp: h serves_alt admitting_def split: if_splits)
      with ne same have "serves d' i \<noteq> None" unfolding sv by auto
      with member [OF lu] False a show ?thesis by (auto simp: option.case_eq_if)
    qed
  qed
qed

lemma health_quiet:
  assumes "th_fail_closed h = th_fail_closed (traffic_health d)"
  shows "announced d (d\<lparr>traffic_health := h\<rparr>) \<and> keeps_open d (d\<lparr>traffic_health := h\<rparr>)"
  using assms by (auto simp: announced_def serves_alt admitting_def intro!: keeps_open_tables)

lemma health_statements:
  "observe_recovery_statement d = (Inr row, d') \<Longrightarrow> (row = None \<and> d' = d) \<or>
     (\<exists>h started. row = Some (started, th_fail_closed (traffic_health d)) \<and>
        d' = d\<lparr>traffic_health := h\<rparr> \<and> \<not> th_fail_closed h)"
  "set_fail_closed_statement closed now d = (Inr tr, d') \<Longrightarrow> (\<not> tr \<and> d' = d) \<or>
     (\<exists>h. tr \<and> d' = d\<lparr>traffic_health := h\<rparr> \<and> th_fail_closed h = closed)"
  "observe_failure_statement stage now d = (Inr (o1, tr), d') \<Longrightarrow>
     \<exists>h. d' = d\<lparr>traffic_health := h\<rparr> \<and> tr = (\<not> th_fail_closed (traffic_health d) \<and> th_fail_closed h) \<and>
        (th_fail_closed (traffic_health d) \<longrightarrow> th_fail_closed h)"
  by (auto simp: observe_recovery_statement_def set_fail_closed_statement_def
      observe_failure_statement_def Let_def split: option.splits if_splits)

lemma observe_failure_announced:
  "announced (fst s) (fst (snd (observe_failure stage now s))) \<and>
   keeps_open (fst s) (fst (snd (observe_failure stage now s)))"
proof -
  have "announcing (and_then (wrapping ''observe traffic failure'' (statement (observe_failure_statement stage now)))
           (\<lambda>(observation, transitioned).
              if transitioned
              then and_then (wrapping ''queue traffic health core actions''
                       (statement (queue_traffic_health_actions CoreActionRevoke))) (\<lambda>_. ok observation)
              else ok observation))" (is "announcing ?op")
    unfolding announcing_def
  proof (intro allI impI)
    fix s x s'
    assume "?op s = (Inr x, s')"
    then obtain o1 tr s1 where o1: "statement (observe_failure_statement stage now) s = (Inr (o1, tr), s1)"
      and rest: "(if tr then statement (queue_traffic_health_actions CoreActionRevoke) s1 = (Inr (), s') else s' = s1)"
      by (auto elim!: and_then_InrE split: if_splits)
    from health_statements(3) [OF statement_InrD [OF o1]]
    obtain h where h: "fst s1 = (fst s)\<lparr>traffic_health := h\<rparr>"
      and tr: "tr = (\<not> th_fail_closed (traffic_health (fst s)) \<and> th_fail_closed h)"
        "th_fail_closed (traffic_health (fst s)) \<longrightarrow> th_fail_closed h"
      by blast
    show "announced (fst s) (fst s') \<and> keeps_open (fst s) (fst s')"
    proof (cases tr)
      case True
      with rest have "queue_traffic_health_actions CoreActionRevoke (fst s1) = (Inr (), fst s')"
        by (auto dest: statement_InrD)
      from health_announced [OF h this] tr True show ?thesis by simp
    next
      case False
      with rest tr health_quiet [of h "fst s"] h show ?thesis by auto
    qed
  qed
  from announcing_run [OF this, of s] show ?thesis by (simp add: observe_failure_def)
qed

lemma observe_recovery_announced:
  "announced (fst s) (fst (snd (observe_recovery now s))) \<and>
   keeps_open (fst s) (fst (snd (observe_recovery now s)))"
proof -
  have "announcing (and_then (wrapping ''observe traffic recovery'' (statement observe_recovery_statement))
           (\<lambda>row. case row of
              None \<Rightarrow> ok \<lparr>fr_Recovered = False, fr_WasFailClosed = False, fr_StartedAt = 0\<rparr>
            | Some (started, wasFailClosed) \<Rightarrow>
                let recovery = \<lparr>fr_Recovered = True, fr_WasFailClosed = wasFailClosed, fr_StartedAt = started\<rparr>
                in if wasFailClosed
                   then and_then (wrapping ''queue traffic health core actions''
                            (statement (queue_traffic_health_actions CoreActionReconcile))) (\<lambda>_. ok recovery)
                   else ok recovery))" (is "announcing ?op")
    unfolding announcing_def
  proof (intro allI impI)
    fix s x s'
    assume "?op s = (Inr x, s')"
    then obtain row s1 where o1: "statement observe_recovery_statement s = (Inr row, s1)"
      and rest: "case row of None \<Rightarrow> s' = s1
        | Some (started, was) \<Rightarrow>
            if was then statement (queue_traffic_health_actions CoreActionReconcile) s1 = (Inr (), s') else s' = s1"
      by (auto elim!: and_then_InrE split: if_splits option.splits simp: Let_def)
    show "announced (fst s) (fst s') \<and> keeps_open (fst s) (fst s')"
    proof (cases row)
      case None
      with rest health_statements(1) [OF statement_InrD [OF o1]] show ?thesis by auto
    next
      case (Some r)
      obtain started was where r: "r = (started, was)" by fastforce
      from health_statements(1) [OF statement_InrD [OF o1]] Some r
      obtain h where h: "fst s1 = (fst s)\<lparr>traffic_health := h\<rparr>"
        and fc: "\<not> th_fail_closed h" "was = th_fail_closed (traffic_health (fst s))"
        by blast
      show ?thesis
      proof (cases was)
        case True
        with rest Some r have "queue_traffic_health_actions CoreActionReconcile (fst s1) = (Inr (), fst s')"
          by (auto dest: statement_InrD)
        from health_announced [OF h this] fc show ?thesis by simp
      next
        case False
        with rest Some r fc health_quiet [of h "fst s"] h show ?thesis by auto
      qed
    qed
  qed
  from announcing_run [OF this, of s] show ?thesis by (simp add: observe_recovery_def)
qed

lemma set_fail_closed_announced:
  "announced (fst s) (fst (snd (set_fail_closed failClosed now s))) \<and>
   keeps_open (fst s) (fst (snd (set_fail_closed failClosed now s)))"
proof -
  have "announcing (and_then (wrapping ''transition traffic health'' (statement (set_fail_closed_statement failClosed now)))
           (\<lambda>transitioned.
              if \<not> transitioned then ok False
              else and_then (wrapping ''queue traffic health core actions''
                       (statement (queue_traffic_health_actions
                          (if failClosed then CoreActionRevoke else CoreActionReconcile)))) (\<lambda>_. ok True)))"
    (is "announcing ?op")
    unfolding announcing_def
  proof (intro allI impI)
    fix s x s'
    assume "?op s = (Inr x, s')"
    then obtain tr s1 where o1: "statement (set_fail_closed_statement failClosed now) s = (Inr tr, s1)"
      and rest: "if tr then statement (queue_traffic_health_actions
            (if failClosed then CoreActionRevoke else CoreActionReconcile)) s1 = (Inr (), s') else s' = s1"
      by (auto elim!: and_then_InrE split: if_splits)
    show "announced (fst s) (fst s') \<and> keeps_open (fst s) (fst s')"
    proof (cases tr)
      case False
      with rest health_statements(2) [OF statement_InrD [OF o1]] show ?thesis by auto
    next
      case True
      with health_statements(2) [OF statement_InrD [OF o1]]
      obtain h where h: "fst s1 = (fst s)\<lparr>traffic_health := h\<rparr>" "th_fail_closed h = failClosed"
        by blast
      from True rest have "queue_traffic_health_actions
          (if failClosed then CoreActionRevoke else CoreActionReconcile) (fst s1) = (Inr (), fst s')"
        by (auto dest: statement_InrD)
      from health_announced [OF h(1) this] h(2) show ?thesis by simp
    qed
  qed
  from announcing_run [OF this, of s] show ?thesis by (simp add: set_fail_closed_def)
qed

lemma due_windows_subset: "set (due_windows now limit d) \<subseteq> set (quota_windows d)"
  unfolding due_windows_def by (auto dest: in_set_takeD)

lemma sweep_announced_statement:
  assumes sw: "sweep_statement now limit d = (Inr x, d')" and dist: "distinct (map fst (quota_windows d))"
  shows "announced d d' \<and> keeps_open d d'"
proof -
  let ?ids = "map fst (due_windows now limit d)"
  let ?re = "filter (\<lambda>i. live (map_of (vpn_users d) i) \<and> \<not> th_fail_closed (traffic_health d))
             (map fst (filter (\<lambda>(i, q). qr_blocked q) (due_windows now limit d)))"
  define d1 where "d1 = d\<lparr>quota_windows := map (\<lambda>(i, q). (i, if i \<in> set ?ids then advance_quota_row now q else q))
                                    (quota_windows d)\<rparr>"
  have d': "d' = queue_actions CoreActionReconcile (db_clock d) ?re d1"
    using sw by (simp add: sweep_statement_def Let_def d1_def)
  have qw: "quota_windows d1 = map (\<lambda>(i, q). (i, if i \<in> set ?ids then advance_quota_row now q else q)) (quota_windows d)"
    by (simp add: d1_def)
  have look: "map_of (quota_windows d1) i =
      map_option (\<lambda>q. if i \<in> set ?ids then advance_quota_row now q else q) (map_of (quota_windows d) i)" for i
    unfolding qw map_of_map_rows ..
  have fr: "vpn_users d1 = vpn_users d" "credential_bundles d1 = credential_bundles d" "admitting d1 = admitting d"
      "core_action_outbox d1 = core_action_outbox d" "core_settings_table d1 = core_settings_table d"
    by (simp_all add: d1_def admitting_def)
  have ho: "has_open d1 a k = has_open d a k" for a k by (simp add: has_open_def d1_def)
  have due: "(i, q) \<in> set (due_windows now limit d)"
    if "i \<in> set ?ids" "map_of (quota_windows d) i = Some q" for i q
  proof -
    from that(1) obtain q' where q': "(i, q') \<in> set (due_windows now limit d)" by auto
    with due_windows_subset have "(i, q') \<in> set (quota_windows d)" by blast
    with dist that(2) have "q' = q" by (metis map_of_eq_Some_iff option.inject)
    with q' show ?thesis by simp
  qed
  have sv: "serves d' i = serves d1 i" for i by (simp add: d')
  have one: "serves d' i = serves d i \<or> (serves d' i \<noteq> None \<and> has_open d' CoreActionReconcile i)" for i
  proof (cases "i \<in> set ?ids \<and> (\<exists>q. map_of (quota_windows d) i = Some q \<and> qr_blocked q)")
    case True
    then obtain q where q: "map_of (quota_windows d) i = Some q" "qr_blocked q" by blast
    show ?thesis
    proof (cases "live (map_of (vpn_users d) i) \<and> admitting d \<and> map_of (credential_bundles d) i \<noteq> None")
      case True
      from due [OF _ q(1)] \<open>i \<in> set ?ids \<and> _\<close> q True have "i \<in> set ?re"
        by (force simp: admitting_def)
      moreover have "serves d' i \<noteq> None"
      proof -
        have "unblocked (map_of (quota_windows d1) i)"
          unfolding look using \<open>i \<in> set ?ids \<and> _\<close> q by (simp add: unblocked_def advance_quota_row_def)
        with True show ?thesis unfolding sv by (simp add: serves_alt fr)
      qed
      ultimately show ?thesis unfolding d' has_open_queue_actions by blast
    next
      case False
      then have "serves d' i = None" "serves d i = None"
        unfolding sv by (auto simp: serves_alt fr)
      then show ?thesis by simp
    qed
  next
    case False
    then have "unblocked (map_of (quota_windows d1) i) = unblocked (map_of (quota_windows d) i)"
      unfolding look by (auto simp: unblocked_def advance_quota_row_def split: option.splits)
    then show ?thesis unfolding sv by (simp add: serves_alt fr)
  qed
  have "announced d d'"
    unfolding announced_def
  proof (intro allI impI)
    fix i
    assume "serves d' i \<noteq> serves d i"
    with one [of i] show "case serves d' i of None \<Rightarrow> has_open d' CoreActionRevoke i
        | Some _ \<Rightarrow> has_open d' CoreActionReconcile i"
      by auto
  qed
  moreover have "map fst (quota_windows d1) = map fst (quota_windows d)"
    unfolding qw by (rule map_fst_map_rows)
  then have "keeps_open d d'"
    unfolding d' by (intro keeps_open_queue keeps_open_tables) (simp_all add: fr)
  ultimately show ?thesis by blast
qed

lemma sweep_announced:
  assumes "distinct (map fst (quota_windows (fst s)))"
  shows "announced (fst s) (fst (snd (advance_due_quota_periods now limit s))) \<and>
    keeps_open (fst s) (fst (snd (advance_due_quota_periods now limit s)))"
proof -
  obtain r d' fs' where run: "run_in_transaction
      (wrapping ''advance due quota periods'' (statement (sweep_statement now (nat limit)))) (fst s, snd s) = (r, (d', fs'))"
    by (metis prod_cases3)
  have "announced (fst s) d' \<and> keeps_open (fst s) d'"
    using transaction_outcome [OF run] sweep_announced_statement [OF _ assms]
    by (auto dest!: statement_Inr)
  with run show ?thesis by (simp add: advance_due_quota_periods_def)
qed

end
