(* ===== verification/Management_Settings.thy ===== *)
theory Management_Settings
  imports Access_Store Traffic_Store
begin

text \<open>
  The settings that owners manage (\<open>internal/domain/management_settings.go\<close>,
  \<open>internal/postgres/management_settings_store.go\<close>): the new quota limit is applied to every quota
  window, and a smaller inactivity threshold removes the users who are past it, both with the core
  actions this calls for.
\<close>

section \<open>Settings\<close>

record management_settings =
  mg_QualificationMode :: string
  mg_RecheckIntervalMinutes :: int
  mg_RecheckRequestsPerSecond :: int
  mg_RecheckBatchSize :: int
  mg_InactivityThresholdDays :: int
  mg_QuotaLimitBytes :: int

definition validate_management :: "management_settings \<Rightarrow> go_error option" where
  "validate_management s =
     (if mg_QualificationMode s \<noteq> ''any'' \<and> mg_QualificationMode s \<noteq> ''all''
      then Some (Err ''qualification mode is invalid'')
      else if mg_RecheckIntervalMinutes s < 1 \<or> 10080 < mg_RecheckIntervalMinutes s
      then Some (Err ''recheck interval must be between 1 and 10080 minutes'')
      else if mg_RecheckRequestsPerSecond s < 1 \<or> 20 < mg_RecheckRequestsPerSecond s
      then Some (Err ''recheck rate must be between 1 and 20 requests per second'')
      else if mg_RecheckBatchSize s < 10 \<or> 200 < mg_RecheckBatchSize s
      then Some (Err ''recheck batch size must be between 10 and 200'')
      else if mg_InactivityThresholdDays s < 0 then Some (Err ''inactivity threshold cannot be negative'')
      else if mg_QuotaLimitBytes s \<le> 0 then Some (Err ''quota limit must be positive'')
      else None)"

record rule_overview =
  ro_ChatID :: int
  ro_ChatType :: string
  ro_Title :: string
  ro_Enabled :: bool
  ro_BotAdministratorPassed :: bool

definition validate_rule_overview :: "rule_overview \<Rightarrow> go_error option" where
  "validate_rule_overview r =
     (if ro_ChatID r = 0 then Some (Err ''qualification rule chat ID is invalid'')
      else if ro_ChatType r \<noteq> ''supergroup'' \<and> ro_ChatType r \<noteq> ''channel''
      then Some (Err ''qualification rule chat type is invalid'')
      else if ro_Enabled r \<and> \<not> ro_BotAdministratorPassed r
      then Some (Err ''enabled qualification rule was not administrator verified'')
      else None)"

section \<open>Reading\<close>

definition management_of :: "settings_row \<Rightarrow> management_settings" where
  "management_of row = \<lparr>mg_QualificationMode = st_mode row, mg_RecheckIntervalMinutes = st_recheck_interval_minutes row,
     mg_RecheckRequestsPerSecond = st_recheck_requests_per_second row, mg_RecheckBatchSize = st_recheck_batch_size row,
     mg_InactivityThresholdDays = st_inactivity_threshold_days row, mg_QuotaLimitBytes = st_quota_limit_bytes row\<rparr>"

definition rule_overviews :: "vpn_db \<Rightarrow> rule_overview list" where
  "rule_overviews d = map (\<lambda>(i, row). \<lparr>ro_ChatID = i, ro_ChatType = ru_chat_type row, ro_Title = ru_title row,
     ro_Enabled = ru_enabled row, ro_BotAdministratorPassed = (ru_bot_admin_verified_at row \<noteq> None)\<rparr>)
     (sort_key fst (qualification_rules d))"

fun valid_rules :: "int \<Rightarrow> rule_overview list \<Rightarrow> bool" where
  "valid_rules previous [] = True"
| "valid_rules previous (r # rs) =
     (validate_rule_overview r = None \<and> previous < ro_ChatID r \<and> valid_rules (ro_ChatID r) rs)"

definition get_management :: "(vpn_db \<times> faults, management_settings \<times> rule_overview list) call" where
  "get_management =
     and_then (wrapping ''query management settings'' (statement (\<lambda>d.
         (Inr (management_of (qualification_settings d), rule_overviews d), d)))) (\<lambda>(settings, rules).
       case validate_management settings of
         Some e \<Rightarrow> fail_with (Wrap ''persisted management settings are invalid'' e)
       | None \<Rightarrow>
           if valid_rules min_int64 rules then ok (settings, rules)
           else fail_with (Err ''persisted qualification rules are invalid''))"

section \<open>Inactivity\<close>

abbreviation day :: duration where "day \<equiv> 24 * hour"

text \<open>The rows the statements select; a null time compares as neither.\<close>

definition long_inactive :: "int \<Rightarrow> go_time \<Rightarrow> vpn_user_row \<Rightarrow> bool" where
  "long_inactive days now row \<longleftrightarrow> vu_status row = Active \<and>
     (case vu_last_vpn_activity_at row of None \<Rightarrow> False | Some t \<Rightarrow> t \<le> now - days * day)"

definition preview_inactivity :: "int \<Rightarrow> go_time \<Rightarrow> (vpn_db \<times> faults, int) call" where
  "preview_inactivity days now =
     (if days < 1 \<or> now = 0 then fail_with (Err ''inactivity preview input is invalid'')
      else and_then (wrapping ''preview inactive VPN users'' (statement (\<lambda>d.
             (Inr (int (length (filter (\<lambda>(i, row). long_inactive days now row) (vpn_users d)))), d))))
           (\<lambda>n. if n < 0 then fail_with (Err ''persisted inactivity preview count is invalid'') else ok n))"

section \<open>The update\<close>

abbreviation "ErrInactivityConfirmationRequired \<equiv> Sentinel ''inactivity removal confirmation is required''"

definition removes_inactive :: "int \<Rightarrow> int \<Rightarrow> bool" where
  "removes_inactive previous days \<longleftrightarrow> 0 < days \<and> (previous = 0 \<or> days < previous)"

definition updated_settings :: "management_settings \<Rightarrow> settings_row \<Rightarrow> settings_row" where
  "updated_settings s row = row\<lparr>st_mode := mg_QualificationMode s, st_recheck_interval_minutes := mg_RecheckIntervalMinutes s,
     st_recheck_requests_per_second := mg_RecheckRequestsPerSecond s, st_recheck_batch_size := mg_RecheckBatchSize s,
     st_inactivity_threshold_days := mg_InactivityThresholdDays s, st_quota_limit_bytes := mg_QuotaLimitBytes s\<rparr>"

definition limited_row :: "int \<Rightarrow> quota_row \<Rightarrow> quota_row" where
  "limited_row limit q = q\<lparr>qr_limit_bytes := limit, qr_blocked := (limit \<le> qr_used_bytes q)\<rparr>"

text \<open>
  The users whose block changes with the limit, as far as the core serves them; \<open>blocking\<close> selects
  the newly blocked or the newly unblocked.
\<close>

definition crossing_limit :: "int \<Rightarrow> bool \<Rightarrow> vpn_db \<Rightarrow> int list" where
  "crossing_limit limit blocking d =
     map fst (filter (\<lambda>(i, q). qr_blocked q \<noteq> qr_blocked (limited_row limit q) \<and> qr_blocked (limited_row limit q) = blocking \<and>
        live (map_of (vpn_users d) i) \<and> (blocking \<or> \<not> th_fail_closed (traffic_health d))) (quota_windows d))"

definition apply_quota_limit :: "int \<Rightarrow> go_time \<Rightarrow> (vpn_db, unit) call" where
  "apply_quota_limit limit now d =
     (if list_all (\<lambda>(i, q). quota_row_ok (limited_row limit q)) (quota_windows d)
      then (Inr (), queue_actions CoreActionReconcile now (crossing_limit limit False d)
             (queue_actions CoreActionRevoke now (crossing_limit limit True d)
               (d\<lparr>quota_windows := map (\<lambda>(i, q). (i, limited_row limit q)) (quota_windows d)\<rparr>)))
      else (Inl constraint_violated, d))"

definition removed_row :: "int \<Rightarrow> go_time \<Rightarrow> vpn_user_row \<Rightarrow> vpn_user_row" where
  "removed_row days now row = (if long_inactive days now row then row\<lparr>vu_status := SelfService\<rparr> else row)"

definition apply_inactivity :: "bool \<Rightarrow> int \<Rightarrow> go_time \<Rightarrow> (vpn_db, unit) call" where
  "apply_inactivity removes days now d =
     (if \<not> removes then (Inr (), d)
      else if list_all (\<lambda>(i, row). user_row_ok (removed_row days now row)) (vpn_users d)
      then (Inr (), queue_actions CoreActionRevoke now
             (map fst (filter (\<lambda>(i, row). long_inactive days now row) (vpn_users d)))
             (d\<lparr>vpn_users := map (\<lambda>(i, row). (i, removed_row days now row)) (vpn_users d)\<rparr>))
      else (Inl constraint_violated, d))"

definition update_management_operation ::
    "int \<Rightarrow> management_settings \<Rightarrow> bool \<Rightarrow> go_time \<Rightarrow> (vpn_db \<times> faults, unit) call" where
  "update_management_operation actor s confirm now =
     and_then (wrapping ''lock management settings'' (statement (\<lambda>d.
         (Inr (st_inactivity_threshold_days (qualification_settings d)), d)))) (\<lambda>previous.
     let removes = removes_inactive previous (mg_InactivityThresholdDays s) in
     if removes \<and> \<not> confirm then fail_with ErrInactivityConfirmationRequired
     else
     and_then (wrapping ''update management settings'' (statement (\<lambda>d.
         (Inr (), d\<lparr>qualification_settings := updated_settings s (qualification_settings d)\<rparr>)))) (\<lambda>_.
     and_then (wrapping ''apply quota setting'' (statement (apply_quota_limit (mg_QuotaLimitBytes s) now))) (\<lambda>_.
     and_then (wrapping ''apply inactivity setting'' (statement
         (apply_inactivity removes (mg_InactivityThresholdDays s) now))) (\<lambda>_.
     wrapping ''audit management settings update'' (statement (\<lambda>d.
         (Inr (), record_audit actor ''settings.management.update'' 0 d)))))))"

text \<open>\<open>trigger\<close> is that of the recheck scheduler, on a state of its own.\<close>

definition update_management ::
    "('w \<Rightarrow> 'w) \<Rightarrow> int \<Rightarrow> management_settings \<Rightarrow> bool \<Rightarrow> go_time \<Rightarrow> ((vpn_db \<times> faults) \<times> 'w, unit) call" where
  "update_management trigger actor s confirm now =
     (if actor \<le> 0 \<or> now = 0 then fail_with (Err ''management settings update metadata is invalid'')
      else case validate_management s of
        Some e \<Rightarrow> fail_with e
      | None \<Rightarrow>
          and_then (with_tables (run_in_transaction (update_management_operation actor s confirm now)))
            (\<lambda>_. with_world (\<lambda>w. (Inr (), trigger w))))"

section \<open>What an update changes is announced\<close>

lemma settings_quiet:
  "announced d (d\<lparr>qualification_settings := q\<rparr>) \<and> keeps_open d (d\<lparr>qualification_settings := q\<rparr>)"
  by (auto simp: announced_def serves_alt admitting_def intro!: keeps_open_tables)

lemma in_crossing_limit:
  assumes "map_of (quota_windows d) i = Some q" "qr_blocked q \<noteq> qr_blocked (limited_row limit q)"
    "live (map_of (vpn_users d) i)" "qr_blocked (limited_row limit q) \<or> \<not> th_fail_closed (traffic_health d)"
  shows "i \<in> set (crossing_limit limit (qr_blocked (limited_row limit q)) d)"
  using assms map_of_SomeD [OF assms(1)] by (force simp: crossing_limit_def)

lemma apply_quota_limit_announced:
  assumes "apply_quota_limit limit now d = (Inr u, d')"
  shows "announced d d' \<and> keeps_open d d'"
proof -
  define d1 where "d1 = d\<lparr>quota_windows := map (\<lambda>(i, q). (i, limited_row limit q)) (quota_windows d)\<rparr>"
  have d': "d' = queue_actions CoreActionReconcile now (crossing_limit limit False d)
      (queue_actions CoreActionRevoke now (crossing_limit limit True d) d1)"
    using assms by (simp add: apply_quota_limit_def d1_def split: if_splits)
  have look: "map_of (quota_windows d1) i = map_option (limited_row limit) (map_of (quota_windows d) i)" for i
    unfolding d1_def by (simp add: map_of_map_rows [where f = "\<lambda>i. limited_row limit"])
  have fr: "vpn_users d1 = vpn_users d" "credential_bundles d1 = credential_bundles d" "admitting d1 = admitting d"
      "core_action_outbox d1 = core_action_outbox d" "core_settings_table d1 = core_settings_table d"
    by (simp_all add: d1_def admitting_def)
  have sv: "serves d' i = serves d1 i" for i by (simp add: d')
  have has: "has_open d' (if blocking then CoreActionRevoke else CoreActionReconcile) i"
    if "i \<in> set (crossing_limit limit blocking d)" for i blocking
    using that by (cases blocking) (simp_all add: d' has_open_queue_actions)
  have "announced d d'"
    unfolding announced_def
  proof (intro allI impI)
    fix i
    assume "serves d' i \<noteq> serves d i"
    then have ne: "serves d1 i \<noteq> serves d i" by (simp add: sv)
    then obtain q where q: "map_of (quota_windows d) i = Some q"
      by (auto simp: serves_alt fr look unblocked_def split: if_splits option.splits)
    with ne have x: "live (map_of (vpn_users d) i)" "admitting d" "qr_blocked q \<noteq> qr_blocked (limited_row limit q)"
      by (auto simp: serves_alt fr look unblocked_def split: if_splits)
    then have "\<not> th_fail_closed (traffic_health d)" by (simp add: admitting_def)
    from has [OF in_crossing_limit [OF q x(3,1)]] this
    have "has_open d' (if qr_blocked (limited_row limit q) then CoreActionRevoke else CoreActionReconcile) i"
      by blast
    with q x ne show "case serves d' i of None \<Rightarrow> has_open d' CoreActionRevoke i | Some _ \<Rightarrow> has_open d' CoreActionReconcile i"
      unfolding sv
      by (cases "qr_blocked (limited_row limit q)")
        (auto simp: serves_alt fr look unblocked_def split: option.splits)
  qed
  moreover have "map fst (quota_windows d1) = map fst (quota_windows d)"
    using map_fst_map_rows [of "\<lambda>i. limited_row limit"] by (simp add: d1_def)
  then have "keeps_open d d'"
    unfolding d' by (intro keeps_open_queue keeps_open_tables) (simp_all add: fr)
  ultimately show ?thesis ..
qed

lemma apply_inactivity_announced:
  assumes "apply_inactivity removes days now d = (Inr u, d')"
  shows "announced d d' \<and> keeps_open d d'"
proof (cases removes)
  case False
  with assms show ?thesis by (simp add: apply_inactivity_def)
next
  case True
  define d1 where "d1 = d\<lparr>vpn_users := map (\<lambda>(i, row). (i, removed_row days now row)) (vpn_users d)\<rparr>"
  define gone where "gone = map fst (filter (\<lambda>(i, row). long_inactive days now row) (vpn_users d))"
  have d': "d' = queue_actions CoreActionRevoke now gone d1"
    using assms True by (simp add: apply_inactivity_def d1_def gone_def split: if_splits)
  have look: "map_of (vpn_users d1) i = map_option (removed_row days now) (map_of (vpn_users d) i)" for i
    unfolding d1_def by (simp add: map_of_map_rows [where f = "\<lambda>i. removed_row days now"])
  have fr: "quota_windows d1 = quota_windows d" "credential_bundles d1 = credential_bundles d" "admitting d1 = admitting d"
      "core_action_outbox d1 = core_action_outbox d" "core_settings_table d1 = core_settings_table d"
    by (simp_all add: d1_def admitting_def)
  have one: "serves d1 i = serves d i \<or> (serves d1 i = None \<and> i \<in> set gone)" for i
  proof (cases "map_of (vpn_users d) i")
    case None
    then show ?thesis by (simp add: serves_alt look live_def)
  next
    case (Some row)
    then have "(i, row) \<in> set (vpn_users d)" by (rule map_of_SomeD)
    with Some show ?thesis
      by (cases "long_inactive days now row")
        (force simp: serves_alt look live_def removed_row_def gone_def fr)+
  qed
  have "announced d d'"
    unfolding announced_def
  proof (intro allI impI)
    fix i
    assume "serves d' i \<noteq> serves d i"
    with one [of i] show "case serves d' i of None \<Rightarrow> has_open d' CoreActionRevoke i | Some _ \<Rightarrow> has_open d' CoreActionReconcile i"
      by (simp add: d' has_open_queue_actions)
  qed
  moreover have "keeps_open d d'"
    unfolding d' by (intro keeps_open_queue keeps_open_tables) (simp_all add: fr)
  ultimately show ?thesis ..
qed

lemma update_management_announcing: "announcing (update_management_operation actor s confirm now)"
  unfolding announcing_def
proof (intro allI impI)
  fix st x st'
  assume "update_management_operation actor s confirm now st = (Inr x, st')"
  then obtain previous st1 st2 st3 st4 where
      st1: "statement (\<lambda>d. (Inr (st_inactivity_threshold_days (qualification_settings d)), d)) st = (Inr previous, st1)"
    and st2: "statement (\<lambda>d. (Inr (), d\<lparr>qualification_settings := updated_settings s (qualification_settings d)\<rparr>)) st1 = (Inr (), st2)"
    and st3: "statement (apply_quota_limit (mg_QuotaLimitBytes s) now) st2 = (Inr (), st3)"
    and st4: "statement (apply_inactivity (removes_inactive previous (mg_InactivityThresholdDays s))
        (mg_InactivityThresholdDays s) now) st3 = (Inr (), st4)"
    and st': "statement (\<lambda>d. (Inr (), record_audit actor ''settings.management.update'' 0 d)) st4 = (Inr (), st')"
    by (auto simp: update_management_operation_def Let_def elim!: and_then_InrE split: if_splits)
  have f1: "fst st1 = fst st" using statement_read [OF st1] by simp
  have f2: "announced (fst st) (fst st2) \<and> keeps_open (fst st) (fst st2)"
    using statement_total [OF st2] settings_quiet [of "fst st"] by (simp add: f1)
  have f3: "announced (fst st2) (fst st3) \<and> keeps_open (fst st2) (fst st3)"
    using statement_InrD [OF st3] by (rule apply_quota_limit_announced)
  have f4: "announced (fst st3) (fst st4) \<and> keeps_open (fst st3) (fst st4)"
    using statement_InrD [OF st4] by (rule apply_inactivity_announced)
  have f5: "announced (fst st4) (fst st') \<and> keeps_open (fst st4) (fst st')"
    using statement_total [OF st'] by (simp add: announced_def keeps_open_queue)
  from f2 f3 f4 f5 show "announced (fst st) (fst st') \<and> keeps_open (fst st) (fst st')"
    by (meson announced_trans keeps_open_trans)
qed

lemma update_management_announced:
  "announced (fst (fst st)) (fst (fst (snd (update_management trigger actor s confirm now st)))) \<and>
   keeps_open (fst (fst st)) (fst (fst (snd (update_management trigger actor s confirm now st))))"
proof (cases "actor \<le> 0 \<or> now = 0 \<or> validate_management s \<noteq> None")
  case True
  then show ?thesis by (auto simp: update_management_def)
next
  case False
  have "fst (fst (snd (update_management trigger actor s confirm now st))) =
      fst (snd (run_in_transaction (update_management_operation actor s confirm now) (fst st)))"
    using False by (auto simp: update_management_def and_then_def with_tables_def with_world_def Let_def
        split: prod.splits sum.splits)
  with announcing_run [OF update_management_announcing] show ?thesis by metis
qed

section \<open>What an update does\<close>

lemma apply_statements_Inr:
  "apply_quota_limit limit now d = (Inr u, d') \<Longrightarrow> vpn_users d' = vpn_users d \<and>
     quota_windows d' = map (\<lambda>(i, q). (i, limited_row limit q)) (quota_windows d) \<and>
     qualification_settings d' = qualification_settings d"
  "apply_inactivity removes days now d = (Inr u, d') \<Longrightarrow>
     vpn_users d' = (if removes then map (\<lambda>(i, row). (i, removed_row days now row)) (vpn_users d) else vpn_users d) \<and>
     quota_windows d' = quota_windows d \<and> qualification_settings d' = qualification_settings d \<and>
     (\<forall>i row. removes \<and> (i, row) \<in> set (vpn_users d) \<and> long_inactive days now row \<longrightarrow> has_open d' CoreActionRevoke i)"
  by (force simp: apply_quota_limit_def apply_inactivity_def has_open_queue_actions split: if_splits)+

lemma record_audit_tables [simp]:
  "vpn_users (record_audit a x t d) = vpn_users d"
  "qualification_settings (record_audit a x t d) = qualification_settings d"
  by (simp_all add: record_audit_def)

lemma update_management_effect:
  assumes "update_management_operation actor s confirm now st = (Inr u, st')"
    and "removes = removes_inactive (st_inactivity_threshold_days (qualification_settings (fst st))) (mg_InactivityThresholdDays s)"
  shows "(removes \<longrightarrow> confirm) \<and>
    vpn_users (fst st') = (if removes then map (\<lambda>(i, row). (i, removed_row (mg_InactivityThresholdDays s) now row)) (vpn_users (fst st))
      else vpn_users (fst st)) \<and>
    quota_windows (fst st') = map (\<lambda>(i, q). (i, limited_row (mg_QuotaLimitBytes s) q)) (quota_windows (fst st)) \<and>
    management_of (qualification_settings (fst st')) = s \<and>
    (\<forall>i row. removes \<and> (i, row) \<in> set (vpn_users (fst st)) \<and> long_inactive (mg_InactivityThresholdDays s) now row \<longrightarrow>
       has_open (fst st') CoreActionRevoke i)"
proof -
  let ?days = "mg_InactivityThresholdDays s"
  from assms(1) obtain previous st1 st2 st3 st4 where
      st1: "statement (\<lambda>d. (Inr (st_inactivity_threshold_days (qualification_settings d)), d)) st = (Inr previous, st1)"
    and confirm: "removes_inactive previous ?days \<longrightarrow> confirm"
    and st2: "statement (\<lambda>d. (Inr (), d\<lparr>qualification_settings := updated_settings s (qualification_settings d)\<rparr>)) st1 = (Inr (), st2)"
    and st3: "statement (apply_quota_limit (mg_QuotaLimitBytes s) now) st2 = (Inr (), st3)"
    and st4: "statement (apply_inactivity (removes_inactive previous ?days) ?days now) st3 = (Inr (), st4)"
    and st': "statement (\<lambda>d. (Inr (), record_audit actor ''settings.management.update'' 0 d)) st4 = (Inr (), st')"
    by (auto simp: update_management_operation_def Let_def elim!: and_then_InrE split: if_splits)
  have f1: "fst st1 = fst st" "removes_inactive previous ?days = removes"
    using statement_read [OF st1] by (simp_all add: assms(2))
  have f2: "fst st2 = (fst st)\<lparr>qualification_settings := updated_settings s (qualification_settings (fst st))\<rparr>"
    using statement_total [OF st2] by (simp add: f1(1))
  have f5: "fst st' = record_audit actor ''settings.management.update'' 0 (fst st4)"
    using statement_total [OF st'] .
  have "management_of (updated_settings s row) = s" for row
    by (simp add: management_of_def updated_settings_def)
  with apply_statements_Inr(1) [OF statement_InrD [OF st3]] apply_statements_Inr(2) [OF statement_InrD [OF st4]]
    confirm f1(2)
  show ?thesis by (simp add: f2 f5)
qed

definition live_status :: "vpn_db \<Rightarrow> int \<Rightarrow> access_status option" where
  "live_status d i = map_option vu_status (map_of (vpn_users d) i)"

lemma update_management_Inr:
  assumes "update_management trigger actor s confirm now ((d, fs), w) = (Inr (), ((d1, fs1), w1))"
  shows "w1 = trigger w \<and> validate_management s = None \<and>
    (\<exists>fs2 fs3. update_management_operation actor s confirm now (d, fs2) = (Inr (), (d1, fs3)))"
proof -
  from assms have "validate_management s = None" "\<not> (actor \<le> 0 \<or> now = 0)"
    by (auto simp: update_management_def split: if_splits option.splits)
  with assms have "and_then (with_tables (run_in_transaction (update_management_operation actor s confirm now)))
      (\<lambda>_. with_world (\<lambda>w. (Inr (), trigger w))) ((d, fs), w) = (Inr (), ((d1, fs1), w1))"
    by (simp add: update_management_def)
  then obtain u st1 where tx: "with_tables (run_in_transaction (update_management_operation actor s confirm now)) ((d, fs), w) = (Inr u, st1)"
    and tr: "with_world (\<lambda>w. (Inr () :: go_error + unit, trigger w)) st1 = (Inr (), ((d1, fs1), w1))"
    by (rule and_then_InrE)
  obtain d2 fs2 where st1: "st1 = ((d2, fs2), w)"
    using with_tables_snd [OF tx] by (cases st1) auto
  with tx have run: "run_in_transaction (update_management_operation actor s confirm now) (d, fs) = (Inr (), (d2, fs2))"
    by (auto simp: with_tables_def split: prod.splits)
  from tr st1 have "d2 = d1" "w1 = trigger w" by (auto simp: with_world_def)
  with transaction_Inr [OF run] \<open>validate_management s = None\<close> show ?thesis by auto
qed

text \<open>
  A confirmed update does what the preview promised. When an owner previews a threshold and
  then stores settings with it that shorten the inactivity threshold, at the same time and with
  no change in between, exactly as many users stop being active as the preview counted: those
  whose last activity is at least the threshold ago, who may claim again themselves and have an
  open revocation; nobody else's access changes. Every quota window has the new limit and is
  blocked exactly when its usage reached it, and the recheck is triggered.
\<close>

theorem preview_counts_removed:
  assumes "preview_inactivity days now (d, fs) = (Inr n, st)"
    and "update_management trigger actor s confirm now ((d, fs1), w) = (Inr (), ((d1, fs2), w1))"
    and "mg_InactivityThresholdDays s = days" "removes_inactive (st_inactivity_threshold_days (qualification_settings d)) days"
    and "distinct (map fst (vpn_users d))"
  shows "confirm \<and> w1 = trigger w \<and> management_of (qualification_settings d1) = s \<and>
    int (card {i. live_status d i = Some Active \<and> live_status d1 i \<noteq> Some Active}) = n \<and>
    (\<forall>i. map_of (vpn_users d1) i = map_option (removed_row days now) (map_of (vpn_users d) i)) \<and>
    (\<forall>i row. map_of (vpn_users d) i = Some row \<and> long_inactive days now row \<longrightarrow> has_open d1 CoreActionRevoke i) \<and>
    (\<forall>i. map_of (quota_windows d1) i = map_option (limited_row (mg_QuotaLimitBytes s)) (map_of (quota_windows d) i))"
proof -
  from update_management_Inr [OF assms(2)] obtain fs3 fs4 where w: "w1 = trigger w"
    and op: "update_management_operation actor s confirm now (d, fs3) = (Inr (), (d1, fs4))" by blast
  have effect: "confirm" "management_of (qualification_settings d1) = s"
      "vpn_users d1 = map (\<lambda>(i, row). (i, removed_row days now row)) (vpn_users d)"
      "quota_windows d1 = map (\<lambda>(i, q). (i, limited_row (mg_QuotaLimitBytes s) q)) (quota_windows d)"
      "\<And>i row. (i, row) \<in> set (vpn_users d) \<Longrightarrow> long_inactive days now row \<Longrightarrow> has_open d1 CoreActionRevoke i"
    using update_management_effect [OF op, of True] assms(3,4) by auto
  have users: "map_of (vpn_users d1) i = map_option (removed_row days now) (map_of (vpn_users d) i)" for i
    using effect by (simp add: map_of_map_rows [where f = "\<lambda>i. removed_row days now"])
  have quota: "map_of (quota_windows d1) i = map_option (limited_row (mg_QuotaLimitBytes s)) (map_of (quota_windows d) i)" for i
    using effect by (simp add: map_of_map_rows [where f = "\<lambda>i. limited_row (mg_QuotaLimitBytes s)"])
  let ?gone = "filter (\<lambda>(i, row). long_inactive days now row) (vpn_users d)"
  from assms(1) have n: "n = int (length ?gone)"
    by (auto simp: preview_inactivity_def elim!: and_then_InrE dest!: statement_InrD split: if_splits)
  have "{i. live_status d i = Some Active \<and> live_status d1 i \<noteq> Some Active} = set (map fst ?gone)"
  proof -
    have "live_status d i = Some Active \<and> live_status d1 i \<noteq> Some Active \<longleftrightarrow>
        (\<exists>row. map_of (vpn_users d) i = Some row \<and> long_inactive days now row)" for i
      by (cases "map_of (vpn_users d) i") (auto simp: live_status_def users removed_row_def long_inactive_def)
    then show ?thesis
      using assms(5) by (force simp: image_iff)
  qed
  moreover have "distinct (map fst ?gone)"
    using assms(5) by (rule distinct_map_filter)
  ultimately have "int (card {i. live_status d i = Some Active \<and> live_status d1 i \<noteq> Some Active}) = n"
    using n by (metis distinct_card length_map)
  moreover have "has_open d1 CoreActionRevoke i" if "map_of (vpn_users d) i = Some row" "long_inactive days now row" for i row
    using effect(5) [OF map_of_SomeD [OF that(1)] that(2)] .
  ultimately show ?thesis
    using effect(1,2) w users quota by blast
qed

text \<open>One user idle for ten days and one for one day; the threshold becomes five days.\<close>

definition idle_row :: "go_time \<Rightarrow> vpn_user_row" where
  "idle_row t = \<lparr>vu_eligible = True, vu_status = Active, vu_credential_generation = 1, vu_period_started_at = Some 1,
     vu_last_vpn_activity_at = Some t\<rparr>"

definition sample_idle_db :: vpn_db where
  "sample_idle_db = \<lparr>vpn_users = [(5, idle_row day), (6, idle_row (10 * day))], credential_bundles = [],
     quota_windows = [], traffic_health = \<lparr>th_fail_closed = False, th_failure_started_at = None, th_failure_stage = None,
       th_last_notified_at = None\<rparr>, core_action_outbox = [], outbox_next_id = 1, traffic_ingestion_batches = [],
     qualification_settings = settings_defaults, qualification_rules = [], tls_settings = tls_defaults,
     core_settings_table = core_settings_defaults, audit_events = [], db_clock = 1\<rparr>"

definition sample_management :: management_settings where
  "sample_management = (management_of settings_defaults)\<lparr>mg_InactivityThresholdDays := 5\<rparr>"

lemma sample_preview: "preview_inactivity 5 (11 * day) (sample_idle_db, []) = (Inr 1, (sample_idle_db, []))"
  by (simp add: preview_inactivity_def and_then_def wrapping_def sample_idle_db_def idle_row_def long_inactive_def)

lemma sample_update: "\<exists>d1 fs. update_management Suc 1 sample_management True (11 * day) ((sample_idle_db, []), 0) =
    (Inr (), ((d1, fs), 1))"
  by (simp add: update_management_def update_management_operation_def transaction_no_faults sample_management_def
      management_of_def settings_defaults_def validate_management_def with_tables_def with_world_def and_then_def wrapping_def
      removes_inactive_def apply_quota_limit_def apply_inactivity_def sample_idle_db_def idle_row_def user_row_ok_def
      removed_row_def long_inactive_def next_fault_def)

lemma preview_counts_removed_witness:
  "\<exists>d1 fs. update_management Suc 1 sample_management True (11 * day) ((sample_idle_db, []), 0) = (Inr (), ((d1, fs), 1)) \<and>
     int (card {i. live_status sample_idle_db i = Some Active \<and> live_status d1 i \<noteq> Some Active}) = 1"
proof -
  from sample_update obtain d1 fs where
    up: "update_management Suc 1 sample_management True (11 * day) ((sample_idle_db, []), 0) = (Inr (), ((d1, fs), 1))"
    by blast
  have "mg_InactivityThresholdDays sample_management = 5"
    "removes_inactive (st_inactivity_threshold_days (qualification_settings sample_idle_db)) 5"
    "distinct (map fst (vpn_users sample_idle_db))"
    by (simp_all add: sample_management_def sample_idle_db_def removes_inactive_def settings_defaults_def)
  from preview_counts_removed [OF sample_preview up this] up show ?thesis by blast
qed

end
