(* ===== verification/Vpn_System.thy ===== *)
theory Vpn_System
  imports Management_Settings
begin

text \<open>
  The operations on the VPN tables together: whatever they change about who is served is
  announced to the core in the same transaction. And what becomes of traffic batches: each is
  accounted at most once, and a user whose quota period rolled over blocks all later batches.
\<close>

section \<open>Any sequence of operations\<close>

datatype vpn_op =
    OpQualify int qualification_decision
  | OpManagedRevoke int int revocation_mode go_time
  | OpManagedReject int int go_time
  | OpStoreClaim int go_time
  | OpStoreApprove int go_time
  | OpStoreRotate int go_time bool
  | OpRecordBatch pending_batch
  | OpSweep go_time int
  | OpObserveFailure string go_time
  | OpObserveRecovery go_time
  | OpSetFailClosed bool go_time
  | OpManage int management_settings bool go_time

record 'r vpn_env =
  env_issuer :: "('r, credential_bundle) call"
  env_seal :: sealer
  env_sha :: "byte list \<Rightarrow> 256 word"
  env_fmt :: "go_time \<Rightarrow> byte list"

type_synonym 'r vpn_state = "(vpn_db \<times> faults) \<times> 'r"

definition on_db :: "(vpn_db \<times> faults, 'a) call \<Rightarrow> 'r vpn_state \<Rightarrow> 'r vpn_state" where
  "on_db f st = (snd (f (fst st)), snd st)"

fun vpn_step :: "'r vpn_env \<Rightarrow> vpn_op \<Rightarrow> 'r vpn_state \<Rightarrow> 'r vpn_state" where
  "vpn_step env (OpQualify i decision) st = on_db (apply_qualification_stored i decision) st"
| "vpn_step env (OpManagedRevoke actor i mode now) st = on_db (managed_revoke actor i mode now) st"
| "vpn_step env (OpManagedReject actor i now) st = on_db (managed_reject actor i now) st"
| "vpn_step env (OpStoreClaim i now) st = snd (store_claim (env_issuer env) (env_seal env) i now st)"
| "vpn_step env (OpStoreApprove i now) st = snd (store_approve (env_issuer env) (env_seal env) i now st)"
| "vpn_step env (OpStoreRotate i now b) st = snd (store_rotate (env_issuer env) (env_seal env) i now b st)"
| "vpn_step env (OpRecordBatch batch) st = on_db (record_pending_batch (env_sha env) (env_fmt env) batch) st"
| "vpn_step env (OpSweep now limit) st = on_db (advance_due_quota_periods now limit) st"
| "vpn_step env (OpObserveFailure stage now) st = on_db (observe_failure stage now) st"
| "vpn_step env (OpObserveRecovery now) st = on_db (observe_recovery now) st"
| "vpn_step env (OpSetFailClosed b now) st = on_db (set_fail_closed b now) st"
| "vpn_step env (OpManage actor settings confirm now) st =
     (fst (snd (update_management (\<lambda>u. u) actor settings confirm now (fst st, ()))), snd st)"

fun vpn_run :: "'r vpn_env \<Rightarrow> vpn_op list \<Rightarrow> 'r vpn_state \<Rightarrow> 'r vpn_state" where
  "vpn_run env [] st = st"
| "vpn_run env (x # xs) st = vpn_run env xs (vpn_step env x st)"

abbreviation db_of :: "'r vpn_state \<Rightarrow> vpn_db" where
  "db_of st \<equiv> fst (fst st)"

lemma apply_qualification_stored_announced:
  "announced (fst s) (fst (snd (apply_qualification_stored i decision s))) \<and>
   keeps_open (fst s) (fst (snd (apply_qualification_stored i decision s)))"
  using announcing_run [OF apply_qualification_announcing, of s i decision]
  by (simp add: apply_qualification_stored_def)

lemma manage_announced:
  "announced (fst s) (fst (fst (snd (update_management trigger actor settings confirm now (s, w))))) \<and>
   keeps_open (fst s) (fst (fst (snd (update_management trigger actor settings confirm now (s, w)))))"
  using update_management_announced [of "(s, w)"] by simp

lemma vpn_step_announced:
  assumes "distinct (map fst (quota_windows (db_of st)))"
  shows "announced (db_of st) (db_of (vpn_step env x st)) \<and> keeps_open (db_of st) (db_of (vpn_step env x st))"
  using assms
  by (cases x)
    (simp_all add: on_db_def apply_qualification_stored_announced managed_revoke_announced
      managed_reject_announced provision_announced record_pending_batch_announced sweep_announced
      observe_failure_announced observe_recovery_announced set_fail_closed_announced manage_announced)

text \<open>
  C10. No change of who is served goes unannounced: after any sequence of qualifications,
  claims, approvals, rotations, revocations, rejections, traffic batches, quota sweeps, health
  transitions and changes of the settings, whatever statements and commits fail, every user whom the core should now
  serve differently than at the start has an open core action: a revocation if no longer
  served, a reconciliation if newly served or served with other credentials.
\<close>

theorem served_changes_announced:
  assumes "distinct (map fst (quota_windows (db_of st)))"
    and "serves (db_of (vpn_run env xs st)) i \<noteq> serves (db_of st) i"
  shows "case serves (db_of (vpn_run env xs st)) i of
      None \<Rightarrow> has_open (db_of (vpn_run env xs st)) CoreActionRevoke i
    | Some bundle \<Rightarrow> has_open (db_of (vpn_run env xs st)) CoreActionReconcile i"
proof -
  have "announced (db_of st) (db_of (vpn_run env xs st)) \<and> keeps_open (db_of st) (db_of (vpn_run env xs st))"
    using assms(1)
  proof (induction xs arbitrary: st)
    case Nil
    then show ?case by simp
  next
    case (Cons x xs)
    from vpn_step_announced [OF Cons.prems, of env x]
    have step: "announced (db_of st) (db_of (vpn_step env x st))" "keeps_open (db_of st) (db_of (vpn_step env x st))"
      by simp_all
    with Cons.prems have "distinct (map fst (quota_windows (db_of (vpn_step env x st))))"
      by (simp add: keeps_open_def)
    from Cons.IH [OF this] step show ?case
      using announced_trans keeps_open_trans by auto
  qed
  with assms(2) show ?thesis unfolding announced_def by blast
qed

section \<open>A batch is accounted at most once\<close>

lemma record_samples_keeps_ids:
  "record_samples t ss pending s = (Inr p, s') \<Longrightarrow>
     traffic_ingestion_batches (fst s') = traffic_ingestion_batches (fst s)"
proof (induction t ss pending s rule: record_samples.induct)
  case (1 t pending s)
  then show ?case by simp
next
  case (2 t sample ss pending s)
  obtain r s1 where lock: "lock_traffic_account (sm_TelegramID sample) s = (r, s1)" by (metis prod.exhaust)
  show ?case
  proof (cases r)
    case (Inl e)
    with 2 lock lock_traffic_account_frame [OF lock] show ?thesis by (auto split: if_splits)
  next
    case (Inr x)
    obtain account window blocked where x: "x = (account, window, blocked)" by (cases x)
    from 2(3) lock Inr x obtain p1 s2 where
        one: "record_one t sample account window blocked pending s1 = (Inr p1, s2)"
      and rest: "record_samples t ss p1 s2 = (Inr p, s')"
      by (auto split: prod.splits sum.splits)
    have "traffic_ingestion_batches (fst s2) = traffic_ingestion_batches (fst s)"
      by (rule record_one_effect [OF lock [unfolded Inr x] one]) (auto simp: Let_def split: option.splits)
    with 2(2) [OF lock [symmetric] Inr x [symmetric] refl one [symmetric] refl rest] show ?thesis by simp
  qed
qed

lemma record_batch_once:
  assumes "record_batch t ss batchID (d, fs) = (r, (d', fs'))" and "batchID \<noteq> ''''"
  shows "d' = d \<or> (batchID \<notin> set (traffic_ingestion_batches d) \<and>
    traffic_ingestion_batches d' = traffic_ingestion_batches d @ [batchID])"
proof -
  have op: "fst s' = fst s \<or> (batchID \<notin> set (traffic_ingestion_batches (fst s)) \<and>
      traffic_ingestion_batches (fst s') = traffic_ingestion_batches (fst s) @ [batchID])"
    if "record_batch_operation t positive batchID s = (Inr x, s')" for positive s x s'
  proof -
    from that assms(2) obtain inserted s1 where i: "statement (insert_batch_id batchID) s = (Inr inserted, s1)"
      and rest: "(if \<not> inserted then ok no_traffic else record_samples t positive no_traffic) s1 = (Inr x, s')"
      by (auto simp: record_batch_operation_def elim!: and_then_InrE)
    have "insert_batch_id b d = (Inr y, d') \<Longrightarrow> (\<not> y \<and> d' = d) \<or> (y \<and> b \<notin> set (traffic_ingestion_batches d) \<and>
        traffic_ingestion_batches d' = traffic_ingestion_batches d @ [b])" for b d y d'
      by (auto simp: insert_batch_id_def split: if_splits)
    from this [OF statement_InrD [OF i]] rest show ?thesis
      by (auto dest!: record_samples_keeps_ids split: if_splits)
  qed
  show ?thesis
  proof (cases "t = 0")
    case True
    with assms(1) show ?thesis by (simp add: record_batch_def)
  next
    case t: False
    show ?thesis
    proof (cases "positive_samples_from 0 0 ss")
      case (Inl e)
      with t assms(1) show ?thesis by (simp add: record_batch_def)
    next
      case (Inr positive)
      show ?thesis
      proof (cases "positive = []")
        case True
        with t Inr assms(1) show ?thesis by (simp add: record_batch_def)
      next
        case False
        with t Inr assms(1) have "run_in_transaction (record_batch_operation t positive batchID) (d, fs) = (r, (d', fs'))"
          by (simp add: record_batch_def)
        from transaction_outcome [OF this] show ?thesis by (auto dest!: op)
      qed
    qed
  qed
qed

text \<open>A recorded batch is in the ledger, unless it carries no traffic.\<close>

definition silent :: "sample list \<Rightarrow> bool" where
  "silent ss \<longleftrightarrow> list_all (\<lambda>s. \<not> 0 < s64 (sm_Uplink s + sm_Downlink s)) ss"

lemma positive_samples_silent:
  "positive_samples_from n p ss = Inr [] \<Longrightarrow> silent ss"
  by (induction n p ss rule: positive_samples_from.induct)
    (auto simp: silent_def split: if_splits sum.splits)

lemma record_batch_settles:
  assumes "record_batch t ss batchID (d, fs) = (Inr res, (d', fs'))" and "batchID \<noteq> ''''"
  shows "batchID \<in> set (traffic_ingestion_batches d') \<or> silent ss"
proof (cases "silent ss")
  case False
  with assms(1) obtain positive where pos: "positive_samples_from 0 0 ss = Inr positive" "positive \<noteq> []"
    by (auto simp: record_batch_def split: if_splits sum.splits dest: positive_samples_silent)
  with assms(1) have run: "run_in_transaction (record_batch_operation t positive batchID) (d, fs) = (Inr res, (d', fs'))"
    by (auto simp: record_batch_def split: if_splits)
  from transaction_Inr [OF run] obtain fs1 fs2 where
    "record_batch_operation t positive batchID (d, fs1) = (Inr res, (d', fs2))" by blast
  with assms(2) obtain inserted s1 where ins: "statement (insert_batch_id batchID) (d, fs1) = (Inr inserted, s1)"
    and rest: "(if \<not> inserted then ok no_traffic else record_samples t positive no_traffic) s1 = (Inr res, (d', fs2))"
    by (auto simp: record_batch_operation_def elim!: and_then_InrE)
  have "insert_batch_id b d = (Inr y, d') \<Longrightarrow> b \<in> set (traffic_ingestion_batches d')" for b d y d'
    by (auto simp: insert_batch_id_def split: if_splits)
  from this [OF statement_InrD [OF ins]]
  have "batchID \<in> set (traffic_ingestion_batches (fst s1))" .
  with rest show ?thesis by (auto split: if_splits dest!: record_samples_keeps_ids)
qed simp

section \<open>A quota period that rolled over\<close>

text \<open>
  \<open>lockTrafficAccount\<close> wants the two period columns of a user to agree. They agree when access is
  issued, but only the column of the quota window moves when the period rolls over.
\<close>

definition periods_differ :: "vpn_db \<Rightarrow> int \<Rightarrow> bool" where
  "periods_differ d i \<longleftrightarrow>
     (case (map_of (vpn_users d) i, map_of (quota_windows d) i) of
        (Some user, Some quota) \<Rightarrow>
          live (Some user) \<and> vu_period_started_at user \<noteq> Some (qr_period_started_at quota)
      | _ \<Rightarrow> False)"

lemma restore_traffic_row_differ:
  "vu_period_started_at user \<noteq> Some (qr_period_started_at quota) \<Longrightarrow>
     \<exists>m. restore_traffic_row i user quota = Inl (Err m)"
  by (auto simp: restore_traffic_row_def split: option.splits)

lemma lock_differ:
  assumes "periods_differ (fst s) i"
  shows "\<exists>m. fst (lock_traffic_account i s) = Inl (Err m)"
proof -
  from assms obtain user quota where r: "map_of (vpn_users (fst s)) i = Some user"
      "map_of (quota_windows (fst s)) i = Some quota" "vu_status user = Active" "vu_eligible user"
      "vu_period_started_at user \<noteq> Some (qr_period_started_at quota)"
    by (auto simp: periods_differ_def live_def split: option.splits)
  from restore_traffic_row_differ [OF r(5), of i] obtain m where m: "restore_traffic_row i user quota = Inl (Err m)"
    by blast
  show ?thesis
    using r m
    by (auto simp: lock_traffic_account_def and_then_def statement_def Let_def split: prod.splits fault.splits)
qed

lemma record_samples_stuck:
  "periods_differ (fst s) i \<Longrightarrow> i \<in> sm_TelegramID ` set ss \<Longrightarrow>
     \<not> is_ok (fst (record_samples t ss pending s))"
proof (induction t ss pending s rule: record_samples.induct)
  case (1 t pending s)
  then show ?case by simp
next
  case (2 t sample ss pending s)
  obtain r s1 where lock: "lock_traffic_account (sm_TelegramID sample) s = (r, s1)" by (metis prod.exhaust)
  show ?case
  proof (cases "sm_TelegramID sample = i")
    case True
    with lock_differ [OF 2(3)] lock show ?thesis by auto
  next
    case False
    with 2(4) have i: "i \<in> sm_TelegramID ` set ss" by auto
    show ?thesis
    proof (cases r)
      case (Inl e)
      with 2(1) [OF lock [symmetric] Inl] 2(3) i lock lock_traffic_account_frame [OF lock] show ?thesis by auto
    next
      case (Inr x)
      obtain account window blocked where x: "x = (account, window, blocked)" by (cases x)
      obtain r2 s2 where one: "record_one t sample account window blocked pending s1 = (r2, s2)"
        by (metis prod.exhaust)
      show ?thesis
      proof (cases r2)
        case (Inl e)
        with lock Inr x one show ?thesis by simp
      next
        case r2: (Inr p1)
        have "periods_differ (fst s2) i"
          by (rule record_one_effect [OF lock [unfolded Inr x] one [unfolded r2]])
            (use False 2(3) in \<open>auto simp: periods_differ_def Let_def update_conv' split: option.splits\<close>)
        from 2(2) [OF lock [symmetric] Inr x [symmetric] refl one [symmetric] r2 this i]
        show ?thesis using lock Inr x one r2 by simp
      qed
    qed
  qed
qed

lemma positive_samples_from_keeps:
  "positive_samples_from n p ss = Inr ps \<Longrightarrow> sample \<in> set ss \<Longrightarrow>
     0 < s64 (sm_Uplink sample + sm_Downlink sample) \<Longrightarrow> sample \<in> set ps"
  by (induction n p ss arbitrary: ps rule: positive_samples_from.induct)
    (auto split: if_splits sum.splits)

lemma record_pending_batch_stuck:
  assumes diff: "periods_differ d i"
    and sample: "sample \<in> set (pb_Samples batch)" "sm_TelegramID sample = i"
      "0 < s64 (sm_Uplink sample + sm_Downlink sample)"
    and new: "pb_ID batch \<notin> set (traffic_ingestion_batches d)" "pb_ID batch \<noteq> ''''"
    and rec: "record_pending_batch sha fmt batch (d, fs) = (r, (d', fs'))"
  shows "\<not> is_ok r \<and> d' = d"
proof (cases "\<exists>validated positive. new_pending_batch sha fmt (pb_CollectedAt batch) (pb_Samples batch) = Inr validated
      \<and> pb_ID validated = pb_ID batch \<and> pb_CollectedAt batch \<noteq> 0
      \<and> positive_samples_from 0 0 (pb_Samples batch) = Inr positive")
  case False
  with rec show ?thesis
    by (auto simp: record_pending_batch_def record_batch_def split: sum.splits if_splits)
next
  case True
  then obtain validated positive where v: "new_pending_batch sha fmt (pb_CollectedAt batch) (pb_Samples batch) = Inr validated"
      "pb_ID validated = pb_ID batch" "pb_CollectedAt batch \<noteq> 0"
    and pos: "positive_samples_from 0 0 (pb_Samples batch) = Inr positive"
    by blast
  from positive_samples_from_keeps [OF pos sample(1,3)] have p: "i \<in> sm_TelegramID ` set positive" "positive \<noteq> []"
    using sample(2) by auto
  from rec v pos p(2) have run: "run_in_transaction
      (record_batch_operation (pb_CollectedAt batch) positive (pb_ID batch)) (d, fs) = (r, (d', fs'))"
    by (simp add: record_pending_batch_def record_batch_def)
  have "\<not> is_ok (fst (record_batch_operation (pb_CollectedAt batch) positive (pb_ID batch) (d, fs1)))" for fs1
  proof
    assume "is_ok (fst (record_batch_operation (pb_CollectedAt batch) positive (pb_ID batch) (d, fs1)))"
    then obtain x s' where "record_batch_operation (pb_CollectedAt batch) positive (pb_ID batch) (d, fs1) = (Inr x, s')"
      by (auto simp: is_ok_iff) (metis prod.collapse)
    with new(2) obtain inserted s1 where ins: "statement (insert_batch_id (pb_ID batch)) (d, fs1) = (Inr inserted, s1)"
      and rest: "(if \<not> inserted then ok no_traffic
          else record_samples (pb_CollectedAt batch) positive no_traffic) s1 = (Inr x, s')"
      by (auto simp: record_batch_operation_def elim!: and_then_InrE)
    from statement_InrD [OF ins] new(1) have "inserted"
      and "fst s1 = d\<lparr>traffic_ingestion_batches := traffic_ingestion_batches d @ [pb_ID batch]\<rparr>"
      by (auto simp: insert_batch_id_def)
    with diff have "inserted" "periods_differ (fst s1) i" by (simp_all add: periods_differ_def)
    with record_samples_stuck [OF this(2) p(1), of "pb_CollectedAt batch" no_traffic] rest show False
      by simp
  qed
  then have none: "record_batch_operation (pb_CollectedAt batch) positive (pb_ID batch) (d, fs1) \<noteq> (Inr x, s')"
    for fs1 x s'
    by (metis fst_conv is_ok_simps(1))
  from transaction_outcome [OF run] none show ?thesis by auto
qed

text \<open>
  C14. After a quota period rolls over, accounting stops: when the sweep advances the window of
  an active user whose period columns agreed, every later batch that carries traffic of that
  user is refused as a whole and changes nothing, so the batch stays in the spool, is retried in
  vain, and no traffic of anybody is accounted until the user's period is reset.
\<close>

theorem rollover_blocks_batches:
  assumes sweep: "advance_due_quota_periods now limit (d, fs) = (Inr counts, (d1, fs1))"
    and due: "i \<in> fst ` set (due_windows now (nat limit) d)" and keys: "distinct (map fst (quota_windows d))"
    and user: "map_of (vpn_users d) i = Some user" "live (Some user)"
    and quota: "map_of (quota_windows d) i = Some quota" "0 < qr_period_seconds quota"
      "vu_period_started_at user = Some (qr_period_started_at quota)"
    and sample: "sample \<in> set (pb_Samples batch)" "sm_TelegramID sample = i"
      "0 < s64 (sm_Uplink sample + sm_Downlink sample)"
    and new: "pb_ID batch \<notin> set (traffic_ingestion_batches d)" "pb_ID batch \<noteq> ''''"
    and rec: "record_pending_batch sha fmt batch (d1, fs2) = (r, (d2, fs3))"
  shows "\<not> is_ok r \<and> d2 = d1"
proof -
  from sweep obtain fs4 fs5 where st: "statement (sweep_statement now (nat limit)) (d, fs4) = (Inr counts, (d1, fs5))"
    by (auto simp: advance_due_quota_periods_def split: if_splits dest!: transaction_Inr)
  let ?ids = "map fst (due_windows now (nat limit) d)"
  from statement_Inr [OF st] have d1: "vpn_users d1 = vpn_users d"
      "traffic_ingestion_batches d1 = traffic_ingestion_batches d"
      "quota_windows d1 = map (\<lambda>(i, q). (i, if i \<in> set ?ids then advance_quota_row now q else q)) (quota_windows d)"
    by (auto simp: sweep_statement_def Let_def)
  have look: "map_of (quota_windows d1) i = Some (advance_quota_row now quota)"
    unfolding d1(3) map_of_map_rows using due quota(1) by simp
  obtain q' where q': "(i, q') \<in> set (due_windows now (nat limit) d)" using due by auto
  then have "q' = quota"
    using due_windows_subset keys quota(1) by (metis map_of_eq_Some_iff option.inject subsetD)
  with q' have elapsed: "qr_period_started_at quota + period_length quota \<le> now"
    by (auto simp: due_windows_def dest: in_set_takeD)
  have p: "0 < period_length quota" using quota(2) by (simp add: period_length_def)
  have "1 \<le> (now - qr_period_started_at quota) div period_length quota"
    using p elapsed by (simp add: pos_imp_zdiv_pos_iff int_one_le_iff_zero_less)
  then have "0 < (now - qr_period_started_at quota) div period_length quota * period_length quota"
    using p by simp
  then have "periods_differ d1 i"
    using look user quota(3) d1(1) by (auto simp: periods_differ_def advance_quota_row_def)
  from record_pending_batch_stuck [OF this sample _ new(2) rec] new(1) d1(2) show ?thesis by simp
qed

section \<open>Concrete runs\<close>

text \<open>One active user, five minutes into a period of an hour, on healthy traffic.\<close>

definition sample_bundle :: bundle_row where
  "sample_bundle = \<lparr>br_generation = 1, br_sealed = \<lparr>sb_SubscriptionTokenDigest = replicate 32 1,
     sb_Nonce = replicate 12 2, sb_Ciphertext = replicate 17 3\<rparr>\<rparr>"

definition sample_vpn_db :: vpn_db where
  "sample_vpn_db = \<lparr>
     vpn_users = [(5, \<lparr>vu_eligible = True, vu_status = Active, vu_credential_generation = 1,
        vu_period_started_at = Some hour, vu_last_vpn_activity_at = Some hour\<rparr>)],
     credential_bundles = [(5, sample_bundle)],
     quota_windows = [(5, \<lparr>qr_period_started_at = hour, qr_period_seconds = 3600,
        qr_limit_bytes = 1000, qr_used_bytes = 10, qr_blocked = False\<rparr>)],
     traffic_health = \<lparr>th_fail_closed = False, th_failure_started_at = None, th_failure_stage = None,
        th_last_notified_at = None\<rparr>,
     core_action_outbox = [], outbox_next_id = 1, traffic_ingestion_batches = [],
     qualification_settings = settings_defaults\<lparr>st_quota_limit_bytes := 1000, st_quota_period_seconds := 3600\<rparr>,
     qualification_rules = [],
     tls_settings = tls_defaults\<lparr>tr_state := ''issued'', tr_certificate_expires_at := Some (1000 * hour)\<rparr>,
     core_settings_table = core_settings_defaults, audit_events = [], db_clock = hour + 5 * minute\<rparr>"

definition sample_env :: "unit vpn_env" where
  "sample_env = \<lparr>env_issuer = (\<lambda>r. (Inl (Err ''EOF''), r)), env_seal = (\<lambda>i g b. Inl (Err ''sealed'')),
     env_sha = (\<lambda>xs. 0), env_fmt = (\<lambda>t. [])\<rparr>"

definition sample_batch :: pending_batch where
  "sample_batch = \<lparr>pb_ID = hex_bytes (digest_bytes 0), pb_CollectedAt = 2 * hour + minute,
     pb_Samples = [\<lparr>sm_TelegramID = 5, sm_Uplink = 3, sm_Downlink = 4\<rparr>]\<rparr>"

theorem served_changes_announced_witness:
  "let st = ((sample_vpn_db, []), ());
       st1 = vpn_run sample_env [OpRecordBatch (sample_batch\<lparr>pb_CollectedAt := hour + minute\<rparr>),
                                 OpManagedRevoke 1 5 ModeSelfService (2 * hour)] st
   in serves (db_of st) 5 = Some sample_bundle \<and> serves (db_of st1) 5 = None \<and>
      has_open (db_of st1) CoreActionRevoke 5"
proof -
  let ?st = "((sample_vpn_db, []), ())"
  let ?xs = "[OpRecordBatch (sample_batch\<lparr>pb_CollectedAt := hour + minute\<rparr>),
     OpManagedRevoke 1 5 ModeSelfService (2 * hour)]"
  have a: "distinct (map fst (quota_windows (db_of ?st)))" by (simp add: sample_vpn_db_def)
  have b: "serves (db_of ?st) 5 = Some sample_bundle" by code_simp
  have c: "serves (db_of (vpn_run sample_env ?xs ?st)) 5 = None" by code_simp
  have d: "serves (db_of (vpn_run sample_env ?xs ?st)) 5 \<noteq> serves (db_of ?st) 5" using b c by simp
  from served_changes_announced [OF a d] b c show ?thesis unfolding Let_def by simp
qed

theorem rollover_blocks_batches_witness:
  "let x = advance_due_quota_periods (2 * hour) 10 (sample_vpn_db, []);
       y = record_pending_batch (env_sha sample_env) (env_fmt sample_env) sample_batch (fst (snd x), [])
   in fst x = Inr (1, 0) \<and> \<not> is_ok (fst y) \<and> fst (snd y) = fst (snd x)"
proof -
  let ?x = "advance_due_quota_periods (2 * hour) 10 (sample_vpn_db, [])"
  let ?y = "record_pending_batch (env_sha sample_env) (env_fmt sample_env) sample_batch (fst (snd ?x), [])"
  have x: "fst ?x = Inr (1, 0)" by code_simp
  have due: "5 \<in> fst ` set (due_windows (2 * hour) (nat 10) sample_vpn_db)"
    by (simp add: due_windows_def sample_vpn_db_def period_length_def)
  have y: "?y = (fst ?y, (fst (snd ?y), snd (snd ?y)))" by simp
  have "\<not> is_ok (fst ?y) \<and> fst (snd ?y) = fst (snd ?x)"
    by (rule rollover_blocks_batches [OF split_result3 [OF x] due _ _ _ _ _ _ _ _ _ _ _ y,
          where user = "\<lparr>vu_eligible = True, vu_status = Active, vu_credential_generation = 1,
             vu_period_started_at = Some hour, vu_last_vpn_activity_at = Some hour\<rparr>"
            and quota = "\<lparr>qr_period_started_at = hour, qr_period_seconds = 3600,
             qr_limit_bytes = 1000, qr_used_bytes = 10, qr_blocked = False\<rparr>"
            and sample = "\<lparr>sm_TelegramID = 5, sm_Uplink = 3, sm_Downlink = 4\<rparr>"])
      (simp_all add: sample_vpn_db_def sample_batch_def live_def s64_def hex_bytes_facts)
  with x show ?thesis unfolding Let_def by blast
qed

end
