(* ===== verification/Traffic_Runner.thy ===== *)
theory Traffic_Runner
  imports Collector File_Spool Vpn_System
begin

text \<open>
  The traffic runner (\<open>internal/trafficrunner/runner.go\<close>) and the service around it
  (\<open>internal/trafficrunner/service.go\<close>): collect, spool, record, delete. The interface of its
  collaborators is the locale \<open>traffic_pipeline\<close>; its client lemmas give exactly-once accounting.
\<close>

section \<open>The runner\<close>

record runner_result =
  rr_Replayed :: bool
  rr_Applied :: int
  rr_RevokedTelegramIDs :: "int list"
  rr_RestoredTelegramIDs :: "int list"

definition empty_result :: runner_result where
  "empty_result = \<lparr>rr_Replayed = False, rr_Applied = 0, rr_RevokedTelegramIDs = [], rr_RestoredTelegramIDs = []\<rparr>"

text \<open>\<open>fail(stage, err)\<close> around the error of a call.\<close>

definition staged :: "string \<Rightarrow> ('s, 'a) call \<Rightarrow> ('s, 'a) call" where
  "staged stage m s = (case m s of
     (Inl e, s1) \<Rightarrow> (Inl (Staged ''stepError'' stage e), s1) | (Inr x, s1) \<Rightarrow> (Inr x, s1))"

definition commit ::
    "(pending_batch \<Rightarrow> ('s, traffic_batch_result) call) \<Rightarrow> ('s, unit) call \<Rightarrow> pending_batch \<Rightarrow> bool
       \<Rightarrow> ('s, runner_result) call" where
  "commit recordPending delete batch replayed =
     and_then (staged ''record'' (recordPending batch)) (\<lambda>recorded.
     and_then (staged ''cleanup'' delete) (\<lambda>_.
     ok \<lparr>rr_Replayed = replayed, rr_Applied = br_Applied recorded,
         rr_RevokedTelegramIDs = br_RevokedTelegramIDs recorded,
         rr_RestoredTelegramIDs = br_RestoredTelegramIDs recorded\<rparr>))"

definition runner_step ::
    "(go_time \<Rightarrow> sample list \<Rightarrow> go_error + pending_batch) \<Rightarrow> ('s, sample list) call
       \<Rightarrow> ('s, pending_batch option) call \<Rightarrow> (pending_batch \<Rightarrow> ('s, unit) call) \<Rightarrow> ('s, unit) call
       \<Rightarrow> (pending_batch \<Rightarrow> ('s, traffic_batch_result) call) \<Rightarrow> go_time \<Rightarrow> ('s, runner_result) call" where
  "runner_step newBatch collectSamples load save delete recordPending now =
     (if now = 0 then fail_with (Err ''traffic collection time is required'')
      else
        and_then (staged ''spool'' load) (\<lambda>existing.
        case existing of
          Some batch \<Rightarrow> commit recordPending delete batch True
        | None \<Rightarrow>
            and_then (staged ''collect'' collectSamples) (\<lambda>samples.
            if samples = [] then ok empty_result
            else case newBatch now samples of
              Inl e \<Rightarrow> fail_with (Staged ''stepError'' ''spool'' e)
            | Inr batch \<Rightarrow>
                and_then (staged ''spool'' (save batch)) (\<lambda>_. commit recordPending delete batch False))))"

definition failure_stage_of :: "go_error \<Rightarrow> string" where
  "failure_stage_of e = (case errors_as ''stepError'' e of None \<Rightarrow> '''' | Some stage \<Rightarrow> stage)"

section \<open>The service\<close>

definition valid_failure_stage :: "string \<Rightarrow> bool" where
  "valid_failure_stage stage \<longleftrightarrow>
     stage = ''collect'' \<or> stage = ''spool'' \<or> stage = ''record'' \<or> stage = ''cleanup''"

definition service_step ::
    "(go_time \<Rightarrow> ('s, 'r) call) \<Rightarrow> (string \<Rightarrow> go_time \<Rightarrow> ('s, traffic_fault_observation) call)
       \<Rightarrow> (go_time \<Rightarrow> ('s, traffic_fault_recovery) call)
       \<Rightarrow> (string \<times> bool \<times> go_time \<Rightarrow> ('s, unit) call) \<Rightarrow> (traffic_fault_recovery \<Rightarrow> ('s, unit) call)
       \<Rightarrow> go_time \<Rightarrow> ('s, unit) call" where
  "service_step stepper observeFailure observeRecovery notifyFailure notifyRecovery now s =
     (if now = 0 then (Inl (Err ''traffic service time is required''), s)
      else case stepper now s of
        (Inl stepErr, s1) \<Rightarrow>
          let stage = (if valid_failure_stage (failure_stage_of stepErr)
                       then failure_stage_of stepErr else ''record'');
              (observed, s2) = observeFailure stage now s1;
              (notifyErr, s3) = (case observed of
                  Inr observation \<Rightarrow>
                    if fo_Notify observation
                    then (let (n, s3) = notifyFailure (stage, fo_FailClosed observation, fo_StartedAt observation) s2
                          in (err_of n, s3))
                    else (None, s2)
                | Inl e \<Rightarrow> (None, s2))
          in (case errors_join [Some stepErr, err_of observed, notifyErr] of
                None \<Rightarrow> (Inr (), s3) | Some e \<Rightarrow> (Inl e, s3))
      | (Inr _, s1) \<Rightarrow>
          (case observeRecovery now s1 of
             (Inl e, s2) \<Rightarrow> (Inl e, s2)
           | (Inr recovery, s2) \<Rightarrow>
               if fr_Recovered recovery then notifyRecovery recovery s2 else (Inr (), s2)))"

section \<open>The interface\<close>

text \<open>
  \<open>stored\<close> is the batch in the spool, \<open>ledger\<close> the identities of the batches that were accounted,
  in order, and \<open>books\<close> what accounting changes.
\<close>

locale traffic_pipeline =
  fixes collectSamples :: "('s, sample list) call"
    and load :: "('s, pending_batch option) call"
    and save :: "pending_batch \<Rightarrow> ('s, unit) call"
    and delete :: "('s, unit) call"
    and recordPending :: "pending_batch \<Rightarrow> ('s, traffic_batch_result) call"
    and stored :: "'s \<Rightarrow> pending_batch option"
    and ledger :: "'s \<Rightarrow> string list"
    and books :: "'s \<Rightarrow> 'b"
  assumes collect_frame: "collectSamples s = (rc, s') \<Longrightarrow>
      stored s' = stored s \<and> ledger s' = ledger s \<and> books s' = books s"
    and load_frame: "load s = (rl, s') \<Longrightarrow> stored s' = stored s \<and> ledger s' = ledger s \<and> books s' = books s"
    and load_some: "load s = (Inr (Some b), s') \<Longrightarrow> stored s = Some b"
    and load_none: "load s = (Inr None, s') \<Longrightarrow> stored s = None"
    and save_frame: "save b s = (ru, s') \<Longrightarrow> ledger s' = ledger s \<and> books s' = books s \<and>
      (stored s' = stored s \<or> (stored s = None \<and> stored s' = Some b))"
    and save_stores: "save b s = (Inr u, s') \<Longrightarrow> stored s' = Some b"
    and delete_frame: "delete s = (ru, s') \<Longrightarrow> ledger s' = ledger s \<and> books s' = books s \<and>
      (stored s' = stored s \<or> stored s' = None)"
    and delete_removes: "delete s = (Inr u, s') \<Longrightarrow> stored s' = None"
    and record_frame: "recordPending b s = (rr, s') \<Longrightarrow> stored s' = stored s \<and>
      ((ledger s' = ledger s \<and> books s' = books s) \<or>
       (pb_ID b \<notin> set (ledger s) \<and> ledger s' = ledger s @ [pb_ID b]))"
    and record_settles: "recordPending b s = (Inr x, s') \<Longrightarrow>
      pb_ID b \<in> set (ledger s') \<or> silent (pb_Samples b)"

fun runner_run ::
    "(go_time \<Rightarrow> ('s, runner_result) call) \<Rightarrow> go_time list \<Rightarrow> 's \<Rightarrow> 's" where
  "runner_run step [] s = s"
| "runner_run step (t # ts) s = runner_run step ts (snd (step t s))"

context traffic_pipeline
begin

text \<open>One step or several: the ledger only grows by new identities, and nothing spooled is lost.\<close>

definition settled :: "pending_batch \<Rightarrow> 's \<Rightarrow> bool" where
  "settled b s \<longleftrightarrow> pb_ID b \<in> set (ledger s) \<or> silent (pb_Samples b)"

definition progress :: "'s \<Rightarrow> 's \<Rightarrow> bool" where
  "progress s s' \<longleftrightarrow>
     (\<exists>xs. ledger s' = ledger s @ xs \<and> (distinct (ledger s) \<longrightarrow> distinct (ledger s'))) \<and>
     (ledger s' = ledger s \<longrightarrow> books s' = books s) \<and>
     (\<forall>b. stored s = Some b \<longrightarrow> stored s' = Some b \<or> settled b s')"

lemma progress_refl: "progress s s"
  by (simp add: progress_def)

lemma settled_mono: "progress s s' \<Longrightarrow> settled b s \<Longrightarrow> settled b s'"
  by (auto simp: progress_def settled_def)

lemma progress_trans: "progress s s' \<Longrightarrow> progress s' s'' \<Longrightarrow> progress s s''"
proof -
  assume a: "progress s s'" and b: "progress s' s''"
  from a b obtain xs ys where l: "ledger s' = ledger s @ xs" "ledger s'' = ledger s' @ ys"
    by (auto simp: progress_def)
  have "ledger s'' = ledger s \<longrightarrow> books s'' = books s"
    using a b l by (auto simp: progress_def)
  moreover have "\<forall>c. stored s = Some c \<longrightarrow> stored s'' = Some c \<or> settled c s''"
    using a b settled_mono [OF b] by (auto simp: progress_def)
  ultimately show ?thesis using a b l by (auto simp: progress_def)
qed

lemma commit_progress:
  assumes "commit recordPending delete b replayed s = (r, s')" and "stored s = Some b"
  shows "progress s s' \<and> (is_ok r \<longrightarrow> stored s' = None \<and> settled b s')"
proof -
  obtain r1 s1 where rec: "recordPending b s = (r1, s1)" by (metis prod.exhaust)
  have p1: "progress s s1" using record_frame [OF rec] by (auto simp: progress_def)
  show ?thesis
  proof (cases r1)
    case (Inl e)
    with assms(1) rec have "s' = s1" "\<not> is_ok r" by (auto simp: commit_def and_then_def staged_def)
    with p1 show ?thesis by blast
  next
    case (Inr x)
    obtain r2 s2 where del: "delete s1 = (r2, s2)" by (metis prod.exhaust)
    have st: "settled b s1" using record_settles [OF rec [unfolded Inr]] by (simp add: settled_def)
    have s1: "stored s1 = Some b" using record_frame [OF rec] assms(2) by simp
    have "s' = s2" "is_ok r \<longrightarrow> (\<exists>u. r2 = Inr u)"
      using assms(1) rec Inr del by (auto simp: commit_def and_then_def staged_def split: sum.splits)
    moreover have p2: "progress s1 s2" "settled b s2"
      using delete_frame [OF del] st s1 by (auto simp: progress_def settled_def)
    moreover have "r2 = Inr u \<Longrightarrow> stored s2 = None" for u
      using delete_removes del by blast
    ultimately show ?thesis
      using progress_trans [OF p1 p2(1)] by auto
  qed
qed

lemma step_progress:
  assumes "runner_step newBatch collectSamples load save delete recordPending now s = (r, s')"
  shows "progress s s'"
proof (cases "now = 0")
  case True
  with assms progress_refl show ?thesis by (simp add: runner_step_def)
next
  case False
  obtain rl s1 where l: "load s = (rl, s1)" by (metis prod.exhaust)
  have p1: "progress s s1" using load_frame [OF l] by (simp add: progress_def)
  show ?thesis
  proof (cases rl)
    case (Inl e)
    with False l p1 assms show ?thesis by (simp add: runner_step_def and_then_def staged_def)
  next
    case rl: (Inr existing)
    show ?thesis
    proof (cases existing)
      case (Some b)
      with rl l load_frame [OF l] load_some have "stored s1 = Some b" by auto
      moreover from assms False l rl Some have "commit recordPending delete b True s1 = (r, s')"
        by (simp add: runner_step_def and_then_def staged_def)
      ultimately show ?thesis using progress_trans [OF p1] commit_progress by blast
    next
      case None
      obtain rc s2 where c: "collectSamples s1 = (rc, s2)" by (metis prod.exhaust)
      from collect_frame [OF c] have "progress s1 s2" by (simp add: progress_def)
      from progress_trans [OF p1 this] have p2: "progress s s2" .
      show ?thesis
      proof (cases "\<exists>samples b. rc = Inr samples \<and> samples \<noteq> [] \<and> newBatch now samples = Inr b")
        case False
        with assms \<open>now \<noteq> 0\<close> l rl None c p2 show ?thesis
          by (auto simp: runner_step_def and_then_def staged_def split: sum.splits if_splits)
      next
        case True
        then obtain samples b where b: "rc = Inr samples" "samples \<noteq> []" "newBatch now samples = Inr b" by blast
        obtain rs s3 where sv: "save b s2 = (rs, s3)" by (metis prod.exhaust)
        from save_frame [OF sv] have "progress s2 s3" by (auto simp: progress_def)
        from progress_trans [OF p2 this] have p3: "progress s s3" .
        show ?thesis
        proof (cases rs)
          case (Inl e)
          with assms False l rl None c b sv p3 show ?thesis
            by (simp add: runner_step_def and_then_def staged_def)
        next
          case (Inr u)
          with assms False l rl None c b sv have "commit recordPending delete b False s3 = (r, s')"
            by (simp add: runner_step_def and_then_def staged_def)
          from commit_progress [OF this save_stores [OF sv [unfolded Inr]]]
          show ?thesis using progress_trans [OF p3] by blast
        qed
      qed
    qed
  qed
qed

lemma run_progress:
  "progress s (runner_run (runner_step newBatch collectSamples load save delete recordPending) ts s)"
proof (induction ts arbitrary: s)
  case Nil
  then show ?case by (simp add: progress_refl)
next
  case (Cons t ts)
  have "progress s (snd (runner_step newBatch collectSamples load save delete recordPending t s))"
    by (rule step_progress) (simp add: prod_eq_iff)
  from progress_trans [OF this Cons.IH] show ?case by simp
qed

end

section \<open>The collaborators of the program\<close>

text \<open>The core's counters, the spool and the database together.\<close>

record 'k traffic_world =
  tw_core :: 'k
  tw_spool :: spool_state
  tw_db :: "vpn_db \<times> faults"

definition on_core :: "('k, 'a) call \<Rightarrow> ('k traffic_world, 'a) call" where
  "on_core f w = (let (r, k) = f (tw_core w) in (r, w\<lparr>tw_core := k\<rparr>))"

definition on_spool :: "(spool_state, 'a) call \<Rightarrow> ('k traffic_world, 'a) call" where
  "on_spool f w = (let (r, s) = f (tw_spool w) in (r, w\<lparr>tw_spool := s\<rparr>))"

definition on_database :: "(vpn_db \<times> faults, 'a) call \<Rightarrow> ('k traffic_world, 'a) call" where
  "on_database f w = (let (r, s) = f (tw_db w) in (r, w\<lparr>tw_db := s\<rparr>))"

definition accounted :: "'k traffic_world \<Rightarrow> string list" where
  "accounted w = traffic_ingestion_batches (fst (tw_db w))"

definition accounts :: "'k traffic_world \<Rightarrow> vpn_db" where
  "accounts w = fst (tw_db w)"

definition traffic_step :: "codec \<Rightarrow> bool \<Rightarrow> ('k, (string \<times> int) list) call \<Rightarrow> go_time
    \<Rightarrow> ('k traffic_world, runner_result) call" where
  "traffic_step cd cancelled queryStats =
     runner_step (new_pending_batch (cd_sha cd) (cd_fmt cd)) (on_core (collect queryStats))
       (on_spool (spool_load cd cancelled)) (\<lambda>b. on_spool (spool_save cd cancelled b))
       (on_spool (spool_delete cancelled))
       (\<lambda>b. on_database (record_pending_batch (cd_sha cd) (cd_fmt cd) b))"

lemma lifted:
  "on_core f w = (r, w') \<Longrightarrow> \<exists>k. f (tw_core w) = (r, k) \<and> w' = w\<lparr>tw_core := k\<rparr>"
  "on_spool g w = (r, w') \<Longrightarrow> \<exists>s. g (tw_spool w) = (r, s) \<and> w' = w\<lparr>tw_spool := s\<rparr>"
  "on_database h w = (r, w') \<Longrightarrow> \<exists>s. h (tw_db w) = (r, s) \<and> w' = w\<lparr>tw_db := s\<rparr>"
  by (auto simp: on_core_def on_spool_def on_database_def split: prod.splits)

lemma held_saved:
  "fs_main (fst s) = Some \<lparr>fl_regular = True, fl_private = True, fl_text = Envelope (envelope_of b)\<rparr> \<Longrightarrow>
     validate_pending_batch (cd_sha cd) (cd_fmt cd) b = None \<Longrightarrow> held cd s = Some b"
  by (simp add: held_def decode_spool_def) (simp add: envelope_of_def)

lemma record_pending_batch_id:
  assumes "record_pending_batch sha fmt b s = (r, s')"
  shows "(s' = s \<and> \<not> is_ok r) \<or> (pb_ID b \<noteq> '''' \<and>
    record_batch (pb_CollectedAt b) (pb_Samples b) (pb_ID b) s = (r, s'))"
proof -
  have "pb_ID v \<noteq> ''''" if "new_pending_batch sha fmt t ss = Inr v" for v t ss
    using that by (auto simp: new_pending_batch_def pending_batch_id_def split: option.splits)
  with assms show ?thesis
    by (auto simp: record_pending_batch_def split: sum.splits if_splits)
qed

interpretation pipeline: traffic_pipeline "on_core (collect queryStats)" "on_spool (spool_load cd cancelled)"
    "\<lambda>b. on_spool (spool_save cd cancelled b)" "on_spool (spool_delete cancelled)"
    "\<lambda>b. on_database (record_pending_batch (cd_sha cd) (cd_fmt cd) b)"
    "\<lambda>w. held cd (tw_spool w)" accounted accounts
  for queryStats :: "('k, (string \<times> int) list) call" and cd cancelled
proof unfold_locales
  fix s :: "'k traffic_world" and rc s'
  assume "on_core (collect queryStats) s = (rc, s')"
  then show "held cd (tw_spool s') = held cd (tw_spool s) \<and> accounted s' = accounted s \<and> accounts s' = accounts s"
    by (auto dest!: lifted simp: accounted_def accounts_def)
next
  fix s :: "'k traffic_world" and rl s'
  assume "on_spool (spool_load cd cancelled) s = (rl, s')"
  then show "held cd (tw_spool s') = held cd (tw_spool s) \<and> accounted s' = accounted s \<and> accounts s' = accounts s"
    by (auto dest!: lifted spool_load_outcome(1) simp: accounted_def accounts_def held_def)
next
  fix s :: "'k traffic_world" and b s'
  assume "on_spool (spool_load cd cancelled) s = (Inr (Some b), s')"
  then show "held cd (tw_spool s) = Some b"
    by (auto dest!: lifted dest: spool_load_outcome(2))
next
  fix s :: "'k traffic_world" and s'
  assume "on_spool (spool_load cd cancelled) s = (Inr None, s')"
  then have "fs_main (fst (tw_spool s)) = None" by (auto dest!: lifted dest: spool_load_outcome(3))
  then show "held cd (tw_spool s) = None" by (simp add: held_def)
next
  fix b and s :: "'k traffic_world" and ru s'
  assume "on_spool (spool_save cd cancelled b) s = (ru, s')"
  then obtain t where t: "spool_save cd cancelled b (tw_spool s) = (ru, t)" "s' = s\<lparr>tw_spool := t\<rparr>"
    by (auto dest!: lifted)
  from spool_save_outcome [OF t(1)] have "held cd t = held cd (tw_spool s) \<or>
      (held cd (tw_spool s) = None \<and> held cd t = Some b)"
    using held_saved by (auto simp: held_def)
  with t(2) show "accounted s' = accounted s \<and> accounts s' = accounts s \<and>
      (held cd (tw_spool s') = held cd (tw_spool s) \<or>
       held cd (tw_spool s) = None \<and> held cd (tw_spool s') = Some b)"
    by (simp add: accounted_def accounts_def)
next
  fix b and s :: "'k traffic_world" and u s'
  assume "on_spool (spool_save cd cancelled b) s = (Inr u, s')"
  then obtain t where t: "spool_save cd cancelled b (tw_spool s) = (Inr u, t)" "s' = s\<lparr>tw_spool := t\<rparr>"
    by (auto dest!: lifted)
  from spool_save_outcome [OF t(1)] held_saved t(2) show "held cd (tw_spool s') = Some b" by auto
next
  fix s :: "'k traffic_world" and ru s'
  assume "on_spool (spool_delete cancelled) s = (ru, s')"
  then show "accounted s' = accounted s \<and> accounts s' = accounts s \<and>
      (held cd (tw_spool s') = held cd (tw_spool s) \<or> held cd (tw_spool s') = None)"
    by (auto dest!: lifted spool_delete_outcome simp: accounted_def accounts_def held_def)
next
  fix s :: "'k traffic_world" and u s'
  assume "on_spool (spool_delete cancelled) s = (Inr u, s')"
  then show "held cd (tw_spool s') = None"
    by (auto dest!: lifted spool_delete_outcome simp: held_def)
next
  fix b and s :: "'k traffic_world" and rr s'
  assume "on_database (record_pending_batch (cd_sha cd) (cd_fmt cd) b) s = (rr, s')"
  then obtain t where t: "record_pending_batch (cd_sha cd) (cd_fmt cd) b (tw_db s) = (rr, t)" "s' = s\<lparr>tw_db := t\<rparr>"
    by (auto dest!: lifted)
  have "fst t = fst (tw_db s) \<or> (pb_ID b \<notin> set (traffic_ingestion_batches (fst (tw_db s))) \<and>
      traffic_ingestion_batches (fst t) = traffic_ingestion_batches (fst (tw_db s)) @ [pb_ID b])"
    using record_pending_batch_id [OF t(1)] record_batch_once [of _ _ "pb_ID b" "fst (tw_db s)" "snd (tw_db s)" rr "fst t" "snd t"]
    by auto
  with t(2) show "held cd (tw_spool s') = held cd (tw_spool s) \<and>
      (accounted s' = accounted s \<and> accounts s' = accounts s \<or>
       pb_ID b \<notin> set (accounted s) \<and> accounted s' = accounted s @ [pb_ID b])"
    by (auto simp: accounted_def accounts_def)
next
  fix b and s :: "'k traffic_world" and x s'
  assume "on_database (record_pending_batch (cd_sha cd) (cd_fmt cd) b) s = (Inr x, s')"
  then obtain t where t: "record_pending_batch (cd_sha cd) (cd_fmt cd) b (tw_db s) = (Inr x, t)" "s' = s\<lparr>tw_db := t\<rparr>"
    by (auto dest!: lifted)
  from record_pending_batch_id [OF t(1)] have "pb_ID b \<noteq> ''''"
    "record_batch (pb_CollectedAt b) (pb_Samples b) (pb_ID b) (tw_db s) = (Inr x, t)" by auto
  then have "pb_ID b \<in> set (traffic_ingestion_batches (fst t)) \<or> silent (pb_Samples b)"
    using record_batch_settles [of _ _ "pb_ID b" "fst (tw_db s)" "snd (tw_db s)" x "fst t" "snd t"] by auto
  with t(2) show "pb_ID b \<in> set (accounted s') \<or> silent (pb_Samples b)"
    by (simp add: accounted_def)
qed

text \<open>
  C11. Traffic is accounted exactly once. Whatever file-system calls, statements and commits
  fail or lose their acknowledgement, over any number of runner steps: a batch in the spool
  stays there until its identity is in the table of ingested batches (or it carries no
  traffic), no identity is ever ingested twice, and as long as no identity is added the tables
  do not change at all.
\<close>

theorem traffic_exactly_once:
  assumes "distinct (accounted w)"
  shows "let w' = runner_run (traffic_step cd cancelled queryStats) ts w in
    distinct (accounted w') \<and> (\<exists>new. accounted w' = accounted w @ new) \<and>
    (accounted w' = accounted w \<longrightarrow> fst (tw_db w') = fst (tw_db w)) \<and>
    (\<forall>b. held cd (tw_spool w) = Some b \<longrightarrow>
       held cd (tw_spool w') = Some b \<or> pb_ID b \<in> set (accounted w') \<or> silent (pb_Samples b))"
  using pipeline.run_progress [of cd w "new_pending_batch (cd_sha cd) (cd_fmt cd)" queryStats cancelled ts] assms
  unfolding traffic_step_def pipeline.progress_def pipeline.settled_def accounts_def Let_def
  by blast

section \<open>A concrete run\<close>

definition sample_codec :: codec where
  "sample_codec = \<lparr>cd_sha = (\<lambda>xs. 0), cd_fmt = (\<lambda>t. []), cd_fmt_json = (\<lambda>t. '''')\<rparr>"

definition sample_small_batch :: pending_batch where
  "sample_small_batch = \<lparr>pb_ID = hex_bytes (digest_bytes 0), pb_CollectedAt = 7,
     pb_Samples = [\<lparr>sm_TelegramID = 5, sm_Uplink = 3, sm_Downlink = 4\<rparr>]\<rparr>"

definition empty_spool :: spool_fs where
  "empty_spool = \<lparr>fs_main = None, fs_temporary = None, fs_directory = False\<rparr>"

theorem spool_roundtrip_witness:
  "let x = spool_save sample_codec False sample_small_batch (empty_spool, [])
   in fst x = Inr () \<and> fst (spool_load sample_codec False (fst (snd x), [])) = Inr (Some sample_small_batch)"
proof -
  let ?x = "spool_save sample_codec False sample_small_batch (empty_spool, [])"
  have x: "fst ?x = Inr ()" by code_simp
  have "text_size (cd_fmt_json sample_codec) (Envelope (envelope_of sample_small_batch)) \<le> maxSpoolSize"
    by code_simp
  with spool_roundtrip [OF split_result [OF x]] x show ?thesis unfolding Let_def by simp
qed

text \<open>
  The user of \<open>sample_vpn_db\<close> sent seven bytes; the first commit is lost, the second step
  replays the batch from the spool.
\<close>

definition sample_world :: "(string \<times> int) list traffic_world" where
  "sample_world = \<lparr>tw_core = [(''user>>>5>>>traffic>>>uplink'', 3), (''user>>>5>>>traffic>>>downlink'', 4)],
     tw_spool = (empty_spool, []), tw_db = (sample_vpn_db, [Fine, Fine, Fine, Fine, Fine, Lost ''gone''])\<rparr>"

theorem traffic_exactly_once_witness:
  "let query = (\<lambda>k. (Inr k, []));
       w' = runner_run (traffic_step sample_codec False query) [hour + minute, hour + 2 * minute, hour + 3 * minute] sample_world
   in distinct (accounted sample_world) \<and> distinct (accounted w') \<and>
      map_option qr_used_bytes (map_of (quota_windows (fst (tw_db w'))) 5) = Some 17 \<and>
      accounted w' = [hex_bytes (digest_bytes 0)]"
proof -
  let ?query = "\<lambda>k :: (string \<times> int) list. (Inr k :: go_error + (string \<times> int) list, [] :: (string \<times> int) list)"
  let ?w = "runner_run (traffic_step sample_codec False ?query) [hour + minute, hour + 2 * minute, hour + 3 * minute] sample_world"
  have a: "distinct (accounted sample_world)" by (simp add: accounted_def sample_world_def sample_vpn_db_def)
  have b: "map_option qr_used_bytes (map_of (quota_windows (fst (tw_db ?w))) 5) = Some 17" by code_simp
  have c: "accounted ?w = [hex_bytes (digest_bytes 0)]" by code_simp
  from traffic_exactly_once [OF a, of sample_codec False ?query] a b c show ?thesis unfolding Let_def by blast
qed

end
