(* ===== verification/Core_Actions.thy ===== *)
theory Core_Actions
  imports Vpn_Tables "HOL-Library.Product_Lexorder"
begin

text \<open>
  The worker's side of the outbox (\<open>internal/postgres/core_action_store.go\<close>): claiming due
  actions under a lease, completing them and scheduling a retry. Each operation is one
  statement outside any transaction.
\<close>

section \<open>Actions and failures\<close>

datatype core_failure_code =
    CoreFailureSnapshot
  | CoreFailureCheck
  | CoreFailurePromote
  | CoreFailureRestart
  | OtherCoreFailure string

record core_action =
  ca_ID :: int
  ca_TelegramID :: int
  ca_Action :: core_action_type
  ca_Attempts :: int

fun core_failure_text :: "core_failure_code \<Rightarrow> string" where
  "core_failure_text CoreFailureSnapshot = ''snapshot''"
| "core_failure_text CoreFailureCheck = ''check''"
| "core_failure_text CoreFailurePromote = ''promote''"
| "core_failure_text CoreFailureRestart = ''restart''"
| "core_failure_text (OtherCoreFailure s) = s"

definition valid_core_action :: "core_action_type \<Rightarrow> bool" where
  "valid_core_action action \<longleftrightarrow> action = CoreActionRevoke \<or> action = CoreActionReconcile"

definition valid_core_failure :: "core_failure_code \<Rightarrow> bool" where
  "valid_core_failure failure \<longleftrightarrow> core_failure_text failure \<in>
     {''snapshot'', ''check'', ''promote'', ''restart''}"

definition valid_unique_ids :: "int list \<Rightarrow> bool" where
  "valid_unique_ids ids \<longleftrightarrow> ids \<noteq> [] \<and> list_all (\<lambda>i. 0 < i) ids \<and> distinct ids"

section \<open>Operations\<close>

definition due_order :: "outbox_row \<Rightarrow> nat \<times> int \<times> int" where
  "due_order row = (if ob_action row = CoreActionRevoke then 0 else 1, ob_available_at row, ob_id row)"

definition candidates :: "go_time \<Rightarrow> nat \<Rightarrow> vpn_db \<Rightarrow> int list" where
  "candidates now limit d =
     map ob_id (take limit (sort_key due_order
       (filter (\<lambda>row. ob_completed_at row = None \<and> ob_available_at row \<le> now) (core_action_outbox d))))"

definition core_action_of :: "outbox_row \<Rightarrow> core_action" where
  "core_action_of row = \<lparr>ca_ID = ob_id row, ca_TelegramID = ob_telegram_id row,
     ca_Action = ob_action row, ca_Attempts = ob_attempts row\<rparr>"

definition lease_row :: "int list \<Rightarrow> go_time \<Rightarrow> outbox_row \<Rightarrow> outbox_row" where
  "lease_row ids leasedUntil row =
     (if ob_id row \<in> set ids then row\<lparr>ob_attempts := ob_attempts row + 1, ob_available_at := leasedUntil\<rparr>
      else row)"

definition claim_statement :: "go_time \<Rightarrow> duration \<Rightarrow> nat \<Rightarrow> (vpn_db, core_action list) call" where
  "claim_statement now lease limit d =
     (let ids = candidates now limit d;
          rows = map (lease_row ids (now + lease)) (core_action_outbox d)
      in (Inr (map core_action_of (sort_key ob_id (filter (\<lambda>row. ob_id row \<in> set ids) rows))),
          d\<lparr>core_action_outbox := rows\<rparr>))"

text \<open>The loop over the claimed rows; \<open>previous\<close> is the identity of the row before.\<close>

fun claimed_ok :: "int option \<Rightarrow> core_action list \<Rightarrow> bool" where
  "claimed_ok previous [] = True"
| "claimed_ok previous (a # as) =
     (0 < ca_ID a \<and> 0 < ca_TelegramID a \<and> 0 < ca_Attempts a \<and>
      (case previous of None \<Rightarrow> True | Some p \<Rightarrow> p < ca_ID a) \<and> valid_core_action (ca_Action a) \<and>
      claimed_ok (Some (ca_ID a)) as)"

definition claim_due :: "go_time \<Rightarrow> duration \<Rightarrow> int \<Rightarrow> (vpn_db \<times> faults, core_action list) call" where
  "claim_due now lease limit =
     (if now = 0 \<or> lease \<le> 0 \<or> limit < 1 \<or> 1000 < limit
      then fail_with (Err ''core action claim parameters are invalid'')
      else and_then (wrapping ''claim core actions'' (statement (claim_statement now lease (nat limit))))
        (\<lambda>claimed. if claimed_ok None claimed then ok claimed
                    else fail_with (Err ''claimed core action is invalid'')))"

definition complete_row :: "int list \<Rightarrow> go_time \<Rightarrow> outbox_row \<Rightarrow> outbox_row" where
  "complete_row ids now row =
     (if ob_id row \<in> set ids \<and> ob_completed_at row = None
      then row\<lparr>ob_completed_at := Some now, ob_last_error := ''''\<rparr> else row)"

definition complete_actions :: "int list \<Rightarrow> go_time \<Rightarrow> (vpn_db \<times> faults, unit) call" where
  "complete_actions ids now =
     (if now = 0 \<or> \<not> valid_unique_ids ids then fail_with (Err ''core action completion parameters are invalid'')
      else wrapping ''complete core actions'' (statement (\<lambda>d.
        (Inr (), d\<lparr>core_action_outbox := map (complete_row ids now) (core_action_outbox d)\<rparr>))))"

definition retry_row :: "int list \<Rightarrow> go_time \<Rightarrow> core_failure_code \<Rightarrow> outbox_row \<Rightarrow> outbox_row" where
  "retry_row ids retryAt failure row =
     (if ob_id row \<in> set ids \<and> ob_completed_at row = None
      then row\<lparr>ob_available_at := retryAt, ob_last_error := core_failure_text failure\<rparr> else row)"

definition retry_actions :: "int list \<Rightarrow> go_time \<Rightarrow> core_failure_code \<Rightarrow> (vpn_db \<times> faults, unit) call" where
  "retry_actions ids retryAt failure =
     (if retryAt = 0 \<or> \<not> valid_unique_ids ids \<or> \<not> valid_core_failure failure
      then fail_with (Err ''core action retry parameters are invalid'')
      else wrapping ''retry core actions'' (statement (\<lambda>d.
        (Inr (), d\<lparr>core_action_outbox := map (retry_row ids retryAt failure) (core_action_outbox d)\<rparr>))))"

section \<open>What they do to the outbox\<close>

text \<open>
  The identities are a \<open>BIGSERIAL\<close> and at most one action of a kind is open for a user: the
  two indices of the table.
\<close>

definition outbox_ok :: "vpn_db \<Rightarrow> bool" where
  "outbox_ok d \<longleftrightarrow> sorted_wrt (<) (map ob_id (core_action_outbox d)) \<and>
     (\<forall>row \<in> set (core_action_outbox d). 0 < ob_id row \<and> ob_id row < outbox_next_id d \<and>
        0 < ob_telegram_id row \<and> 0 \<le> ob_attempts row \<and> valid_core_action (ob_action row))"

definition some_open :: "vpn_db \<Rightarrow> bool" where
  "some_open d \<longleftrightarrow> (\<exists>i. open_action d i)"

lemma some_open_iff [code]: "some_open d \<longleftrightarrow> (\<exists>row \<in> set (core_action_outbox d). ob_completed_at row = None)"
  by (auto simp: some_open_def open_action_def)

lemma has_open_some_open: "has_open d action i \<Longrightarrow> some_open d"
  by (auto simp: has_open_def some_open_iff is_open_def list_ex_iff)

lemma row_updates_frame [simp]:
  "ob_id (lease_row ids t row) = ob_id row"
  "ob_completed_at (lease_row ids t row) = ob_completed_at row"
  "ob_telegram_id (lease_row ids t row) = ob_telegram_id row"
  "ob_action (lease_row ids t row) = ob_action row"
  "ob_id (retry_row ids t f row) = ob_id row"
  "ob_completed_at (retry_row ids t f row) = ob_completed_at row"
  "ob_telegram_id (retry_row ids t f row) = ob_telegram_id row"
  "ob_action (retry_row ids t f row) = ob_action row"
  "ob_attempts (retry_row ids t f row) = ob_attempts row"
  "ob_id (complete_row ids t row) = ob_id row"
  "ob_telegram_id (complete_row ids t row) = ob_telegram_id row"
  "ob_action (complete_row ids t row) = ob_action row"
  "ob_attempts (complete_row ids t row) = ob_attempts row"
  by (simp_all add: lease_row_def retry_row_def complete_row_def)

text \<open>
  A database whose outbox differs, row by row, only in what claiming and retrying touch serves
  the same users and has the same open actions.
\<close>

definition row_key :: "outbox_row \<Rightarrow> int \<times> go_time option" where
  "row_key row = (ob_id row, ob_completed_at row)"

definition rows_kept :: "vpn_db \<Rightarrow> vpn_db \<Rightarrow> bool" where
  "rows_kept d d' \<longleftrightarrow> (\<exists>rows. d' = d\<lparr>core_action_outbox := rows\<rparr> \<and>
     map row_key rows = map row_key (core_action_outbox d))"

lemma rows_kept_refl [simp]: "rows_kept d d"
  unfolding rows_kept_def by (rule exI [of _ "core_action_outbox d"]) simp

lemma rows_kept_trans: "rows_kept d d' \<Longrightarrow> rows_kept d' d'' \<Longrightarrow> rows_kept d d''"
  by (auto simp: rows_kept_def)

lemma serves_outbox [simp]: "serves (d\<lparr>core_action_outbox := rows\<rparr>) = serves d"
  by (intro ext) (simp add: serves_def servable_def admitting_def)

lemma rows_kept_serves: "rows_kept d d' \<Longrightarrow> serves d' = serves d"
  by (auto simp: rows_kept_def)

lemma open_action_key: "open_action d i \<longleftrightarrow> (i, None) \<in> set (map row_key (core_action_outbox d))"
  by (auto simp: open_action_def row_key_def)

lemma rows_kept_open: "rows_kept d d' \<Longrightarrow> open_action d' i \<longleftrightarrow> open_action d i"
  unfolding open_action_key rows_kept_def by (elim exE conjE) (simp del: set_map)

lemma rows_kept_map:
  "(\<And>row. ob_id (f row) = ob_id row \<and> ob_completed_at (f row) = ob_completed_at row) \<Longrightarrow>
     rows_kept d (d\<lparr>core_action_outbox := map f (core_action_outbox d)\<rparr>)"
  by (auto simp: rows_kept_def row_key_def)

end
