(* ===== verification/Installer.thy ===== *)
theory Installer
  imports Prelude
begin

text \<open>
  Installing a configuration of the core (\<open>internal/singbox/installer.go\<close>): stage, check,
  promote, restart, and back again when the restart fails. The deployment is an interface
  (\<open>Deployment\<close>); the locale states what the installer relies on, and \<open>File_Deployment\<close>
  provides it. A configuration is a byte slice that is only passed on, a list over any type.
\<close>

section \<open>The interface and the operation\<close>

record ('s, 'c, 'k, 'p) deployment =
  dp_Stage :: "'c list \<Rightarrow> ('s, 'k) call"
  dp_Check :: "'k \<Rightarrow> ('s, unit) call"
  dp_Discard :: "'k \<Rightarrow> ('s, unit) call"
  dp_Promote :: "'k \<Rightarrow> ('s, 'p) call"
  dp_Restart :: "('s, unit) call"
  dp_Rollback :: "'p \<Rightarrow> ('s, unit) call"
  dp_Finalize :: "'p \<Rightarrow> ('s, unit) call"

abbreviation "InstallStageStage \<equiv> ''stage''"
abbreviation "InstallStageCheck \<equiv> ''check''"
abbreviation "InstallStagePromote \<equiv> ''promote''"
abbreviation "InstallStageRestart \<equiv> ''restart''"
abbreviation "InstallStageRollback \<equiv> ''rollback''"
abbreviation "InstallStageFinalize \<equiv> ''finalize''"

definition install_error :: "string \<Rightarrow> go_error \<Rightarrow> go_error" where
  "install_error stage e = Staged ''InstallError'' stage e"

definition install_failure_stage :: "go_error \<Rightarrow> string" where
  "install_failure_stage e = (case errors_as ''InstallError'' e of Some stage \<Rightarrow> stage | None \<Rightarrow> '''')"

text \<open>\<open>errors.Join\<close> of an error and the error of a later call that may be nil.\<close>

definition joined :: "go_error \<Rightarrow> go_error + unit \<Rightarrow> go_error" where
  "joined e r = Join (e # (case r of Inl e' \<Rightarrow> [e'] | Inr _ \<Rightarrow> []))"

definition restart_promoted ::
    "('s, 'c, 'k, 'p) deployment \<Rightarrow> 'p \<Rightarrow> ('s, unit) call" where
  "restart_promoted d promotion s =
     (case dp_Restart d s of
        (Inl restartErr, s1) \<Rightarrow>
          (case dp_Rollback d promotion s1 of
             (Inl rollbackErr, s2) \<Rightarrow> (Inl (install_error InstallStageRollback (Join [restartErr, rollbackErr])), s2)
           | (Inr _, s2) \<Rightarrow>
          (case dp_Restart d s2 of
             (Inl previousErr, s3) \<Rightarrow> (Inl (install_error InstallStageRollback (Join [restartErr, previousErr])), s3)
           | (Inr _, s3) \<Rightarrow>
               (let (finalized, s4) = dp_Finalize d promotion s3
                in (Inl (install_error InstallStageRestart (joined restartErr finalized)), s4))))
      | (Inr _, s1) \<Rightarrow>
          (case dp_Finalize d promotion s1 of
             (Inl e, s2) \<Rightarrow> (Inl (install_error InstallStageFinalize e), s2)
           | (Inr _, s2) \<Rightarrow> (Inr (), s2)))"

definition install :: "('s, 'c, 'k, 'p) deployment \<Rightarrow> 'c list \<Rightarrow> ('s, unit) call" where
  "install d configuration s =
     (if configuration = [] then (Inl (install_error InstallStageStage (Err ''configuration is required'')), s)
      else case dp_Stage d configuration s of
        (Inl e, s1) \<Rightarrow> (Inl (install_error InstallStageStage e), s1)
      | (Inr candidate, s1) \<Rightarrow>
     (case dp_Check d candidate s1 of
        (Inl e, s2) \<Rightarrow>
          (let (discarded, s3) = dp_Discard d candidate s2
           in (Inl (install_error InstallStageCheck (joined e discarded)), s3))
      | (Inr _, s2) \<Rightarrow>
     (case dp_Promote d candidate s2 of
        (Inl e, s3) \<Rightarrow>
          (let (discarded, s4) = dp_Discard d candidate s3
           in (Inl (install_error InstallStagePromote (joined e discarded)), s4))
      | (Inr promotion, s3) \<Rightarrow> restart_promoted d promotion s3)))"

section \<open>What a deployment promises, and what an installation then does\<close>

text \<open>
  \<open>active\<close> is the configuration the core would start from, \<open>running\<close> the one it runs (if it
  runs), \<open>saved\<close> the one a promotion can go back to, \<open>lost\<close> says that a failed promotion left
  the active configuration in its backup only.
\<close>

locale deployment_contract =
  fixes d :: "('s, 'c, 'k, 'p) deployment"
    and active running :: "'s \<Rightarrow> 'c list option"
    and staged_as :: "'s \<Rightarrow> 'k \<Rightarrow> 'c list option"
    and saved :: "'s \<Rightarrow> 'p \<Rightarrow> 'c list option option"
    and lost :: "'s \<Rightarrow> 's \<Rightarrow> bool"
  assumes stage_frame: "dp_Stage d c s = (rk, s') \<Longrightarrow> active s' = active s \<and> running s' = running s"
    and stage_Inr: "dp_Stage d c s = (Inr k, s') \<Longrightarrow> staged_as s' k = Some c"
    and check_frame: "dp_Check d k s = (ru, s') \<Longrightarrow>
      active s' = active s \<and> running s' = running s \<and> staged_as s' k = staged_as s k"
    and discard_frame: "dp_Discard d k s = (ru, s') \<Longrightarrow> active s' = active s \<and> running s' = running s"
    and discard_lost: "dp_Discard d k s = (ru, s') \<Longrightarrow> lost s0 s \<Longrightarrow> lost s0 s'"
    and promote_running: "dp_Promote d k s = (rp, s') \<Longrightarrow> running s' = running s"
    and promote_Inr: "dp_Promote d k s = (Inr p, s') \<Longrightarrow> staged_as s k = Some c \<Longrightarrow>
      active s' = Some c \<and> saved s' p = Some (active s)"
    and promote_Inl: "dp_Promote d k s = (Inl e, s') \<Longrightarrow> active s' = active s \<or> lost s s'"
    and lost_only: "active s1 = active s0 \<Longrightarrow> lost s1 s2 \<Longrightarrow> lost s0 s2"
    and restart_frame: "dp_Restart d s = (ru, s') \<Longrightarrow> active s' = active s \<and> saved s' p = saved s p"
    and restart_Inr: "dp_Restart d s = (Inr u, s') \<Longrightarrow> running s' = active s"
    and rollback_Inr: "dp_Rollback d p s = (Inr u, s') \<Longrightarrow> saved s p = Some c' \<Longrightarrow> active s' = c'"
    and finalize_frame: "dp_Finalize d p s = (ru, s') \<Longrightarrow> active s' = active s \<and> running s' = running s"
begin

text \<open>The outcome of an installation, by the stage its error carries.\<close>

definition outcome_ok :: "'c list \<Rightarrow> 's \<Rightarrow> go_error + unit \<Rightarrow> 's \<Rightarrow> bool" where
  "outcome_ok c s r s' \<longleftrightarrow>
     (case r of
        Inr _ \<Rightarrow> active s' = Some c \<and> running s' = Some c
      | Inl e \<Rightarrow>
          (let stage = install_failure_stage e in
           (stage \<in> {InstallStageStage, InstallStageCheck} \<and> active s' = active s \<and> running s' = running s) \<or>
           (stage = InstallStagePromote \<and> (active s' = active s \<or> lost s s') \<and> running s' = running s) \<or>
           (stage = InstallStageRestart \<and> active s' = active s \<and> running s' = active s) \<or>
           (stage = InstallStageFinalize \<and> active s' = Some c \<and> running s' = Some c) \<or>
           stage = InstallStageRollback))"

lemma stage_of_install_error [simp]: "install_failure_stage (install_error stage e) = stage"
  by (simp add: install_failure_stage_def install_error_def)

lemma restart_promoted_outcome:
  assumes "restart_promoted d p s = (r, s')" and "active s = Some c" and "saved s p = Some (active s0)"
  shows "outcome_ok c s0 r s'"
proof -
  obtain r1 s1 where one: "dp_Restart d s = (r1, s1)" by (metis prod.exhaust)
  from restart_frame [OF one] assms(2,3) have s1: "active s1 = Some c" "saved s1 p = Some (active s0)" by simp_all
  show ?thesis
  proof (cases r1)
    case (Inr u)
    obtain r2 s2 where two: "dp_Finalize d p s1 = (r2, s2)" by (metis prod.exhaust)
    from finalize_frame [OF two] restart_Inr [OF one [unfolded Inr]] s1 assms(2)
    have "active s2 = Some c" "running s2 = Some c" by simp_all
    with assms(1) one two Inr show ?thesis
      by (auto simp: restart_promoted_def outcome_ok_def Let_def split: sum.splits)
  next
    case (Inl e)
    obtain r2 s2 where two: "dp_Rollback d p s1 = (r2, s2)" by (metis prod.exhaust)
    show ?thesis
    proof (cases r2)
      case (Inl e2)
      with assms(1) one two \<open>r1 = Inl e\<close> show ?thesis
        by (auto simp: restart_promoted_def outcome_ok_def Let_def)
    next
      case (Inr u2)
      from rollback_Inr [OF two [unfolded Inr] s1(2)] have s2: "active s2 = active s0" .
      obtain r3 s3 where three: "dp_Restart d s2 = (r3, s3)" by (metis prod.exhaust)
      obtain r4 s4 where four: "dp_Finalize d p s3 = (r4, s4)" by (metis prod.exhaust)
      have "active s4 = active s0 \<and> running s4 = active s0" if "r3 = Inr v" for v
        using finalize_frame [OF four] restart_frame [OF three, of p] restart_Inr [OF three [unfolded that]] s2
        by simp
      with assms(1) one two three four Inl Inr show ?thesis
        by (cases r3) (auto simp: restart_promoted_def outcome_ok_def Let_def)
    qed
  qed
qed

lemma install_outcome_ok:
  assumes "install d c s = (r, s')"
  shows "outcome_ok c s r s'"
proof (cases "c = []")
  case True
  with assms show ?thesis by (auto simp: install_def outcome_ok_def)
next
  case False
  obtain r1 s1 where one: "dp_Stage d c s = (r1, s1)" by (metis prod.exhaust)
  note f1 = stage_frame [OF one]
  show ?thesis
  proof (cases r1)
    case (Inl e)
    with assms False one f1 show ?thesis by (auto simp: install_def outcome_ok_def)
  next
    case (Inr k)
    note r1 = Inr
    obtain r2 s2 where two: "dp_Check d k s1 = (r2, s2)" by (metis prod.exhaust)
    note f2 = check_frame [OF two]
    have st: "staged_as s2 k = Some c" using stage_Inr [OF one [unfolded Inr]] f2 by simp
    show ?thesis
    proof (cases r2)
      case (Inl e)
      obtain r3 s3 where three: "dp_Discard d k s2 = (r3, s3)" by (metis prod.exhaust)
      from assms False one two three Inl r1 f1 f2 discard_frame [OF three] show ?thesis
        by (auto simp: install_def outcome_ok_def)
    next
      case (Inr u)
      note r2 = Inr
      obtain r3 s3 where three: "dp_Promote d k s2 = (r3, s3)" by (metis prod.exhaust)
      show ?thesis
      proof (cases r3)
        case (Inl e)
        obtain r4 s4 where four: "dp_Discard d k s3 = (r4, s4)" by (metis prod.exhaust)
        have "active s4 = active s \<or> lost s s4"
          using promote_Inl [OF three [unfolded Inl]] discard_frame [OF four] discard_lost [OF four]
            lost_only [of s2 s] f1 f2 by metis
        moreover have "running s4 = running s"
          using promote_running [OF three] discard_frame [OF four] f1 f2 by simp
        ultimately show ?thesis using assms False one two three four Inl r1 r2
          by (auto simp: install_def outcome_ok_def)
      next
        case (Inr p)
        from promote_Inr [OF three [unfolded Inr] st] f1 f2
        have "active s3 = Some c" "saved s3 p = Some (active s)" by simp_all
        moreover have "restart_promoted d p s3 = (r, s')"
          using assms False one two three r1 r2 Inr by (simp add: install_def)
        ultimately show ?thesis by (rule restart_promoted_outcome [rotated])
      qed
    qed
  qed
qed

end

end
