(* ===== verification/Core_Worker.thy ===== *)
theory Core_Worker
  imports Core_Actions Installer
begin

text \<open>
  The worker that carries out queued core actions (\<open>internal/coreworker/worker.go\<close>): it claims
  due actions, waits out the notice of a planned restart, builds and installs a snapshot, and
  completes what the snapshot covers. The store, the builder, the installer and the notifier are
  interfaces over a state \<open>'s\<close> of their own; \<open>Core_System\<close> instantiates them. The loop \<open>Run\<close>
  only repeats \<open>Step\<close> once a second.
\<close>

section \<open>State and interfaces\<close>

record ('s, 'c) worker_env =
  we_ClaimDue :: "go_time \<Rightarrow> duration \<Rightarrow> int \<Rightarrow> ('s, core_action list) call"
  we_Complete :: "int list \<Rightarrow> go_time \<Rightarrow> ('s, unit) call"
  we_Retry :: "int list \<Rightarrow> go_time \<Rightarrow> core_failure_code \<Rightarrow> ('s, unit) call"
  we_Build :: "('s, 'c) call"
  we_Install :: "'c \<Rightarrow> ('s, unit) call"
  we_NotifyPlannedRestart :: "('s, unit) call"
  we_NotifyCoreFailure :: "core_failure_code \<Rightarrow> ('s, unit) call"

record worker =
  wk_pending :: "core_action list"
  wk_noticeStartedAt :: go_time
  wk_lastPlannedRestart :: go_time
  wk_installedAt :: go_time
  wk_installedPlanned :: bool

abbreviation actionLease :: duration where "actionLease \<equiv> 2 * minute"
abbreviation actionBatchLimit :: int where "actionBatchLimit \<equiv> 1000"
abbreviation plannedNoticePeriod :: duration where "plannedNoticePeriod \<equiv> 30 * second"
abbreviation plannedRestartLimit :: duration where "plannedRestartLimit \<equiv> minute"

definition new_worker :: worker where
  "new_worker = \<lparr>wk_pending = [], wk_noticeStartedAt = 0, wk_lastPlannedRestart = 0,
     wk_installedAt = 0, wk_installedPlanned = False\<rparr>"

section \<open>Operations\<close>

definition retry_delay :: "int \<Rightarrow> duration" where
  "retry_delay attempts =
     (if attempts = 1 then 5 * second else if attempts = 2 then 15 * second else if attempts = 3 then minute
      else if attempts = 4 then 5 * minute else 15 * minute)"

definition install_failure_code :: "go_error \<Rightarrow> core_failure_code" where
  "install_failure_code e =
     (let stage = install_failure_stage e in
      if stage = InstallStageStage \<or> stage = InstallStageCheck then CoreFailureCheck
      else if stage = InstallStagePromote \<or> stage = InstallStageFinalize then CoreFailurePromote
      else CoreFailureRestart)"

definition pending_ids :: "core_action list \<Rightarrow> int list" where
  "pending_ids actions = map ca_ID actions"

definition has_kind :: "core_action_type \<Rightarrow> core_action list \<Rightarrow> bool" where
  "has_kind action actions \<longleftrightarrow> list_ex (\<lambda>a. ca_Action a = action) actions"

text \<open>The check of \<open>appendClaimed\<close>; \<open>existing\<close> are the identities seen so far.\<close>

fun check_claimed :: "int list \<Rightarrow> core_action list \<Rightarrow> go_error option" where
  "check_claimed existing [] = None"
| "check_claimed existing (a # as) =
     (if ca_ID a \<le> 0 \<or> ca_TelegramID a \<le> 0 \<or> ca_Attempts a \<le> 0 \<or> \<not> valid_core_action (ca_Action a)
      then Some (Err ''claimed core action is invalid'')
      else if ca_ID a \<in> set existing then Some (Err ''claimed core action is duplicated'')
      else check_claimed (ca_ID a # existing) as)"

definition append_claimed :: "core_action list \<Rightarrow> worker \<Rightarrow> go_error + worker" where
  "append_claimed claimed w =
     (case check_claimed (pending_ids (wk_pending w)) claimed of
        Some e \<Rightarrow> Inl e
      | None \<Rightarrow> Inr (w\<lparr>wk_pending := wk_pending w @ claimed\<rparr>))"

fun retry_all :: "('s, 'c) worker_env \<Rightarrow> go_time \<Rightarrow> core_failure_code \<Rightarrow> core_action list \<Rightarrow> 's \<Rightarrow> go_error list \<times> 's" where
  "retry_all env now failure [] s = ([], s)"
| "retry_all env now failure (a # as) s =
     (let (r, s1) = we_Retry env [ca_ID a] (now + retry_delay (ca_Attempts a)) failure s;
          (es, s2) = retry_all env now failure as s1
      in ((case r of Inl e \<Rightarrow> [e] | Inr _ \<Rightarrow> []) @ es, s2))"

definition fail_pending ::
    "('s, 'c) worker_env \<Rightarrow> go_time \<Rightarrow> core_failure_code \<Rightarrow> go_error \<Rightarrow> (worker \<times> 's, unit) call" where
  "fail_pending env now failure cause ws =
     (let (w, s) = ws;
          (es, s1) = retry_all env now failure (wk_pending w) s;
          (notified, s2) = we_NotifyCoreFailure env failure s1;
          es1 = es @ (case notified of Inl e \<Rightarrow> [e] | Inr _ \<Rightarrow> [])
      in (Inl (Join (cause # es1)), (w\<lparr>wk_pending := [], wk_noticeStartedAt := 0\<rparr>, s2)))"

definition complete_installed :: "('s, 'c) worker_env \<Rightarrow> go_time \<Rightarrow> (worker \<times> 's, unit) call" where
  "complete_installed env now ws =
     (let (w, s) = ws in
      case we_Complete env (pending_ids (wk_pending w)) now s of
        (Inl e, s1) \<Rightarrow> (Inl (Wrap ''complete core actions'' e), (w, s1))
      | (Inr _, s1) \<Rightarrow>
          (Inr (), (w\<lparr>wk_lastPlannedRestart := (if wk_installedPlanned w then wk_installedAt w else wk_lastPlannedRestart w),
                      wk_pending := [], wk_noticeStartedAt := 0, wk_installedAt := 0,
                      wk_installedPlanned := False\<rparr>, s1)))"

definition deploy :: "('s, 'c) worker_env \<Rightarrow> go_time \<Rightarrow> bool \<Rightarrow> (worker \<times> 's, unit) call" where
  "deploy env now includesPlanned ws =
     (let (w, s) = ws in
      case we_Build env s of
        (Inl e, s1) \<Rightarrow> fail_pending env now CoreFailureSnapshot e (w, s1)
      | (Inr configuration, s1) \<Rightarrow>
     (case we_Install env configuration s1 of
        (Inl e, s2) \<Rightarrow> fail_pending env now (install_failure_code e) e (w, s2)
      | (Inr _, s2) \<Rightarrow>
          complete_installed env now (w\<lparr>wk_installedAt := now, wk_installedPlanned := includesPlanned\<rparr>, s2)))"

definition ready_at :: "worker \<Rightarrow> go_time" where
  "ready_at w =
     (let notice = wk_noticeStartedAt w + plannedNoticePeriod in
      if wk_lastPlannedRestart w = 0 then notice else max notice (wk_lastPlannedRestart w + plannedRestartLimit))"

text \<open>The planned part of a step: announce once, then wait.\<close>

definition planned_step :: "('s, 'c) worker_env \<Rightarrow> go_time \<Rightarrow> (worker \<times> 's, unit) call" where
  "planned_step env now ws =
     (let (w, s) = ws;
          (w1, s1) = (if wk_noticeStartedAt w = 0
            then (w\<lparr>wk_noticeStartedAt := now\<rparr>, snd (we_NotifyPlannedRestart env s)) else (w, s))
      in if now < ready_at w1 then (Inr (), (w1, s1)) else deploy env now True (w1, s1))"

definition worker_step :: "('s, 'c) worker_env \<Rightarrow> go_time \<Rightarrow> (worker \<times> 's, unit) call" where
  "worker_step env now ws =
     (let (w, s) = ws in
      if now = 0 then (Inl (Err ''core worker time is required''), ws)
      else if wk_installedAt w \<noteq> 0 then complete_installed env now ws
      else case we_ClaimDue env now actionLease actionBatchLimit s of
        (Inl e, s1) \<Rightarrow> (Inl (Wrap ''claim core actions'' e), (w, s1))
      | (Inr claimed, s1) \<Rightarrow>
     (case append_claimed claimed w of
        Inl e \<Rightarrow> (Inl e, (w, s1))
      | Inr w1 \<Rightarrow>
          if wk_pending w1 = [] then (Inr (), (w1, s1))
          else if has_kind CoreActionRevoke (wk_pending w1)
          then deploy env now (has_kind CoreActionReconcile (wk_pending w1)) (w1, s1)
          else planned_step env now (w1, s1)))"

section \<open>What the worker relies on, and what it then guarantees\<close>

text \<open>
  \<open>opened s\<close> are the identities of the actions to do, \<open>wanted (view s)\<close> is what the core should run
  and \<open>running s\<close> what it runs. Claiming and retrying leave all three alone; completing closes
  only what it is given and may, when it fails, have done so or not.
\<close>

locale core_contract =
  fixes env :: "('s, 'c) worker_env"
    and opened :: "'s \<Rightarrow> int set"
    and view :: "'s \<Rightarrow> 'v" and wanted :: "'v \<Rightarrow> 'c option" and running :: "'s \<Rightarrow> 'c option"
  assumes claim: "we_ClaimDue env now lease limit s = (rc, s') \<Longrightarrow>
      opened s' = opened s \<and> view s' = view s \<and> running s' = running s"
    and claim_Inr: "we_ClaimDue env now lease limit s = (Inr as, s') \<Longrightarrow> set (map ca_ID as) \<subseteq> opened s'"
    and retry: "we_Retry env ids at failure s = (ru, s') \<Longrightarrow>
      opened s' = opened s \<and> view s' = view s \<and> running s' = running s"
    and complete: "we_Complete env ids now s = (ru, s') \<Longrightarrow>
      opened s - set ids \<subseteq> opened s' \<and> opened s' \<subseteq> opened s \<and> view s' = view s \<and> running s' = running s"
    and build: "we_Build env s = (rb, s') \<Longrightarrow>
      opened s' = opened s \<and> view s' = view s \<and> running s' = running s"
    and build_Inr: "we_Build env s = (Inr c, s') \<Longrightarrow> wanted (view s) = Some c"
    and install: "we_Install env c s = (ru, s') \<Longrightarrow> opened s' = opened s \<and> view s' = view s"
    and install_Inr: "we_Install env c s = (Inr u, s') \<Longrightarrow> running s' = Some c"
    and notify: "we_NotifyPlannedRestart env s = (ru, s') \<Longrightarrow>
      opened s' = opened s \<and> view s' = view s \<and> running s' = running s"
    and notify_failure: "we_NotifyCoreFailure env failure s = (ru, s') \<Longrightarrow>
      opened s' = opened s \<and> view s' = view s \<and> running s' = running s"
begin

text \<open>
  The invariant: the core runs what it should, or something is still to do. While an installed
  snapshot awaits completion the core runs what it should; otherwise everything the worker
  holds is open.
\<close>

definition in_step :: "worker \<Rightarrow> 's \<Rightarrow> bool" where
  "in_step w s \<longleftrightarrow>
     (if wk_installedAt w \<noteq> 0 then running s = wanted (view s)
      else set (pending_ids (wk_pending w)) \<subseteq> opened s \<and> (running s = wanted (view s) \<or> opened s \<noteq> {}))"

lemma retry_all_frame:
  "retry_all env now failure as s = (es, s') \<Longrightarrow>
     opened s' = opened s \<and> view s' = view s \<and> running s' = running s"
proof (induction as arbitrary: s es s')
  case Nil
  then show ?case by simp
next
  case (Cons a as)
  obtain r s1 where one: "we_Retry env [ca_ID a] (now + retry_delay (ca_Attempts a)) failure s = (r, s1)"
    by (metis prod.exhaust)
  obtain es2 s2 where two: "retry_all env now failure as s1 = (es2, s2)" by (metis prod.exhaust)
  from Cons.prems one two have "s' = s2" by (simp add: Let_def)
  with Cons.IH [OF two] retry [OF one] show ?case by simp
qed

lemma fail_pending_in_step:
  assumes "fail_pending env now failure e (w, s) = (r, (w', s'))" and "wk_installedAt w = 0"
    and "wk_pending w \<noteq> []" and "set (pending_ids (wk_pending w)) \<subseteq> opened s"
  shows "in_step w' s' \<and> opened s' = opened s \<and> wk_installedAt w' = 0 \<and> view s' = view s"
proof -
  obtain es s1 where one: "retry_all env now failure (wk_pending w) s = (es, s1)" by (metis prod.exhaust)
  obtain rn s2 where two: "we_NotifyCoreFailure env failure s1 = (rn, s2)" by (metis prod.exhaust)
  from assms(1) one two have w': "w' = w\<lparr>wk_pending := [], wk_noticeStartedAt := 0\<rparr>" "s' = s2"
    by (auto simp: fail_pending_def Let_def)
  from assms(3,4) have "opened s \<noteq> {}" by (cases "wk_pending w") (auto simp: pending_ids_def)
  with w' retry_all_frame [OF one] notify_failure [OF two] assms(2) show ?thesis
    by (auto simp: in_step_def pending_ids_def)
qed

lemma complete_installed_in_step:
  assumes "complete_installed env now (w, s) = (r, (w', s'))" and "running s = wanted (view s)" and "wk_installedAt w \<noteq> 0"
  shows "in_step w' s' \<and> view s' = view s \<and> running s' = wanted (view s') \<and>
    (wk_installedAt w' = 0 \<longleftrightarrow> is_ok r)"
proof -
  obtain rc s1 where one: "we_Complete env (pending_ids (wk_pending w)) now s = (rc, s1)" by (metis prod.exhaust)
  with assms complete [OF one] show ?thesis
    by (cases rc) (auto simp: complete_installed_def in_step_def pending_ids_def)
qed

lemma deploy_in_step:
  assumes "deploy env now planned (w, s) = (r, (w', s'))" and "now \<noteq> 0" and "wk_installedAt w = 0"
    and "wk_pending w \<noteq> []" and "set (pending_ids (wk_pending w)) \<subseteq> opened s"
  shows "in_step w' s' \<and> view s' = view s"
proof -
  obtain rb s1 where one: "we_Build env s = (rb, s1)" by (metis prod.exhaust)
  note b = build [OF one]
  show ?thesis
  proof (cases rb)
    case (Inl e)
    with assms one have "fail_pending env now CoreFailureSnapshot e (w, s1) = (r, (w', s'))"
      by (simp add: deploy_def)
    from fail_pending_in_step [OF this assms(3,4)] b assms(5) show ?thesis by simp
  next
    case (Inr c)
    note rb = Inr
    from build_Inr [OF one [unfolded rb]] b have c: "wanted (view s1) = Some c" by simp
    obtain ri s2 where two: "we_Install env c s1 = (ri, s2)" by (metis prod.exhaust)
    note i = install [OF two]
    show ?thesis
    proof (cases ri)
      case (Inl e)
      with assms one rb two have "fail_pending env now (install_failure_code e) e (w, s2) = (r, (w', s'))"
        by (simp add: deploy_def)
      from fail_pending_in_step [OF this assms(3,4)] b i assms(5) show ?thesis by simp
    next
      case (Inr u)
      let ?w = "w\<lparr>wk_installedAt := now, wk_installedPlanned := planned\<rparr>"
      from assms(1) one rb two Inr have "complete_installed env now (?w, s2) = (r, (w', s'))"
        by (simp add: deploy_def)
      moreover have "running s2 = wanted (view s2)" using install_Inr [OF two [unfolded Inr]] c i by simp
      ultimately show ?thesis using complete_installed_in_step [of now ?w s2 r w' s'] assms(2) b i by simp
    qed
  qed
qed

lemma worker_step_in_step:
  assumes "worker_step env now (w, s) = (r, (w', s'))" and "in_step w s"
  shows "in_step w' s' \<and> view s' = view s"
proof (cases "now = 0 \<or> wk_installedAt w \<noteq> 0")
  case True
  with assms complete_installed_in_step [of now w s r w' s'] show ?thesis
    by (auto simp: worker_step_def in_step_def split: if_splits)
next
  case False
  with assms(2) have held: "set (pending_ids (wk_pending w)) \<subseteq> opened s" "running s = wanted (view s) \<or> opened s \<noteq> {}"
    by (simp_all add: in_step_def)
  obtain rc s1 where one: "we_ClaimDue env now actionLease actionBatchLimit s = (rc, s1)" by (metis prod.exhaust)
  note c = claim [OF one]
  have still: "in_step w s1" using False held c by (simp add: in_step_def)
  show ?thesis
  proof (cases rc)
    case (Inl e)
    with assms False one still c show ?thesis by (auto simp: worker_step_def)
  next
    case (Inr as)
    note rc = Inr
    show ?thesis
    proof (cases "append_claimed as w")
      case (Inl e)
      with assms False one rc still c show ?thesis by (auto simp: worker_step_def)
    next
      case (Inr w1)
      then have w1: "w1 = w\<lparr>wk_pending := wk_pending w @ as\<rparr>"
        by (auto simp: append_claimed_def split: option.splits)
      have held1: "set (pending_ids (wk_pending w1)) \<subseteq> opened s1"
        using held(1) c claim_Inr [OF one [unfolded rc]] by (auto simp: w1 pending_ids_def)
      have still1: "in_step w1 s1" using held1 held(2) c False by (simp add: in_step_def w1)
      show ?thesis
      proof (cases "wk_pending w1 = []")
        case True
        with assms(1) False one rc Inr still1 c show ?thesis by (auto simp: worker_step_def)
      next
        case pend: False
        have dep: "in_step w' s' \<and> view s' = view s"
          if "deploy env now planned (w2, s2) = (r, (w', s'))" "wk_installedAt w2 = 0"
            "wk_pending w2 = wk_pending w1" "opened s2 = opened s1" "view s2 = view s1" for planned w2 s2
          using deploy_in_step [OF that(1) _ that(2)] that(3-5) pend held1 c False by simp
        show ?thesis
        proof (cases "has_kind CoreActionRevoke (wk_pending w1)")
          case True
          with assms(1) False one rc Inr pend
          have "deploy env now (has_kind CoreActionReconcile (wk_pending w1)) (w1, s1) = (r, (w', s'))"
            by (simp add: worker_step_def)
          from dep [OF this] False w1 show ?thesis by simp
        next
          case nrev: False
          with assms(1) False one rc Inr pend have planned: "planned_step env now (w1, s1) = (r, (w', s'))"
            by (simp add: worker_step_def)
          obtain rn s2 where notif: "we_NotifyPlannedRestart env s1 = (rn, s2)" by (metis prod.exhaust)
          note n = notify [OF notif]
          have stay: "in_step (w1\<lparr>wk_noticeStartedAt := now\<rparr>) s2" using still1 n by (simp add: in_step_def)
          show ?thesis
            using planned notif n stay still1 c dep w1 False
            by (auto simp: planned_step_def Let_def split: if_splits)
        qed
      qed
    qed
  qed
qed

text \<open>A step that reports success after building a snapshot has the core run what it should.\<close>

lemma complete_installed_frame:
  assumes "complete_installed env now (w, s) = (r, (w', s'))"
  shows "view s' = view s \<and> running s' = running s"
proof -
  obtain rc s1 where one: "we_Complete env (pending_ids (wk_pending w)) now s = (rc, s1)" by (metis prod.exhaust)
  with assms complete [OF one] show ?thesis by (cases rc) (auto simp: complete_installed_def)
qed

lemma deploy_Inr:
  assumes "deploy env now planned (w, s) = (Inr u, (w', s'))"
  shows "running s' = wanted (view s') \<and> view s' = view s"
proof -
  obtain rb s1 where one: "we_Build env s = (rb, s1)" by (metis prod.exhaust)
  have failed: "fail_pending env now f e ws \<noteq> (Inr u, x)" for f e ws x
    by (auto simp: fail_pending_def Let_def split: prod.splits)
  from assms one failed obtain c where rb: "rb = Inr c" by (cases rb) (auto simp: deploy_def)
  obtain ri s2 where two: "we_Install env c s1 = (ri, s2)" by (metis prod.exhaust)
  from assms one rb two failed obtain v where ri: "ri = Inr v" by (cases ri) (auto simp: deploy_def)
  let ?w = "w\<lparr>wk_installedAt := now, wk_installedPlanned := planned\<rparr>"
  from assms one rb two ri have "complete_installed env now (?w, s2) = (Inr u, (w', s'))"
    by (simp add: deploy_def)
  from complete_installed_frame [OF this] build [OF one] build_Inr [OF one [unfolded rb]]
    install [OF two] install_Inr [OF two [unfolded ri]]
  show ?thesis by simp
qed

definition waiting :: "worker \<Rightarrow> bool" where
  "waiting w \<longleftrightarrow> wk_pending w \<noteq> [] \<and> wk_installedAt w = 0 \<and> wk_noticeStartedAt w \<noteq> 0"

lemma step_Inr:
  assumes "worker_step env now (w, s) = (Inr u, (w', s'))" and "wk_installedAt w = 0"
  shows "view s' = view s \<and> (running s' = wanted (view s') \<or>
    (running s' = running s \<and> (\<exists>claimed s1. we_ClaimDue env now actionLease actionBatchLimit s = (Inr claimed, s1) \<and>
      (let pending = wk_pending w @ claimed;
           notice = (if wk_noticeStartedAt w = 0 then now else wk_noticeStartedAt w) in
       (pending = [] \<and> w' = w) \<or>
       (\<not> has_kind CoreActionRevoke pending \<and> w' = w\<lparr>wk_pending := pending, wk_noticeStartedAt := notice\<rparr> \<and>
        pending \<noteq> [] \<and> now \<noteq> 0 \<and> now < ready_at w')))))"
proof -
  from assms obtain claimed s1 where one: "we_ClaimDue env now actionLease actionBatchLimit s = (Inr claimed, s1)"
    and now: "now \<noteq> 0"
    by (auto simp: worker_step_def split: if_splits sum.splits prod.splits)
  let ?w1 = "w\<lparr>wk_pending := wk_pending w @ claimed\<rparr>"
  from assms one now have app: "append_claimed claimed w = Inr ?w1"
    by (auto simp: worker_step_def append_claimed_def split: option.splits)
  note c = claim [OF one]
  obtain rn s2 where notif: "we_NotifyPlannedRestart env s1 = (rn, s2)" by (metis prod.exhaust)
  note n = notify [OF notif]
  show ?thesis
    using assms(1) assms(2) one now app c n notif
    by (auto simp: worker_step_def planned_step_def Let_def split: if_splits dest!: deploy_Inr)
qed

lemma step_keeps_running:
  assumes "worker_step env now (w, s) = (Inr u, (w', s'))" and "running s = wanted (view s)"
  shows "running s' = wanted (view s') \<and> view s' = view s"
proof (cases "wk_installedAt w = 0")
  case True
  from step_Inr [OF assms(1) True] assms(2) show ?thesis by auto
next
  case False
  with assms(1) have "complete_installed env now (w, s) = (Inr u, (w', s'))"
    by (auto simp: worker_step_def split: if_splits)
  from complete_installed_frame [OF this] assms(2) show ?thesis by simp
qed

lemma step_waits:
  assumes "worker_step env now (w, s) = (Inr u, (w', s'))" and "waiting w"
  shows "view s' = view s \<and>
    (running s' = wanted (view s') \<or> (now < ready_at w \<and> waiting w' \<and> ready_at w' = ready_at w))"
proof -
  from assms(2) have w: "wk_installedAt w = 0" "wk_pending w \<noteq> []" "wk_noticeStartedAt w \<noteq> 0"
    by (simp_all add: waiting_def)
  have "ready_at (w\<lparr>wk_pending := p\<rparr>) = ready_at w" for p
    by (simp add: ready_at_def cong: if_cong)
  with step_Inr [OF assms(1) w(1)] w show ?thesis by (auto simp: waiting_def Let_def)
qed

lemma revoke_step:
  assumes "worker_step env now (w, s) = (Inr u, (w', s'))" and "wk_installedAt w = 0"
    and "we_ClaimDue env now actionLease actionBatchLimit s = (Inr claimed, s1)"
    and "has_kind CoreActionRevoke (wk_pending w @ claimed)"
  shows "running s' = wanted (view s') \<and> view s' = view s"
  using step_Inr [OF assms(1,2)] assms(3,4) by (auto simp: Let_def has_kind_def)

end

end
