(* ===== verification/Addresses.thy ===== *)
theory Addresses
  imports Encoding
begin

text \<open>
  Text formats of the Go standard library that settings and requests are checked against: IP
  addresses (\<open>net/netip\<close>), host and port (\<open>net.SplitHostPort\<close>), decimal numbers and blank
  strings (\<open>strings.TrimSpace\<close>). A string is its bytes.
\<close>

section \<open>Characters and numbers\<close>

definition decimal_digit :: "char \<Rightarrow> nat option" where
  "decimal_digit c = (let n = of_char c :: nat in if 48 \<le> n \<and> n \<le> 57 then Some (n - 48) else None)"

definition hex_digit_value :: "char \<Rightarrow> nat option" where
  "hex_digit_value c =
     (let n = of_char c :: nat in
      if 48 \<le> n \<and> n \<le> 57 then Some (n - 48)
      else if 97 \<le> n \<and> n \<le> 102 then Some (n - 87)
      else if 65 \<le> n \<and> n \<le> 70 then Some (n - 55) else None)"

fun number_of :: "int \<Rightarrow> int \<Rightarrow> nat list \<Rightarrow> int" where
  "number_of base acc [] = acc"
| "number_of base acc (d # ds) = number_of base (acc * base + int d) ds"

text \<open>\<open>strconv.ParseUint(s, 10, bits)\<close>\<close>

definition parse_uint :: "nat \<Rightarrow> string \<Rightarrow> int option" where
  "parse_uint bits s =
     (if s = '''' then None
      else case all_some (map decimal_digit s) of
        None \<Rightarrow> None
      | Some ds \<Rightarrow> (let n = number_of 10 0 ds in if n < 2 ^ bits then Some n else None))"

text \<open>
  \<open>unicode.IsSpace\<close> on the UTF-8 encoding: the six ASCII characters, U+0085, U+00A0, U+1680,
  U+2000 to U+200A, U+2028, U+2029, U+202F, U+205F and U+3000. The result is what follows the
  first character when that is a space.
\<close>

fun space_prefix :: "string \<Rightarrow> string option" where
  "space_prefix [] = None"
| "space_prefix (c # cs) =
     (let n = of_char c :: nat in
      if n \<in> {9, 10, 11, 12, 13, 32} then Some cs
      else if n = 0xC2 then
        (case cs of d # ds \<Rightarrow> if (of_char d :: nat) \<in> {0x85, 0xA0} then Some ds else None | [] \<Rightarrow> None)
      else case cs of
        d # e # es \<Rightarrow>
          (let x = (n, of_char d :: nat, of_char e :: nat) in
           if x \<in> {(0xE1, 0x9A, 0x80), (0xE2, 0x80, 0xA8), (0xE2, 0x80, 0xA9), (0xE2, 0x80, 0xAF),
                   (0xE2, 0x81, 0x9F), (0xE3, 0x80, 0x80)}
              \<or> (n = 0xE2 \<and> (of_char d :: nat) = 0x80 \<and> (of_char e :: nat) \<in> {0x80..0x8A})
           then Some es else None)
      | _ \<Rightarrow> None)"

lemma space_prefix_shorter: "space_prefix s = Some t \<Longrightarrow> length t < length s"
  by (cases s) (auto simp: Let_def split: if_splits list.splits)

function trim_left :: "string \<Rightarrow> string" where
  "trim_left s = (case space_prefix s of None \<Rightarrow> s | Some t \<Rightarrow> trim_left t)"
  by pat_completeness auto
termination by (relation "measure length") (auto dest: space_prefix_shorter)

declare trim_left.simps [simp del]

text \<open>At the other end the last character may be one, two or three bytes long.\<close>

definition space_suffix :: "string \<Rightarrow> nat option" where
  "space_suffix s =
     List.find (\<lambda>k. k \<le> length s \<and> space_prefix (drop (length s - k) s) = Some []) [1, 2, 3]"

lemma space_suffix_bounds: "space_suffix s = Some k \<Longrightarrow> 0 < k \<and> k \<le> length s"
  by (auto simp: space_suffix_def split: if_splits)

function trim_right :: "string \<Rightarrow> string" where
  "trim_right s = (case space_suffix s of None \<Rightarrow> s | Some k \<Rightarrow> trim_right (take (length s - k) s))"
  by pat_completeness auto
termination by (relation "measure length") (auto dest!: space_suffix_bounds)

declare trim_right.simps [simp del]

definition trim_space :: "string \<Rightarrow> string" where
  "trim_space s = trim_right (trim_left s)"

text \<open>\<open>strings.TrimSpace(s) == ""\<close>\<close>

definition blank :: "string \<Rightarrow> bool" where
  "blank s \<longleftrightarrow> trim_left s = ''''"

section \<open>IP addresses\<close>

datatype ip_addr = IPv4 "byte list" | IPv6 "byte list" string

definition parse_octet :: "string \<Rightarrow> byte option" where
  "parse_octet s =
     (if s = '''' \<or> (1 < length s \<and> hd s = CHR ''0'') then None
      else case all_some (map decimal_digit s) of
        None \<Rightarrow> None
      | Some ds \<Rightarrow> (let n = number_of 10 0 ds in if n \<le> 255 then Some (word_of_int n) else None))"

definition parse_ipv4_fields :: "string \<Rightarrow> byte list option" where
  "parse_ipv4_fields s =
     (let parts = split_at CHR ''.'' s in
      if length parts \<noteq> 4 then None else all_some (map parse_octet parts))"

text \<open>
  The loop of \<open>parseIPv6\<close>: \<open>k\<close> pairs of bytes are still free, \<open>ip\<close> has been read, \<open>ellipsis\<close>
  is the position of a double colon. The answer is the bytes and the position, if the text ends
  where it should.
\<close>

fun parse_ipv6_groups :: "nat \<Rightarrow> byte list \<Rightarrow> nat option \<Rightarrow> string \<Rightarrow> (byte list \<times> nat option) option" where
  "parse_ipv6_groups 0 ip ellipsis s = (if s = '''' then Some (ip, ellipsis) else None)"
| "parse_ipv6_groups (Suc k) ip ellipsis s =
     (let digits = takeWhile (\<lambda>c. hex_digit_value c \<noteq> None) s; rest = drop (length digits) s in
      if digits = '''' \<or> 4 < length digits then None
      else if rest \<noteq> '''' \<and> hd rest = CHR ''.'' then
        (if (ellipsis = None \<and> length ip \<noteq> 12) \<or> 16 < length ip + 4 then None
         else case parse_ipv4_fields s of None \<Rightarrow> None | Some tail \<Rightarrow> Some (ip @ tail, ellipsis))
      else
        (let acc = number_of 16 0 (map (\<lambda>c. the (hex_digit_value c)) digits);
             ip1 = ip @ [word_of_int (acc div 256), word_of_int (acc mod 256)]
         in if rest = '''' then Some (ip1, ellipsis)
            else if hd rest \<noteq> CHR '':'' \<or> length rest = 1 then None
            else if hd (tl rest) = CHR '':'' then
              (if ellipsis \<noteq> None then None
               else if tl (tl rest) = '''' then Some (ip1, Some (length ip1))
               else parse_ipv6_groups k ip1 (Some (length ip1)) (tl (tl rest)))
            else parse_ipv6_groups k ip1 ellipsis (tl rest)))"

definition expand_ipv6 :: "byte list \<Rightarrow> nat option \<Rightarrow> byte list option" where
  "expand_ipv6 ip ellipsis =
     (if length ip < 16
      then (case ellipsis of None \<Rightarrow> None
            | Some e \<Rightarrow> Some (take e ip @ replicate (16 - length ip) 0 @ drop e ip))
      else (case ellipsis of None \<Rightarrow> Some ip | Some _ \<Rightarrow> None))"

definition parse_ipv6 :: "string \<Rightarrow> ip_addr option" where
  "parse_ipv6 text =
     (let s = takeWhile (\<lambda>c. c \<noteq> CHR ''%'') text; rest = drop (length s) text; zone = tl rest in
      if rest \<noteq> '''' \<and> zone = '''' then None
      else
        let zone' = (if rest = '''' then '''' else zone) in
        case (if take 2 s = ''::''
              then (if length s = 2 then Some ([], Some 0) else parse_ipv6_groups 8 [] (Some 0) (drop 2 s))
              else parse_ipv6_groups 8 [] None s) of
          None \<Rightarrow> None
        | Some (ip, ellipsis) \<Rightarrow> map_option (\<lambda>bs. IPv6 bs zone') (expand_ipv6 ip ellipsis))"

text \<open>\<open>netip.ParseAddr\<close>: the first separator decides the family.\<close>

definition parse_addr :: "string \<Rightarrow> ip_addr option" where
  "parse_addr s =
     (case dropWhile (\<lambda>c. c \<noteq> CHR ''.'' \<and> c \<noteq> CHR '':'' \<and> c \<noteq> CHR ''%'') s of
        [] \<Rightarrow> None
      | c # _ \<Rightarrow>
          if c = CHR ''.'' then map_option IPv4 (parse_ipv4_fields s)
          else if c = CHR '':'' then parse_ipv6 s else None)"

definition is_4in6 :: "ip_addr \<Rightarrow> bool" where
  "is_4in6 a = (case a of IPv4 _ \<Rightarrow> False | IPv6 bs _ \<Rightarrow> take 12 bs = replicate 10 0 @ [255, 255])"

definition is_v4 :: "ip_addr \<Rightarrow> bool" where
  "is_v4 a = (case a of IPv4 _ \<Rightarrow> True | IPv6 _ _ \<Rightarrow> False)"

definition is_v6 :: "ip_addr \<Rightarrow> bool" where
  "is_v6 a = (case a of IPv4 _ \<Rightarrow> False | IPv6 _ _ \<Rightarrow> True)"

text \<open>\<open>Unmap\<close> drops the zone too.\<close>

definition unmap :: "ip_addr \<Rightarrow> ip_addr" where
  "unmap a = (case a of IPv4 bs \<Rightarrow> a | IPv6 bs _ \<Rightarrow> if is_4in6 a then IPv4 (drop 12 bs) else a)"

definition is_loopback :: "ip_addr \<Rightarrow> bool" where
  "is_loopback a =
     (case unmap a of IPv4 bs \<Rightarrow> hd bs = 127 | IPv6 bs _ \<Rightarrow> bs = replicate 15 0 @ [1])"

section \<open>Host and port\<close>

text \<open>\<open>net.SplitHostPort\<close>\<close>

definition split_host_port :: "string \<Rightarrow> (string \<times> string) option" where
  "split_host_port hostport =
     (let port = rev (takeWhile (\<lambda>c. c \<noteq> CHR '':'') (rev hostport));
          i = length hostport - length port - 1
      in if CHR '':'' \<notin> set hostport then None
         else if hd hostport = CHR ''['' then
           (let end = length (takeWhile (\<lambda>c. c \<noteq> CHR '']'') hostport) in
            if length hostport \<le> end \<or> end + 1 \<noteq> i then None
            else if CHR ''['' \<in> set (drop 1 hostport) \<or> CHR '']'' \<in> set (drop (end + 1) hostport) then None
            else Some (take (end - 1) (drop 1 hostport), port))
         else if CHR '':'' \<in> set (take i hostport) \<or> CHR ''['' \<in> set hostport \<or> CHR '']'' \<in> set hostport then None
         else Some (take i hostport, port))"

end
