(* ===== verification/Paths.thy ===== *)
theory Paths
  imports Prelude "HOL-Library.Sublist"
begin

text \<open>
  The part of Go's \<open>path/filepath\<close> that the source uses, for slash-separated absolute paths:
  \<open>IsAbs\<close>, \<open>Clean\<close>, \<open>Dir\<close> and \<open>Base\<close>. A cleaned absolute path is the list of its elements,
  the root the empty list, so that \<open>Dir\<close> is \<open>butlast\<close> and \<open>Base\<close> is \<open>last\<close>.
\<close>

abbreviation slash :: char where "slash \<equiv> CHR 0x2F"

fun clean_elements :: "string list \<Rightarrow> string list \<Rightarrow> string list" where
  "clean_elements acc [] = rev acc"
| "clean_elements acc (p # ps) =
     (if p = '''' \<or> p = ''.'' then clean_elements acc ps
      else if p = ''..'' then clean_elements (tl acc) ps
      else clean_elements (p # acc) ps)"

definition is_abs :: "string \<Rightarrow> bool" where
  "is_abs path \<longleftrightarrow> (case path of [] \<Rightarrow> False | c # _ \<Rightarrow> c = slash)"

text \<open>\<open>Clean\<close> of an absolute path.\<close>

definition cleaned :: "string \<Rightarrow> string list" where
  "cleaned path = clean_elements [] (split_at slash path)"

fun path_text :: "string list \<Rightarrow> string" where
  "path_text [] = ''/''"
| "path_text [p] = slash # p"
| "path_text (p # ps) = slash # p @ path_text ps"

definition good_element :: "string \<Rightarrow> bool" where
  "good_element p \<longleftrightarrow> p \<noteq> '''' \<and> p \<noteq> ''.'' \<and> p \<noteq> ''..'' \<and> slash \<notin> set p"

lemma clean_elements_good:
  "list_all good_element acc \<Longrightarrow> list_all (\<lambda>p. slash \<notin> set p) ps \<Longrightarrow> list_all good_element (clean_elements acc ps)"
proof (induction acc ps rule: clean_elements.induct)
  case (1 acc)
  then show ?case by (simp add: list_all_iff)
next
  case (2 acc p ps)
  have "list_all good_element (tl acc)" using 2(4) by (cases acc) simp_all
  with 2 show ?case
    by (cases "p = [] \<or> p = ''.'' \<or> p = ''..''") (auto simp: good_element_def [of p])
qed

lemma cleaned_good: "list_all good_element (cleaned path)"
  unfolding cleaned_def
  by (rule clean_elements_good) (auto simp: list_all_iff dest: split_at_no_sep)

lemma clean_elements_fixed:
  "list_all good_element ps \<Longrightarrow> clean_elements acc ps = rev acc @ ps"
  by (induction acc ps rule: clean_elements.induct) (auto simp: good_element_def)

lemma split_path_text:
  "ps \<noteq> [] \<Longrightarrow> list_all good_element ps \<Longrightarrow> split_at slash (path_text ps) = [] # ps"
proof (induction ps rule: path_text.induct)
  case (3 p q qs)
  then have "split_at slash (path_text (q # qs)) = [] # q # qs" by simp
  moreover obtain cs where cs: "path_text (q # qs) = slash # cs" by (cases qs) simp_all
  ultimately have "split_at slash cs = q # qs" by simp
  with 3(3) cs show ?case
    using split_at_append [of slash p cs] by (simp add: good_element_def)
qed (simp_all add: good_element_def split_at_plain)

lemma cleaned_path_text: "list_all good_element ps \<Longrightarrow> cleaned (path_text ps) = ps"
proof (cases "ps = []")
  case True
  then show ?thesis by (simp add: cleaned_def)
next
  case False
  assume "list_all good_element ps"
  with False show ?thesis by (simp add: cleaned_def split_path_text clean_elements_fixed)
qed

lemma is_abs_path_text [simp]: "is_abs (path_text ps)"
  by (cases ps rule: path_text.cases) (simp_all add: is_abs_def)

text \<open>The check made of temporary files: in the directory, with the prefix.\<close>

definition managed_path :: "string list \<Rightarrow> string \<Rightarrow> string \<Rightarrow> bool" where
  "managed_path directory pre path \<longleftrightarrow>
     path \<noteq> '''' \<and> is_abs path \<and> cleaned path \<noteq> [] \<and>
     butlast (cleaned path) = directory \<and> prefix pre (last (cleaned path))"

text \<open>\<open>os.CreateTemp\<close> picks a name with the prefix that is not in use.\<close>

definition unused_name :: "string \<Rightarrow> string list list \<Rightarrow> string" where
  "unused_name pre used = pre @ replicate (Suc (length (concat (concat used)))) CHR ''0''"

lemma unused_name_fresh: "directory @ [unused_name pre used] \<notin> set used"
proof -
  have "x \<in> set used \<Longrightarrow> length (concat x) \<le> length (concat (concat used))" for x :: "string list"
    by (induction used) auto
  from this [of "directory @ [unused_name pre used]"] show ?thesis by (auto simp: unused_name_def)
qed

lemma managed_unused:
  assumes "list_all good_element directory" and "good_element (unused_name pre used)"
  shows "managed_path directory pre (path_text (directory @ [unused_name pre used]))"
proof -
  have "list_all good_element (directory @ [unused_name pre used])" using assms by simp
  from cleaned_path_text [OF this] show ?thesis
    using is_abs_path_text [of "directory @ [unused_name pre used]"]
    by (auto simp: managed_path_def unused_name_def is_abs_def)
qed

end
