(* ===== verification/Generator.thy ===== *)
theory Generator
  imports Credentials Addresses Paths
begin

text \<open>
  The configuration document of the core (\<open>internal/singbox/generator.go\<close>): checks on the
  settings and users, then one inbound per protocol and listen address. A document is a JSON
  value; an object is the list of its members. Its text (\<open>json.MarshalIndent\<close>) is not modelled.
\<close>

section \<open>Documents\<close>

datatype json =
    JString string
  | JNumber int
  | JBool bool
  | JArray "json list"
  | JObject "(string \<times> json) list"

definition member :: "string \<Rightarrow> json \<Rightarrow> json option" where
  "member key doc = (case doc of JObject ms \<Rightarrow> map_of ms key | _ \<Rightarrow> None)"

definition elements :: "json option \<Rightarrow> json list" where
  "elements doc = (case doc of Some (JArray xs) \<Rightarrow> xs | _ \<Rightarrow> [])"

section \<open>Settings and users\<close>

record vpn_user =
  us_TelegramID :: int
  us_Credentials :: credential_bundle

record core_settings =
  cs_ListenIPv4 :: string
  cs_ListenIPv6 :: string
  cs_VLESSPort :: int
  cs_Hysteria2Port :: int
  cs_TUICPort :: int
  cs_AnyTLSPort :: int
  cs_TLSServerName :: string
  cs_TLSCertificatePath :: string
  cs_TLSKeyPath :: string
  cs_RealityServer :: string
  cs_RealityServerPort :: int
  cs_RealityPrivateKey :: string
  cs_RealityShortID :: string
  cs_StatsListen :: string
  cs_AllowIPv4Outbound :: bool
  cs_Users :: "vpn_user list"

text \<open>\<open>strconv.FormatInt(n, 10)\<close>\<close>

fun decimal_text :: "nat \<Rightarrow> string" where
  "decimal_text n = (if n < 10 then [char_of (48 + n)] else decimal_text (n div 10) @ [char_of (48 + n mod 10)])"

declare decimal_text.simps [simp del]

definition format_int :: "int \<Rightarrow> string" where
  "format_int n = (if n < 0 then CHR ''-'' # decimal_text (nat (- n)) else decimal_text (nat n))"

section \<open>Checks\<close>

definition validate_listen_address :: "string \<Rightarrow> bool \<Rightarrow> go_error option" where
  "validate_listen_address value wantIPv6 =
     (if value = '''' then None
      else case parse_addr value of
        None \<Rightarrow> Some (Err ''listen address must be a valid address'')
      | Some a \<Rightarrow>
          if is_4in6 a \<or> is_v6 a \<noteq> wantIPv6 \<or> is_v4 a = wantIPv6
          then Some (Err ''listen address must be a valid address'') else None)"

definition validate_stats_listen :: "string \<Rightarrow> go_error option" where
  "validate_stats_listen value =
     (case split_host_port value of
        None \<Rightarrow> Some (Err ''stats listen address must be a localhost host:port'')
      | Some (host, port) \<Rightarrow>
          if port = '''' then Some (Err ''stats listen address must be a localhost host:port'')
          else (case parse_addr host of
              None \<Rightarrow> Some (Err ''stats listen address must use a loopback IP'')
            | Some a \<Rightarrow>
                if \<not> is_loopback a then Some (Err ''stats listen address must use a loopback IP'')
                else (case parse_uint 16 port of
                    None \<Rightarrow> Some (Err ''stats listen port is invalid'')
                  | Some p \<Rightarrow> if p = 0 then Some (Err ''stats listen port is invalid'') else None)))"

definition valid_short_id :: "string \<Rightarrow> bool" where
  "valid_short_id value \<longleftrightarrow> length value \<le> 16 \<and> even (length value) \<and>
     list_all (\<lambda>c. c \<in> set ''0123456789abcdefABCDEF'') value"

definition hex_string :: "nat \<Rightarrow> string \<Rightarrow> bool" where
  "hex_string n s \<longleftrightarrow> length s = n \<and> list_all (\<lambda>c. hex_digit_value c \<noteq> None) s"

text \<open>\<open>uuidV4Pattern\<close>\<close>

definition uuid_v4 :: "string \<Rightarrow> bool" where
  "uuid_v4 s \<longleftrightarrow>
     (case split_at CHR ''-'' s of
        [a, b, c, d, e] \<Rightarrow>
          hex_string 8 a \<and> hex_string 4 b \<and> hex_string 4 c \<and> take 1 c = ''4'' \<and>
          hex_string 4 d \<and> hd d \<in> set ''89abAB'' \<and> hex_string 12 e
      | _ \<Rightarrow> False)"

definition validate_credentials :: "credential_bundle \<Rightarrow> go_error option" where
  "validate_credentials b =
     (if \<not> canonical_b64 32 (cb_SubscriptionToken b) then Some (Err ''subscription token is invalid'')
      else if \<not> uuid_v4 (cb_VLESSUUID b) \<or> \<not> uuid_v4 (cb_TUICUUID b) then Some (Err ''protocol UUID is invalid'')
      else if blank (cb_Hysteria2Password b) \<or> blank (cb_TUICPassword b) \<or> blank (cb_AnyTLSPassword b)
      then Some (Err ''protocol password is required'') else None)"

fun validate_users_from :: "int option \<Rightarrow> vpn_user list \<Rightarrow> go_error option" where
  "validate_users_from previous [] = None"
| "validate_users_from previous (u # us) =
     (if us_TelegramID u \<le> 0 then Some (Err ''user Telegram ID must be positive'')
      else if previous = Some (us_TelegramID u) then Some (Err ''duplicate user Telegram ID'')
      else case validate_credentials (us_Credentials u) of
        Some e \<Rightarrow> Some (Wrap ''validate credentials'' e)
      | None \<Rightarrow> validate_users_from (Some (us_TelegramID u)) us)"

text \<open>X25519 takes any 32 bytes as a private key.\<close>

definition validate_settings :: "core_settings \<Rightarrow> go_error option" where
  "validate_settings s =
     (case validate_listen_address (cs_ListenIPv4 s) False of Some e \<Rightarrow> Some e | None \<Rightarrow>
     (case validate_listen_address (cs_ListenIPv6 s) True of Some e \<Rightarrow> Some e | None \<Rightarrow>
      if cs_ListenIPv4 s = '''' \<and> cs_ListenIPv6 s = ''''
      then Some (Err ''at least one inbound listen address is required'')
      else if cs_VLESSPort s = 0 \<or> cs_Hysteria2Port s = 0 \<or> cs_TUICPort s = 0 \<or> cs_AnyTLSPort s = 0
      then Some (Err ''all protocol ports are required'')
      else if cs_VLESSPort s = cs_AnyTLSPort s then Some (Err ''VLESS and AnyTLS TCP ports conflict'')
      else if cs_Hysteria2Port s = cs_TUICPort s then Some (Err ''Hysteria2 and TUIC UDP ports conflict'')
      else if blank (cs_TLSServerName s) \<or> blank (cs_TLSCertificatePath s) \<or> blank (cs_TLSKeyPath s)
      then Some (Err ''TLS server name and certificate paths are required'')
      else if blank (cs_RealityServer s) \<or> cs_RealityServerPort s = 0 \<or> blank (cs_RealityPrivateKey s)
      then Some (Err ''REALITY handshake and private key settings are required'')
      else if \<not> canonical_b64 32 (cs_RealityPrivateKey s)
      then Some (Err ''REALITY private key must be a canonical 32-byte Base64URL value'')
      else if \<not> valid_short_id (cs_RealityShortID s)
      then Some (Err ''REALITY short ID must contain at most 16 hexadecimal characters'')
      else validate_stats_listen (cs_StatsListen s)))"

definition validate_and_sort :: "core_settings \<Rightarrow> go_error + vpn_user list" where
  "validate_and_sort s =
     (case validate_settings s of
        Some e \<Rightarrow> Inl e
      | None \<Rightarrow>
          (let users = sort_key us_TelegramID (cs_Users s) in
           case validate_users_from None users of Some e \<Rightarrow> Inl e | None \<Rightarrow> Inr users))"

section \<open>The document\<close>

definition certificate_tls :: "core_settings \<Rightarrow> json" where
  "certificate_tls s = JObject [(''enabled'', JBool True), (''server_name'', JString (cs_TLSServerName s)),
     (''certificate_path'', JString (cs_TLSCertificatePath s)), (''key_path'', JString (cs_TLSKeyPath s)),
     (''min_version'', JString ''1.2'')]"

definition reality_tls :: "core_settings \<Rightarrow> json" where
  "reality_tls s = JObject [(''enabled'', JBool True),
     (''reality'', JObject [(''enabled'', JBool True),
        (''handshake'', JObject [(''server'', JString (cs_RealityServer s)), (''server_port'', JNumber (cs_RealityServerPort s))]),
        (''private_key'', JString (cs_RealityPrivateKey s)),
        (''short_id'', JArray [JString (cs_RealityShortID s)])])]"

definition user_name :: "vpn_user \<Rightarrow> string" where
  "user_name u = format_int (us_TelegramID u)"

definition protocol_user :: "string \<Rightarrow> vpn_user \<Rightarrow> json" where
  "protocol_user protocol u =
     (let name = (''name'', JString (user_name u)); c = us_Credentials u in
      JObject (if protocol = ''vless'' then [name, (''uuid'', JString (cb_VLESSUUID c)), (''flow'', JString ''xtls-rprx-vision'')]
        else if protocol = ''hysteria2'' then [name, (''password'', JString (cb_Hysteria2Password c))]
        else if protocol = ''tuic'' then [name, (''uuid'', JString (cb_TUICUUID c)), (''password'', JString (cb_TUICPassword c))]
        else [name, (''password'', JString (cb_AnyTLSPassword c))]))"

definition build_inbound :: "string \<Rightarrow> string \<Rightarrow> string \<Rightarrow> core_settings \<Rightarrow> vpn_user list \<Rightarrow> json" where
  "build_inbound protocol tag listen s users =
     (let common = [(''type'', JString protocol), (''tag'', JString tag), (''listen'', JString listen)];
          accounts = (''users'', JArray (map (protocol_user protocol) users)) in
      JObject (common @
        (if protocol = ''vless'' then
           [(''listen_port'', JNumber (cs_VLESSPort s)), accounts, (''tls'', reality_tls s)]
         else if protocol = ''hysteria2'' then
           [(''listen_port'', JNumber (cs_Hysteria2Port s)), accounts, (''tls'', certificate_tls s)]
         else if protocol = ''tuic'' then
           [(''listen_port'', JNumber (cs_TUICPort s)), accounts, (''zero_rtt_handshake'', JBool False),
            (''tls'', certificate_tls s)]
         else if protocol = ''anytls'' then
           [(''listen_port'', JNumber (cs_AnyTLSPort s)), accounts, (''tls'', certificate_tls s)]
         else [])))"

definition listen_addresses :: "core_settings \<Rightarrow> (string \<times> string) list" where
  "listen_addresses s =
     (if cs_ListenIPv4 s \<noteq> '''' then [(''ipv4'', cs_ListenIPv4 s)] else []) @
     (if cs_ListenIPv6 s \<noteq> '''' then [(''ipv6'', cs_ListenIPv6 s)] else [])"

definition core_protocols :: "string list" where
  "core_protocols = [''vless'', ''hysteria2'', ''tuic'', ''anytls'']"

definition inbound_tag :: "string \<Rightarrow> string \<times> string \<Rightarrow> string" where
  "inbound_tag protocol address = protocol @ ''-'' @ fst address"

definition document :: "core_settings \<Rightarrow> vpn_user list \<Rightarrow> json" where
  "document s users =
     (let addresses = listen_addresses s;
          inbounds = concat (map (\<lambda>p. map (\<lambda>a. build_inbound p (inbound_tag p a) (snd a) s users) addresses) core_protocols);
          tags = concat (map (\<lambda>p. map (inbound_tag p) addresses) core_protocols);
          strategy = (if cs_AllowIPv4Outbound s then ''prefer_ipv6'' else ''ipv6_only'');
          rules = (if cs_AllowIPv4Outbound s then []
                   else [JObject [(''ip_version'', JNumber 4), (''action'', JString ''reject'')]])
                @ [JObject [(''action'', JString ''route''), (''outbound'', JString ''direct'')]]
      in JObject [
        (''log'', JObject [(''level'', JString ''info''), (''timestamp'', JBool True)]),
        (''dns'', JObject [(''servers'', JArray [JObject [(''type'', JString ''local''), (''tag'', JString ''local'')]]),
           (''strategy'', JString strategy)]),
        (''inbounds'', JArray inbounds),
        (''outbounds'', JArray [JObject [(''type'', JString ''direct''), (''tag'', JString ''direct''),
           (''domain_resolver'', JObject [(''server'', JString ''local''), (''strategy'', JString strategy)])]]),
        (''route'', JObject [(''rules'', JArray rules), (''final'', JString ''direct'')]),
        (''experimental'', JObject [(''v2ray_api'', JObject [(''listen'', JString (cs_StatsListen s)),
           (''stats'', JObject [(''enabled'', JBool True), (''inbounds'', JArray (map JString tags)),
              (''users'', JArray (map (\<lambda>u. JString (user_name u)) users))])])])])"

definition generate :: "core_settings \<Rightarrow> go_error + json" where
  "generate s = (case validate_and_sort s of Inl e \<Rightarrow> Inl e | Inr users \<Rightarrow> Inr (document s users))"

section \<open>Issued credentials pass the checks\<close>

lemma top_nibble:
  fixes v :: byte
  shows "unat ((v AND 0x0f) OR 0x40) div 16 = 4" and "unat ((v AND 0x3f) OR 0x80) div 16 \<in> {8..11}"
proof -
  have d: "unat x div 16 = unat (drop_bit 4 x)" for x :: byte
    by (simp add: unat_drop_bit_eq drop_bit_eq_div [of _ "unat x"])
  have a: "drop_bit 4 (v AND 0x0f) = 0"
    using drop_bit_take_bit [of 4 4 v] by (simp add: take_bit_eq_mask mask_numeral)
  show "unat ((v AND 0x0f) OR 0x40) div 16 = 4"
    unfolding d by (simp add: a)
  have b: "drop_bit 4 (v AND 0x3f) = take_bit 2 (drop_bit 4 v)"
    using drop_bit_take_bit [of 4 6 v] by (simp add: take_bit_eq_mask mask_numeral)
  define w where "w = take_bit 2 (drop_bit 4 v)"
  have "w < 4" unfolding w_def by (simp add: take_bit_eq_mod word_mod_less_divisor)
  then have "unat w < 4" by (simp add: word_less_nat_alt)
  then have "unat w = 0 \<or> unat w = 1 \<or> unat w = 2 \<or> unat w = 3" by linarith
  then have "w = 0 \<or> w = 1 \<or> w = 2 \<or> w = 3"
    by (simp add: word_unat_eq_iff)
  moreover have "drop_bit 4 ((v AND 0x3f) OR 0x80) = w OR 8"
    unfolding drop_bit_or b w_def by simp
  ultimately show "unat ((v AND 0x3f) OR 0x80) div 16 \<in> {8..11}"
    unfolding d by (elim disjE) simp_all
qed

lemma hex_value_digit: "i < 16 \<Longrightarrow> hex_digit_value (hex_digit i) = Some i"
  by (auto simp: hex_digit_def hex_alphabet_def hex_digit_value_def less_Suc_eq numeral_eq_Suc)

lemma hex_string_bytes: "hex_string (2 * length bs) (hex_bytes bs)"
  by (induction bs) (auto simp: hex_string_def hex_value_digit byte_nibbles)

lemma hex_bytes_no_hyphen: "CHR ''-'' \<notin> set (hex_bytes bs)"
  using hex_bytes_alphabet [of bs] by (auto simp: hex_alphabet_def)

lemma hex_bytes_hd: "bs \<noteq> [] \<Longrightarrow> hex_bytes bs \<noteq> [] \<and> hd (hex_bytes bs) = hex_digit (unat (hd bs) div 16)"
  by (cases bs) simp_all

lemma hd_byte_range: "i < j \<Longrightarrow> i < length v \<Longrightarrow> byte_range i j v \<noteq> [] \<and> hd (byte_range i j v) = v ! i"
  by (simp add: byte_range_def hd_drop_conv_nth)

lemma format_uuid_v4:
  assumes "length v = 16"
  shows "uuid_v4 (format_uuid (uuid_bits v))"
proof -
  let ?u = "uuid_bits v"
  note u = uuid_bits_facts [OF assms]
  have parts: "split_at CHR ''-'' (format_uuid ?u) =
      [hex_bytes (byte_range 0 4 ?u), hex_bytes (byte_range 4 6 ?u), hex_bytes (byte_range 6 8 ?u),
       hex_bytes (byte_range 8 10 ?u), hex_bytes (byte_range 10 16 ?u)]"
    unfolding format_uuid_def
    by (simp add: split_at_append split_at_plain hex_bytes_no_hyphen)
  have hex: "hex_string (2 * (j - i)) (hex_bytes (byte_range i j ?u))" if "i \<le> j" "j \<le> 16" for i j
  proof -
    have "min (16 - i) (j - i) = j - i" using that by (intro min_absorb2) simp
    with hex_string_bytes [of "byte_range i j ?u"] u(1) show ?thesis by simp
  qed
  have "hd (hex_bytes (byte_range 6 8 ?u)) = hex_digit 4"
    using hex_bytes_hd hd_byte_range [of 6 8 ?u] u(1,2) top_nibble(1) by simp
  then have four: "take 1 (hex_bytes (byte_range 6 8 ?u)) = ''4''"
    using hex_bytes_hd [of "byte_range 6 8 ?u"] hd_byte_range [of 6 8 ?u] u(1)
    by (cases "hex_bytes (byte_range 6 8 ?u)") (simp_all add: hex_digit_def hex_alphabet_def)
  have "hd (hex_bytes (byte_range 8 10 ?u)) = hex_digit (unat (?u ! 8) div 16)"
    using hex_bytes_hd hd_byte_range [of 8 10 ?u] u(1) by simp
  moreover have "unat (?u ! 8) div 16 \<in> {8, 9, 10, 11}"
  proof -
    have "x \<in> {8..11} \<Longrightarrow> x \<in> {8, 9, 10, 11}" for x :: nat by (simp add: atLeastAtMost_iff; linarith)
    then show ?thesis unfolding u(3) using top_nibble(2) [of "v ! 8"] by blast
  qed
  ultimately have "hd (hex_bytes (byte_range 8 10 ?u)) \<in> set ''89abAB''"
    by (auto simp: hex_digit_def hex_alphabet_def)
  with hex [of 0 4] hex [of 4 6] hex [of 6 8] hex [of 8 10] hex [of 10 16] four show ?thesis
    unfolding uuid_v4_def parts by simp
qed

lemma b64_alphabet_printable: "c \<in> set b64_alphabet \<Longrightarrow> 32 < (of_char c :: nat) \<and> (of_char c :: nat) < 128"
proof -
  have "list_all (\<lambda>c. 32 < (of_char c :: nat) \<and> (of_char c :: nat) < 128) b64_alphabet" by code_simp
  then show "c \<in> set b64_alphabet \<Longrightarrow> 32 < (of_char c :: nat) \<and> (of_char c :: nat) < 128"
    by (simp add: list_all_iff)
qed

lemma printable_no_space: "32 < (of_char c :: nat) \<Longrightarrow> (of_char c :: nat) < 128 \<Longrightarrow> space_prefix (c # cs) = None"
  unfolding space_prefix.simps Let_def by (cases cs; cases "tl cs") auto

lemma b64_not_blank:
  assumes "length bs = 32"
  shows "\<not> blank (b64_encode bs)"
proof -
  from assms have "b64_encode bs \<noteq> []" using length_b64_encode [of bs] by auto
  then obtain c cs where c: "b64_encode bs = c # cs" by (cases "b64_encode bs") simp_all
  with b64_encode_alphabet [of bs] have "c \<in> set b64_alphabet" by simp
  with b64_alphabet_printable printable_no_space have "space_prefix (c # cs) = None" by blast
  with c show ?thesis unfolding blank_def by (subst trim_left.simps) simp
qed

text \<open>
  C21. The core can always be configured with what was issued: every credential bundle that the
  issuer hands out, whatever bytes its random source delivers, passes the checks of the
  configuration generator: a canonical token, two version 4 UUIDs and three passwords.
\<close>

theorem issued_bundle_accepted:
  assumes "issue_bundle src = (Inr bundle, rest)"
  shows "validate_credentials bundle = None"
proof -
  from assms obtain v1 v2 v3 v4 v5 v6 :: "byte list" where
      v: "length v1 = 32" "length v2 = 16" "length v3 = 32" "length v4 = 16" "length v5 = 32" "length v6 = 32"
    and b: "bundle = \<lparr>cb_SubscriptionToken = b64_encode v1, cb_VLESSUUID = format_uuid (uuid_bits v2),
      cb_Hysteria2Password = b64_encode v3, cb_TUICUUID = format_uuid (uuid_bits v4),
      cb_TUICPassword = b64_encode v5, cb_AnyTLSPassword = b64_encode v6\<rparr>"
    by (auto simp: issue_bundle_Inr)
  have "canonical_b64 32 (b64_encode v1)" using v(1) by (auto simp: canonical_b64_iff)
  with v show ?thesis by (simp add: b validate_credentials_def format_uuid_v4 b64_not_blank)
qed

theorem issued_bundle_accepted_witness:
  "let bundle = (case issue_bundle (replicate 160 7) of (Inr b, _) \<Rightarrow> b | _ \<Rightarrow> undefined) in
   validate_credentials bundle = None"
proof -
  have "is_ok (fst (issue_bundle (replicate 160 7)))" by code_simp
  then obtain b where "fst (issue_bundle (replicate 160 7)) = Inr b" by (auto simp: is_ok_iff)
  from split_result [OF this] issued_bundle_accepted [OF split_result [OF this]] show ?thesis
    by (metis (mono_tags, lifting) case_prod_conv sum.case(2))
qed

section \<open>What a generated document says\<close>

text \<open>The accounts that the inbounds of a document admit, and the users it counts traffic for.\<close>

definition inbounds_of :: "json \<Rightarrow> json list" where
  "inbounds_of doc = elements (member ''inbounds'' doc)"

definition text_of :: "json option \<Rightarrow> string" where
  "text_of doc = (case doc of Some (JString s) \<Rightarrow> s | _ \<Rightarrow> '''')"

definition accounts_of :: "json \<Rightarrow> json list" where
  "accounts_of inbound = elements (member ''users'' inbound)"

definition counted_users :: "json \<Rightarrow> json list" where
  "counted_users doc =
     elements (Option.bind (Option.bind (Option.bind (member ''experimental'' doc) (member ''v2ray_api''))
       (member ''stats'')) (member ''users''))"

lemma validate_users_from_None:
  "validate_users_from previous us = None \<Longrightarrow> sorted (map us_TelegramID us) \<Longrightarrow>
     (\<forall>p u. previous = Some p \<longrightarrow> u \<in> set us \<longrightarrow> p \<le> us_TelegramID u) \<Longrightarrow>
     sorted_wrt (<) (map us_TelegramID us) \<and> (\<forall>u \<in> set us. 0 < us_TelegramID u) \<and>
     (\<forall>p u. previous = Some p \<longrightarrow> u \<in> set us \<longrightarrow> p < us_TelegramID u)"
proof (induction previous us rule: validate_users_from.induct)
  case (1 previous)
  then show ?case by simp
next
  case (2 previous u us)
  from 2(2) have step: "validate_users_from (Some (us_TelegramID u)) us = None" "0 < us_TelegramID u"
    "previous \<noteq> Some (us_TelegramID u)" "validate_credentials (us_Credentials u) = None"
    by (auto split: if_splits option.splits)
  have above: "\<forall>v \<in> set us. us_TelegramID u \<le> us_TelegramID v" using 2(3) by simp
  have "sorted_wrt (<) (map us_TelegramID us) \<and> (\<forall>v \<in> set us. 0 < us_TelegramID v) \<and>
      (\<forall>p v. Some (us_TelegramID u) = Some p \<longrightarrow> v \<in> set us \<longrightarrow> p < us_TelegramID v)"
    using 2(3) above step by (intro 2(1)) auto
  then have rest: "sorted_wrt (<) (map us_TelegramID us)" "\<forall>v \<in> set us. 0 < us_TelegramID v"
    "\<forall>v \<in> set us. us_TelegramID u < us_TelegramID v" by auto
  have "p < us_TelegramID u" if "previous = Some p" for p using 2(4) that step(3) by (auto simp: less_le)
  with rest step(2) show ?case by (auto intro: less_trans)
qed

lemma inbounds_of_document:
  "inbounds_of (document s users) =
     concat (map (\<lambda>p. map (\<lambda>a. build_inbound p (inbound_tag p a) (snd a) s users) (listen_addresses s)) core_protocols)"
  by (simp add: inbounds_of_def document_def Let_def member_def elements_def)

lemma build_inbound_members:
  assumes "p \<in> set core_protocols"
  shows "accounts_of (build_inbound p t l s users) = map (protocol_user p) users"
    and "text_of (member ''type'' (build_inbound p t l s users)) = p"
    and "text_of (member ''tag'' (build_inbound p t l s users)) = t"
  using assms
  by (auto simp: core_protocols_def build_inbound_def accounts_of_def member_def elements_def text_of_def Let_def)

lemma document_accounts:
  "i \<in> set (inbounds_of (document s users)) \<Longrightarrow> text_of (member ''type'' i) \<in> set core_protocols \<and>
     accounts_of i = map (protocol_user (text_of (member ''type'' i))) users"
  by (auto simp: inbounds_of_document build_inbound_members)

lemma document_counted: "counted_users (document s users) = map (\<lambda>u. JString (user_name u)) users"
  by (simp add: counted_users_def document_def member_def elements_def Let_def)


text \<open>Two users, given out of order, on one IPv4 address.\<close>

definition sample_credentials :: credential_bundle where
  "sample_credentials = \<lparr>cb_SubscriptionToken = replicate 43 CHR ''A'',
     cb_VLESSUUID = ''00000000-0000-4000-8000-000000000000'', cb_Hysteria2Password = ''h'',
     cb_TUICUUID = ''00000000-0000-4000-8000-000000000001'', cb_TUICPassword = ''t'', cb_AnyTLSPassword = ''a''\<rparr>"

definition sample_settings :: core_settings where
  "sample_settings = \<lparr>cs_ListenIPv4 = ''0.0.0.0'', cs_ListenIPv6 = '''', cs_VLESSPort = 443,
     cs_Hysteria2Port = 443, cs_TUICPort = 8443, cs_AnyTLSPort = 8443, cs_TLSServerName = ''n'',
     cs_TLSCertificatePath = ''/c'', cs_TLSKeyPath = ''/k'', cs_RealityServer = ''r'',
     cs_RealityServerPort = 443, cs_RealityPrivateKey = replicate 43 CHR ''A'', cs_RealityShortID = '''',
     cs_StatsListen = ''127.0.0.1:10085'', cs_AllowIPv4Outbound = False,
     cs_Users = [\<lparr>us_TelegramID = 7, us_Credentials = sample_credentials\<rparr>,
                 \<lparr>us_TelegramID = 5, us_Credentials = sample_credentials\<rparr>]\<rparr>"

lemma sample_settings_generate:
  "is_ok (generate sample_settings)"
  by code_simp


end
