(* ===== verification/Snapshot.thy ===== *)
theory Snapshot
  imports Generator Vpn_Tables
begin

text \<open>
  What the core is configured with: the credential store
  (\<open>internal/postgres/credential_store.go\<close>), the core settings
  (\<open>internal/postgres/core_settings_store.go\<close>, \<open>core_settings_management.go\<close>) and the builder
  that puts a snapshot of both through the generator (\<open>internal/singbox/snapshot_builder.go\<close>).
  The ciphers of \<open>internal/secrets\<close> are parameters.
\<close>

section \<open>The credential store\<close>

type_synonym bundle_opener = "int \<Rightarrow> 64 word \<Rightarrow> byte list \<Rightarrow> byte list \<Rightarrow> go_error + credential_bundle"
type_synonym value_opener = "string \<Rightarrow> byte list \<times> byte list \<Rightarrow> go_error + string"
type_synonym value_sealer = "string \<Rightarrow> string \<Rightarrow> go_error + (byte list \<times> byte list)"

definition active_rows :: "vpn_db \<Rightarrow> (int \<times> bundle_row) list" where
  "active_rows d = sort_key fst (filter (\<lambda>(i, _). servable d i) (credential_bundles d))"

fun rows_ok :: "int option \<Rightarrow> (int \<times> bundle_row) list \<Rightarrow> bool" where
  "rows_ok previous [] = True"
| "rows_ok previous ((i, b) # rows) =
     (0 < i \<and> 0 < br_generation b \<and> (case previous of None \<Rightarrow> True | Some p \<Rightarrow> p < i) \<and> rows_ok (Some i) rows)"

definition open_row :: "bundle_opener \<Rightarrow> int \<times> bundle_row \<Rightarrow> go_error + vpn_user" where
  "open_row openBundle row =
     (let (i, b) = row in
      case openBundle i (word_of_int (br_generation b)) (sb_Nonce (br_sealed b)) (sb_Ciphertext (br_sealed b)) of
        Inl e \<Rightarrow> Inl (Wrap ''decrypt credential bundle'' e)
      | Inr bundle \<Rightarrow> Inr \<lparr>us_TelegramID = i, us_Credentials = bundle\<rparr>)"

fun open_rows :: "bundle_opener \<Rightarrow> (int \<times> bundle_row) list \<Rightarrow> go_error + vpn_user list" where
  "open_rows openBundle [] = Inr []"
| "open_rows openBundle (row # rows) =
     (case open_row openBundle row of
        Inl e \<Rightarrow> Inl e
      | Inr u \<Rightarrow> (case open_rows openBundle rows of Inl e \<Rightarrow> Inl e | Inr us \<Rightarrow> Inr (u # us)))"

definition list_active :: "bundle_opener \<Rightarrow> (vpn_db \<times> faults, vpn_user list) call" where
  "list_active openBundle =
     and_then (wrapping ''list active credential bundles'' (statement (\<lambda>d. (Inr (active_rows d), d))))
       (\<lambda>rows. if \<not> rows_ok None rows then fail_with (Err ''persisted credential list is invalid'')
                else case open_rows openBundle rows of Inl e \<Rightarrow> fail_with e | Inr us \<Rightarrow> ok us)"

abbreviation "ErrCredentialBundleNotFound \<equiv> Sentinel ''credential bundle not found''"

definition open_credential_row ::
    "bundle_opener \<Rightarrow> (vpn_db, int \<times> bundle_row) call \<Rightarrow> (vpn_db \<times> faults, credential_bundle) call" where
  "open_credential_row openBundle row st =
     (case statement row st of
        (Inl e, st1) \<Rightarrow>
          (Inl (if errors_is e ''no rows in result set'' then ErrCredentialBundleNotFound
                else Wrap ''load credential bundle'' e), st1)
      | (Inr (i, b), st1) \<Rightarrow>
          if i \<le> 0 \<or> br_generation b \<le> 0 then (Inl (Err ''persisted credential owner is invalid''), st1)
          else (case openBundle i (word_of_int (br_generation b)) (sb_Nonce (br_sealed b)) (sb_Ciphertext (br_sealed b)) of
              Inl e \<Rightarrow> (Inl (Wrap ''decrypt credential bundle'' e), st1)
            | Inr bundle \<Rightarrow> (Inr bundle, st1)))"

definition select_bundle :: "(int \<times> bundle_row \<Rightarrow> bool) \<Rightarrow> (vpn_db, int \<times> bundle_row) call" where
  "select_bundle P d =
     (case filter (\<lambda>(i, b). P (i, b) \<and> live (map_of (vpn_users d) i)) (credential_bundles d) of
        [] \<Rightarrow> (Inl ErrNoRows, d)
      | row # _ \<Rightarrow> (Inr row, d))"

definition find_active_by_subscription_token ::
    "bundle_opener \<Rightarrow> (string \<Rightarrow> go_error + byte list) \<Rightarrow> string \<Rightarrow> (vpn_db \<times> faults, credential_bundle) call" where
  "find_active_by_subscription_token openBundle tokenDigest token =
     (case tokenDigest token of
        Inl e \<Rightarrow> fail_with e
      | Inr digest \<Rightarrow> open_credential_row openBundle
          (select_bundle (\<lambda>(i, b). sb_SubscriptionTokenDigest (br_sealed b) = digest)))"

definition find_active_by_telegram_id ::
    "bundle_opener \<Rightarrow> int \<Rightarrow> (vpn_db \<times> faults, credential_bundle) call" where
  "find_active_by_telegram_id openBundle telegramID =
     (if telegramID \<le> 0 then fail_with (Err ''Telegram ID must be positive'')
      else open_credential_row openBundle (select_bundle (\<lambda>(i, b). i = telegramID)))"

section \<open>The core settings\<close>

abbreviation "ErrCoreNotConfigured \<equiv> Sentinel ''sing-box core is not configured''"
abbreviation "realityPrivateKeyPurpose \<equiv> ''sing-box/reality-private-key''"

definition valid_port :: "int \<Rightarrow> bool" where
  "valid_port port \<longleftrightarrow> 0 < port \<and> port \<le> 65535"

definition settings_of_row :: "core_settings_row \<Rightarrow> string \<Rightarrow> core_settings" where
  "settings_of_row row privateKey =
     \<lparr>cs_ListenIPv4 = (case cr_listen_ipv4 row of None \<Rightarrow> '''' | Some a \<Rightarrow> a),
      cs_ListenIPv6 = (case cr_listen_ipv6 row of None \<Rightarrow> '''' | Some a \<Rightarrow> a),
      cs_VLESSPort = cr_vless_port row, cs_Hysteria2Port = cr_hysteria2_port row,
      cs_TUICPort = cr_tuic_port row, cs_AnyTLSPort = cr_anytls_port row,
      cs_TLSServerName = cr_tls_server_name row, cs_TLSCertificatePath = cr_tls_certificate_path row,
      cs_TLSKeyPath = cr_tls_key_path row, cs_RealityServer = cr_reality_server row,
      cs_RealityServerPort = cr_reality_server_port row, cs_RealityPrivateKey = privateKey,
      cs_RealityShortID = cr_reality_short_id row, cs_StatsListen = cr_stats_listen row,
      cs_AllowIPv4Outbound = cr_allow_ipv4_outbound row, cs_Users = []\<rparr>"

definition load_core_settings :: "value_opener \<Rightarrow> (vpn_db \<times> faults, core_settings) call" where
  "load_core_settings openValue =
     and_then (wrapping ''load core settings'' (statement (\<lambda>d. (Inr (core_settings_table d), d))))
       (\<lambda>row.
          if \<not> cr_configured row then fail_with ErrCoreNotConfigured
          else if \<not> valid_port (cr_vless_port row) \<or> \<not> valid_port (cr_hysteria2_port row) \<or>
                  \<not> valid_port (cr_tuic_port row) \<or> \<not> valid_port (cr_anytls_port row) \<or>
                  \<not> valid_port (cr_reality_server_port row)
          then fail_with (Err ''persisted core port is invalid'')
          else case openValue realityPrivateKeyPurpose (cr_reality_private_key row) of
            Inl e \<Rightarrow> fail_with (Wrap ''decrypt REALITY private key'' e)
          | Inr privateKey \<Rightarrow> ok (settings_of_row row privateKey))"

text \<open>\<open>GetCore\<close>: the overview never holds the private key.\<close>

record core_overview =
  co_Configured :: bool
  co_HasRealityPrivateKey :: bool
  co_Settings :: core_settings

definition get_core :: "(vpn_db \<times> faults, core_overview) call" where
  "get_core =
     and_then (wrapping ''read core settings overview'' (statement (\<lambda>d. (Inr (core_settings_table d), d))))
       (\<lambda>row.
          if \<not> valid_port (cr_vless_port row) \<or> \<not> valid_port (cr_hysteria2_port row) \<or>
             \<not> valid_port (cr_tuic_port row) \<or> \<not> valid_port (cr_anytls_port row) \<or>
             \<not> valid_port (cr_reality_server_port row)
          then fail_with (Err ''persisted core settings port is invalid'')
          else ok \<lparr>co_Configured = cr_configured row, co_HasRealityPrivateKey = cr_configured row,
                   co_Settings = settings_of_row row []\<rparr>)"

text \<open>
  \<open>UpdateCore\<close>. The addresses are kept as the text they were given as; what PostgreSQL's
  \<open>INET\<close> type makes of an unusual spelling is not modelled. The row has to respect the \<open>CHECK\<close> constraints.
\<close>

definition core_row_ok :: "core_settings_row \<Rightarrow> bool" where
  "core_row_ok row \<longleftrightarrow>
     list_all valid_port [cr_vless_port row, cr_hysteria2_port row, cr_tuic_port row, cr_anytls_port row,
        cr_reality_server_port row] \<and>
     cr_vless_port row \<noteq> cr_anytls_port row \<and> cr_hysteria2_port row \<noteq> cr_tuic_port row \<and>
     valid_short_id (cr_reality_short_id row) \<and>
     (cr_configured row \<longrightarrow>
        (cr_listen_ipv4 row \<noteq> None \<or> cr_listen_ipv6 row \<noteq> None) \<and>
        list_all (\<lambda>s. \<not> list_all (\<lambda>c. c = CHR '' '') s)
          [cr_tls_server_name row, cr_tls_certificate_path row, cr_tls_key_path row, cr_reality_server row,
           cr_stats_listen row] \<and>
        length (fst (cr_reality_private_key row)) = 12 \<and> 16 < length (snd (cr_reality_private_key row)))"

definition validate_core_update :: "core_settings \<Rightarrow> string \<Rightarrow> go_error option" where
  "validate_core_update input privateKey =
     (case generate (input\<lparr>cs_RealityPrivateKey := privateKey, cs_Users := []\<rparr>) of
        Inl e \<Rightarrow> Some (Wrap ''validate core settings'' e) | Inr _ \<Rightarrow> None)"

definition updated_core_row :: "core_settings \<Rightarrow> byte list \<times> byte list \<Rightarrow> core_settings_row" where
  "updated_core_row input key =
     \<lparr>cr_configured = True,
      cr_listen_ipv4 = (if cs_ListenIPv4 input = '''' then None else Some (cs_ListenIPv4 input)),
      cr_listen_ipv6 = (if cs_ListenIPv6 input = '''' then None else Some (cs_ListenIPv6 input)),
      cr_vless_port = cs_VLESSPort input, cr_hysteria2_port = cs_Hysteria2Port input,
      cr_tuic_port = cs_TUICPort input, cr_anytls_port = cs_AnyTLSPort input,
      cr_tls_server_name = trim_space (cs_TLSServerName input), cr_tls_certificate_path = cs_TLSCertificatePath input,
      cr_tls_key_path = cs_TLSKeyPath input, cr_reality_server = trim_space (cs_RealityServer input),
      cr_reality_server_port = cs_RealityServerPort input, cr_reality_private_key = key,
      cr_reality_short_id = cs_RealityShortID input, cr_stats_listen = cs_StatsListen input,
      cr_allow_ipv4_outbound = cs_AllowIPv4Outbound input\<rparr>"

definition write_core_row :: "core_settings_row \<Rightarrow> (vpn_db, unit) call" where
  "write_core_row row d =
     (if core_row_ok row then (Inr (), d\<lparr>core_settings_table := row\<rparr>) else (Inl constraint_violated, d))"

definition queue_live_users :: "go_time \<Rightarrow> (vpn_db, unit) call" where
  "queue_live_users now d =
     (Inr (), queue_actions CoreActionReconcile now
        (map fst (filter (\<lambda>(i, user). live (Some user)) (vpn_users d))) d)"

definition update_core_operation ::
    "value_opener \<Rightarrow> value_sealer \<Rightarrow> int \<Rightarrow> core_settings \<Rightarrow> go_time \<Rightarrow> (vpn_db \<times> faults, unit) call" where
  "update_core_operation openValue sealValue actor input now =
     and_then (wrapping ''lock core settings'' (statement (\<lambda>d. (Inr (cr_reality_private_key (core_settings_table d)), d))))
     (\<lambda>(nonce, ciphertext).
       case (if blank (cs_RealityPrivateKey input) then
               (if nonce = [] \<or> ciphertext = [] then Inl (Err ''REALITY private key is required for initial configuration'')
                else case openValue realityPrivateKeyPurpose (nonce, ciphertext) of
                  Inl e \<Rightarrow> Inl (Wrap ''open existing REALITY private key'' e)
                | Inr key \<Rightarrow> Inr (key, (nonce, ciphertext)))
             else case sealValue realityPrivateKeyPurpose (cs_RealityPrivateKey input) of
               Inl e \<Rightarrow> Inl (Wrap ''seal REALITY private key'' e)
             | Inr sealed \<Rightarrow> Inr (cs_RealityPrivateKey input, sealed)) of
         Inl e \<Rightarrow> fail_with e
       | Inr (privateKey, sealed) \<Rightarrow>
          (case validate_core_update input privateKey of
             Some e \<Rightarrow> fail_with e
           | None \<Rightarrow>
               and_then (wrapping ''update core settings'' (statement (write_core_row (updated_core_row input sealed)))) (\<lambda>_.
               and_then (wrapping ''queue core settings reconciliation'' (statement (queue_live_users now))) (\<lambda>_.
               wrapping ''audit core settings update'' (statement (\<lambda>d.
                   (Inr (), record_audit actor ''core.settings.update'' 0 d)))))))"

definition placeholder_key :: string where
  "placeholder_key = b64_encode (replicate 32 107)"

definition update_core ::
    "value_opener \<Rightarrow> value_sealer \<Rightarrow> int \<Rightarrow> bool \<Rightarrow> core_settings \<Rightarrow> go_time \<Rightarrow> (vpn_db \<times> faults, unit) call" where
  "update_core openValue sealValue actor configured input now =
     (if actor \<le> 0 \<or> now = 0 \<or> \<not> configured then fail_with (Err ''core settings update parameters are invalid'')
      else case validate_core_update input
             (if blank (cs_RealityPrivateKey input) then placeholder_key else cs_RealityPrivateKey input) of
        Some e \<Rightarrow> fail_with e
      | None \<Rightarrow> run_in_transaction (update_core_operation openValue sealValue actor input now))"

section \<open>The snapshot\<close>

definition snapshot_build ::
    "('s, core_settings) call \<Rightarrow> ('s, vpn_user list) call \<Rightarrow> (core_settings \<Rightarrow> go_error + 'c) \<Rightarrow> ('s, 'c) call" where
  "snapshot_build load listActive gen =
     and_then (wrapping ''load sing-box settings'' load) (\<lambda>settings.
     and_then (wrapping ''load active sing-box users'' listActive) (\<lambda>users.
     case gen (settings\<lparr>cs_Users := users\<rparr>) of
       Inl e \<Rightarrow> fail_with (Wrap ''generate sing-box snapshot'' e)
     | Inr generated \<Rightarrow> ok generated))"

definition build_snapshot :: "value_opener \<Rightarrow> bundle_opener \<Rightarrow> (vpn_db \<times> faults, json) call" where
  "build_snapshot openValue openBundle =
     snapshot_build (load_core_settings openValue) (list_active openBundle) generate"

section \<open>The snapshot is of the served users\<close>

lemma open_rows_Inr:
  "open_rows openBundle rows = Inr users \<Longrightarrow>
     map us_TelegramID users = map fst rows \<and>
     list_all2 (\<lambda>(i, b) u. openBundle i (word_of_int (br_generation b)) (sb_Nonce (br_sealed b))
       (sb_Ciphertext (br_sealed b)) = Inr (us_Credentials u)) rows users"
  by (induction rows arbitrary: users) (auto simp: open_row_def Let_def split: sum.splits prod.splits)

text \<open>The users of a snapshot as the tables have them.\<close>

definition served_ids :: "vpn_db \<Rightarrow> int list" where
  "served_ids d = map fst (active_rows d)"

lemma active_rows_mem:
  assumes "distinct (map fst (credential_bundles d))"
  shows "(i, b) \<in> set (active_rows d) \<longleftrightarrow> serves d i = Some b"
  using assms by (auto simp: active_rows_def serves_def)

lemma served_ids_set:
  assumes "distinct (map fst (credential_bundles d))"
  shows "set (served_ids d) = {i. serves d i \<noteq> None}" "distinct (served_ids d)" "sorted (served_ids d)"
proof -
  show "set (served_ids d) = {i. serves d i \<noteq> None}"
  proof (intro set_eqI)
    show "i \<in> set (served_ids d) \<longleftrightarrow> i \<in> {i. serves d i \<noteq> None}" for i
      using active_rows_mem [OF assms, of i] by (force simp: served_ids_def)
  qed
  have "distinct (map fst (filter (\<lambda>(i, _). servable d i) (credential_bundles d)))"
    using assms by (rule distinct_map_filter)
  then show "distinct (served_ids d)" by (simp add: served_ids_def active_rows_def distinct_map)
  show "sorted (served_ids d)" by (simp add: served_ids_def active_rows_def)
qed

lemma build_snapshot_Inr:
  assumes "build_snapshot openValue openBundle s = (Inr doc, s')"
  shows "fst s' = fst s \<and> (\<exists>settings users. open_rows openBundle (active_rows (fst s)) = Inr users \<and>
    generate (settings\<lparr>cs_Users := users\<rparr>) = Inr doc)"
proof -
  from assms obtain settings s1 users where
      load: "load_core_settings openValue s = (Inr settings, s1)"
    and active: "list_active openBundle s1 = (Inr users, s')"
    and doc: "generate (settings\<lparr>cs_Users := users\<rparr>) = Inr doc"
    by (auto simp: build_snapshot_def snapshot_build_def elim!: and_then_InrE split: sum.splits)
  have "fst s1 = fst s" using load
    by (auto simp: load_core_settings_def elim!: and_then_InrE dest!: statement_read split: if_splits sum.splits)
  moreover have "fst s' = fst s1 \<and> open_rows openBundle (active_rows (fst s1)) = Inr users" using active
    by (auto simp: list_active_def elim!: and_then_InrE dest!: statement_read split: if_splits sum.splits)
  ultimately show ?thesis using doc by auto
qed

text \<open>
  C18. The snapshot is of exactly the served users. When building succeeds, the tables are
  unchanged, and the inbounds of the document admit, in the order of their Telegram IDs and with
  the credentials their stored bundles open to, exactly the users who are active, eligible and
  under their quota while traffic is not failing closed and the certificate is valid.
\<close>

theorem snapshot_lists_served:
  assumes "build_snapshot openValue openBundle s = (Inr doc, s')"
    and "distinct (map fst (credential_bundles (fst s)))"
  shows "\<exists>users. fst s' = fst s \<and>
    map us_TelegramID users = sorted_list_of_set {i. serves (fst s) i \<noteq> None} \<and>
    list_all (\<lambda>u. \<exists>b. serves (fst s) (us_TelegramID u) = Some b \<and>
      openBundle (us_TelegramID u) (word_of_int (br_generation b)) (sb_Nonce (br_sealed b))
        (sb_Ciphertext (br_sealed b)) = Inr (us_Credentials u)) users \<and>
    list_all (\<lambda>i. accounts_of i = map (protocol_user (text_of (member ''type'' i))) users) (inbounds_of doc) \<and>
    counted_users doc = map (\<lambda>u. JString (user_name u)) users"
proof -
  from build_snapshot_Inr [OF assms(1)] obtain settings users where
      tables: "fst s' = fst s" and users: "open_rows openBundle (active_rows (fst s)) = Inr users"
    and gen: "generate (settings\<lparr>cs_Users := users\<rparr>) = Inr doc"
    by auto
  note rows = open_rows_Inr [OF users]
  note ids = served_ids_set [OF assms(2)]
  have sorted: "sorted (map us_TelegramID users)" using rows ids(3) by (simp add: served_ids_def)
  then have sort: "sort_key us_TelegramID users = users" by (simp add: sorted_sort_id sort_key_id_if_sorted)
  have "map us_TelegramID users = sorted_list_of_set {i. serves (fst s) i \<noteq> None}"
    using rows ids sorted_list_of_set.idem_if_sorted_distinct [of "served_ids (fst s)"]
    by (simp add: served_ids_def)
  moreover have "\<exists>b. serves (fst s) (us_TelegramID u) = Some b \<and>
      openBundle (us_TelegramID u) (word_of_int (br_generation b)) (sb_Nonce (br_sealed b))
        (sb_Ciphertext (br_sealed b)) = Inr (us_Credentials u)" if "u \<in> set users" for u
  proof -
    from that obtain k where k: "k < length users" "u = users ! k" by (auto simp: in_set_conv_nth)
    from rows have len: "length (active_rows (fst s)) = length users" by (metis length_map)
    obtain i b where ib: "active_rows (fst s) ! k = (i, b)" by (cases "active_rows (fst s) ! k")
    with rows k len have "us_TelegramID u = i" by (metis fst_conv nth_map)
    moreover have "serves (fst s) i = Some b"
      using ib k len active_rows_mem [OF assms(2)] by (metis nth_mem)
    ultimately show ?thesis using rows k len ib by (auto simp: list_all2_conv_all_nth)
  qed
  moreover have doc: "doc = document (settings\<lparr>cs_Users := users\<rparr>) users"
    using gen sort by (auto simp: generate_def validate_and_sort_def Let_def split: option.splits)
  ultimately show ?thesis using tables
    by (intro exI [of _ users]) (auto simp: list_all_iff document_accounts document_counted)
qed

section \<open>Concrete tables\<close>

text \<open>Users 5 and 7 are served, user 6 is revoked; the second credentials are of generation 2.\<close>

definition sample_opener :: bundle_opener where
  "sample_opener i generation nonce ciphertext =
     Inr (if generation = 1 then sample_credentials else sample_credentials\<lparr>cb_AnyTLSPassword := ''b''\<rparr>)"

definition sample_value_opener :: value_opener where
  "sample_value_opener purpose sealed = Inr (replicate 43 CHR ''A'')"

definition sample_core_row :: core_settings_row where
  "sample_core_row = updated_core_row sample_settings (replicate 12 1, replicate 17 2)"

definition sample_user_row :: "access_status \<Rightarrow> vpn_user_row" where
  "sample_user_row status = \<lparr>vu_eligible = True, vu_status = status, vu_credential_generation = 1,
     vu_period_started_at = Some hour, vu_last_vpn_activity_at = Some hour\<rparr>"

definition sample_sealed :: "byte \<Rightarrow> bundle_row" where
  "sample_sealed k = \<lparr>br_generation = 1, br_sealed = \<lparr>sb_SubscriptionTokenDigest = replicate 32 k,
     sb_Nonce = replicate 12 2, sb_Ciphertext = replicate 17 3\<rparr>\<rparr>"

definition sample_quota_row :: quota_row where
  "sample_quota_row = \<lparr>qr_period_started_at = hour, qr_period_seconds = 3600,
     qr_limit_bytes = 1000, qr_used_bytes = 10, qr_blocked = False\<rparr>"

definition sample_served_db :: vpn_db where
  "sample_served_db = \<lparr>
     vpn_users = [(5, sample_user_row Active), (6, sample_user_row SelfService), (7, sample_user_row Active)],
     credential_bundles = [(7, sample_sealed 7), (6, sample_sealed 6), (5, sample_sealed 5)],
     quota_windows = [(5, sample_quota_row), (6, sample_quota_row), (7, sample_quota_row)],
     traffic_health = \<lparr>th_fail_closed = False, th_failure_started_at = None, th_failure_stage = None,
        th_last_notified_at = None\<rparr>,
     core_action_outbox = [], outbox_next_id = 1, traffic_ingestion_batches = [],
     qualification_settings = settings_defaults, qualification_rules = [],
     tls_settings = tls_defaults\<lparr>tr_state := ''issued'', tr_certificate_expires_at := Some (1000 * hour)\<rparr>,
     core_settings_table = sample_core_row, audit_events = [], db_clock = hour + 5 * minute\<rparr>"

lemma sample_served:
  "is_ok (fst (build_snapshot sample_value_opener sample_opener (sample_served_db, [])))"
  by code_simp

theorem snapshot_lists_served_witness:
  "\<exists>doc (users :: vpn_user list).
     fst (build_snapshot sample_value_opener sample_opener (sample_served_db, [])) = Inr doc \<and>
     map us_TelegramID users = [5, 7] \<and> counted_users doc = [JString ''5'', JString ''7'']"
proof -
  let ?run = "build_snapshot sample_value_opener sample_opener (sample_served_db, [])"
  from sample_served obtain doc where doc: "fst ?run = Inr doc" by (auto simp: is_ok_iff)
  then have run: "?run = (Inr doc, snd ?run)" by (metis prod.collapse)
  have keys: "distinct (map fst (credential_bundles sample_served_db))" by code_simp
  have ids: "sorted_list_of_set {i. serves sample_served_db i \<noteq> None} = [5, 7]"
  proof -
    have "served_ids sample_served_db = [5, 7]" by code_simp
    with served_ids_set [OF keys] sorted_list_of_set.idem_if_sorted_distinct [of "served_ids sample_served_db"]
    show ?thesis by simp
  qed
  from keys have "distinct (map fst (credential_bundles (fst (sample_served_db, []::faults))))" by simp
  from snapshot_lists_served [OF run this] obtain users where
    "map us_TelegramID users = sorted_list_of_set {i. serves (fst (sample_served_db, []::faults)) i \<noteq> None}"
    and c: "counted_users doc = map (\<lambda>u. JString (user_name u)) users" by blast
  then have "map us_TelegramID users = [5, 7]" unfolding fst_conv ids by simp
  moreover have "map user_name users = map format_int (map us_TelegramID users)" by (simp add: user_name_def)
  moreover have "map format_int [5, 7] = [''5'', ''7'']" by code_simp
  ultimately have names: "map user_name users = [''5'', ''7'']" by metis
  have "counted_users doc = map JString (map user_name users)" unfolding c by simp
  then have "counted_users doc = map JString [''5'', ''7'']" unfolding names .
  with doc \<open>map us_TelegramID users = [5, 7]\<close> show ?thesis
    by (intro exI [of _ doc] exI [of _ users] conjI) simp_all
qed

end
