(* ===== verification/Core_Control.thy ===== *)
theory Core_Control
  imports Paths Database
begin

text \<open>
  The control channel to the core (\<open>internal/corecontrol\<close>): the client that posts to a Unix
  socket, the handler behind it, and the controller that runs \<open>sing-box check\<close> and asks
  Docker for a restart. The host is the files, the configuration the container was last
  restarted with and the files \<open>sing-box check\<close> was run on. The verdict of \<open>sing-box\<close> on a
  configuration is a parameter \<open>accepts\<close>.
\<close>

section \<open>The host\<close>

record 'c host_file =
  hf_regular :: bool
  hf_content :: "'c list"

record 'c host =
  hs_files :: "(string list \<times> 'c host_file) list"
  hs_running :: "'c list option"
  hs_checked :: "string list list"

type_synonym 'c host_state = "'c host \<times> faults"

abbreviation "ErrNotExist \<equiv> Sentinel ''file does not exist''"

text \<open>A local system call: when it fails nothing has happened.\<close>

definition syscall :: "('d, 'a) call \<Rightarrow> ('d \<times> faults, 'a) call" where
  "syscall f st =
     (let (d, fs) = st; (flt, fs1) = next_fault fs in
      case flt of
        Fine \<Rightarrow> (let (r, d1) = f d in (r, (d1, fs1)))
      | Lost e \<Rightarrow> (Inl (Err e), (d, fs1))
      | Unacknowledged e \<Rightarrow> (Inl (Err e), (d, fs1)))"

definition file_at :: "'c host \<Rightarrow> string list \<Rightarrow> 'c host_file option" where
  "file_at h p = map_of (hs_files h) p"

section \<open>The runtime controller\<close>

record runtime_controller =
  rc_singBoxBinary :: string
  rc_containerName :: string

definition name_start :: "char \<Rightarrow> bool" where
  "name_start c \<longleftrightarrow>
     (let n = of_char c :: int in (48 \<le> n \<and> n \<le> 57) \<or> (65 \<le> n \<and> n \<le> 90) \<or> (97 \<le> n \<and> n \<le> 122))"

text \<open>\<open>^[A-Za-z0-9][A-Za-z0-9_.-]{0,127}$\<close>\<close>

definition container_name_ok :: "string \<Rightarrow> bool" where
  "container_name_ok name \<longleftrightarrow>
     (case name of [] \<Rightarrow> False
      | c # cs \<Rightarrow> name_start c \<and> int (length cs) \<le> 127 \<and>
          list_all (\<lambda>d. name_start d \<or> d = CHR ''_'' \<or> d = CHR ''.'' \<or> d = CHR ''-'') cs)"

definition new_runtime_controller :: "string \<Rightarrow> string \<Rightarrow> string \<Rightarrow> go_error + runtime_controller" where
  "new_runtime_controller singBoxBinary dockerSocket containerName =
     (if \<not> is_abs singBoxBinary \<or> \<not> is_abs dockerSocket \<or> \<not> container_name_ok containerName
      then Inl (Err ''runtime controller configuration is invalid'')
      else Inr \<lparr>rc_singBoxBinary = path_text (cleaned singBoxBinary), rc_containerName = containerName\<rparr>)"

definition validate_runtime :: "runtime_controller \<Rightarrow> go_error option" where
  "validate_runtime rc =
     (if \<not> is_abs (rc_singBoxBinary rc) \<or> \<not> container_name_ok (rc_containerName rc)
      then Some (Err ''runtime controller is not initialized'') else None)"

text \<open>\<open>sing-box check -c path\<close>\<close>

definition sing_box_check :: "('c list \<Rightarrow> bool) \<Rightarrow> string list \<Rightarrow> ('c host, unit) call" where
  "sing_box_check accepts p h =
     (let h1 = h\<lparr>hs_checked := hs_checked h @ [p]\<rparr> in
      case file_at h p of
        Some f \<Rightarrow> if accepts (hf_content f) then (Inr (), h1) else (Inl (Err ''exit status 1''), h1)
      | None \<Rightarrow> (Inl (Err ''exit status 1''), h1))"

definition runtime_check :: "runtime_controller \<Rightarrow> ('c list \<Rightarrow> bool) \<Rightarrow> string \<Rightarrow> ('c host_state, unit) call" where
  "runtime_check rc accepts candidatePath st =
     (case validate_runtime rc of
        Some e \<Rightarrow> (Inl e, st)
      | None \<Rightarrow>
          if \<not> is_abs candidatePath then (Inl (Err ''absolute candidate path is required''), st)
          else case syscall (sing_box_check accepts (cleaned candidatePath)) st of
            (Inl _, st1) \<Rightarrow> (Inl (Err ''sing-box configuration check failed''), st1)
          | (Inr _, st1) \<Rightarrow> (Inr (), st1))"

text \<open>
  The container reads the active configuration when it restarts. The request to Docker or its
  answer may be lost.
\<close>

definition docker_restart :: "string list \<Rightarrow> ('c host, unit) call" where
  "docker_restart active h = (Inr (), h\<lparr>hs_running := map_option hf_content (file_at h active)\<rparr>)"

definition runtime_restart :: "runtime_controller \<Rightarrow> string list \<Rightarrow> ('c host_state, unit) call" where
  "runtime_restart rc active st =
     (case validate_runtime rc of
        Some e \<Rightarrow> (Inl e, st)
      | None \<Rightarrow>
          (case statement (docker_restart active) st of
             (Inl _, st1) \<Rightarrow> (Inl (Err ''sing-box restart request failed''), st1)
           | (Inr _, st1) \<Rightarrow> (Inr (), st1)))"

section \<open>The handler\<close>

abbreviation maxControlBody :: int where "maxControlBody \<equiv> 4096"

text \<open>
  A request body as the strict decoder reads it: no object with just a candidate path, or one,
  with more data after it or not; and its size.
\<close>

datatype control_payload = Malformed | CandidatePath string bool

record control_request =
  rq_Method :: string
  rq_Path :: string
  rq_ContentType :: string
  rq_ContentLength :: int
  rq_Payload :: control_payload
  rq_Size :: int

record control_handler =
  ch_activePath :: "string list"
  ch_prefix :: string

definition candidate_prefix :: "string list \<Rightarrow> string" where
  "candidate_prefix active = ''.'' @ last active @ ''.candidate-''"

text \<open>\<open>Base\<close> of the root is the slash.\<close>

definition new_handler :: "string \<Rightarrow> go_error + control_handler" where
  "new_handler activePath =
     (if activePath = '''' \<or> \<not> is_abs activePath
      then Inl (Err ''absolute active path and controller are required'')
      else Inr \<lparr>ch_activePath = cleaned activePath,
             ch_prefix = (if cleaned activePath = [] then ''./.candidate-'' else candidate_prefix (cleaned activePath))\<rparr>)"

definition lower :: "char \<Rightarrow> char" where
  "lower c = (let n = of_char c :: int in if 65 \<le> n \<and> n \<le> 90 then char_of (n + 32) else c)"

definition managed_candidate :: "control_handler \<Rightarrow> string \<Rightarrow> ('c host_state, bool) call" where
  "managed_candidate handler path st =
     (if \<not> managed_path (butlast (ch_activePath handler)) (ch_prefix handler) path then (Inr False, st)
      else case syscall (\<lambda>h. (case file_at h (cleaned path) of None \<Rightarrow> Inl ErrNotExist | Some f \<Rightarrow> Inr f, h)) st of
        (Inl _, st1) \<Rightarrow> (Inr False, st1)
      | (Inr f, st1) \<Rightarrow> (Inr (hf_regular f), st1))"

text \<open>The handlers answer with an HTTP status.\<close>

definition handle_check ::
    "control_handler \<Rightarrow> (string \<Rightarrow> ('c host_state, unit) call) \<Rightarrow> control_request
       \<Rightarrow> 'c host_state \<Rightarrow> int \<times> 'c host_state" where
  "handle_check handler check request st =
     (if \<not> prefix ''application/json'' (map lower (rq_ContentType request)) then (415, st)
      else if maxControlBody < rq_Size request then (400, st)
      else case rq_Payload request of
        Malformed \<Rightarrow> (400, st)
      | CandidatePath path trailing \<Rightarrow>
          if trailing then (400, st)
          else case managed_candidate handler path st of
            (Inr True, st1) \<Rightarrow>
              (case check (path_text (cleaned path)) st1 of
                 (Inl _, st2) \<Rightarrow> (502, st2)
               | (Inr _, st2) \<Rightarrow> (204, st2))
          | (_, st1) \<Rightarrow> (400, st1))"

definition serve_control ::
    "control_handler \<Rightarrow> (string \<Rightarrow> ('c host_state, unit) call) \<Rightarrow> ('c host_state, unit) call
       \<Rightarrow> control_request \<Rightarrow> 'c host_state \<Rightarrow> int \<times> 'c host_state" where
  "serve_control handler check restart request st =
     (if rq_Method request \<noteq> ''POST'' then (405, st)
      else if rq_Path request = ''/v1/check'' then handle_check handler check request st
      else if rq_Path request = ''/v1/restart'' then
        (if 0 < rq_ContentLength request then (400, st)
         else case restart st of (Inl _, st1) \<Rightarrow> (502, st1) | (Inr _, st1) \<Rightarrow> (204, st1))
      else (404, st))"

section \<open>The client\<close>

text \<open>
  \<open>Client.post\<close>: the request or the answer may get lost. \<open>serve\<close> is the handler at the other
  end of the socket.
\<close>

definition post_control ::
    "(control_request \<Rightarrow> 'c host_state \<Rightarrow> int \<times> 'c host_state) \<Rightarrow> control_request \<Rightarrow> ('c host_state, unit) call" where
  "post_control serve request st =
     (let (h, fs) = st; (flt, fs1) = next_fault fs in
      case flt of
        Lost e \<Rightarrow> (Inl (Err ''core control request failed''), (h, fs1))
      | Unacknowledged e \<Rightarrow> (Inl (Err ''core control request failed''), snd (serve request (h, fs1)))
      | Fine \<Rightarrow>
          (let (status, st1) = serve request (h, fs1) in
           if status \<noteq> 204 then (Inl (Err ''core control request rejected''), st1) else (Inr (), st1)))"

text \<open>The size of the encoded body, for paths of characters that JSON does not escape.\<close>

definition client_check ::
    "(control_request \<Rightarrow> 'c host_state \<Rightarrow> int \<times> 'c host_state) \<Rightarrow> string \<Rightarrow> ('c host_state, unit) call" where
  "client_check serve candidatePath st =
     (if candidatePath = '''' \<or> \<not> is_abs candidatePath then (Inl (Err ''absolute candidate path is required''), st)
      else post_control serve
        \<lparr>rq_Method = ''POST'', rq_Path = ''/v1/check'', rq_ContentType = ''application/json'',
         rq_ContentLength = int (length candidatePath) + 21,
         rq_Payload = CandidatePath candidatePath False, rq_Size = int (length candidatePath) + 21\<rparr> st)"

definition client_restart ::
    "(control_request \<Rightarrow> 'c host_state \<Rightarrow> int \<times> 'c host_state) \<Rightarrow> ('c host_state, unit) call" where
  "client_restart serve =
     post_control serve
       \<lparr>rq_Method = ''POST'', rq_Path = ''/v1/restart'', rq_ContentType = '''', rq_ContentLength = 0,
        rq_Payload = Malformed, rq_Size = 0\<rparr>"

text \<open>The whole channel: handler and runtime controller behind the client.\<close>

definition control_server ::
    "runtime_controller \<Rightarrow> ('c list \<Rightarrow> bool) \<Rightarrow> control_handler \<Rightarrow> control_request
       \<Rightarrow> 'c host_state \<Rightarrow> int \<times> 'c host_state" where
  "control_server rc accepts handler =
     serve_control handler (runtime_check rc accepts) (runtime_restart rc (ch_activePath handler))"

section \<open>What requests can do\<close>

lemma syscall_outcome:
  assumes "syscall f s = (r, s')"
  shows "(f (fst s) = (r, fst s')) \<or> ((\<exists>e. r = Inl (Err e)) \<and> fst s' = fst s)"
  using assms by (auto simp: syscall_def Let_def split: prod.splits fault.splits)

lemma syscall_Inr: "syscall f s = (Inr x, s') \<Longrightarrow> f (fst s) = (Inr x, fst s')"
  by (auto simp: syscall_def Let_def split: prod.splits fault.splits)

lemma syscall_read: "syscall (\<lambda>h. (g h, h)) s = (r, s') \<Longrightarrow> fst s' = fst s"
  by (auto dest!: syscall_outcome)

lemma sing_box_check_effect:
  "sing_box_check accepts p h = (r, h') \<Longrightarrow> h' = h\<lparr>hs_checked := hs_checked h @ [p]\<rparr>"
  by (auto simp: sing_box_check_def Let_def split: option.splits if_splits)

lemma runtime_check_effect:
  assumes "runtime_check rc accepts path s = (r, s')"
  shows "fst s' = fst s \<or> fst s' = (fst s)\<lparr>hs_checked := hs_checked (fst s) @ [cleaned path]\<rparr>"
  using assms
  by (auto simp: runtime_check_def dest!: syscall_outcome dest: sing_box_check_effect
      split: option.splits if_splits prod.splits sum.splits)

lemma docker_outcome:
  assumes "statement (docker_restart active) s = (r, s')"
  shows "(fst s' = (fst s)\<lparr>hs_running := map_option hf_content (file_at (fst s) active)\<rparr>) \<or>
    (fst s' = fst s \<and> \<not> is_ok r)"
  using assms
  by (auto simp: statement_def Let_def docker_restart_def split: prod.splits fault.splits)

lemma runtime_restart_effect:
  assumes "runtime_restart rc active s = (r, s')"
  shows "(fst s' = (fst s)\<lparr>hs_running := map_option hf_content (file_at (fst s) active)\<rparr>) \<or>
    (fst s' = fst s \<and> \<not> is_ok r)"
  using assms
  by (auto simp: runtime_restart_def dest!: docker_outcome split: option.splits prod.splits sum.splits)

lemma managed_candidate_effect:
  assumes "managed_candidate handler path s = (r, s')"
  shows "fst s' = fst s \<and> (r = Inr True \<longrightarrow>
    managed_path (butlast (ch_activePath handler)) (ch_prefix handler) path \<and>
    (\<exists>f. file_at (fst s) (cleaned path) = Some f \<and> hf_regular f))"
  using assms
  by (auto simp: managed_candidate_def dest!: syscall_outcome
      split: if_splits prod.splits sum.splits option.splits)

lemma control_server_effect:
  assumes run: "control_server rc accepts handler request st = (status, st')"
  shows "fst st' = fst st \<or>
    (rq_Path request = ''/v1/check'' \<and> (\<exists>p f. fst st' = (fst st)\<lparr>hs_checked := hs_checked (fst st) @ [p]\<rparr> \<and>
       p \<noteq> [] \<and> butlast p = butlast (ch_activePath handler) \<and> prefix (ch_prefix handler) (last p) \<and>
       file_at (fst st) p = Some f \<and> hf_regular f)) \<or>
    (rq_Method request = ''POST'' \<and> rq_Path request = ''/v1/restart'' \<and> rq_ContentLength request \<le> 0 \<and>
     fst st' = (fst st)\<lparr>hs_running := map_option hf_content (file_at (fst st) (ch_activePath handler))\<rparr>)"
    and "rq_Path request = ''/v1/restart'' \<Longrightarrow> status = 204 \<Longrightarrow>
      fst st' = (fst st)\<lparr>hs_running := map_option hf_content (file_at (fst st) (ch_activePath handler))\<rparr>"
proof -
  let ?check = "handle_check handler (runtime_check rc accepts) request st = (status, st')"
  let ?restart = "\<exists>r. runtime_restart rc (ch_activePath handler) st = (r, st')"
  have "fst st' = fst st \<or> (rq_Path request = ''/v1/check'' \<and> ?check) \<or>
      (rq_Method request = ''POST'' \<and> rq_Path request = ''/v1/restart'' \<and> rq_ContentLength request \<le> 0 \<and> ?restart)"
    using run by (auto simp: control_server_def serve_control_def split: if_splits prod.splits sum.splits)
  moreover have "fst st' = fst st \<or> (\<exists>p f. fst st' = (fst st)\<lparr>hs_checked := hs_checked (fst st) @ [p]\<rparr> \<and>
      p \<noteq> [] \<and> butlast p = butlast (ch_activePath handler) \<and> prefix (ch_prefix handler) (last p) \<and>
      file_at (fst st) p = Some f \<and> hf_regular f)" if c: ?check
  proof (cases "rq_Payload request")
    case Malformed
    with c show ?thesis by (auto simp: handle_check_def split: if_splits)
  next
    case (CandidatePath path trailing)
    obtain r1 s1 where one: "managed_candidate handler path st = (r1, s1)" by (metis prod.exhaust)
    obtain r2 s2 where two: "runtime_check rc accepts (path_text (cleaned path)) s1 = (r2, s2)" by (metis prod.exhaust)
    note m = managed_candidate_effect [OF one]
    from c CandidatePath one two have "fst st' = fst st \<or> (r1 = Inr True \<and> st' = s2) \<or> st' = s1"
      by (auto simp: handle_check_def split: if_splits sum.splits bool.splits prod.splits)
    with m runtime_check_effect [OF two] show ?thesis
      by (auto simp: managed_path_def cleaned_path_text cleaned_good)
  qed
  moreover note runtime_restart_effect [of rc "ch_activePath handler" st _ st']
  ultimately show "fst st' = fst st \<or>
    (rq_Path request = ''/v1/check'' \<and> (\<exists>p f. fst st' = (fst st)\<lparr>hs_checked := hs_checked (fst st) @ [p]\<rparr> \<and>
       p \<noteq> [] \<and> butlast p = butlast (ch_activePath handler) \<and> prefix (ch_prefix handler) (last p) \<and>
       file_at (fst st) p = Some f \<and> hf_regular f)) \<or>
    (rq_Method request = ''POST'' \<and> rq_Path request = ''/v1/restart'' \<and> rq_ContentLength request \<le> 0 \<and>
     fst st' = (fst st)\<lparr>hs_running := map_option hf_content (file_at (fst st) (ch_activePath handler))\<rparr>)"
    by auto
  assume "rq_Path request = ''/v1/restart''" "status = 204"
  with run show "fst st' = (fst st)\<lparr>hs_running := map_option hf_content (file_at (fst st) (ch_activePath handler))\<rparr>"
    by (auto simp: control_server_def serve_control_def dest: runtime_restart_effect
        split: if_splits prod.splits sum.splits)
qed

lemma post_control_outcome:
  assumes "post_control serve request s = (r, s')"
  shows "(fst s' = fst s \<and> \<not> is_ok r) \<or>
    (\<exists>fs status. serve request (fst s, fs) = (status, s') \<and> (is_ok r \<longrightarrow> status = 204))"
proof -
  obtain status t where "serve request (fst s, snd (next_fault (snd s))) = (status, t)" by (metis prod.exhaust)
  with assms show ?thesis
    by (cases s) (auto simp: post_control_def Let_def split: prod.splits fault.splits if_splits)
qed

lemma client_check_frame:
  assumes "client_check (control_server rc accepts handler) path s = (r, s')"
  shows "hs_files (fst s') = hs_files (fst s) \<and> hs_running (fst s') = hs_running (fst s)"
  using assms
  by (auto simp: client_check_def dest!: post_control_outcome control_server_effect(1) split: if_splits)

lemma client_restart_effect:
  assumes "client_restart (control_server rc accepts handler) s = (r, s')"
  shows "hs_files (fst s') = hs_files (fst s) \<and>
    (is_ok r \<longrightarrow> hs_running (fst s') = map_option hf_content (file_at (fst s) (ch_activePath handler)))"
proof -
  have "hs_files (fst s') = hs_files (fst s)"
    using assms by (auto simp: client_restart_def dest!: post_control_outcome control_server_effect(1))
  moreover have "hs_running (fst s') = map_option hf_content (file_at (fst s) (ch_activePath handler))" if "is_ok r"
    using assms that by (auto simp: client_restart_def dest!: post_control_outcome control_server_effect(2))
  ultimately show ?thesis by simp
qed

text \<open>
  C22. The control socket is confined. Whatever request arrives, it changes no file; it has
  \<open>sing-box\<close> read at most one file, and that is a regular file directly in the directory of the
  active configuration whose name is that of a candidate; and only a POST to the restart path
  without a body changes what the core runs, namely to the active configuration.
\<close>

theorem control_confined:
  "let h = fst st; h' = fst (snd (control_server rc accepts handler request st)) in
   hs_files h' = hs_files h \<and>
   (hs_checked h' = hs_checked h \<or>
    (\<exists>p f. hs_checked h' = hs_checked h @ [p] \<and> p \<noteq> [] \<and> butlast p = butlast (ch_activePath handler) \<and>
       prefix (ch_prefix handler) (last p) \<and> file_at h p = Some f \<and> hf_regular f)) \<and>
   (hs_running h' = hs_running h \<or>
    (rq_Method request = ''POST'' \<and> rq_Path request = ''/v1/restart'' \<and> rq_ContentLength request \<le> 0 \<and>
     hs_running h' = map_option hf_content (file_at h (ch_activePath handler))))"
  unfolding Let_def
  using control_server_effect(1) [of rc accepts handler request st "fst (control_server rc accepts handler request st)"
      "snd (control_server rc accepts handler request st)"]
  by auto

end
