(* ===== verification/File_Deployment.thy ===== *)
theory File_Deployment
  imports Installer Core_Control
begin

text \<open>
  The deployment on the file system (\<open>internal/singbox/file_deployment.go\<close>): candidates and
  backups are temporary files beside the active configuration, moved into place by \<open>rename\<close>.
  The core is checked and restarted over the control channel. The mutex is not modelled: one
  worker owns the deployment. A system call that fails has done nothing.
\<close>

section \<open>The state of a deployment\<close>

type_synonym file_deployment = "string list"

definition new_file_deployment :: "string \<Rightarrow> go_error + file_deployment" where
  "new_file_deployment activePath =
     (if activePath = '''' \<or> \<not> is_abs activePath
      then Inl (Err ''absolute active path and core controller are required'')
      else if cleaned activePath = [] then Inl (Err ''active configuration filename is invalid'')
      else Inr (cleaned activePath))"

abbreviation directory_of :: "file_deployment \<Rightarrow> string list" where
  "directory_of fd \<equiv> butlast fd"

definition backup_prefix :: "file_deployment \<Rightarrow> string" where
  "backup_prefix fd = ''.'' @ last fd @ ''.backup-''"

text \<open>
  A promotion travels as JSON text; \<open>None\<close> stands for a text that is none of the struct.
\<close>

record file_promotion =
  fp_BackupPath :: string
  fp_HadPrevious :: bool

type_synonym promotion = "file_promotion option"

section \<open>System calls\<close>

definition create_temp :: "string list \<Rightarrow> string \<Rightarrow> ('c host, string) call" where
  "create_temp directory pre h =
     (let p = directory @ [unused_name pre (map fst (hs_files h))] in
      (Inr (path_text p), h\<lparr>hs_files := (p, \<lparr>hf_regular = True, hf_content = []\<rparr>) # hs_files h\<rparr>))"

definition without :: "string list \<Rightarrow> (string list \<times> 'b) list \<Rightarrow> (string list \<times> 'b) list" where
  "without p files = filter (\<lambda>(q, _). q \<noteq> p) files"

definition write_file :: "string \<Rightarrow> 'c list \<Rightarrow> ('c host, unit) call" where
  "write_file path content h =
     (Inr (), h\<lparr>hs_files := (cleaned path, \<lparr>hf_regular = True, hf_content = content\<rparr>)
                              # without (cleaned path) (hs_files h)\<rparr>)"

definition remove_file :: "string \<Rightarrow> ('c host, unit) call" where
  "remove_file path h =
     (case file_at h (cleaned path) of
        None \<Rightarrow> (Inl ErrNotExist, h)
      | Some _ \<Rightarrow> (Inr (), h\<lparr>hs_files := without (cleaned path) (hs_files h)\<rparr>))"

definition rename_file :: "string \<Rightarrow> string \<Rightarrow> ('c host, unit) call" where
  "rename_file old new h =
     (case file_at h (cleaned old) of
        None \<Rightarrow> (Inl ErrNotExist, h)
      | Some f \<Rightarrow>
          (Inr (), h\<lparr>hs_files := (cleaned new, f) # without (cleaned new) (without (cleaned old) (hs_files h))\<rparr>))"

definition stat_file :: "string list \<Rightarrow> ('c host, unit) call" where
  "stat_file p h = (case file_at h p of None \<Rightarrow> Inl ErrNotExist | Some _ \<Rightarrow> Inr (), h)"

text \<open>The result of a call is dropped.\<close>

definition ignoring :: "('s, 'a) call \<Rightarrow> 's \<Rightarrow> 's" where
  "ignoring m s = snd (m s)"

text \<open>\<open>os.Remove\<close>, where a file that does not exist is as good as removed.\<close>

definition remove_existing :: "string \<Rightarrow> string \<Rightarrow> ('c host_state, unit) call" where
  "remove_existing msg path st =
     (case syscall (remove_file path) st of
        (Inl e, st1) \<Rightarrow> if errors_is e ''file does not exist'' then (Inr (), st1) else (Inl (Wrap msg e), st1)
      | (Inr _, st1) \<Rightarrow> (Inr (), st1))"

section \<open>Operations\<close>

definition write_candidate :: "'c list \<Rightarrow> string \<Rightarrow> ('c host_state, unit) call" where
  "write_candidate configuration path =
     and_then (wrapping ''protect candidate configuration'' (syscall (ok ()))) (\<lambda>_.
     and_then (wrapping ''write candidate configuration'' (syscall (write_file path configuration))) (\<lambda>_.
     and_then (wrapping ''sync candidate configuration'' (syscall (ok ()))) (\<lambda>_.
     wrapping ''close candidate configuration'' (syscall (ok ())))))"

definition fd_stage :: "file_deployment \<Rightarrow> 'c list \<Rightarrow> ('c host_state, string) call" where
  "fd_stage fd configuration st =
     (if configuration = [] then (Inl (Err ''configuration is required''), st)
      else case wrapping ''create candidate configuration''
             (syscall (create_temp (directory_of fd) (candidate_prefix fd))) st of
        (Inl e, st1) \<Rightarrow> (Inl e, st1)
      | (Inr path, st1) \<Rightarrow>
          (case write_candidate configuration path st1 of
             (Inl e, st2) \<Rightarrow> (Inl e, ignoring (syscall (remove_file path)) st2)
           | (Inr _, st2) \<Rightarrow> (Inr path, st2)))"

definition validate_candidate :: "file_deployment \<Rightarrow> string \<Rightarrow> go_error option" where
  "validate_candidate fd path =
     (if \<not> managed_path (directory_of fd) (candidate_prefix fd) path
      then Some (Err ''candidate configuration path is invalid'') else None)"

definition fd_check ::
    "(string \<Rightarrow> ('c host_state, unit) call) \<Rightarrow> file_deployment \<Rightarrow> string \<Rightarrow> ('c host_state, unit) call" where
  "fd_check controllerCheck fd candidate =
     (case validate_candidate fd candidate of
        Some e \<Rightarrow> fail_with e
      | None \<Rightarrow> controllerCheck candidate)"

definition fd_discard :: "file_deployment \<Rightarrow> string \<Rightarrow> ('c host_state, unit) call" where
  "fd_discard fd candidate =
     (case validate_candidate fd candidate of
        Some e \<Rightarrow> fail_with e
      | None \<Rightarrow> remove_existing ''discard candidate configuration'' candidate)"

text \<open>The first half of \<open>Promote\<close>: the active configuration, if there is one, becomes a backup.\<close>

definition back_up :: "file_deployment \<Rightarrow> ('c host_state, file_promotion) call" where
  "back_up fd st =
     (case syscall (stat_file fd) st of
        (Inl e, st1) \<Rightarrow>
          if errors_is e ''file does not exist''
          then (Inr \<lparr>fp_BackupPath = '''', fp_HadPrevious = False\<rparr>, st1)
          else (Inl (Wrap ''inspect active configuration'' e), st1)
      | (Inr _, st1) \<Rightarrow>
     (case wrapping ''reserve configuration backup'' (syscall (create_temp (directory_of fd) (backup_prefix fd))) st1 of
        (Inl e, st2) \<Rightarrow> (Inl e, st2)
      | (Inr path, st2) \<Rightarrow>
     (case wrapping ''close configuration backup'' (syscall (ok ())) st2 of
        (Inl e, st3) \<Rightarrow> (Inl e, ignoring (syscall (remove_file path)) st3)
      | (Inr _, st3) \<Rightarrow>
          and_then (wrapping ''prepare configuration backup'' (syscall (remove_file path))) (\<lambda>_.
          and_then (wrapping ''backup active configuration'' (syscall (rename_file (path_text fd) path))) (\<lambda>_.
          ok \<lparr>fp_BackupPath = path, fp_HadPrevious = True\<rparr>)) st3)))"

definition fd_promote :: "file_deployment \<Rightarrow> string \<Rightarrow> ('c host_state, promotion) call" where
  "fd_promote fd candidate st =
     (case validate_candidate fd candidate of
        Some e \<Rightarrow> (Inl e, st)
      | None \<Rightarrow>
     (case back_up fd st of
        (Inl e, st1) \<Rightarrow> (Inl e, st1)
      | (Inr state, st1) \<Rightarrow>
     (case wrapping ''promote candidate configuration'' (syscall (rename_file candidate (path_text fd))) st1 of
        (Inl e, st2) \<Rightarrow>
          (Inl e, if fp_HadPrevious state
                  then ignoring (syscall (rename_file (fp_BackupPath state) (path_text fd))) st2 else st2)
      | (Inr _, st2) \<Rightarrow> (Inr (Some state), st2))))"

definition decode_promotion :: "file_deployment \<Rightarrow> promotion \<Rightarrow> go_error + file_promotion" where
  "decode_promotion fd promotion =
     (case promotion of
        None \<Rightarrow> Inl (Err ''configuration promotion is invalid'')
      | Some state \<Rightarrow>
          if fp_HadPrevious state \<noteq> (fp_BackupPath state \<noteq> '''') \<or>
             (fp_HadPrevious state \<and> \<not> managed_path (directory_of fd) (backup_prefix fd) (fp_BackupPath state))
          then Inl (Err ''configuration promotion is invalid'') else Inr state)"

definition fd_rollback :: "file_deployment \<Rightarrow> promotion \<Rightarrow> ('c host_state, unit) call" where
  "fd_rollback fd promotion =
     (case decode_promotion fd promotion of
        Inl e \<Rightarrow> fail_with e
      | Inr state \<Rightarrow>
          and_then (remove_existing ''remove failed active configuration'' (path_text fd)) (\<lambda>_.
          if fp_HadPrevious state
          then wrapping ''restore previous configuration''
                 (syscall (rename_file (fp_BackupPath state) (path_text fd)))
          else ok ()))"

definition fd_finalize :: "file_deployment \<Rightarrow> promotion \<Rightarrow> ('c host_state, unit) call" where
  "fd_finalize fd promotion =
     (case decode_promotion fd promotion of
        Inl e \<Rightarrow> fail_with e
      | Inr state \<Rightarrow>
          if \<not> fp_HadPrevious state then ok ()
          else remove_existing ''remove configuration backup'' (fp_BackupPath state))"

text \<open>\<open>FileDeployment\<close> over the control client, as a \<open>Deployment\<close>.\<close>

definition control_deployment ::
    "runtime_controller \<Rightarrow> ('c list \<Rightarrow> bool) \<Rightarrow> control_handler \<Rightarrow> file_deployment
       \<Rightarrow> ('c host_state, 'c, string, promotion) deployment" where
  "control_deployment rc accepts handler fd =
     \<lparr>dp_Stage = fd_stage fd,
      dp_Check = fd_check (client_check (control_server rc accepts handler)) fd,
      dp_Discard = fd_discard fd,
      dp_Promote = fd_promote fd,
      dp_Restart = client_restart (control_server rc accepts handler),
      dp_Rollback = fd_rollback fd,
      dp_Finalize = fd_finalize fd\<rparr>"

section \<open>The file table\<close>

lemma map_of_without: "map_of (without p files) q = (if q = p then None else map_of files q)"
  by (induction files) (auto simp: without_def)

lemma create_temp_effect:
  "create_temp dir pre h = (Inr path, h') \<Longrightarrow>
     path = path_text (dir @ [unused_name pre (map fst (hs_files h))]) \<and> hs_running h' = hs_running h \<and>
     file_at h (dir @ [unused_name pre (map fst (hs_files h))]) = None \<and>
     file_at h' q = (if q = dir @ [unused_name pre (map fst (hs_files h))]
       then Some \<lparr>hf_regular = True, hf_content = []\<rparr> else file_at h q)"
  using unused_name_fresh [of dir pre "map fst (hs_files h)"]
  by (auto simp: create_temp_def Let_def file_at_def map_of_eq_None_iff)

lemma write_file_effect:
  "write_file path c h = (Inr u, h') \<Longrightarrow> hs_running h' = hs_running h \<and>
     file_at h' q = (if q = cleaned path then Some \<lparr>hf_regular = True, hf_content = c\<rparr> else file_at h q)"
  by (auto simp: write_file_def file_at_def map_of_without)

lemma remove_file_effect:
  "remove_file path h = (r, h') \<Longrightarrow> hs_running h' = hs_running h \<and>
     file_at h' q = (if q = cleaned path then None else file_at h q)"
  by (auto simp: remove_file_def file_at_def map_of_without split: option.splits)

lemma rename_file_effect:
  "rename_file old new h = (Inr u, h') \<Longrightarrow> hs_running h' = hs_running h \<and> file_at h (cleaned old) \<noteq> None \<and>
     file_at h' q = (if q = cleaned new then file_at h (cleaned old)
                     else if q = cleaned old then None else file_at h q)"
  by (auto simp: rename_file_def file_at_def map_of_without split: option.splits)

lemma rename_file_Inl: "rename_file old new h = (Inl e, h') \<Longrightarrow> h' = h"
  by (auto simp: rename_file_def split: option.splits)

text \<open>What a caller sees of a failing or successful removal.\<close>

lemma syscall_remove:
  assumes "syscall (remove_file path) s = (r, s')"
  shows "hs_running (fst s') = hs_running (fst s) \<and>
    (q \<noteq> cleaned path \<longrightarrow> file_at (fst s') q = file_at (fst s) q)"
  using syscall_outcome [OF assms] remove_file_effect [of path "fst s" r "fst s'" q] by auto

lemma ignoring_remove:
  "hs_running (fst (ignoring (syscall (remove_file path)) s)) = hs_running (fst s)"
  "q \<noteq> cleaned path \<Longrightarrow> file_at (fst (ignoring (syscall (remove_file path)) s)) q = file_at (fst s) q"
  using syscall_remove [of path s "fst (syscall (remove_file path) s)" "snd (syscall (remove_file path) s)" q]
  by (simp_all add: ignoring_def)

lemma remove_existing_effect:
  assumes "remove_existing msg path s = (r, s')"
  shows "hs_running (fst s') = hs_running (fst s) \<and>
    (q \<noteq> cleaned path \<longrightarrow> file_at (fst s') q = file_at (fst s) q)"
  using assms syscall_remove [of path s _ _ q]
  by (auto simp: remove_existing_def split: prod.splits sum.splits if_splits)

section \<open>The names of temporary files\<close>

definition good_deployment :: "file_deployment \<Rightarrow> bool" where
  "good_deployment fd \<longleftrightarrow> fd \<noteq> [] \<and> list_all good_element fd"

lemma new_file_deployment_good: "new_file_deployment path = Inr fd \<Longrightarrow> good_deployment fd"
  by (auto simp: new_file_deployment_def good_deployment_def cleaned_good split: if_splits)

lemma cleaned_active: "good_deployment fd \<Longrightarrow> cleaned (path_text fd) = fd"
  by (simp add: good_deployment_def cleaned_path_text)

lemma temp_name_good:
  assumes "good_deployment fd" and "slash \<notin> set sfx" and "2 \<le> length sfx"
  shows "good_element (unused_name (''.'' @ last fd @ sfx) used)"
proof -
  have "good_element (last fd)" using assms(1) by (auto simp: good_deployment_def list_all_iff)
  with assms(2,3) show ?thesis
    by (auto simp: good_element_def unused_name_def dest: arg_cong [where f = length])
qed

lemma temp_path:
  assumes "good_deployment fd" and "pre = candidate_prefix fd \<or> pre = backup_prefix fd"
  shows "cleaned (path_text (butlast fd @ [unused_name pre used])) = butlast fd @ [unused_name pre used]"
    and "managed_path (butlast fd) pre (path_text (butlast fd @ [unused_name pre used]))"
proof -
  have dir: "list_all good_element (butlast fd)"
    using assms(1) by (auto simp: good_deployment_def list_all_iff dest: in_set_butlastD)
  have name: "good_element (unused_name pre used)"
    using assms temp_name_good [of fd "''.candidate-''" used] temp_name_good [of fd "''.backup-''" used]
    by (auto simp: candidate_prefix_def backup_prefix_def)
  from dir name show "managed_path (butlast fd) pre (path_text (butlast fd @ [unused_name pre used]))"
    by (rule managed_unused)
  from dir name show "cleaned (path_text (butlast fd @ [unused_name pre used])) = butlast fd @ [unused_name pre used]"
    by (intro cleaned_path_text) simp
qed

lemma managed_not_active:
  assumes "managed_path (butlast fd) pre path" and "pre = candidate_prefix fd \<or> pre = backup_prefix fd"
  shows "cleaned path \<noteq> fd"
proof
  assume "cleaned path = fd"
  with assms(1) have "length pre \<le> length (last fd)" by (auto simp: managed_path_def dest: prefix_length_le)
  with assms(2) show False by (auto simp: candidate_prefix_def backup_prefix_def)
qed

lemma candidate_not_backup:
  assumes "managed_path (butlast fd) (candidate_prefix fd) path" and "managed_path (butlast fd) (backup_prefix fd) path'"
  shows "cleaned path \<noteq> cleaned path'"
proof
  assume "cleaned path = cleaned path'"
  with assms have "prefix (candidate_prefix fd) (last (cleaned path))" "prefix (backup_prefix fd) (last (cleaned path))"
    by (simp_all add: managed_path_def)
  then show False by (auto simp: candidate_prefix_def backup_prefix_def prefix_def)
qed

section \<open>The operations as a deployment\<close>

definition hd_active :: "file_deployment \<Rightarrow> 'c host_state \<Rightarrow> 'c list option" where
  "hd_active fd s = map_option hf_content (file_at (fst s) fd)"

definition hd_running :: "'c host_state \<Rightarrow> 'c list option" where
  "hd_running s = hs_running (fst s)"

definition hd_staged :: "file_deployment \<Rightarrow> 'c host_state \<Rightarrow> string \<Rightarrow> 'c list option" where
  "hd_staged fd s candidate =
     (if validate_candidate fd candidate = None
      then map_option hf_content (file_at (fst s) (cleaned candidate)) else None)"

definition hd_saved :: "file_deployment \<Rightarrow> 'c host_state \<Rightarrow> promotion \<Rightarrow> 'c list option option" where
  "hd_saved fd s promotion =
     (case decode_promotion fd promotion of
        Inl _ \<Rightarrow> None
      | Inr state \<Rightarrow>
          if \<not> fp_HadPrevious state then Some None
          else map_option (\<lambda>f. Some (hf_content f)) (file_at (fst s) (cleaned (fp_BackupPath state))))"

text \<open>The active configuration is gone from its place but is kept in a backup file.\<close>

definition hd_lost :: "file_deployment \<Rightarrow> 'c host_state \<Rightarrow> 'c host_state \<Rightarrow> bool" where
  "hd_lost fd s s' \<longleftrightarrow> hd_active fd s' = None \<and>
     (\<exists>path. managed_path (butlast fd) (backup_prefix fd) path \<and> hd_active fd s \<noteq> None \<and>
        map_option hf_content (file_at (fst s') (cleaned path)) = hd_active fd s)"

lemma write_candidate_effect:
  assumes "write_candidate c path s = (r, s')"
  shows "hs_running (fst s') = hs_running (fst s) \<and>
    (q \<noteq> cleaned path \<longrightarrow> file_at (fst s') q = file_at (fst s) q) \<and>
    (r = Inr u \<longrightarrow> map_option hf_content (file_at (fst s') (cleaned path)) = Some c)"
proof -
  obtain r1 s1 where one: "syscall (ok ()) s = (r1, s1)" by (metis prod.exhaust)
  obtain r2 s2 where two: "syscall (write_file path c) s1 = (r2, s2)" by (metis prod.exhaust)
  obtain r3 s3 where three: "syscall (ok ()) s2 = (r3, s3)" by (metis prod.exhaust)
  obtain r4 s4 where four: "syscall (ok ()) s3 = (r4, s4)" by (metis prod.exhaust)
  have frame: "fst s1 = fst s" "fst s3 = fst s2" "fst s4 = fst s3"
    using syscall_outcome [OF one] syscall_outcome [OF three] syscall_outcome [OF four] by auto
  have wr: "hs_running (fst s2) = hs_running (fst s1)" "q \<noteq> cleaned path \<Longrightarrow> file_at (fst s2) q = file_at (fst s1) q"
    using syscall_outcome [OF two] write_file_effect [of path c "fst s1" _ "fst s2" q]
    by (auto simp: write_file_def)
  have written: "map_option hf_content (file_at (fst s2) (cleaned path)) = Some c" if "r2 = Inr v" for v
    using write_file_effect [OF syscall_Inr [OF two [unfolded that]], of "cleaned path"] by simp
  have "s' \<in> {s1, s2, s3, s4} \<and> (r = Inr u \<longrightarrow> s' = s4 \<and> (\<exists>v. r2 = Inr v))"
    using assms one two three four
    by (auto simp: write_candidate_def and_then_def wrapping_def split: sum.splits prod.splits)
  with frame wr written show ?thesis by auto
qed

lemma fd_stage_effect:
  assumes good: "good_deployment fd" and run: "fd_stage fd c s = (r, s')"
  shows "hd_active fd s' = hd_active fd s \<and> hd_running s' = hd_running s \<and>
    (\<forall>k. r = Inr k \<longrightarrow> hd_staged fd s' k = Some c)"
proof (cases "c = []")
  case True
  with run show ?thesis by (auto simp: fd_stage_def)
next
  case False
  obtain r1 s1 where one: "syscall (create_temp (butlast fd) (candidate_prefix fd)) s = (r1, s1)" by (metis prod.exhaust)
  show ?thesis
  proof (cases r1)
    case (Inl e)
    with one have "fst s1 = fst s" by (auto dest!: syscall_outcome simp: create_temp_def Let_def)
    with run False one Inl show ?thesis by (auto simp: fd_stage_def wrapping_def hd_active_def hd_running_def)
  next
    case (Inr path)
    let ?p = "butlast fd @ [unused_name (candidate_prefix fd) (map fst (hs_files (fst s)))]"
    note eff = create_temp_effect [OF syscall_Inr [OF one [unfolded Inr]]]
    from eff temp_path [OF good, of "candidate_prefix fd"] have path: "cleaned path = ?p" "path = path_text ?p"
      and managed: "managed_path (butlast fd) (candidate_prefix fd) path" by simp_all
    from managed_not_active [OF managed] have ne: "fd \<noteq> cleaned path" by auto
    obtain r2 s2 where two: "write_candidate c path s1 = (r2, s2)" by (metis prod.exhaust)
    have frame: "hs_running (fst s2) = hs_running (fst s)" "file_at (fst s2) fd = file_at (fst s) fd"
      using write_candidate_effect [OF two, of fd] eff [of fd] ne path by auto
    show ?thesis
      using run False one Inr two frame ne ignoring_remove(1) [of path s2] ignoring_remove(2) [OF ne, of s2]
        write_candidate_effect [OF two, of fd] managed
      by (auto simp: fd_stage_def wrapping_def hd_active_def hd_running_def hd_staged_def validate_candidate_def
          split: sum.splits)
  qed
qed

lemma remove_existing_Inr: "remove_existing msg path s = (Inr u, s') \<Longrightarrow> file_at (fst s') (cleaned path) = None"
  by (auto simp: remove_existing_def remove_file_def syscall_def Let_def file_at_def map_of_without
      split: prod.splits fault.splits option.splits if_splits sum.splits)

lemma fd_discard_effect:
  assumes "fd_discard fd k s = (r, s')"
  shows "hd_active fd s' = hd_active fd s \<and> hd_running s' = hd_running s \<and> (hd_lost fd s0 s \<longrightarrow> hd_lost fd s0 s')"
proof (cases "managed_path (butlast fd) (candidate_prefix fd) k")
  case False
  with assms show ?thesis by (auto simp: fd_discard_def validate_candidate_def)
next
  case True
  with assms have rm: "remove_existing ''discard candidate configuration'' k s = (r, s')"
    by (simp add: fd_discard_def validate_candidate_def)
  note eff = remove_existing_effect [OF rm]
  from managed_not_active [OF True] eff [of fd] have active: "hd_active fd s' = hd_active fd s" "hd_running s' = hd_running s"
    by (auto simp: hd_active_def hd_running_def)
  moreover have "file_at (fst s') (cleaned path) = file_at (fst s) (cleaned path)"
    if "managed_path (butlast fd) (backup_prefix fd) path" for path
    using candidate_not_backup [OF True that] eff [of "cleaned path"] by auto
  ultimately show ?thesis by (auto simp: hd_lost_def)
qed

text \<open>The backup half of a promotion, and the renaming that follows.\<close>

lemma back_up_effect:
  assumes good: "good_deployment fd" and run: "back_up fd s = (r, s')"
  shows "hs_running (fst s') = hs_running (fst s) \<and>
    (\<forall>q. managed_path (butlast fd) (candidate_prefix fd) q \<longrightarrow>
       file_at (fst s') (cleaned q) = file_at (fst s) (cleaned q)) \<and>
    (case r of
       Inl _ \<Rightarrow> file_at (fst s') fd = file_at (fst s) fd
     | Inr state \<Rightarrow>
         if fp_HadPrevious state
         then managed_path (butlast fd) (backup_prefix fd) (fp_BackupPath state) \<and>
              file_at (fst s) fd \<noteq> None \<and> file_at (fst s') fd = None \<and>
              file_at (fst s') (cleaned (fp_BackupPath state)) = file_at (fst s) fd
         else fp_BackupPath state = '''' \<and> file_at (fst s) fd = None \<and> file_at (fst s') fd = None)"
proof -
  obtain r1 s1 where one: "syscall (stat_file fd) s = (r1, s1)" by (metis prod.exhaust)
  from one have s1: "fst s1 = fst s" "r1 = Inr u \<Longrightarrow> file_at (fst s) fd \<noteq> None"
    "r1 = Inl e \<Longrightarrow> errors_is e ''file does not exist'' \<Longrightarrow> file_at (fst s) fd = None" for u e
    by (auto simp: stat_file_def dest!: syscall_outcome split: option.splits)
  show ?thesis
  proof (cases r1)
    case (Inl e)
    with run one s1 show ?thesis by (auto simp: back_up_def split: if_splits)
  next
    case (Inr v)
    note r1 = Inr
    obtain r2 s2 where two: "syscall (create_temp (butlast fd) (backup_prefix fd)) s1 = (r2, s2)" by (metis prod.exhaust)
    show ?thesis
    proof (cases r2)
      case (Inl e)
      with two have "fst s2 = fst s1" by (auto dest!: syscall_outcome simp: create_temp_def Let_def)
      with run one two Inl r1 s1 show ?thesis by (auto simp: back_up_def wrapping_def)
    next
      case (Inr path)
      let ?p = "butlast fd @ [unused_name (backup_prefix fd) (map fst (hs_files (fst s1)))]"
      note eff = create_temp_effect [OF syscall_Inr [OF two [unfolded Inr]]]
      from eff temp_path [OF good, of "backup_prefix fd"] have path: "cleaned path = ?p"
        and managed: "managed_path (butlast fd) (backup_prefix fd) path" by simp_all
      from managed_not_active [OF managed] have ne: "fd \<noteq> cleaned path" by auto
      have ne': "cleaned q \<noteq> cleaned path \<and> cleaned q \<noteq> fd" if "managed_path (butlast fd) (candidate_prefix fd) q" for q
        using candidate_not_backup [OF that managed] managed_not_active [OF that] by blast
      have s2: "hs_running (fst s2) = hs_running (fst s)" "q \<noteq> cleaned path \<Longrightarrow> file_at (fst s2) q = file_at (fst s) q" for q
        using eff [of q] path s1(1) by auto
      obtain r3 s3 where three: "syscall (ok ()) s2 = (r3, s3)" by (metis prod.exhaust)
      then have s3: "fst s3 = fst s2" by (auto dest!: syscall_outcome)
      obtain r4 s4 where four: "syscall (remove_file path) s3 = (r4, s4)" by (metis prod.exhaust)
      have s4: "hs_running (fst s4) = hs_running (fst s)" "q \<noteq> cleaned path \<Longrightarrow> file_at (fst s4) q = file_at (fst s) q" for q
        using syscall_remove [OF four, of q] s2 s3 by auto
      obtain r5 s5 where five: "syscall (rename_file (path_text fd) path) s4 = (r5, s5)" by (metis prod.exhaust)
      have s5: "(r5 = Inr w \<longrightarrow> file_at (fst s5) q = (if q = cleaned path then file_at (fst s) fd
            else if q = fd then None else file_at (fst s) q)) \<and>
          (r5 = Inl e \<longrightarrow> fst s5 = fst s4) \<and> hs_running (fst s5) = hs_running (fst s)" for q w e
        using syscall_outcome [OF five] rename_file_effect [of "path_text fd" path "fst s4" _ "fst s5" q]
          rename_file_Inl [of "path_text fd" path "fst s4" _ "fst s5"] cleaned_active [OF good] s4 ne
        by (cases r5) auto
      from run one two three four five r1 Inr have
        "(\<exists>e. r = Inl e \<and> (s' = s4 \<or> (s' = s5 \<and> (\<exists>e'. r5 = Inl e')))) \<or>
         (\<exists>w. r5 = Inr w \<and> s' = s5 \<and> r = Inr \<lparr>fp_BackupPath = path, fp_HadPrevious = True\<rparr>)"
        by (auto simp: back_up_def and_then_def wrapping_def ignoring_def split: sum.splits prod.splits)
      with s5 s4 ne ne' managed s1 r1 show ?thesis by auto
    qed
  qed
qed

lemma rename_outcome:
  assumes "syscall (rename_file old new) s = (r, s')"
  shows "hs_running (fst s') = hs_running (fst s)"
    and "r = Inl e \<Longrightarrow> fst s' = fst s"
    and "r = Inr u \<Longrightarrow> file_at (fst s) (cleaned old) \<noteq> None \<and>
      file_at (fst s') q = (if q = cleaned new then file_at (fst s) (cleaned old)
        else if q = cleaned old then None else file_at (fst s) q)"
  using syscall_outcome [OF assms] rename_file_effect [of old new "fst s" _ "fst s'" q]
    rename_file_effect [of old new "fst s" _ "fst s'"] rename_file_Inl [of old new "fst s" _ "fst s'"]
  by (cases r; auto)+

lemma fd_promote_effect:
  assumes good: "good_deployment fd" and run: "fd_promote fd k s = (r, s')"
  shows "hd_running s' = hd_running s \<and>
    (case r of
       Inl _ \<Rightarrow> hd_active fd s' = hd_active fd s \<or> hd_lost fd s s'
     | Inr p \<Rightarrow> hd_active fd s' = hd_staged fd s k \<and> hd_saved fd s' p = Some (hd_active fd s))"
proof (cases "managed_path (butlast fd) (candidate_prefix fd) k")
  case False
  with run show ?thesis by (auto simp: fd_promote_def validate_candidate_def)
next
  case True
  then have valid: "validate_candidate fd k = None" by (simp add: validate_candidate_def)
  obtain r1 s1 where one: "back_up fd s = (r1, s1)" by (metis prod.exhaust)
  note b = back_up_effect [OF good one]
  show ?thesis
  proof (cases r1)
    case (Inl e)
    with run one valid b show ?thesis by (auto simp: fd_promote_def hd_active_def hd_running_def)
  next
    case (Inr state)
    obtain r2 s2 where two: "syscall (rename_file k (path_text fd)) s1 = (r2, s2)" by (metis prod.exhaust)
    note ren = rename_outcome [OF two, unfolded cleaned_active [OF good]]
    have ne: "cleaned k \<noteq> fd" using managed_not_active [OF True] by blast
    have kept: "file_at (fst s1) (cleaned k) = file_at (fst s) (cleaned k)" using b True by blast
    have had: "fp_HadPrevious state \<Longrightarrow> cleaned k \<noteq> cleaned (fp_BackupPath state) \<and>
        cleaned (fp_BackupPath state) \<noteq> fd \<and> fp_BackupPath state \<noteq> []"
      using b Inr candidate_not_backup [OF True] managed_not_active [of fd "backup_prefix fd" "fp_BackupPath state"]
      by (auto simp: managed_path_def)
    show ?thesis
    proof (cases r2)
      case (Inl e)
      define s3 where "s3 = (if fp_HadPrevious state
          then ignoring (syscall (rename_file (fp_BackupPath state) (path_text fd))) s2 else s2)"
      from run one valid two Inl Inr have r: "r = Inl (Wrap ''promote candidate configuration'' e)" "s' = s3"
        by (auto simp: fd_promote_def wrapping_def s3_def)
      from ren(2) [OF Inl] have s2: "fst s2 = fst s1" .
      have "hs_running (fst s3) = hs_running (fst s) \<and> (hd_active fd s3 = hd_active fd s \<or> hd_lost fd s s3)"
      proof (cases "fp_HadPrevious state")
        case False
        with b Inr s2 show ?thesis by (auto simp: s3_def hd_active_def)
      next
        case True
        obtain r4 s4 where four: "syscall (rename_file (fp_BackupPath state) (path_text fd)) s2 = (r4, s4)"
          by (metis prod.exhaust)
        with True have s3: "s3 = s4" by (simp add: s3_def ignoring_def)
        note undo = rename_outcome [OF four, unfolded cleaned_active [OF good]]
        show ?thesis
        proof (cases r4)
          case (Inr u)
          from undo(3) [OF Inr, of fd] have "file_at (fst s4) fd = file_at (fst s) fd"
            using b \<open>r1 = Inr state\<close> True s2 by simp
          with s3 undo(1) s2 b show ?thesis by (simp add: hd_active_def)
        next
          case (Inl e4)
          from undo(2) [OF Inl] have "fst s4 = fst s1" using s2 by simp
          with s3 b \<open>r1 = Inr state\<close> True show ?thesis
            by (auto simp: hd_lost_def hd_active_def intro!: exI [of _ "fp_BackupPath state"])
        qed
      qed
      with r show ?thesis by (simp add: hd_running_def)
    next
      case (Inr u)
      from run one valid two Inr \<open>r1 = Inr state\<close> have r: "r = Inr (Some state)" "s' = s2"
        by (auto simp: fd_promote_def wrapping_def)
      have files: "file_at (fst s2) q = (if q = fd then file_at (fst s) (cleaned k)
          else if q = cleaned k then None else file_at (fst s1) q)" for q
        using ren(3) [OF Inr, of q] kept by simp
      have "hd_active fd s2 = hd_staged fd s k"
        using files [of fd] valid by (simp add: hd_active_def hd_staged_def)
      moreover have "hd_saved fd s2 (Some state) = Some (hd_active fd s)"
        using b \<open>r1 = Inr state\<close> had files [of "cleaned (fp_BackupPath state)"]
        by (cases "fp_HadPrevious state") (auto simp: hd_saved_def decode_promotion_def hd_active_def)
      ultimately show ?thesis using r ren(1) b by (simp add: hd_running_def)
    qed
  qed
qed

lemma fd_rollback_effect:
  assumes good: "good_deployment fd" and run: "fd_rollback fd p s = (Inr u, s')" and saved: "hd_saved fd s p = Some c"
  shows "hd_active fd s' = c"
proof -
  from saved obtain state where dec: "decode_promotion fd p = Inr state"
    by (auto simp: hd_saved_def split: sum.splits)
  with run obtain s1 v where rm: "remove_existing ''remove failed active configuration'' (path_text fd) s = (Inr v, s1)"
    and rest: "(if fp_HadPrevious state then wrapping ''restore previous configuration''
        (syscall (rename_file (fp_BackupPath state) (path_text fd))) else ok ()) s1 = (Inr u, s')"
    by (auto simp: fd_rollback_def elim!: and_then_InrE)
  note gone = remove_existing_Inr [OF rm, unfolded cleaned_active [OF good]]
  show ?thesis
  proof (cases "fp_HadPrevious state")
    case False
    with rest saved dec gone show ?thesis by (auto simp: hd_saved_def hd_active_def)
  next
    case True
    with dec have managed: "managed_path (butlast fd) (backup_prefix fd) (fp_BackupPath state)"
      by (auto simp: decode_promotion_def split: option.splits if_splits)
    from True rest have ren: "syscall (rename_file (fp_BackupPath state) (path_text fd)) s1 = (Inr u, s')" by simp
    have "file_at (fst s1) (cleaned (fp_BackupPath state)) = file_at (fst s) (cleaned (fp_BackupPath state))"
      using remove_existing_effect [OF rm, of "cleaned (fp_BackupPath state)"] managed_not_active [OF managed]
        cleaned_active [OF good] by simp
    with rename_outcome(3) [OF ren refl, of fd] saved dec True show ?thesis
      by (auto simp: hd_saved_def hd_active_def cleaned_active [OF good])
  qed
qed

lemma fd_finalize_effect:
  assumes "fd_finalize fd p s = (r, s')"
  shows "hd_active fd s' = hd_active fd s \<and> hd_running s' = hd_running s"
proof (cases "decode_promotion fd p")
  case (Inl e)
  with assms show ?thesis by (auto simp: fd_finalize_def)
next
  case (Inr state)
  show ?thesis
  proof (cases "fp_HadPrevious state")
    case False
    with assms Inr show ?thesis by (auto simp: fd_finalize_def)
  next
    case True
    with Inr have managed: "managed_path (butlast fd) (backup_prefix fd) (fp_BackupPath state)"
      by (auto simp: decode_promotion_def split: option.splits if_splits)
    from assms Inr True have "remove_existing ''remove configuration backup'' (fp_BackupPath state) s = (r, s')"
      by (simp add: fd_finalize_def)
    from remove_existing_effect [OF this, of fd] managed_not_active [OF managed] show ?thesis
      by (auto simp: hd_active_def hd_running_def)
  qed
qed

lemma fd_check_effect:
  assumes "fd_check (client_check (control_server rc accepts handler)) fd k s = (r, s')"
  shows "hs_files (fst s') = hs_files (fst s) \<and> hs_running (fst s') = hs_running (fst s)"
  using assms by (auto simp: fd_check_def dest!: client_check_frame split: option.splits)

section \<open>Installing through it\<close>

locale deployed_host =
  fixes rc :: runtime_controller and accepts :: "'c list \<Rightarrow> bool"
    and handler :: control_handler and fd :: file_deployment
  assumes good: "good_deployment fd" and same: "ch_activePath handler = fd"

sublocale deployed_host \<subseteq> deployment_contract "control_deployment rc accepts handler fd"
    "hd_active fd" hd_running "hd_staged fd" "hd_saved fd" "hd_lost fd"
proof unfold_locales
  show "dp_Stage (control_deployment rc accepts handler fd) c s = (rk, s') \<Longrightarrow>
      hd_active fd s' = hd_active fd s \<and> hd_running s' = hd_running s" for c s rk s'
    using fd_stage_effect [OF good] by (fastforce simp: control_deployment_def)
  show "dp_Stage (control_deployment rc accepts handler fd) c s = (Inr k, s') \<Longrightarrow> hd_staged fd s' k = Some c" for c s k s'
    using fd_stage_effect [OF good] by (fastforce simp: control_deployment_def)
  show "dp_Check (control_deployment rc accepts handler fd) k s = (ru, s') \<Longrightarrow>
      hd_active fd s' = hd_active fd s \<and> hd_running s' = hd_running s \<and> hd_staged fd s' k = hd_staged fd s k" for k s ru s'
    by (auto simp: control_deployment_def hd_active_def hd_running_def hd_staged_def file_at_def dest: fd_check_effect)
  show "dp_Discard (control_deployment rc accepts handler fd) k s = (ru, s') \<Longrightarrow>
      hd_active fd s' = hd_active fd s \<and> hd_running s' = hd_running s" for k s ru s'
    using fd_discard_effect by (fastforce simp: control_deployment_def)
  show "dp_Discard (control_deployment rc accepts handler fd) k s = (ru, s') \<Longrightarrow> hd_lost fd s0 s \<Longrightarrow> hd_lost fd s0 s'" for k s ru s' s0
    using fd_discard_effect by (fastforce simp: control_deployment_def)
  show "dp_Promote (control_deployment rc accepts handler fd) k s = (rp, s') \<Longrightarrow> hd_running s' = hd_running s" for k s rp s'
    using fd_promote_effect [OF good] by (fastforce simp: control_deployment_def)
  show "dp_Promote (control_deployment rc accepts handler fd) k s = (Inr p, s') \<Longrightarrow> hd_staged fd s k = Some c \<Longrightarrow>
      hd_active fd s' = Some c \<and> hd_saved fd s' p = Some (hd_active fd s)" for k s p s' c
    using fd_promote_effect [OF good] by (fastforce simp: control_deployment_def)
  show "dp_Promote (control_deployment rc accepts handler fd) k s = (Inl e, s') \<Longrightarrow>
      hd_active fd s' = hd_active fd s \<or> hd_lost fd s s'" for k s e s'
    using fd_promote_effect [OF good] by (fastforce simp: control_deployment_def)
  show "hd_active fd s1 = hd_active fd s0 \<Longrightarrow> hd_lost fd s1 s2 \<Longrightarrow> hd_lost fd s0 s2" for s0 s1 s2
    by (simp add: hd_lost_def)
  show "dp_Restart (control_deployment rc accepts handler fd) s = (ru, s') \<Longrightarrow>
      hd_active fd s' = hd_active fd s \<and> hd_saved fd s' p = hd_saved fd s p" for s ru s' p
    by (auto simp: control_deployment_def hd_active_def hd_saved_def file_at_def dest!: client_restart_effect split: sum.splits)
  show "dp_Restart (control_deployment rc accepts handler fd) s = (Inr u, s') \<Longrightarrow> hd_running s' = hd_active fd s" for s u s'
    by (auto simp: control_deployment_def hd_active_def hd_running_def same dest!: client_restart_effect)
  show "dp_Rollback (control_deployment rc accepts handler fd) p s = (Inr u, s') \<Longrightarrow>
      hd_saved fd s p = Some c' \<Longrightarrow> hd_active fd s' = c'" for p s u s' c'
    using fd_rollback_effect [OF good] by (fastforce simp: control_deployment_def)
  show "dp_Finalize (control_deployment rc accepts handler fd) p s = (ru, s') \<Longrightarrow>
      hd_active fd s' = hd_active fd s \<and> hd_running s' = hd_running s" for p s ru s'
    using fd_finalize_effect by (fastforce simp: control_deployment_def)
qed

context deployed_host begin

lemmas installs = install_outcome_ok [unfolded outcome_ok_def]

end

text \<open>The paths of a default installation (\<open>cmd/core-controller\<close>).\<close>

definition default_active :: file_deployment where
  "default_active = [''var'', ''lib'', ''s12ryt'', ''sing-box'', ''config.json'']"

definition default_handler :: control_handler where
  "default_handler = \<lparr>ch_activePath = default_active, ch_prefix = candidate_prefix default_active\<rparr>"

lemma new_handler_default:
  "new_handler ''/var/lib/s12ryt/sing-box/config.json'' = Inr default_handler"
  by code_simp

interpretation installed: deployed_host rc accepts default_handler default_active
  for rc :: runtime_controller and accepts :: "'c list \<Rightarrow> bool"
  by unfold_locales
    (simp_all add: good_deployment_def default_active_def default_handler_def good_element_def)

text \<open>
  C16. An installation leaves the core in a known state. Whatever system calls, control requests
  and Docker answers fail or are lost: success means that the new configuration is in place and
  the core was restarted with it; a failure in staging or checking leaves the configuration and
  the core as they were; a failed promotion leaves the core as it was, and the old configuration
  in place or, if even undoing failed, in a backup file; a failed restart has been undone and
  the core restarted with the old configuration; a failed clean-up happened after success. Only
  the stage \<open>rollback\<close> says nothing.
\<close>

theorem install_outcome:
  assumes "new_file_deployment path = Inr fd" and "new_handler path = Inr handler"
    and "install (control_deployment rc accepts handler fd) configuration s = (r, s')"
  shows "case r of
      Inr _ \<Rightarrow> hd_active fd s' = Some configuration \<and> hd_running s' = Some configuration
    | Inl e \<Rightarrow>
        (let stage = install_failure_stage e in
         (stage \<in> {''stage'', ''check''} \<and> hd_active fd s' = hd_active fd s \<and> hd_running s' = hd_running s) \<or>
         (stage = ''promote'' \<and> (hd_active fd s' = hd_active fd s \<or> hd_lost fd s s') \<and> hd_running s' = hd_running s) \<or>
         (stage = ''restart'' \<and> hd_active fd s' = hd_active fd s \<and> hd_running s' = hd_active fd s) \<or>
         (stage = ''finalize'' \<and> hd_active fd s' = Some configuration \<and> hd_running s' = Some configuration) \<or>
         stage = ''rollback'')"
proof -
  from assms(1,2) have host: "deployed_host handler fd"
    by unfold_locales (auto simp: new_file_deployment_good new_file_deployment_def new_handler_def split: if_splits)
  show ?thesis by (rule deployed_host.installs [OF host assms(3)])
qed

section \<open>A concrete installation\<close>

definition sample_rc :: runtime_controller where
  "sample_rc = \<lparr>rc_singBoxBinary = ''/s'', rc_containerName = ''c''\<rparr>"

definition sample_host :: "nat host" where
  "sample_host = \<lparr>hs_files = [([''c''], \<lparr>hf_regular = True, hf_content = [1]\<rparr>)],
     hs_running = Some [1], hs_checked = []\<rparr>"

definition sample_handler :: control_handler where
  "sample_handler = \<lparr>ch_activePath = [''c''], ch_prefix = ''.c.candidate-''\<rparr>"

text \<open>
  The second renaming of a promotion fails, and so does undoing the first: the error says
  \<open>promote\<close>, the core still runs, and its configuration is in a backup file only.
\<close>

theorem install_outcome_witness:
  "(let s' = snd (install (control_deployment sample_rc (\<lambda>c. True) sample_handler [''c'']) [2] (sample_host, [])) in
    hd_active [''c''] s' = Some [2] \<and> hd_running s' = Some [2]) \<and>
   (let s' = snd (install (control_deployment sample_rc (\<lambda>c. True) sample_handler [''c'']) [2]
       (sample_host, replicate 13 Fine @ [Lost ''EIO'', Lost ''EIO''])) in
    hd_active [''c''] s' = None \<and> hd_lost [''c''] (sample_host, []) s' \<and> hd_running s' = Some [1])"
proof -
  have paths: "new_file_deployment ''/c'' = Inr [''c'']" "new_handler ''/c'' = Inr sample_handler"
    by code_simp+
  let ?d = "control_deployment sample_rc (\<lambda>c. True) sample_handler [''c'']"
  have fine: "fst (install ?d [2] (sample_host, [])) = Inr ()" by code_simp
  let ?s = "(sample_host, replicate 13 Fine @ [Lost ''EIO'', Lost ''EIO''])"
  have bad: "fst (install ?d [2] ?s) = Inl (install_error ''promote''
      (Join [Wrap ''promote candidate configuration'' (Err ''EIO'')]))" by code_simp
  have gone: "hd_active [''c''] (snd (install ?d [2] ?s)) = None" "hd_active [''c''] ?s = Some [1]"
    "hd_running ?s = Some [1]"
    by code_simp+
  have "hd_lost [''c''] ?s (snd (install ?d [2] ?s)) \<and> hd_running (snd (install ?d [2] ?s)) = Some [1]"
    using install_outcome [OF paths split_result [OF bad]] gone
    by (simp add: Let_def install_failure_stage_def install_error_def)
  then show ?thesis
    using install_outcome [OF paths split_result [OF fine]] gone
    by (simp add: Let_def hd_lost_def hd_active_def)
qed

end
