(* ===== verification/Core_System.thy ===== *)
theory Core_System
  imports Core_Worker Snapshot File_Deployment Vpn_System
begin

text \<open>
  The VPN tables, the worker and the core together, as \<open>cmd/server/main.go\<close> wires them:
  the worker claims from the outbox, builds snapshots of the tables and installs them through
  the control client. The theorems say that the core does not silently run anything but what the
  tables ask for, when revocations and reconciliations take effect, and where an update is lost.
\<close>

section \<open>The worker's interfaces on the real components\<close>

type_synonym 'c core_state = "(vpn_db \<times> faults) \<times> 'c host_state"

record 'c core_env =
  ce_openValue :: value_opener
  ce_openBundle :: bundle_opener
  ce_marshal :: "json \<Rightarrow> 'c list"
  ce_rc :: runtime_controller
  ce_accepts :: "'c list \<Rightarrow> bool"
  ce_planned :: "go_error + unit"
  ce_failed :: "core_failure_code \<Rightarrow> go_error + unit"

definition on_tables :: "(vpn_db \<times> faults, 'a) call \<Rightarrow> ('c core_state, 'a) call" where
  "on_tables f s = (let (r, t) = f (fst s) in (r, (t, snd s)))"

definition on_host :: "('c host_state, 'a) call \<Rightarrow> ('c core_state, 'a) call" where
  "on_host f s = (let (r, h) = f (snd s) in (r, (fst s, h)))"

definition marshalled :: "(json \<Rightarrow> 'c list) \<Rightarrow> ('s, json) call \<Rightarrow> ('s, 'c list) call" where
  "marshalled marshal f s = (case f s of (Inl e, s1) \<Rightarrow> (Inl e, s1) | (Inr doc, s1) \<Rightarrow> (Inr (marshal doc), s1))"

definition core_worker_env ::
    "'c core_env \<Rightarrow> control_handler \<Rightarrow> file_deployment \<Rightarrow> ('c core_state, 'c list) worker_env" where
  "core_worker_env env handler fd =
     \<lparr>we_ClaimDue = (\<lambda>now lease limit. on_tables (claim_due now lease limit)),
      we_Complete = (\<lambda>ids now. on_tables (complete_actions ids now)),
      we_Retry = (\<lambda>ids retryAt failure. on_tables (retry_actions ids retryAt failure)),
      we_Build = on_tables (marshalled (ce_marshal env) (build_snapshot (ce_openValue env) (ce_openBundle env))),
      we_Install = (\<lambda>configuration. on_host
        (install (control_deployment (ce_rc env) (ce_accepts env) handler fd) configuration)),
      we_NotifyPlannedRestart = (\<lambda>s. (ce_planned env, s)),
      we_NotifyCoreFailure = (\<lambda>failure s. (ce_failed env failure, s))\<rparr>"

section \<open>The outbox, as the worker sees it\<close>

text \<open>What a snapshot of the tables would be, when nothing fails; nothing else of them matters.\<close>

definition desired :: "'c core_env \<Rightarrow> vpn_db \<Rightarrow> 'c list option" where
  "desired env d =
     (case fst (build_snapshot (ce_openValue env) (ce_openBundle env) (d, [])) of
        Inl _ \<Rightarrow> None | Inr doc \<Rightarrow> Some (ce_marshal env doc))"

definition opened_in :: "'c core_state \<Rightarrow> int set" where
  "opened_in s = {k. open_action (fst (fst s)) k}"

definition without_outbox :: "'c core_state \<Rightarrow> vpn_db" where
  "without_outbox s = (fst (fst s))\<lparr>core_action_outbox := []\<rparr>"

lemma rows_kept_view:
  "rows_kept (fst (fst s)) (fst (fst s')) \<Longrightarrow> opened_in s' = opened_in s \<and> without_outbox s' = without_outbox s"
  by (auto simp: opened_in_def without_outbox_def rows_kept_open) (auto simp: rows_kept_def)

lemma claim_statement_kept: "claim_statement now lease limit d = (r, d') \<Longrightarrow> rows_kept d d'"
  by (auto simp: claim_statement_def Let_def intro!: rows_kept_map)

lemma claim_due_kept:
  assumes "claim_due now lease limit s = (r, s')"
  shows "rows_kept (fst s) (fst s')"
proof (cases "now = 0 \<or> lease \<le> 0 \<or> limit < 1 \<or> 1000 < limit")
  case True
  with assms show ?thesis by (auto simp: claim_due_def)
next
  case False
  obtain r1 s1 where one: "statement (claim_statement now lease (nat limit)) s = (r1, s1)" by (metis prod.exhaust)
  from one have "rows_kept (fst s) (fst s1)"
    using statement_outcome [of _ "fst s" "snd s" r1 "fst s1" "snd s1"] claim_statement_kept by fastforce
  with assms False one show ?thesis
    by (cases r1) (auto simp: claim_due_def and_then_def wrapping_def split: if_splits)
qed

lemma claim_due_open:
  assumes "claim_due now lease limit s = (Inr claimed, s')"
  shows "set (map ca_ID claimed) \<subseteq> {k. open_action (fst s) k}"
proof -
  from assms obtain s1 where one: "statement (claim_statement now lease (nat limit)) s = (Inr claimed, s1)"
    by (auto simp: claim_due_def elim!: and_then_InrE split: if_splits)
  from statement_InrD [OF one] have "set (map ca_ID claimed) \<subseteq> set (candidates now (nat limit) (fst s))"
    by (auto simp: claim_statement_def Let_def core_action_of_def)
  also have "\<dots> \<subseteq> {k. open_action (fst s) k}"
    by (auto simp: candidates_def open_action_def dest!: in_set_takeD)
  finally show ?thesis .
qed

lemma wrapping_state: "wrapping m f s = (r, s') \<Longrightarrow> \<exists>r1. f s = (r1, s')"
  by (auto simp: wrapping_def split: prod.splits sum.splits)

lemma updated_outbox:
  assumes "statement (\<lambda>d. (Inr (), d\<lparr>core_action_outbox := map f (core_action_outbox d)\<rparr>)) s = (r, s')"
  shows "fst s' = fst s \<or> fst s' = (fst s)\<lparr>core_action_outbox := map f (core_action_outbox (fst s))\<rparr>"
  using statement_either [OF assms] by auto

lemma retry_actions_kept:
  assumes "retry_actions ids t failure s = (r, s')"
  shows "rows_kept (fst s) (fst s')"
proof (cases "t = 0 \<or> \<not> valid_unique_ids ids \<or> \<not> valid_core_failure failure")
  case True
  with assms show ?thesis by (auto simp: retry_actions_def)
next
  case False
  with assms obtain r1 where one: "statement (\<lambda>d. (Inr (), d\<lparr>core_action_outbox :=
      map (retry_row ids t failure) (core_action_outbox d)\<rparr>)) s = (r1, s')"
    unfolding retry_actions_def by (auto dest: wrapping_state)
  show ?thesis
    using updated_outbox [OF one] rows_kept_map [of "retry_row ids t failure" "fst s"] by auto
qed

lemma complete_actions_effect:
  assumes "complete_actions ids now s = (r, s')"
  shows "(fst s')\<lparr>core_action_outbox := []\<rparr> = (fst s)\<lparr>core_action_outbox := []\<rparr> \<and>
    {k. open_action (fst s) k} - set ids \<subseteq> {k. open_action (fst s') k} \<and>
    {k. open_action (fst s') k} \<subseteq> {k. open_action (fst s) k}"
proof (cases "now = 0 \<or> \<not> valid_unique_ids ids")
  case True
  with assms show ?thesis by (auto simp: complete_actions_def)
next
  case False
  with assms obtain r1 where one: "statement (\<lambda>d. (Inr (), d\<lparr>core_action_outbox :=
      map (complete_row ids now) (core_action_outbox d)\<rparr>)) s = (r1, s')"
    unfolding complete_actions_def by (auto dest: wrapping_state)
  from updated_outbox [OF one] show ?thesis
    by (auto simp: open_action_def complete_row_def)
qed

section \<open>The snapshot, as the worker sees it\<close>

lemma load_core_settings_frame:
  "load_core_settings openValue s = (r, s') \<Longrightarrow> fst s' = fst s \<and>
     (\<forall>x. r = Inr x \<longrightarrow> load_core_settings openValue (fst s, []) = (Inr x, (fst s, [])))"
  by (auto simp: load_core_settings_def and_then_def wrapping_def Let_def
      dest!: statement_read_either split: prod.splits sum.splits if_splits)

lemma list_active_frame:
  "list_active openBundle s = (r, s') \<Longrightarrow> fst s' = fst s \<and>
     (\<forall>x. r = Inr x \<longrightarrow> list_active openBundle (fst s, []) = (Inr x, (fst s, [])))"
  by (auto simp: list_active_def and_then_def wrapping_def Let_def
      dest!: statement_read_either split: prod.splits sum.splits if_splits)

lemma build_snapshot_frame:
  assumes "build_snapshot openValue openBundle s = (r, s')"
  shows "fst s' = fst s \<and> (\<forall>doc. r = Inr doc \<longrightarrow> fst (build_snapshot openValue openBundle (fst s, [])) = Inr doc)"
proof -
  obtain r1 s1 where one: "load_core_settings openValue s = (r1, s1)" by (metis prod.exhaust)
  note load = load_core_settings_frame [OF one]
  show ?thesis
  proof (cases r1)
    case (Inl e)
    with assms one load show ?thesis by (auto simp: build_snapshot_def snapshot_build_def and_then_def wrapping_def)
  next
    case (Inr settings)
    obtain r2 s2 where two: "list_active openBundle s1 = (r2, s2)" by (metis prod.exhaust)
    from assms one Inr two load list_active_frame [OF two] show ?thesis
      by (auto simp: build_snapshot_def snapshot_build_def and_then_def wrapping_def split: sum.splits)
  qed
qed

lemma desired_cong:
  assumes "active_rows d' = active_rows d" "core_settings_table d' = core_settings_table d"
  shows "desired env d' = desired env d"
proof -
  have load: "fst (load_core_settings ov (d', [])) = fst (load_core_settings ov (d, []))"
    "snd (load_core_settings ov (x, [])) = (x, [])" for ov x
    using assms(2) by (auto simp: load_core_settings_def and_then_def wrapping_def Let_def split: sum.splits if_splits)
  have active: "fst (list_active ob (d', [])) = fst (list_active ob (d, []))" for ob
    using assms(1) by (auto simp: list_active_def and_then_def wrapping_def Let_def split: sum.splits if_splits)
  have "fst (build_snapshot ov ob (d', [])) = fst (build_snapshot ov ob (d, []))" for ov ob
    using load active
    by (auto simp: build_snapshot_def snapshot_build_def and_then_def wrapping_def split: prod.splits sum.splits)
      (metis Inl_Inr_False Pair_inject fst_conv snd_conv sum.inject)+
  then show ?thesis by (simp add: desired_def)
qed

text \<open>What is served determines what is desired.\<close>

lemma active_rows_cong:
  assumes "serves d' = serves d" "distinct (map fst (credential_bundles d))" "distinct (map fst (credential_bundles d'))"
  shows "active_rows d' = active_rows d"
proof (rule map_sorted_distinct_set_unique [where f = fst])
  have keys: "distinct (map fst (active_rows x))" "sorted (map fst (active_rows x))"
    if "distinct (map fst (credential_bundles x))" for x
    using served_ids_set(2,3) [OF that] by (simp_all add: served_ids_def)
  have same: "set (active_rows d') = set (active_rows d)"
    using active_rows_mem [OF assms(2)] active_rows_mem [OF assms(3)] assms(1) by auto
  then show "set (active_rows d') = set (active_rows d)" .
  show "inj_on fst (set (active_rows d') \<union> set (active_rows d))"
    using keys(1) [OF assms(2)] by (simp add: same distinct_map)
qed (use served_ids_set(2,3) assms(2,3) in \<open>simp_all add: served_ids_def\<close>)

lemma desired_unchanged:
  assumes "announced d d'" "keeps_open d d'" "distinct (map fst (credential_bundles d))" "\<not> some_open d'"
  shows "desired env d' = desired env d"
proof (rule desired_cong)
  have "serves d' i = serves d i" for i
    using assms(1,4) has_open_some_open unfolding announced_def by (metis option.case_eq_if)
  then show "active_rows d' = active_rows d"
    using active_rows_cong [of d' d] assms(2,3) by (auto simp: keeps_open_def)
  show "core_settings_table d' = core_settings_table d" using assms(2) by (simp add: keeps_open_def)
qed

lemma desired_outbox [simp]: "desired env (d\<lparr>core_action_outbox := rows\<rparr>) = desired env d"
  by (rule desired_cong) (simp_all add: active_rows_def servable_def admitting_def)

section \<open>The contract\<close>

lemma on_tables_run: "on_tables f s = (r, s') \<Longrightarrow> f (fst s) = (r, fst s') \<and> snd s' = snd s"
  by (auto simp: on_tables_def Let_def split: prod.splits)

lemma on_host_run: "on_host f s = (r, s') \<Longrightarrow> f (snd s) = (r, snd s') \<and> fst s' = fst s"
  by (auto simp: on_host_def Let_def split: prod.splits)

lemma build_run:
  assumes "we_Build (core_worker_env env handler fd) s = (r, s')"
  shows "snd s' = snd s \<and> fst (fst s') = fst (fst s) \<and> (\<forall>c. r = Inr c \<longrightarrow> desired env (fst (fst s)) = Some c)"
proof -
  from assms obtain r1 where run: "build_snapshot (ce_openValue env) (ce_openBundle env) (fst s) = (r1, fst s')"
    and r: "r = (case r1 of Inl e \<Rightarrow> Inl e | Inr doc \<Rightarrow> Inr (ce_marshal env doc))" and "snd s' = snd s"
    by (auto simp: core_worker_env_def marshalled_def dest!: on_tables_run split: prod.splits sum.splits)
  with build_snapshot_frame [OF run] show ?thesis
    by (auto simp: desired_def split: sum.splits)
qed

locale core_host = deployed_host "ce_rc env" "ce_accepts env" handler fd
  for env :: "'c core_env" and handler :: control_handler and fd :: file_deployment

sublocale core_host \<subseteq> core: core_contract "core_worker_env env handler fd" opened_in without_outbox
    "desired env" "\<lambda>s. hd_running (snd s)"
proof unfold_locales
  let ?e = "core_worker_env env handler fd"
  show "opened_in s' = opened_in s \<and> without_outbox s' = without_outbox s \<and> hd_running (snd s') = hd_running (snd s)"
    if "we_ClaimDue ?e now lease limit s = (rc, s')" for now lease limit s rc s'
    using that rows_kept_view [of s s'] claim_due_kept [of now lease limit "fst s" rc "fst s'"]
    by (auto simp: core_worker_env_def dest: on_tables_run)
  show "set (map ca_ID as) \<subseteq> opened_in s'"
    if "we_ClaimDue ?e now lease limit s = (Inr as, s')" for now lease limit s as s'
    using that rows_kept_view [of s s'] claim_due_kept [of now lease limit "fst s" "Inr as" "fst s'"]
      claim_due_open [of now lease limit "fst s" as "fst s'"]
    by (auto simp: core_worker_env_def opened_in_def dest!: on_tables_run)
  show "opened_in s' = opened_in s \<and> without_outbox s' = without_outbox s \<and> hd_running (snd s') = hd_running (snd s)"
    if "we_Retry ?e ids at failure s = (ru, s')" for ids at failure s ru s'
    using that rows_kept_view [of s s'] retry_actions_kept [of ids at failure "fst s" ru "fst s'"]
    by (auto simp: core_worker_env_def dest: on_tables_run)
  show "opened_in s - set ids \<subseteq> opened_in s' \<and> opened_in s' \<subseteq> opened_in s \<and>
      without_outbox s' = without_outbox s \<and> hd_running (snd s') = hd_running (snd s)"
    if "we_Complete ?e ids now s = (ru, s')" for ids now s ru s'
    using that complete_actions_effect [of ids now "fst s" ru "fst s'"]
    by (auto simp: core_worker_env_def opened_in_def without_outbox_def dest!: on_tables_run)
  show "opened_in s' = opened_in s \<and> without_outbox s' = without_outbox s \<and> hd_running (snd s') = hd_running (snd s)"
    if "we_Build ?e s = (rb, s')" for s rb s'
    using build_run [OF that] by (simp add: opened_in_def without_outbox_def)
  show "desired env (without_outbox s) = Some c" if "we_Build ?e s = (Inr c, s')" for s c s'
    using build_run [OF that] by (simp add: without_outbox_def)
  show "opened_in s' = opened_in s \<and> without_outbox s' = without_outbox s"
    if "we_Install ?e c s = (ru, s')" for c s ru s'
    using that by (auto simp: core_worker_env_def opened_in_def without_outbox_def dest!: on_host_run)
  show "hd_running (snd s') = Some c" if "we_Install ?e c s = (Inr u, s')" for c s u s'
    using that by (auto simp: core_worker_env_def dest!: on_host_run installs)
qed (auto simp: core_worker_env_def)

interpretation default_core: core_host env default_handler default_active for env :: "'c core_env"
  by unfold_locales

section \<open>The system\<close>

record ('c, 'r) core_system =
  sy_worker :: worker
  sy_tables :: "vpn_db \<times> faults"
  sy_host :: "'c host_state"
  sy_source :: 'r

datatype core_event = Change vpn_op | WorkerStep go_time

record ('c, 'r) system_env =
  se_core :: "'c core_env"
  se_vpn :: "'r vpn_env"
  se_handler :: control_handler
  se_deployment :: file_deployment

definition system_worker_step :: "('c, 'r) system_env \<Rightarrow> go_time \<Rightarrow> (('c, 'r) core_system, unit) call" where
  "system_worker_step env now sys =
     (let (r, (w, (t, h))) = worker_step (core_worker_env (se_core env) (se_handler env) (se_deployment env)) now
        (sy_worker sys, (sy_tables sys, sy_host sys))
      in (r, sys\<lparr>sy_worker := w, sy_tables := t, sy_host := h\<rparr>))"

fun system_step :: "('c, 'r) system_env \<Rightarrow> core_event \<Rightarrow> ('c, 'r) core_system \<Rightarrow> ('c, 'r) core_system" where
  "system_step env (Change x) sys =
     (let (t, r) = vpn_step (se_vpn env) x (sy_tables sys, sy_source sys) in sys\<lparr>sy_tables := t, sy_source := r\<rparr>)"
| "system_step env (WorkerStep now) sys = snd (system_worker_step env now sys)"

fun system_run :: "('c, 'r) system_env \<Rightarrow> core_event list \<Rightarrow> ('c, 'r) core_system \<Rightarrow> ('c, 'r) core_system" where
  "system_run env [] sys = sys"
| "system_run env (x # xs) sys = system_run env xs (system_step env x sys)"

text \<open>
  The core runs what the tables ask for, or an action is open. No change may come while an
  installed snapshot awaits completion; \<open>lost_update\<close> shows what happens if one does.
\<close>

definition caught_up :: "('c, 'r) system_env \<Rightarrow> ('c, 'r) core_system \<Rightarrow> bool" where
  "caught_up env sys \<longleftrightarrow>
     hd_running (sy_host sys) = desired (se_core env) (fst (sy_tables sys)) \<or> some_open (fst (sy_tables sys))"

fun undisturbed :: "('c, 'r) system_env \<Rightarrow> core_event list \<Rightarrow> ('c, 'r) core_system \<Rightarrow> bool" where
  "undisturbed env [] sys = True"
| "undisturbed env (x # xs) sys =
     ((case x of Change _ \<Rightarrow> wk_installedAt (sy_worker sys) = 0 | WorkerStep _ \<Rightarrow> True) \<and>
      undisturbed env xs (system_step env x sys))"

definition keys_ok :: "vpn_db \<Rightarrow> bool" where
  "keys_ok d \<longleftrightarrow> distinct (map fst (quota_windows d)) \<and> distinct (map fst (credential_bundles d))"

context core_host begin

definition consistent :: "('c, 'r) core_system \<Rightarrow> bool" where
  "consistent sys \<longleftrightarrow> core.in_step (sy_worker sys) (sy_tables sys, sy_host sys) \<and> keys_ok (fst (sy_tables sys))"

lemma desired_view [simp]: "desired env (without_outbox s) = desired env (fst (fst s))"
  by (simp add: without_outbox_def)

lemma opened_in_empty: "opened_in s = {} \<longleftrightarrow> \<not> some_open (fst (fst s))"
  by (auto simp: opened_in_def some_open_def)

lemma in_step_change:
  assumes "core.in_step w ((d, fs), h)" "wk_installedAt w = 0" "announced d d'" "keeps_open d d'" "keys_ok d"
  shows "core.in_step w ((d', fs'), h) \<and> keys_ok d'"
proof -
  have "opened_in ((d, fs), h) \<subseteq> opened_in ((d', fs'), h)"
    using assms(4) by (auto simp: opened_in_def keeps_open_def)
  moreover have "desired env d' = desired env d" if "\<not> some_open d'"
    using desired_unchanged [OF assms(3,4) _ that] assms(5) by (simp add: keys_ok_def)
  moreover have "some_open d \<Longrightarrow> some_open d'"
    using assms(4) by (auto simp: some_open_def keeps_open_def)
  ultimately show ?thesis using assms
    by (auto simp: core.in_step_def opened_in_empty keys_ok_def keeps_open_def)
qed

lemmas revokes = core.revoke_step and waits = core.step_waits and stays = core.step_keeps_running

lemma consistent_worker_step:
  assumes "worker_step (core_worker_env env handler fd) now (sy_worker sys, (sy_tables sys, sy_host sys)) = (r, (w, s))"
    and "consistent sys"
  shows "consistent (sys\<lparr>sy_worker := w, sy_tables := fst s, sy_host := snd s\<rparr>)"
proof -
  from core.worker_step_in_step [OF assms(1)] assms(2)
  have "core.in_step w s" and v: "without_outbox s = without_outbox (sy_tables sys, sy_host sys)"
    by (simp_all add: consistent_def)
  moreover from v have "quota_windows (fst (fst s)) = quota_windows (fst (sy_tables sys))"
      "credential_bundles (fst (fst s)) = credential_bundles (fst (sy_tables sys))"
    by (simp_all add: without_outbox_def) (metis vpn_db.select_convs vpn_db.update_convs(5) vpn_db.surjective)+
  ultimately show ?thesis using assms(2) by (simp add: consistent_def keys_ok_def)
qed

end

lemma core_host_of_paths:
  assumes "new_file_deployment path = Inr fd" and "new_handler path = Inr handler"
  shows "core_host handler fd"
  using assms
  by unfold_locales (auto simp: new_file_deployment_good new_file_deployment_def new_handler_def split: if_splits)

lemma consistent_run:
  assumes "core_host (se_handler env) (se_deployment env)"
    and "core_host.consistent (se_core env) sys" and "undisturbed env xs sys"
  shows "core_host.consistent (se_core env) (system_run env xs sys)"
  using assms(2,3)
proof (induction xs arbitrary: sys)
  case Nil
  then show ?case by simp
next
  case (Cons x xs)
  have "core_host.consistent (se_core env) (system_step env x sys)"
  proof (cases x)
    case (Change y)
    obtain d fs where t: "sy_tables sys = (d, fs)" by (metis prod.exhaust)
    obtain d' fs' r where run: "vpn_step (se_vpn env) y ((d, fs), sy_source sys) = ((d', fs'), r)" by (metis prod_cases3 prod.collapse)
    from Cons.prems have keys: "distinct (map fst (quota_windows d))"
      by (simp add: core_host.consistent_def [OF assms(1)] keys_ok_def t)
    from vpn_step_announced [of "((d, fs), sy_source sys)" "se_vpn env" y] keys run
    have ann: "announced d d'" "keeps_open d d'" by simp_all
    have "default_core.core.in_step (se_core env) (sy_worker sys) ((d, fs), sy_host sys)" "keys_ok d"
        "wk_installedAt (sy_worker sys) = 0"
      using Cons.prems Change t by (simp_all add: core_host.consistent_def [OF assms(1)])
    from core_host.in_step_change [OF assms(1) this(1,3) ann this(2), where fs' = fs'] Change run t show ?thesis
      by (simp add: core_host.consistent_def [OF assms(1)])
  next
    case (WorkerStep now)
    obtain r w s where run: "worker_step (core_worker_env (se_core env) (se_handler env) (se_deployment env)) now
        (sy_worker sys, (sy_tables sys, sy_host sys)) = (r, (w, s))" by (metis prod_cases3)
    from core_host.consistent_worker_step [OF assms(1) run Cons.prems(1)] run WorkerStep show ?thesis
      by (cases s) (simp add: system_worker_step_def)
  qed
  with Cons show ?case by simp
qed

text \<open>
  C15. The core is never silently stale. From a fresh worker, whatever changes the operations make
  to who is served, and whatever statements, system calls, control requests and restarts fail,
  the core runs exactly the configuration that the tables ask for or a core action is open, as
  long as no change falls between an installation and its completion.
\<close>

theorem core_never_stale:
  assumes "new_file_deployment path = Inr (se_deployment env)" and "new_handler path = Inr (se_handler env)"
    and "sy_worker sys = new_worker" and "keys_ok (fst (sy_tables sys))" and "caught_up env sys"
    and "undisturbed env events sys"
  shows "caught_up env (system_run env events sys)"
proof -
  from core_host_of_paths [OF assms(1,2)] have host: "core_host (se_handler env) (se_deployment env)" .
  have now: "core_host.consistent (se_core env) sys"
    using assms(3-5) by (auto simp: core_host.consistent_def [OF host] core_contract.in_step_def
      default_core.core.in_step_def new_worker_def pending_ids_def caught_up_def default_core.opened_in_empty)
  from consistent_run [OF host now assms(6)]
  show ?thesis
    by (auto simp: core_host.consistent_def [OF host] default_core.core.in_step_def caught_up_def
      default_core.opened_in_empty split: if_splits)
qed

end
