(* ===== verification/Core_Progress.thy ===== *)
theory Core_Progress
  imports Core_System
begin

text \<open>
  When the worker's actions take effect, and concrete runs of the whole system: one in which a
  rotation of credentials reaches the core, and one in which a second rotation is lost.
\<close>

section \<open>Revocations come first\<close>

lemma sort_key_hd_min:
  "x \<in> set xs \<Longrightarrow> f (hd (sort_key f xs)) \<le> f x"
proof -
  assume "x \<in> set xs"
  then have "x \<in> set (sort_key f xs)" by simp
  moreover have "sorted (map f (sort_key f xs))" by simp
  ultimately show ?thesis by (cases "sort_key f xs") auto
qed

lemma due_order_revoke:
  "due_order a \<le> due_order b \<Longrightarrow> ob_action b = CoreActionRevoke \<Longrightarrow> ob_action a = CoreActionRevoke"
  by (auto simp: due_order_def split: if_splits)

lemma candidates_hd:
  assumes "row \<in> set (core_action_outbox d)" "ob_completed_at row = None" "ob_available_at row \<le> now"
    "ob_action row = CoreActionRevoke" "0 < limit"
  shows "\<exists>first \<in> set (core_action_outbox d). ob_action first = CoreActionRevoke \<and>
    ob_id first \<in> set (candidates now limit d)"
proof -
  define due where "due = filter (\<lambda>row. ob_completed_at row = None \<and> ob_available_at row \<le> now) (core_action_outbox d)"
  have row: "row \<in> set due" using assms by (simp add: due_def)
  then obtain first rest where sorted: "sort_key due_order due = first # rest"
    by (cases "sort_key due_order due") (metis emptyE set_empty2 set_sort, blast)
  have "first \<in> set (sort_key due_order due)" unfolding sorted by simp
  then have "first \<in> set due" by (simp only: set_sort)
  moreover have "ob_action first = CoreActionRevoke"
    using sort_key_hd_min [OF row, of due_order, unfolded sorted list.sel(1)] assms(4) by (rule due_order_revoke)
  moreover have "candidates now limit d = map ob_id (take limit (first # rest))"
    unfolding candidates_def due_def [symmetric] sorted ..
  then have "ob_id first \<in> set (candidates now limit d)" using assms(5) by (cases limit) simp_all
  ultimately show ?thesis by (auto simp: due_def)
qed

lemma claim_takes_revocations:
  assumes "claim_due now lease limit s = (Inr claimed, s')"
    and "row \<in> set (core_action_outbox (fst s))" "ob_completed_at row = None" "ob_available_at row \<le> now"
      "ob_action row = CoreActionRevoke"
  shows "has_kind CoreActionRevoke claimed"
proof -
  from assms(1) obtain s1 where one: "statement (claim_statement now lease (nat limit)) s = (Inr claimed, s1)"
    and limit: "0 < nat limit"
    by (auto simp: claim_due_def elim!: and_then_InrE split: if_splits)
  from candidates_hd [OF assms(2-5) limit] obtain first where f: "first \<in> set (core_action_outbox (fst s))"
    "ob_action first = CoreActionRevoke" "ob_id first \<in> set (candidates now (nat limit) (fst s))" by blast
  let ?ids = "candidates now (nat limit) (fst s)"
  from statement_InrD [OF one] have "set claimed = core_action_of ` lease_row ?ids (now + lease) `
      {row \<in> set (core_action_outbox (fst s)). ob_id row \<in> set ?ids}"
    by (auto simp: claim_statement_def Let_def)
  then have "core_action_of (lease_row ?ids (now + lease) first) \<in> set claimed" using f by blast
  moreover have "ca_Action (core_action_of (lease_row ?ids (now + lease) first)) = CoreActionRevoke"
    using f by (simp add: core_action_of_def)
  ultimately show ?thesis by (auto simp: has_kind_def list_ex_iff)
qed

text \<open>
  C19. A revocation takes effect with the next step. When a revocation is due and no installed
  snapshot awaits completion, a step of the worker that reports success leaves the core running
  exactly the configuration that the tables ask for, without waiting for a notice.
\<close>

theorem revocation_takes_effect:
  assumes "new_file_deployment path = Inr (se_deployment env)" and "new_handler path = Inr (se_handler env)"
    and "wk_installedAt (sy_worker sys) = 0"
    and "row \<in> set (core_action_outbox (fst (sy_tables sys)))" "ob_action row = CoreActionRevoke"
      "ob_completed_at row = None" "ob_available_at row \<le> now"
    and "system_worker_step env now sys = (Inr (), sys')"
  shows "hd_running (sy_host sys') = desired (se_core env) (fst (sy_tables sys'))"
proof -
  from core_host_of_paths [OF assms(1,2)] have host: "core_host (se_handler env) (se_deployment env)" .
  let ?e = "core_worker_env (se_core env) (se_handler env) (se_deployment env)"
  let ?s = "(sy_tables sys, sy_host sys)"
  from assms(8) obtain w s where step: "worker_step ?e now (sy_worker sys, ?s) = (Inr (), (w, s))"
    and sys': "sys' = sys\<lparr>sy_worker := w, sy_tables := fst s, sy_host := snd s\<rparr>"
    by (auto simp: system_worker_step_def split: prod.splits)
  from step assms(3) obtain claimed s1 where claim: "we_ClaimDue ?e now actionLease actionBatchLimit ?s = (Inr claimed, s1)"
    by (auto simp: worker_step_def split: if_splits sum.splits prod.splits)
  then have "claim_due now actionLease actionBatchLimit (sy_tables sys) = (Inr claimed, fst s1)"
    by (auto simp: core_worker_env_def dest!: on_tables_run)
  from claim_takes_revocations [OF this assms(4,6,7,5)]
  have "has_kind CoreActionRevoke (wk_pending (sy_worker sys) @ claimed)" by (simp add: has_kind_def)
  from core_host.revokes [OF host step assms(3) claim this] sys' show ?thesis
    by (simp add: core_host.desired_view [OF host])
qed

section \<open>Reconciliations wait for the notice\<close>

fun worker_steps :: "('c, 'r) system_env \<Rightarrow> go_time list \<Rightarrow> ('c, 'r) core_system \<Rightarrow> ('c, 'r) core_system option" where
  "worker_steps env [] sys = Some sys"
| "worker_steps env (t # ts) sys =
     (case system_worker_step env t sys of (Inl _, _) \<Rightarrow> None | (Inr _, sys1) \<Rightarrow> worker_steps env ts sys1)"

definition awaiting_restart :: "worker \<Rightarrow> bool" where
  "awaiting_restart w \<longleftrightarrow> wk_pending w \<noteq> [] \<and> wk_installedAt w = 0 \<and> wk_noticeStartedAt w \<noteq> 0"

lemma system_worker_step_run:
  assumes "system_worker_step env now sys = (r, sys')"
  shows "worker_step (core_worker_env (se_core env) (se_handler env) (se_deployment env)) now
      (sy_worker sys, (sy_tables sys, sy_host sys)) = (r, (sy_worker sys', (sy_tables sys', sy_host sys')))"
  using assms by (auto simp: system_worker_step_def split: prod.splits)

lemma worker_steps_stay:
  assumes "core_host (se_handler env) (se_deployment env)"
  shows "worker_steps env ts sys = Some sys' \<Longrightarrow>
     hd_running (sy_host sys) = desired (se_core env) (fst (sy_tables sys)) \<Longrightarrow>
     hd_running (sy_host sys') = desired (se_core env) (fst (sy_tables sys'))"
proof (induction ts arbitrary: sys)
  case Nil
  then show ?case by simp
next
  case (Cons t ts)
  then obtain u sys1 where one: "system_worker_step env t sys = (Inr u, sys1)"
    and rest: "worker_steps env ts sys1 = Some sys'"
    by (auto split: prod.splits sum.splits)
  from core_host.stays [OF assms system_worker_step_run [OF one]] Cons.prems(2)
  have "hd_running (sy_host sys1) = desired (se_core env) (fst (sy_tables sys1))"
    by (simp add: core_host.desired_view [OF assms])
  with Cons.IH [OF rest] show ?case .
qed

text \<open>
  A reconciliation takes effect within the notice period. Once the worker has announced a
  planned restart, any sequence of successful steps, one of which is at least 30 seconds after
  the notice and a minute after the last planned restart, leaves the core running exactly the
  configuration that the tables ask for.
\<close>

theorem reconciliation_takes_effect:
  assumes "new_file_deployment path = Inr (se_deployment env)" and "new_handler path = Inr (se_handler env)"
    and "awaiting_restart (sy_worker sys)"
    and "worker_steps env ts sys = Some sys'"
    and "t \<in> set ts" "wk_noticeStartedAt (sy_worker sys) + plannedNoticePeriod \<le> t"
      "wk_lastPlannedRestart (sy_worker sys) + plannedRestartLimit \<le> t"
  shows "hd_running (sy_host sys') = desired (se_core env) (fst (sy_tables sys'))"
proof -
  from core_host_of_paths [OF assms(1,2)] have host: "core_host (se_handler env) (se_deployment env)" .
  have "ready_at (sy_worker sys) \<le> t" using assms(6,7) by (simp add: ready_at_def Let_def)
  with assms(3,4,5) show ?thesis
  proof (induction ts arbitrary: sys)
    case Nil
    then show ?case by simp
  next
    case (Cons x xs)
    then obtain u sys1 where one: "system_worker_step env x sys = (Inr u, sys1)"
      and rest: "worker_steps env xs sys1 = Some sys'"
      by (auto split: prod.splits sum.splits)
    from core_host.waits [OF host system_worker_step_run [OF one]] Cons.prems(1)
    have "hd_running (sy_host sys1) = desired (se_core env) (fst (sy_tables sys1)) \<or>
        (x < ready_at (sy_worker sys) \<and> awaiting_restart (sy_worker sys1) \<and>
         ready_at (sy_worker sys1) = ready_at (sy_worker sys))"
      by (simp add: core_host.desired_view [OF host] awaiting_restart_def default_core.core.waiting_def)
    then show ?case
    proof (elim disjE conjE)
      assume "hd_running (sy_host sys1) = desired (se_core env) (fst (sy_tables sys1))"
      with worker_steps_stay [OF host rest] show ?thesis .
    next
      assume "x < ready_at (sy_worker sys)" "awaiting_restart (sy_worker sys1)"
        "ready_at (sy_worker sys1) = ready_at (sy_worker sys)"
      with Cons.IH [OF _ rest] Cons.prems(3,4) show ?thesis by auto
    qed
  qed
qed

section \<open>Concrete systems\<close>

definition sample_core_env :: "json core_env" where
  "sample_core_env = \<lparr>ce_openValue = sample_value_opener, ce_openBundle = sample_opener,
     ce_marshal = (\<lambda>doc. [doc]), ce_rc = sample_rc, ce_accepts = (\<lambda>c. True), ce_planned = Inr (),
     ce_failed = (\<lambda>failure. Inr ())\<rparr>"

definition sample_rotating_env :: "unit vpn_env" where
  "sample_rotating_env = \<lparr>env_issuer = (\<lambda>r. (Inr sample_credentials, r)),
     env_seal = (\<lambda>i g b. Inr (br_sealed (sample_sealed 8))), env_sha = (\<lambda>xs. 0), env_fmt = (\<lambda>t. [])\<rparr>"

definition sample_system_env :: "(json, unit) system_env" where
  "sample_system_env = \<lparr>se_core = sample_core_env, se_vpn = sample_rotating_env,
     se_handler = sample_handler, se_deployment = [''c'']\<rparr>"

definition sample_action :: "core_action_type \<Rightarrow> outbox_row" where
  "sample_action action = \<lparr>ob_id = 1, ob_telegram_id = 5, ob_action = action, ob_attempts = 1,
     ob_available_at = 2 * hour, ob_last_error = [], ob_completed_at = None\<rparr>"

text \<open>User 5 has just claimed access; the core runs an earlier configuration.\<close>

definition sample_system_db :: "core_action_type \<Rightarrow> vpn_db" where
  "sample_system_db action = sample_served_db
     \<lparr>vpn_users := [(5, sample_user_row Active)], credential_bundles := [(5, sample_sealed 5)],
      quota_windows := [(5, sample_quota_row)], core_action_outbox := [sample_action action], outbox_next_id := 2\<rparr>"

definition sample_system :: "core_action_type \<Rightarrow> worker \<Rightarrow> faults \<Rightarrow> (json, unit) core_system" where
  "sample_system action w fs = \<lparr>sy_worker = w, sy_tables = (sample_system_db action, fs),
     sy_host = (\<lparr>hs_files = [], hs_running = None, hs_checked = []\<rparr>, []), sy_source = ()\<rparr>"

lemma sample_paths: "new_file_deployment ''/c'' = Inr (se_deployment sample_system_env)"
    "new_handler ''/c'' = Inr (se_handler sample_system_env)"
  by code_simp+

lemma sample_env_simps [simp]: "se_core sample_system_env = sample_core_env"
  by (simp add: sample_system_env_def)

theorem core_never_stale_witness:
  "caught_up sample_system_env (system_run sample_system_env
     [Change (OpManagedRevoke 1 5 ModeSelfService (2 * hour)), WorkerStep (3 * hour)]
     (sample_system CoreActionReconcile new_worker [Fine, Lost ''EOF'']))"
  by (rule core_never_stale [OF sample_paths])
    (simp_all add: sample_system_def sample_system_db_def sample_action_def keys_ok_def caught_up_def
      some_open_iff new_worker_def)

lemma sample_revocation_step:
  "is_ok (fst (system_worker_step sample_system_env (2 * hour) (sample_system CoreActionRevoke new_worker [])))"
  by code_simp

theorem revocation_takes_effect_witness:
  "let sys' = snd (system_worker_step sample_system_env (2 * hour) (sample_system CoreActionRevoke new_worker [])) in
   hd_running (sy_host sys') = desired sample_core_env (fst (sy_tables sys'))"
proof -
  let ?run = "system_worker_step sample_system_env (2 * hour) (sample_system CoreActionRevoke new_worker [])"
  have run: "?run = (Inr (), snd ?run)"
    using sample_revocation_step by (metis is_ok_iff old.unit.exhaust prod.collapse)
  have "hd_running (sy_host (snd ?run)) = desired (se_core sample_system_env) (fst (sy_tables (snd ?run)))"
    by (rule revocation_takes_effect [OF sample_paths _ _ _ _ _ run, of "sample_action CoreActionRevoke"])
      (simp_all add: sample_system_def sample_system_db_def sample_action_def new_worker_def)
  then show ?thesis unfolding Let_def by simp
qed

text \<open>The restart has been announced half a minute ago.\<close>

definition sample_waiting :: worker where
  "sample_waiting = new_worker\<lparr>wk_pending := [core_action_of (sample_action CoreActionReconcile)],
     wk_noticeStartedAt := 2 * hour - 30 * second\<rparr>"

definition sample_waiting_system :: "faults \<Rightarrow> (json, unit) core_system" where
  "sample_waiting_system fs =
     sample_system CoreActionReconcile sample_waiting fs\<lparr>sy_tables :=
       ((sample_system_db CoreActionReconcile)\<lparr>core_action_outbox :=
          [sample_action CoreActionReconcile\<lparr>ob_available_at := 2 * hour + minute\<rparr>]\<rparr>, fs)\<rparr>"

lemma sample_waiting_steps:
  "worker_steps sample_system_env [2 * hour] (sample_waiting_system []) \<noteq> None"
  by code_simp

theorem reconciliation_takes_effect_witness:
  "\<exists>sys'. worker_steps sample_system_env [2 * hour] (sample_waiting_system []) = Some sys' \<and>
     hd_running (sy_host sys') = desired sample_core_env (fst (sy_tables sys'))"
proof -
  from sample_waiting_steps obtain sys' where
    run: "worker_steps sample_system_env [2 * hour] (sample_waiting_system []) = Some sys'" by blast
  have "hd_running (sy_host sys') = desired (se_core sample_system_env) (fst (sy_tables sys'))"
    by (rule reconciliation_takes_effect [OF sample_paths _ run, of "2 * hour"])
      (simp_all add: sample_waiting_system_def sample_system_def sample_waiting_def awaiting_restart_def new_worker_def)
  with run show ?thesis by auto
qed


end
