(* ===== verification/Recheck_Scheduler.thy ===== *)
theory Recheck_Scheduler
  imports Prelude
begin

text \<open>
  The loop that runs the recheck of all users at an interval, and the trigger that wakes it
  (\<open>internal/qualification/scheduler.go\<close>). \<open>Run\<close> and \<open>Trigger\<close> are on different goroutines and meet
  in the fields under the mutex, so the model is a step relation: a step is what happens between
  two points where the other goroutine can come in. The cycle itself is a parameter: it ends
  with the interval it returns.
\<close>

section \<open>States and steps\<close>

definition failedRecheckRetryInterval :: duration where
  "failedRecheckRetryInterval = minute"

text \<open>
  Where \<open>Run\<close> is: at the head of the loop, in the cycle, before the critical section with the
  interval to wait, in the wait (with the state of its context), after the wait with its error
  before the second critical section, or returned.
\<close>

datatype phase =
    LoopHead
  | InCycle
  | BeforeWait duration
  | InWait duration bool
  | AfterWait "go_error option"
  | Returned "go_error option"

record scheduler =
  sc_phase :: phase
  sc_wakeCancel :: bool
  sc_wakePending :: bool
  sc_done :: bool

definition start_scheduler :: scheduler where
  "start_scheduler = \<lparr>sc_phase = LoopHead, sc_wakeCancel = False, sc_wakePending = False, sc_done = False\<rparr>"

text \<open>\<open>Trigger\<close>: the wait's context is cancelled if there is one, else the wish is noted.\<close>

definition trigger :: "scheduler \<Rightarrow> scheduler" where
  "trigger s =
     (if sc_wakeCancel s
      then s\<lparr>sc_phase := (case sc_phase s of InWait d c \<Rightarrow> InWait d True | p \<Rightarrow> p)\<rparr>
      else s\<lparr>sc_wakePending := True\<rparr>)"

text \<open>After \<open>RunOnce\<close> returned an interval\<close>

definition after_cycle :: "duration \<Rightarrow> scheduler \<Rightarrow> scheduler" where
  "after_cycle interval s = s\<lparr>sc_phase :=
     (if sc_done s then Returned None
      else BeforeWait (if interval \<le> 0 then failedRecheckRetryInterval else interval))\<rparr>"

text \<open>The first critical section\<close>

definition enter_wait :: "duration \<Rightarrow> scheduler \<Rightarrow> scheduler" where
  "enter_wait interval s =
     (if sc_wakePending s then s\<lparr>sc_wakePending := False, sc_phase := LoopHead\<rparr>
      else s\<lparr>sc_wakeCancel := True, sc_phase := InWait interval (sc_done s)\<rparr>)"

text \<open>
  The second critical section and what follows it. \<open>cancelWait\<close> has been called before, so that
  the wait's context is done in any case and its error is not nil.
\<close>

definition leave_wait :: "go_error option \<Rightarrow> bool \<Rightarrow> scheduler \<Rightarrow> scheduler" where
  "leave_wait err waitContextDone s = s\<lparr>sc_wakeCancel := False,
     sc_phase := (case err of
        None \<Rightarrow> LoopHead
      | Some e \<Rightarrow>
          if sc_done s then Returned None
          else if errors_is e ''context canceled'' \<or> waitContextDone then LoopHead
          else Returned (Some e))\<rparr>"

datatype sched_event =
    CycleStarts
  | CycleEnds duration
  | EntersWait
  | TimerFires duration
  | WaitFails go_error
  | LeavesWait
  | Triggered
  | ContextDone
  | Stops

text \<open>
  The wait returns nil when its timer fires, which only an uncancelled wait can see, or an
  error: of its context when that is done, or one of its own.
\<close>

inductive sched_step :: "scheduler \<Rightarrow> sched_event \<Rightarrow> scheduler \<Rightarrow> bool" where
  stop: "sc_phase s = LoopHead \<Longrightarrow> sc_done s \<Longrightarrow> sched_step s Stops (s\<lparr>sc_phase := Returned None\<rparr>)"
| cycle: "sc_phase s = LoopHead \<Longrightarrow> \<not> sc_done s \<Longrightarrow> sched_step s CycleStarts (s\<lparr>sc_phase := InCycle\<rparr>)"
| cycled: "sc_phase s = InCycle \<Longrightarrow> sched_step s (CycleEnds interval) (after_cycle interval s)"
| enter: "sc_phase s = BeforeWait interval \<Longrightarrow> sched_step s EntersWait (enter_wait interval s)"
| timer: "sc_phase s = InWait interval False \<Longrightarrow> sched_step s (TimerFires interval) (s\<lparr>sc_phase := AfterWait None\<rparr>)"
| failed: "sc_phase s = InWait interval c \<Longrightarrow> sched_step s (WaitFails e) (s\<lparr>sc_phase := AfterWait (Some e)\<rparr>)"
| leave: "sc_phase s = AfterWait err \<Longrightarrow> sched_step s LeavesWait (leave_wait err True s)"
| triggered: "sched_step s Triggered (trigger s)"
| done_: "sched_step s ContextDone (s\<lparr>sc_done := True,
      sc_phase := (case sc_phase s of InWait d c \<Rightarrow> InWait d True | p \<Rightarrow> p)\<rparr>)"

inductive_cases sched_stepE: "sched_step s ev s'"

inductive_simps timer_step: "sched_step s (TimerFires d) s'"

inductive_simps return_step: "sched_step s LeavesWait s'"

inductive sched_run :: "sched_event list \<Rightarrow> scheduler \<Rightarrow> bool" where
  run_start: "sched_run [] start_scheduler"
| run_step: "sched_run tr s \<Longrightarrow> sched_step s ev s' \<Longrightarrow> sched_run (tr @ [ev]) s'"

section \<open>A trigger is not lost\<close>

text \<open>Whether there was a trigger that no cycle has been started after.\<close>

fun owed :: "sched_event list \<Rightarrow> bool \<Rightarrow> bool" where
  "owed [] b = b"
| "owed (Triggered # tr) b = owed tr True"
| "owed (CycleStarts # tr) b = owed tr False"
| "owed (ev # tr) b = owed tr b"

definition after_event :: "sched_event \<Rightarrow> bool \<Rightarrow> bool" where
  "after_event ev b = (case ev of Triggered \<Rightarrow> True | CycleStarts \<Rightarrow> False | _ \<Rightarrow> b)"

lemma owed_snoc: "owed (tr @ [ev]) b = after_event ev (owed tr b)"
  by (induction tr b rule: owed.induct) (cases ev; simp add: after_event_def)+

text \<open>
  The link between the flags and where the loop is: the wait's cancel function is there exactly
  from the wait's beginning to its clearing, and an owed cycle is noted, or the wait is
  cancelled, or the loop is past it.
\<close>

definition sched_inv :: "bool \<Rightarrow> scheduler \<Rightarrow> bool" where
  "sched_inv due s \<longleftrightarrow>
     (sc_wakeCancel s \<longleftrightarrow> (\<exists>d c. sc_phase s = InWait d c) \<or> (\<exists>e. sc_phase s = AfterWait e)) \<and>
     (due \<longrightarrow> (case sc_phase s of InCycle \<Rightarrow> sc_wakePending s | BeforeWait d \<Rightarrow> sc_wakePending s
        | InWait d c \<Rightarrow> c | _ \<Rightarrow> True))"

lemma sched_inv_step: "sched_step s ev s' \<Longrightarrow> sched_inv due s \<Longrightarrow> sched_inv (after_event ev due) s'"
  by (erule sched_stepE)
     (auto simp: sched_inv_def after_event_def trigger_def after_cycle_def enter_wait_def leave_wait_def
       split: phase.splits option.splits if_splits)

lemma sched_run_inv: "sched_run tr s \<Longrightarrow> sched_inv (owed tr False) s"
  by (induction rule: sched_run.induct)
     (simp_all add: owed_snoc sched_inv_step, simp add: sched_inv_def start_scheduler_def)

text \<open>
  C27. A trigger is not lost, wherever it falls between the steps of the loop: as long as no cycle has
  begun since the trigger, no wait runs to the end of its timer - if the loop was waiting, the
  wait is cancelled, and if it was in a cycle or on the way to the wait, it does not wait.
\<close>

theorem trigger_not_lost:
  assumes "sched_run tr s" "owed tr False"
  shows "\<not> sched_step s (TimerFires d) s'"
  using sched_run_inv [OF assms(1)] assms(2) by (auto simp: sched_inv_def timer_step)

lemma trigger_not_lost_witness:
  "\<exists>s. sched_run [CycleStarts, Triggered, CycleEnds hour, EntersWait] s \<and> \<not> sched_step s (TimerFires hour) s \<and>
     sc_phase s = LoopHead"
proof -
  let ?s = "start_scheduler" and ?s1 = "start_scheduler\<lparr>sc_phase := InCycle\<rparr>"
  have "sched_run ([] @ [CycleStarts]) ?s1"
    by (intro run_step [OF run_start] sched_step.cycle) (simp_all add: start_scheduler_def)
  then have "sched_run (([] @ [CycleStarts]) @ [Triggered]) (trigger ?s1)"
    by (rule run_step) (rule sched_step.triggered)
  then have "sched_run ((([] @ [CycleStarts]) @ [Triggered]) @ [CycleEnds hour]) (after_cycle hour (trigger ?s1))"
    by (rule run_step) (rule sched_step.cycled, simp add: trigger_def start_scheduler_def)
  then have run: "sched_run (((([] @ [CycleStarts]) @ [Triggered]) @ [CycleEnds hour]) @ [EntersWait])
      (enter_wait hour (after_cycle hour (trigger ?s1)))"
    by (rule run_step) (rule sched_step.enter, simp add: trigger_def start_scheduler_def after_cycle_def)
  then have "\<not> sched_step (enter_wait hour (after_cycle hour (trigger ?s1))) (TimerFires hour)
      (enter_wait hour (after_cycle hour (trigger ?s1)))"
    by (rule trigger_not_lost) simp
  with run show ?thesis
    by (intro exI [of _ "enter_wait hour (after_cycle hour (trigger ?s1))"])
       (simp add: trigger_def start_scheduler_def after_cycle_def enter_wait_def)
qed

text \<open>The loop never returns an error of the wait: by then the wait's context is always done.\<close>

lemma wait_errors_not_returned: "sched_step s LeavesWait s' \<Longrightarrow> sc_phase s' \<noteq> Returned (Some e)"
  by (auto simp: return_step leave_wait_def split: option.splits if_splits)

end
