(* ===== verification/Auth.thy ===== *)
theory Auth
  imports Encoding
begin

text \<open>
  Administrator authentication (\<open>internal/auth\<close>): roles and role changes (\<open>rbac.go\<close>), one-time
  login codes (\<open>login_code.go\<close>), sessions (\<open>session.go\<close>) and the exchange of a code for a
  session (\<open>login_flow.go\<close>). The HMAC digest under the service's key is a parameter \<open>dig\<close>, the
  clock's reading a parameter \<open>now\<close> of each call, the byte source and the store are states.
\<close>

section \<open>Roles\<close>

datatype role = RoleOwner | RoleAdministrator | NoRole | OtherRole string

datatype permission =
    ManageUsers | ManageApprovals | ManageQuota | ViewAudit | ManageSecrets | ManageRoles
  | ManageVPNSettings | ManageGlobalSettings | OtherPermission string

abbreviation "ErrRoleManagementForbidden \<equiv> Sentinel ''role management is forbidden''"
abbreviation "ErrRootOwnerProtected \<equiv> Sentinel ''root owner cannot be removed or demoted''"
abbreviation "ErrLastOwnerProtected \<equiv> Sentinel ''last owner cannot be removed or demoted''"
abbreviation "ErrInvalidRoleChange \<equiv> Sentinel ''role change is invalid''"

definition valid_role :: "role \<Rightarrow> bool" where
  "valid_role r \<longleftrightarrow> r = RoleOwner \<or> r = RoleAdministrator"

definition role_allows :: "role \<Rightarrow> permission \<Rightarrow> bool" where
  "role_allows r p =
     (case p of
        ManageUsers \<Rightarrow> r = RoleOwner \<or> r = RoleAdministrator
      | ManageApprovals \<Rightarrow> r = RoleOwner \<or> r = RoleAdministrator
      | ManageQuota \<Rightarrow> r = RoleOwner \<or> r = RoleAdministrator
      | ViewAudit \<Rightarrow> r = RoleOwner \<or> r = RoleAdministrator
      | ManageSecrets \<Rightarrow> r = RoleOwner
      | ManageRoles \<Rightarrow> r = RoleOwner
      | ManageVPNSettings \<Rightarrow> r = RoleOwner
      | ManageGlobalSettings \<Rightarrow> r = RoleOwner
      | OtherPermission _ \<Rightarrow> False)"

text \<open>The empty string, which stands for "not an administrator", is \<open>NoRole\<close>; a nil new role is a removal.\<close>

definition validate_role_change :: "role \<Rightarrow> role \<Rightarrow> bool \<Rightarrow> int \<Rightarrow> role option \<Rightarrow> go_error option" where
  "validate_role_change actorRole targetRole targetIsRoot ownerCount newRole =
     (if actorRole \<noteq> RoleOwner then Some ErrRoleManagementForbidden
      else if ownerCount < 0 \<or>
              (targetRole \<noteq> NoRole \<and> targetRole \<noteq> RoleOwner \<and> targetRole \<noteq> RoleAdministrator)
      then Some ErrInvalidRoleChange
      else if (case newRole of None \<Rightarrow> False | Some r \<Rightarrow> r \<noteq> RoleOwner \<and> r \<noteq> RoleAdministrator)
      then Some ErrInvalidRoleChange
      else
        let isRemovalOrDemotion = (case newRole of None \<Rightarrow> True | Some r \<Rightarrow> r \<noteq> RoleOwner)
        in if targetIsRoot \<and> isRemovalOrDemotion then Some ErrRootOwnerProtected
           else if targetRole = RoleOwner \<and> ownerCount \<le> 1 \<and> isRemovalOrDemotion
           then Some ErrLastOwnerProtected
           else None)"

section \<open>Login codes\<close>

record administrator =
  adm_TelegramID :: int
  adm_Role :: role
  adm_Root :: bool
  adm_Active :: bool

record login_code_record =
  lc_TelegramID :: int
  lc_Administrator :: administrator
  lc_Digest :: "byte list"
  lc_ExpiresAt :: go_time

abbreviation "ErrAdministratorUnauthorized \<equiv> Sentinel ''administrator is not authorized''"
abbreviation "ErrLoginCodeInvalid \<equiv> Sentinel ''login code is invalid or expired''"

abbreviation loginCodeLength :: nat where "loginCodeLength \<equiv> 8"
abbreviation loginCodeLifetime :: duration where "loginCodeLifetime \<equiv> 5 * minute"

definition loginCodeAlphabet :: string where
  "loginCodeAlphabet = ''ABCDEFGHIJKLMNOPQRSTUVWXYZabcdefghijklmnopqrstuvwxyz0123456789''"

text \<open>
  The loop of \<open>generateCode\<close>: a byte whose low six bits are not an index of the alphabet is
  thrown away and another is read, until eight characters are there or a read fails.
\<close>

fun generate_code :: "string \<Rightarrow> (byte list, string) call" where
  "generate_code code [] =
     (if length code < loginCodeLength then (Inl (Err ''EOF''), []) else (Inr code, []))"
| "generate_code code (b # src) =
     (if length code < loginCodeLength
      then let index = unat (b AND 63)
           in if length loginCodeAlphabet \<le> index then generate_code code src
              else generate_code (code @ [loginCodeAlphabet ! index]) src
      else (Inr code, b # src))"

definition valid_code_character :: "char \<Rightarrow> bool" where
  "valid_code_character c \<longleftrightarrow>
     (of_char c \<ge> (of_char CHR ''A'' :: nat) \<and> of_char c \<le> (of_char CHR ''Z'' :: nat)) \<or>
     (of_char c \<ge> (of_char CHR ''a'' :: nat) \<and> of_char c \<le> (of_char CHR ''z'' :: nat)) \<or>
     (of_char c \<ge> (of_char CHR ''0'' :: nat) \<and> of_char c \<le> (of_char CHR ''9'' :: nat))"

definition valid_login_code :: "string \<Rightarrow> bool" where
  "valid_login_code code \<longleftrightarrow>
     length code = loginCodeLength \<and> list_all valid_code_character code"

text \<open>
  \<open>LoginCodeService.Issue\<close>. \<open>findActive\<close> is \<open>AdministratorLookup.FindActive\<close>, \<open>replace\<close> the store's
  \<open>Replace\<close>; the state is the store \<open>'s\<close> with the bytes left in the random source.
\<close>

definition issue_code ::
    "(int \<Rightarrow> ('s, administrator) call) \<Rightarrow> (login_code_record \<Rightarrow> ('s, unit) call)
       \<Rightarrow> (string \<Rightarrow> byte list) \<Rightarrow> go_time \<Rightarrow> int \<Rightarrow> ('s \<times> byte list, string) call" where
  "issue_code findActive replace dig now telegramID st =
     (let (s, src) = st in
      case findActive telegramID s of
        (Inl _, s1) \<Rightarrow> (Inl ErrAdministratorUnauthorized, (s1, src))
      | (Inr administrator, s1) \<Rightarrow>
          if adm_TelegramID administrator \<noteq> telegramID \<or> \<not> adm_Active administrator
             \<or> \<not> valid_role (adm_Role administrator)
          then (Inl ErrAdministratorUnauthorized, (s1, src))
          else case generate_code [] src of
            (Inl e, src1) \<Rightarrow> (Inl e, (s1, src1))
          | (Inr code, src1) \<Rightarrow>
              let record = \<lparr>lc_TelegramID = telegramID, lc_Administrator = administrator,
                            lc_Digest = dig code, lc_ExpiresAt = now + loginCodeLifetime\<rparr>
              in case replace record s1 of
                   (Inl e, s2) \<Rightarrow> (Inl e, (s2, src1))
                 | (Inr _, s2) \<Rightarrow> (Inr code, (s2, src1)))"

text \<open>\<open>LoginCodeService.Consume\<close>; \<open>consume\<close> is the store's \<open>Consume\<close>.\<close>

definition consume_code ::
    "(int \<Rightarrow> byte list \<Rightarrow> go_time \<Rightarrow> ('s, administrator) call) \<Rightarrow> (string \<Rightarrow> byte list)
       \<Rightarrow> go_time \<Rightarrow> int \<Rightarrow> string \<Rightarrow> ('s, administrator) call" where
  "consume_code consume dig now telegramID code s =
     (if telegramID \<le> 0 \<or> \<not> valid_login_code code then (Inl ErrLoginCodeInvalid, s)
      else consume telegramID (dig code) now s)"

section \<open>Sessions\<close>

record session_record =
  se_Digest :: "byte list"
  se_Administrator :: administrator
  se_CreatedAt :: go_time
  se_LastSeenAt :: go_time
  se_AbsoluteExpiresAt :: go_time

abbreviation "ErrSessionInvalid \<equiv> Sentinel ''session is invalid or expired''"
abbreviation sessionTokenBytes :: nat where "sessionTokenBytes \<equiv> 32"
abbreviation sessionIdleTimeout :: duration where "sessionIdleTimeout \<equiv> 12 * hour"
abbreviation sessionAbsoluteLifetime :: duration where "sessionAbsoluteLifetime \<equiv> 7 * 24 * hour"

definition valid_session_token :: "string \<Rightarrow> bool" where
  "valid_session_token token = canonical_b64 sessionTokenBytes token"

text \<open>\<open>SessionService.Create\<close> over the store's \<open>Create\<close>.\<close>

definition create_session ::
    "(session_record \<Rightarrow> ('s, unit) call) \<Rightarrow> (string \<Rightarrow> byte list) \<Rightarrow> go_time
       \<Rightarrow> administrator \<Rightarrow> ('s \<times> byte list, string) call" where
  "create_session create dig now administrator st =
     (let (s, src) = st in
      if adm_TelegramID administrator \<le> 0 \<or> \<not> adm_Active administrator
         \<or> \<not> valid_role (adm_Role administrator)
      then (Inl ErrAdministratorUnauthorized, st)
      else case read_full sessionTokenBytes src of
        (Inl e, src1) \<Rightarrow> (Inl e, (s, src1))
      | (Inr rawToken, src1) \<Rightarrow>
          let token = b64_encode rawToken;
              record = \<lparr>se_Digest = dig token, se_Administrator = administrator,
                        se_CreatedAt = now, se_LastSeenAt = now,
                        se_AbsoluteExpiresAt = now + sessionAbsoluteLifetime\<rparr>
          in case create record s of
               (Inl e, s1) \<Rightarrow> (Inl e, (s1, src1))
             | (Inr _, s1) \<Rightarrow> (Inr token, (s1, src1)))"

text \<open>\<open>SessionService.Authenticate\<close> over the store's \<open>AuthenticateAndTouch\<close>.\<close>

definition authenticate ::
    "(byte list \<Rightarrow> go_time \<Rightarrow> duration \<Rightarrow> ('s, administrator) call) \<Rightarrow> (string \<Rightarrow> byte list)
       \<Rightarrow> go_time \<Rightarrow> string \<Rightarrow> ('s, administrator) call" where
  "authenticate touch dig now token s =
     (if \<not> valid_session_token token then (Inl ErrSessionInvalid, s)
      else case touch (dig token) now sessionIdleTimeout s of
        (Inl _, s1) \<Rightarrow> (Inl ErrSessionInvalid, s1)
      | (Inr administrator, s1) \<Rightarrow>
          if adm_TelegramID administrator \<le> 0 \<or> \<not> adm_Active administrator
             \<or> \<not> valid_role (adm_Role administrator)
          then (Inl ErrSessionInvalid, s1)
          else (Inr administrator, s1))"

definition revoke_session ::
    "(byte list \<Rightarrow> ('s, unit) call) \<Rightarrow> (string \<Rightarrow> byte list) \<Rightarrow> string \<Rightarrow> ('s, unit) call" where
  "revoke_session delete dig token s =
     (if \<not> valid_session_token token then (Inl ErrSessionInvalid, s) else delete (dig token) s)"

definition revoke_all_sessions :: "(int \<Rightarrow> ('s, unit) call) \<Rightarrow> int \<Rightarrow> ('s, unit) call" where
  "revoke_all_sessions deleteAll telegramID s =
     (if telegramID \<le> 0 then (Inl ErrSessionInvalid, s) else deleteAll telegramID s)"

section \<open>Exchanging a code for a session\<close>

abbreviation csrfTokenBytes :: nat where "csrfTokenBytes \<equiv> 32"

text \<open>
  \<open>LoginFlow.Exchange\<close>: the CSRF token is drawn before the code is consumed, so a failing
  source does not use up a code. \<open>codes\<close> and \<open>sessions\<close> are the two services.
\<close>

definition exchange ::
    "(int \<Rightarrow> string \<Rightarrow> ('s \<times> byte list, administrator) call)
       \<Rightarrow> (administrator \<Rightarrow> ('s \<times> byte list, string) call)
       \<Rightarrow> int \<Rightarrow> string \<Rightarrow> ('s \<times> byte list, string \<times> string) call" where
  "exchange codes sessions telegramID code st =
     (let (s, src) = st in
      case read_full csrfTokenBytes src of
        (Inl e, src1) \<Rightarrow> (Inl e, (s, src1))
      | (Inr rawCSRFToken, src1) \<Rightarrow>
          (case codes telegramID code (s, src1) of
             (Inl e, st1) \<Rightarrow> (Inl e, st1)
           | (Inr administrator, st1) \<Rightarrow>
               (case sessions administrator st1 of
                  (Inl e, st2) \<Rightarrow> (Inl e, st2)
                | (Inr sessionToken, st2) \<Rightarrow>
                    (Inr (sessionToken, b64_encode rawCSRFToken), st2))))"

end
