(* ===== verification/Web_Request.thy ===== *)
theory Web_Request
  imports Auth Addresses Generator
begin

text \<open>
  What the handlers of \<open>internal/httpapi\<close> read from a request: the address it came from
  (\<open>source_ip.go\<close>), the session cookie and the CSRF tokens, JSON bodies and the numbers in paths and
  queries (\<open>handler.go\<close>, \<open>management.go\<close>, \<open>audit.go\<close>, \<open>qualification_rules.go\<close>), and the answers.
  The parsers of headers, queries and JSON values belong to the standard library: a request gives
  its headers, cookies and query values by name, a decoder is a parameter.
\<close>

section \<open>Requests and answers\<close>

text \<open>
  An absent header, query or path value reads as the empty text. \<open>rq_MediaType\<close> is the result of
  \<open>mime.ParseMediaType\<close> on the content type.
\<close>

record http_request =
  rq_RemoteAddr :: string
  rq_Header :: "string \<Rightarrow> string"
  rq_Cookie :: "string \<Rightarrow> string option"
  rq_Query :: "string \<Rightarrow> string"
  rq_PathValue :: "string \<Rightarrow> string"
  rq_MediaType :: "string option"
  rq_Body :: string

datatype 'b http_body = ErrorBody string | JSONBody 'b | TextBody string string | NoBody

record set_cookie =
  ck_Name :: string
  ck_Value :: string
  ck_MaxAge :: int
  ck_HttpOnly :: bool

record 'b http_response =
  rs_Code :: int
  rs_RetryAfter :: string
  rs_Cookies :: "set_cookie list"
  rs_Body :: "'b http_body"

definition write_error :: "int \<Rightarrow> string \<Rightarrow> 'b http_response" where
  "write_error code reason = \<lparr>rs_Code = code, rs_RetryAfter = '''', rs_Cookies = [], rs_Body = ErrorBody reason\<rparr>"

definition write_json :: "int \<Rightarrow> 'b \<Rightarrow> 'b http_response" where
  "write_json code x = \<lparr>rs_Code = code, rs_RetryAfter = '''', rs_Cookies = [], rs_Body = JSONBody x\<rparr>"

definition write_no_content :: "'b http_response" where
  "write_no_content = \<lparr>rs_Code = 204, rs_RetryAfter = '''', rs_Cookies = [], rs_Body = NoBody\<rparr>"

lemma response_codes [simp]:
  "rs_Code (write_error c r) = c" "rs_Code (write_json c x) = c" "rs_Code write_no_content = 204"
  "rs_Cookies (write_error c r) = []" "rs_Cookies (write_json c x) = []" "rs_Cookies write_no_content = []"
  by (simp_all add: write_error_def write_json_def write_no_content_def)

section \<open>Quoted text\<close>

text \<open>
  \<open>strconv.Unquote\<close> on text in double quotes. The length of the UTF-8 encoding at the head of a
  text, if there is a valid one:
\<close>

definition continuation :: "nat \<Rightarrow> nat \<Rightarrow> string \<Rightarrow> bool" where
  "continuation low high s = (case s of [] \<Rightarrow> False | c # cs \<Rightarrow> low \<le> (of_char c :: nat) \<and> (of_char c :: nat) \<le> high)"

definition rune_length :: "string \<Rightarrow> nat option" where
  "rune_length s =
     (case s of [] \<Rightarrow> None
      | c # t \<Rightarrow>
          let n = of_char c :: nat; more = (\<lambda>k. continuation 0x80 0xBF (drop k t)) in
          if n < 0x80 then Some 1
          else if 0xC2 \<le> n \<and> n \<le> 0xDF then (if more 0 then Some 2 else None)
          else if 0xE0 \<le> n \<and> n \<le> 0xEF then
            (if continuation (if n = 0xE0 then 0xA0 else 0x80) (if n = 0xED then 0x9F else 0xBF) t \<and> more 1
             then Some 3 else None)
          else if 0xF0 \<le> n \<and> n \<le> 0xF4 then
            (if continuation (if n = 0xF0 then 0x90 else 0x80) (if n = 0xF4 then 0x8F else 0xBF) t \<and> more 1 \<and> more 2
             then Some 4 else None)
          else None)"

definition encode_rune :: "nat \<Rightarrow> string" where
  "encode_rune n =
     map char_of (if n < 0x80 then [n]
       else if n < 0x800 then [0xC0 + n div 64, 0x80 + n mod 64]
       else if n < 0x10000 then [0xE0 + n div 4096, 0x80 + n div 64 mod 64, 0x80 + n mod 64]
       else [0xF0 + n div 262144, 0x80 + n div 4096 mod 64, 0x80 + n div 64 mod 64, 0x80 + n mod 64])"

definition replacement_rune :: string where
  "replacement_rune = encode_rune 0xFFFD"

text \<open>\<open>n\<close> digits of a base after \<open>\\x\<close>, \<open>\\u\<close>, \<open>\\U\<close> or in an octal escape.\<close>

definition escape_number :: "nat \<Rightarrow> nat \<Rightarrow> string \<Rightarrow> nat option" where
  "escape_number base k s =
     (if length s < k then None
      else case all_some (map hex_digit_value (take k s)) of
        None \<Rightarrow> None
      | Some ds \<Rightarrow> if list_all (\<lambda>d. d < base) ds then Some (nat (number_of (int base) 0 ds)) else None)"

definition valid_rune :: "nat \<Rightarrow> bool" where
  "valid_rune n \<longleftrightarrow> n < 0xD800 \<or> (0xDFFF < n \<and> n \<le> 0x10FFFF)"

text \<open>One character of \<open>UnquoteChar\<close>, as the bytes it adds, and how much of the text it takes.\<close>

definition simple_escape :: "char \<Rightarrow> nat option" where
  "simple_escape c =
     map_of (zip ''abfnrtv'' [7, 8, 12, 10, 13, 9, 11]) c"

definition unquote_escape :: "string \<Rightarrow> (string \<times> nat) option" where
  "unquote_escape s =
     (case s of [] \<Rightarrow> None
      | c # t \<Rightarrow>
          (case simple_escape c of
             Some n \<Rightarrow> Some ([char_of n], 2)
           | None \<Rightarrow>
               if c = CHR ''x'' then map_option (\<lambda>n. ([char_of n], 4)) (escape_number 16 2 t)
               else if c = CHR ''u'' then
                 Option.bind (escape_number 16 4 t) (\<lambda>n. if valid_rune n then Some (encode_rune n, 6) else None)
               else if c = CHR ''U'' then
                 Option.bind (escape_number 16 8 t) (\<lambda>n. if valid_rune n then Some (encode_rune n, 10) else None)
               else if c \<in> set ''01234567'' then
                 Option.bind (escape_number 8 3 s) (\<lambda>n. if n \<le> 255 then Some ([char_of n], 4) else None)
               else if c = CHR 0x5C \<or> c = CHR 0x22 then Some ([c], 2)
               else None))"

definition unquote_char :: "string \<Rightarrow> (string \<times> nat) option" where
  "unquote_char s =
     (case s of [] \<Rightarrow> None
      | c # t \<Rightarrow>
          if c = CHR 0x22 \<or> c = CHR 0x0A then None
          else if c = CHR 0x5C then unquote_escape t
          else case rune_length s of
            Some k \<Rightarrow> Some (take k s, k)
          | None \<Rightarrow> Some (replacement_rune, 1))"

text \<open>The loop up to the closing quote, which has to be the end; the first number bounds the rounds.\<close>

fun unquote_rest :: "nat \<Rightarrow> string \<Rightarrow> string \<Rightarrow> string option" where
  "unquote_rest 0 acc s = None"
| "unquote_rest (Suc n) acc s =
     (if s = [] then None
      else if hd s = CHR 0x22 then (if tl s = [] then Some acc else None)
      else case unquote_char s of None \<Rightarrow> None | Some (x, k) \<Rightarrow> unquote_rest n (acc @ x) (drop k s))"

definition unquote :: "string \<Rightarrow> string option" where
  "unquote s = (if length s < 2 then None else unquote_rest (length s) '''' (tl s))"

section \<open>The source address\<close>

text \<open>\<open>netip.ParseAddrPort\<close>, of which the address is used.\<close>

definition last_colon :: "string \<Rightarrow> (string \<times> string) option" where
  "last_colon s =
     (let port = rev (takeWhile (\<lambda>c. c \<noteq> CHR '':'') (rev s)) in
      if length port = length s then None else Some (take (length s - length port - 1) s, port))"

definition parse_addr_port :: "string \<Rightarrow> ip_addr option" where
  "parse_addr_port s =
     (case last_colon s of None \<Rightarrow> None
      | Some (ip, port) \<Rightarrow>
          if ip = '''' \<or> port = '''' then None
          else
            let bracketed = (hd ip = CHR ''['') in
            if bracketed \<and> (length ip < 2 \<or> last ip \<noteq> CHR '']'') then None
            else case (parse_uint 16 port, parse_addr (if bracketed then butlast (tl ip) else ip)) of
              (Some p, Some a) \<Rightarrow> if bracketed = is_v6 a then Some a else None
            | _ \<Rightarrow> None)"

text \<open>\<open>netip.Prefix.Contains\<close>\<close>

record ip_prefix =
  px_Addr :: ip_addr
  px_Bits :: nat

definition address_bytes :: "ip_addr \<Rightarrow> byte list" where
  "address_bytes a = (case a of IPv4 bs \<Rightarrow> bs | IPv6 bs zone \<Rightarrow> bs)"

definition address_bits :: "ip_addr \<Rightarrow> bool list" where
  "address_bits a = concat (map (\<lambda>b :: byte. map (\<lambda>k. bit b k) (rev [0..<8])) (address_bytes a))"

definition has_zone :: "ip_addr \<Rightarrow> bool" where
  "has_zone a = (case a of IPv4 bs \<Rightarrow> False | IPv6 bs zone \<Rightarrow> zone \<noteq> '''')"

definition prefix_contains :: "ip_prefix \<Rightarrow> ip_addr \<Rightarrow> bool" where
  "prefix_contains p a \<longleftrightarrow> \<not> has_zone a \<and> is_v4 a = is_v4 (px_Addr p) \<and>
     take (px_Bits p) (address_bits a) = take (px_Bits p) (address_bits (px_Addr p))"

definition parse_remote_address :: "string \<Rightarrow> ip_addr option" where
  "parse_remote_address v =
     (let host = (case split_host_port v of None \<Rightarrow> v | Some (h, port) \<Rightarrow> h) in
      map_option unmap (parse_addr (trim_space host)))"

definition parse_forwarded_address :: "string \<Rightarrow> ip_addr option" where
  "parse_forwarded_address v =
     (case parse_addr v of
        Some a \<Rightarrow> Some (unmap a)
      | None \<Rightarrow>
     (case parse_addr_port v of
        Some a \<Rightarrow> Some (unmap a)
      | None \<Rightarrow>
          if v \<noteq> '''' \<and> hd v = CHR ''['' \<and> last v = CHR '']''
          then map_option unmap (parse_addr (let t = tl v in if t \<noteq> '''' \<and> last t = CHR '']'' then butlast t else t))
          else None))"

text \<open>\<open>strings.Cut\<close> at a character, with what follows it if it is there.\<close>

definition cut_at :: "char \<Rightarrow> string \<Rightarrow> string \<times> string option" where
  "cut_at c s =
     (let before = takeWhile (\<lambda>x. x \<noteq> c) s in
      (before, if length before = length s then None else Some (drop (length before + 1) s)))"

text \<open>\<open>strings.EqualFold\<close> with \<open>"for"\<close>: none of its letters folds to anything but its two ASCII forms.\<close>

definition names_for :: "string \<Rightarrow> bool" where
  "names_for s \<longleftrightarrow> length s = 3 \<and> s ! 0 \<in> set ''fF'' \<and> s ! 1 \<in> set ''oO'' \<and> s ! 2 \<in> set ''rR''"

fun forwarded_for :: "string list \<Rightarrow> ip_addr option" where
  "forwarded_for [] = None"
| "forwarded_for (parameter # rest) =
     (case cut_at CHR ''='' (trim_space parameter) of
        (name, None) \<Rightarrow> forwarded_for rest
      | (name, Some v) \<Rightarrow>
          if \<not> names_for name then forwarded_for rest
          else
            let raw = trim_space v in
            if raw \<noteq> '''' \<and> hd raw = CHR 0x22
            then Option.bind (unquote raw) parse_forwarded_address
            else parse_forwarded_address raw)"

definition parse_forwarded :: "string \<Rightarrow> ip_addr option" where
  "parse_forwarded v = forwarded_for (split_at CHR '';'' (fst (cut_at CHR '','' v)))"

definition is_trusted :: "ip_prefix list \<Rightarrow> ip_addr \<Rightarrow> bool" where
  "is_trusted trusted a = list_ex (\<lambda>p. prefix_contains p a) trusted"

definition resolve_source :: "ip_prefix list \<Rightarrow> http_request \<Rightarrow> ip_addr option" where
  "resolve_source trusted rq =
     (case parse_remote_address (rq_RemoteAddr rq) of
        None \<Rightarrow> None
      | Some peer \<Rightarrow>
          if \<not> is_trusted trusted peer then Some peer
          else
            let forwarded = rq_Header rq ''Forwarded''; for = rq_Header rq ''X-Forwarded-For'' in
            if forwarded \<noteq> '''' then
              (case parse_forwarded forwarded of Some a \<Rightarrow> Some a | None \<Rightarrow> Some peer)
            else if for \<noteq> '''' then
              (case parse_addr (trim_space (fst (cut_at CHR '','' for))) of
                 Some a \<Rightarrow> Some (unmap a) | None \<Rightarrow> Some peer)
            else Some peer)"

lemma untrusted_peer_is_source:
  "parse_remote_address (rq_RemoteAddr rq) = Some peer \<Longrightarrow> \<not> is_trusted trusted peer \<Longrightarrow>
     resolve_source trusted rq = Some peer"
  by (simp add: resolve_source_def)

section \<open>Who asks\<close>

definition csrf_token_ok :: "string \<Rightarrow> bool" where
  "csrf_token_ok token = canonical_b64 32 token"

definition valid_csrf :: "http_request \<Rightarrow> bool" where
  "valid_csrf rq \<longleftrightarrow>
     (case rq_Cookie rq ''vpn_csrf_token'' of
        None \<Rightarrow> False
      | Some cookie \<Rightarrow>
          let header = rq_Header rq ''X-CSRF-Token'' in
          csrf_token_ok cookie \<and> csrf_token_ok header \<and> b64_decode cookie = b64_decode header)"

text \<open>
  \<open>authenticateRequest\<close> and \<open>authorize\<close>: the answer that refuses the request, or the session
  token and the administrator.
\<close>

definition authenticate_request ::
    "(string \<Rightarrow> ('w, administrator) call) \<Rightarrow> http_request \<Rightarrow> 'w \<Rightarrow> ('b http_response + string \<times> administrator) \<times> 'w" where
  "authenticate_request authenticator rq w =
     (case rq_Cookie rq ''vpn_admin_session'' of
        None \<Rightarrow> (Inl (write_error 401 ''session_invalid''), w)
      | Some token \<Rightarrow>
          if token = '''' then (Inl (write_error 401 ''session_invalid''), w)
          else case authenticator token w of
            (Inl e, w1) \<Rightarrow> (Inl (write_error 401 ''session_invalid''), w1)
          | (Inr administrator, w1) \<Rightarrow> (Inr (token, administrator), w1))"

definition authorize ::
    "(string \<Rightarrow> ('w, administrator) call) \<Rightarrow> permission \<Rightarrow> bool \<Rightarrow> http_request \<Rightarrow> 'w
       \<Rightarrow> ('b http_response + string \<times> administrator) \<times> 'w" where
  "authorize authenticator perm csrf rq w =
     (case authenticate_request authenticator rq w of
        (Inl refused, w1) \<Rightarrow> (Inl refused, w1)
      | (Inr (token, administrator), w1) \<Rightarrow>
          if \<not> adm_Active administrator \<or> \<not> role_allows (adm_Role administrator) perm
          then (Inl (write_error 403 ''permission_denied''), w1)
          else if csrf \<and> \<not> valid_csrf rq then (Inl (write_error 403 ''csrf_invalid''), w1)
          else (Inr (token, administrator), w1))"

section \<open>Numbers\<close>

text \<open>\<open>strconv.ParseInt\<close> in base 10 for 64 bits, which is \<open>Atoi\<close> too, and \<open>FormatInt\<close>.\<close>

definition parse_int64 :: "string \<Rightarrow> int option" where
  "parse_int64 s =
     (if s = '''' then None
      else
        let sign = hd s; digits = (if sign = CHR ''+'' \<or> sign = CHR ''-'' then tl s else s) in
        case parse_uint 64 digits of
          None \<Rightarrow> None
        | Some n \<Rightarrow>
            if sign = CHR ''-'' then (if n \<le> - min_int64 then Some (- n) else None)
            else (if n \<le> max_int64 then Some n else None))"

definition canonical_int :: "string \<Rightarrow> int option" where
  "canonical_int s =
     (case parse_int64 s of None \<Rightarrow> None | Some n \<Rightarrow> if format_int n = s then Some n else None)"

text \<open>\<open>authorizeMutation\<close>\<close>

definition authorize_mutation ::
    "(string \<Rightarrow> ('w, administrator) call) \<Rightarrow> permission \<Rightarrow> http_request \<Rightarrow> 'w
       \<Rightarrow> ('b http_response + administrator \<times> int) \<times> 'w" where
  "authorize_mutation authenticator perm rq w =
     (case authorize authenticator perm True rq w of
        (Inl refused, w1) \<Rightarrow> (Inl refused, w1)
      | (Inr (token, administrator), w1) \<Rightarrow>
          (case canonical_int (rq_PathValue rq ''telegram_id'') of
             None \<Rightarrow> (Inl (write_error 400 ''request_invalid''), w1)
           | Some target \<Rightarrow>
               if target \<le> 0 then (Inl (write_error 400 ''request_invalid''), w1)
               else (Inr (administrator, target), w1)))"

text \<open>An absent window value stands for its default.\<close>

definition window_value :: "(string \<Rightarrow> int option) \<Rightarrow> int \<Rightarrow> (int \<Rightarrow> bool) \<Rightarrow> string \<Rightarrow> int option" where
  "window_value parse absent valid raw =
     (if raw = '''' then Some absent
      else case parse raw of None \<Rightarrow> None | Some n \<Rightarrow> if valid n then Some n else None)"

definition parse_list_window :: "http_request \<Rightarrow> (int \<times> int) option" where
  "parse_list_window rq =
     (case (window_value parse_int64 0 (\<lambda>n. 0 \<le> n) (rq_Query rq ''after''),
            window_value parse_int64 50 (\<lambda>n. 1 \<le> n \<and> n \<le> 200) (rq_Query rq ''limit'')) of
        (Some after, Some limit) \<Rightarrow> Some (after, limit)
      | _ \<Rightarrow> None)"

definition parse_audit_window :: "http_request \<Rightarrow> (int \<times> int) option" where
  "parse_audit_window rq =
     (case (window_value canonical_int 0 (\<lambda>n. 0 \<le> n) (rq_Query rq ''before''),
            window_value canonical_int 50 (\<lambda>n. 1 \<le> n \<and> n \<le> 200) (rq_Query rq ''limit'')) of
        (Some before, Some limit) \<Rightarrow> Some (before, limit)
      | _ \<Rightarrow> None)"

definition parse_chat_id :: "string \<Rightarrow> int option" where
  "parse_chat_id raw =
     (case canonical_int raw of None \<Rightarrow> None | Some n \<Rightarrow> if n = 0 then None else Some n)"

section \<open>JSON bodies\<close>

text \<open>
  \<open>decodeStrictJSON\<close>. A decoder reads the first value of a text, refusing unknown fields, and
  gives what follows it; the second \<open>Decode\<close> reports the end only if nothing but blanks follows.
  A body of more than 4096 bytes fails in one of the two.
\<close>

type_synonym 'i decoder = "string \<Rightarrow> ('i \<times> string) option"

definition json_blank :: "string \<Rightarrow> bool" where
  "json_blank s \<longleftrightarrow> set s \<subseteq> {CHR 0x20, CHR 0x09, CHR 0x0D, CHR 0x0A}"

definition decode_body :: "'i decoder \<Rightarrow> string \<Rightarrow> 'i option" where
  "decode_body decode body =
     (if 4096 < length body then None
      else case decode body of
        None \<Rightarrow> None
      | Some (input, rest) \<Rightarrow> if json_blank rest then Some input else None)"

definition decode_strict_json :: "'i decoder \<Rightarrow> http_request \<Rightarrow> 'b http_response + 'i" where
  "decode_strict_json decode rq =
     (if rq_MediaType rq \<noteq> Some ''application/json'' then Inl (write_error 415 ''content_type_invalid'')
      else case decode_body decode (rq_Body rq) of
        None \<Rightarrow> Inl (write_error 400 ''request_invalid'')
      | Some input \<Rightarrow> Inr input)"

end
