(* ===== verification/Auth_Store.thy ===== *)
theory Auth_Store
  imports Auth Database "HOL-Library.AList"
begin

text \<open>
  The tables \<open>administrators\<close>, \<open>admin_login_codes\<close> and \<open>admin_sessions\<close>
  (\<open>internal/postgres/migrations\<close>) and the statements of \<open>internal/postgres/auth_store.go\<close> on
  them, with the constraints that can refuse a row. The interfaces that the authentication
  services rely on are the locales \<open>login_code_store\<close> and \<open>session_store\<close>; their laws hold for
  every pattern of connection faults.
\<close>

section \<open>Tables\<close>

record administrator_row =
  ar_role :: role
  ar_is_root :: bool
  ar_active :: bool

record login_code_row =
  lr_digest :: "byte list"
  lr_expires_at :: go_time

record session_row =
  sr_telegram_id :: int
  sr_created_at :: go_time
  sr_last_seen_at :: go_time
  sr_absolute_expires_at :: go_time

text \<open>
  A table with a primary key is an association list (\<open>admin_sessions\<close>, which is only looked up by
  key, a map). An audit event keeps the actor, the action, the target and the detail.
\<close>

record auth_db =
  administrators :: "(int \<times> administrator_row) list"
  admin_login_codes :: "(int \<times> login_code_row) list"
  admin_sessions :: "byte list \<rightharpoonup> session_row"
  admin_audit_events :: "(int \<times> string \<times> int \<times> role) list"

abbreviation "constraint_violation \<equiv> Err ''constraint violation''"

definition scan_administrator :: "int \<Rightarrow> administrator_row \<Rightarrow> administrator" where
  "scan_administrator telegramID row = \<lparr>adm_TelegramID = telegramID, adm_Role = ar_role row,
     adm_Root = ar_is_root row, adm_Active = ar_active row\<rparr>"

section \<open>Statements\<close>

definition find_active :: "int \<Rightarrow> (auth_db \<times> faults, administrator) call" where
  "find_active telegramID = statement (\<lambda>d.
     (case map_of (administrators d) telegramID of
        Some row \<Rightarrow>
          if ar_active row then (Inr (scan_administrator telegramID row), d)
          else (Inl ErrAdministratorUnauthorized, d)
      | None \<Rightarrow> (Inl ErrAdministratorUnauthorized, d)))"

definition ensure_root_owner :: "int \<Rightarrow> (auth_db \<times> faults, unit) call" where
  "ensure_root_owner telegramID st =
     (if telegramID \<le> 0 then (Inl (Err ''root owner Telegram ID must be positive''), st)
      else statement (\<lambda>d. (Inr (), d\<lparr>administrators := AList.update telegramID
             \<lparr>ar_role = RoleOwner, ar_is_root = True, ar_active = True\<rparr> (administrators d)\<rparr>)) st)"

text \<open>
  \<open>ActiveAdministratorIDs\<close>: the ordered aggregate, then checked again in Go.
\<close>

definition active_administrator_ids :: "(auth_db \<times> faults, int list) call" where
  "active_administrator_ids =
     and_then (statement (\<lambda>d.
                 (Inr (sort (map fst (filter (\<lambda>(i, row). ar_active row) (administrators d)))), d)))
       (\<lambda>ids. if increasing_after 0 ids then ok ids
              else fail_with (Err ''persisted active administrators are invalid''))"

text \<open>The upsert refuses an unknown administrator, a digest of the wrong length and one in use.\<close>

definition replace_code :: "login_code_record \<Rightarrow> (auth_db \<times> faults, unit) call" where
  "replace_code r = statement (\<lambda>d.
     (if map_of (administrators d) (lc_TelegramID r) = None \<or> length (lc_Digest r) \<noteq> 32
         \<or> (\<exists>(i, code) \<in> set (admin_login_codes d).
               i \<noteq> lc_TelegramID r \<and> lr_digest code = lc_Digest r)
      then (Inl constraint_violation, d)
      else (Inr (), d\<lparr>admin_login_codes := AList.update (lc_TelegramID r)
             \<lparr>lr_digest = lc_Digest r, lr_expires_at = lc_ExpiresAt r\<rparr> (admin_login_codes d)\<rparr>)))"

definition consume_stored_code ::
    "int \<Rightarrow> byte list \<Rightarrow> go_time \<Rightarrow> (auth_db \<times> faults, administrator) call" where
  "consume_stored_code telegramID digest now = statement (\<lambda>d.
     (case (map_of (admin_login_codes d) telegramID, map_of (administrators d) telegramID) of
        (Some code, Some row) \<Rightarrow>
          if lr_digest code = digest \<and> now < lr_expires_at code \<and> ar_active row
          then (Inr (scan_administrator telegramID row),
                d\<lparr>admin_login_codes := AList.delete telegramID (admin_login_codes d)\<rparr>)
          else (Inl ErrLoginCodeInvalid, d)
      | _ \<Rightarrow> (Inl ErrLoginCodeInvalid, d)))"

definition insert_session :: "session_record \<Rightarrow> (auth_db \<times> faults, unit) call" where
  "insert_session r = statement (\<lambda>d.
     (if map_of (administrators d) (adm_TelegramID (se_Administrator r)) = None \<or> length (se_Digest r) \<noteq> 32
         \<or> admin_sessions d (se_Digest r) \<noteq> None
         \<or> se_LastSeenAt r < se_CreatedAt r \<or> se_AbsoluteExpiresAt r \<le> se_CreatedAt r
      then (Inl constraint_violation, d)
      else (Inr (), d\<lparr>admin_sessions := (admin_sessions d)(se_Digest r \<mapsto>
             \<lparr>sr_telegram_id = adm_TelegramID (se_Administrator r), sr_created_at = se_CreatedAt r,
              sr_last_seen_at = se_LastSeenAt r, sr_absolute_expires_at = se_AbsoluteExpiresAt r\<rparr>)\<rparr>)))"

text \<open>
  \<open>AuthenticateAndTouch\<close>. The check \<open>last_seen_at >= created_at\<close> can refuse the touch when the
  clock went back before the session's creation.
\<close>

definition authenticate_and_touch ::
    "byte list \<Rightarrow> go_time \<Rightarrow> duration \<Rightarrow> (auth_db \<times> faults, administrator) call" where
  "authenticate_and_touch digest now idleTimeout = statement (\<lambda>d.
     (case admin_sessions d digest of
        None \<Rightarrow> (Inl ErrSessionInvalid, d)
      | Some session \<Rightarrow>
     (case map_of (administrators d) (sr_telegram_id session) of
        None \<Rightarrow> (Inl ErrSessionInvalid, d)
      | Some row \<Rightarrow>
          if now < sr_absolute_expires_at session \<and> now + - idleTimeout < sr_last_seen_at session
             \<and> ar_active row
          then (if now < sr_created_at session then (Inl constraint_violation, d)
                else (Inr (scan_administrator (sr_telegram_id session) row),
                      d\<lparr>admin_sessions := (admin_sessions d)
                          (digest \<mapsto> session\<lparr>sr_last_seen_at := now\<rparr>)\<rparr>))
          else (Inl ErrSessionInvalid, d))))"

definition delete_session :: "byte list \<Rightarrow> (auth_db \<times> faults, unit) call" where
  "delete_session digest = statement (\<lambda>d.
     (Inr (), d\<lparr>admin_sessions := (admin_sessions d)(digest := None)\<rparr>))"

definition delete_all_sessions :: "int \<Rightarrow> (auth_db \<times> faults, unit) call" where
  "delete_all_sessions telegramID = statement (\<lambda>d.
     (Inr (), d\<lparr>admin_sessions := (\<lambda>g. case admin_sessions d g of
         None \<Rightarrow> None
       | Some session \<Rightarrow> if sr_telegram_id session = telegramID then None else Some session)\<rparr>))"

section \<open>The login code interface\<close>

text \<open>
  What \<open>LoginCodeService\<close> needs of its store, over the abstraction \<open>codes\<close>: consuming answers
  with an administrator only for the stored, unexpired digest and removes it; a refused or
  unacknowledged consumption can only remove; replacing stores the new code or nothing.
\<close>

locale login_code_store =
  fixes findActive :: "int \<Rightarrow> ('s, administrator) call"
    and replace :: "login_code_record \<Rightarrow> ('s, unit) call"
    and consume :: "int \<Rightarrow> byte list \<Rightarrow> go_time \<Rightarrow> ('s, administrator) call"
    and codes :: "'s \<Rightarrow> int \<rightharpoonup> login_code_row"
  assumes find_codes: "findActive i s = (r, s') \<Longrightarrow> codes s' = codes s"
    and replace_codes: "replace c s = (ru, s') \<Longrightarrow>
      codes s' = codes s \<or>
      codes s' = (codes s)(lc_TelegramID c \<mapsto> \<lparr>lr_digest = lc_Digest c, lr_expires_at = lc_ExpiresAt c\<rparr>)"
    and replace_stores: "replace c s = (Inr u, s') \<Longrightarrow>
      codes s' = (codes s)(lc_TelegramID c \<mapsto> \<lparr>lr_digest = lc_Digest c, lr_expires_at = lc_ExpiresAt c\<rparr>)"
    and consume_codes: "consume i g now s = (r, s') \<Longrightarrow>
      codes s' = codes s \<or> codes s' = (codes s)(i := None)"
    and consume_takes: "consume i g now s = (Inr a, s') \<Longrightarrow>
      codes s' = (codes s)(i := None) \<and> adm_TelegramID a = i \<and>
      (\<exists>row. codes s i = Some row \<and> lr_digest row = g \<and> now < lr_expires_at row)"

text \<open>Attempts to log in: who, which code, when; the run says which succeeded.\<close>

fun consume_run ::
    "(int \<Rightarrow> byte list \<Rightarrow> go_time \<Rightarrow> ('s, administrator) call) \<Rightarrow> (string \<Rightarrow> byte list)
       \<Rightarrow> (int \<times> string \<times> go_time) list \<Rightarrow> 's \<Rightarrow> bool list \<times> 's" where
  "consume_run consume dig [] s = ([], s)"
| "consume_run consume dig ((i, code, now) # xs) s =
     (let (r, s1) = consume_code consume dig now i code s;
          (rs, s2) = consume_run consume dig xs s1
      in (is_ok r # rs, s2))"

definition successes :: "int \<Rightarrow> (int \<times> string \<times> go_time) list \<Rightarrow> bool list \<Rightarrow> nat" where
  "successes i xs rs = length (filter (\<lambda>(x, b). fst x = i \<and> b) (zip xs rs))"

lemma successes_Cons [simp]:
  "successes i (x # xs) (b # rs) = (if fst x = i \<and> b then 1 else 0) + successes i xs rs"
  by (simp add: successes_def)

lemma successes_Nil [simp]: "successes i [] rs = 0"
  by (simp add: successes_def)

context login_code_store
begin

lemma consume_code_codes:
  "consume_code consume dig now i code s = (r, s') \<Longrightarrow>
     codes s' = codes s \<or> codes s' = (codes s)(i := None)"
  by (auto simp: consume_code_def split: if_splits dest: consume_codes)

lemma consume_code_takes:
  "consume_code consume dig now i code s = (Inr a, s') \<Longrightarrow>
     codes s' = (codes s)(i := None) \<and> adm_TelegramID a = i \<and> valid_login_code code \<and>
     (\<exists>row. codes s i = Some row \<and> lr_digest row = dig code \<and> now < lr_expires_at row)"
  by (auto simp: consume_code_def split: if_splits dest: consume_takes)

lemma none_left:
  "codes s i = None \<Longrightarrow> successes i xs (fst (consume_run consume dig xs s)) = 0"
proof (induction xs arbitrary: s)
  case Nil
  then show ?case by simp
next
  case (Cons x xs)
  obtain j code now where x: "x = (j, code, now)" by (cases x)
  obtain r s1 where c: "consume_code consume dig now j code s = (r, s1)" by fastforce
  from consume_code_codes [OF c] Cons.prems have "codes s1 i = None" by auto
  moreover have "\<not> (j = i \<and> is_ok r)"
    using c Cons.prems by (auto simp: is_ok_iff dest: consume_code_takes)
  ultimately show ?case using c x Cons.IH by (simp add: case_prod_unfold Let_def)
qed

lemma at_most_one:
  "successes i xs (fst (consume_run consume dig xs s)) \<le> 1"
proof (induction xs arbitrary: s)
  case Nil
  then show ?case by simp
next
  case (Cons x xs)
  obtain j code now where x: "x = (j, code, now)" by (cases x)
  obtain r s1 where c: "consume_code consume dig now j code s = (r, s1)" by fastforce
  show ?case
  proof (cases "j = i \<and> is_ok r")
    case True
    with c have "codes s1 i = None" by (auto simp: is_ok_iff dest: consume_code_takes)
    then have "successes i xs (fst (consume_run consume dig xs s1)) = 0" by (rule none_left)
    with c x show ?thesis by (simp add: case_prod_unfold Let_def)
  next
    case False
    with c x Cons.IH [of s1] show ?thesis by (auto simp: case_prod_unfold Let_def)
  qed
qed

text \<open>A code that \<open>Issue\<close> returned is the one stored, for five minutes.\<close>

lemma issue_stores:
  assumes "issue_code findActive replace dig now i (s, src) = (Inr code, (s', src'))"
  shows "codes s' = (codes s)(i \<mapsto> \<lparr>lr_digest = dig code, lr_expires_at = now + loginCodeLifetime\<rparr>)"
  using assms
  by (auto simp: issue_code_def Let_def split: sum.splits prod.splits if_splits
      dest!: find_codes replace_stores)

text \<open>After an issue, consumption succeeds only with a code of the same digest and in time.\<close>

lemma issue_then_consume:
  assumes "issue_code findActive replace dig t0 i (s, src) = (Inr code, (s1, src1))"
    and "consume_code consume dig t i attempt s1 = (Inr a, s2)"
  shows "dig attempt = dig code \<and> t < t0 + loginCodeLifetime \<and> adm_TelegramID a = i"
  using issue_stores [OF assms(1)] consume_code_takes [OF assms(2)] by auto

end

section \<open>The session interface\<close>

locale session_store =
  fixes create :: "session_record \<Rightarrow> ('s, unit) call"
    and touch :: "byte list \<Rightarrow> go_time \<Rightarrow> duration \<Rightarrow> ('s, administrator) call"
    and delete :: "byte list \<Rightarrow> ('s, unit) call"
    and deleteAll :: "int \<Rightarrow> ('s, unit) call"
    and sess :: "'s \<Rightarrow> byte list \<rightharpoonup> session_row"
  assumes create_sess: "create c s = (ru, s') \<Longrightarrow>
      sess s' = sess s \<or>
      (sess s (se_Digest c) = None \<and> sess s' = (sess s)(se_Digest c \<mapsto>
         \<lparr>sr_telegram_id = adm_TelegramID (se_Administrator c), sr_created_at = se_CreatedAt c,
          sr_last_seen_at = se_LastSeenAt c, sr_absolute_expires_at = se_AbsoluteExpiresAt c\<rparr>))"
    and create_stores: "create c s = (Inr u, s') \<Longrightarrow>
      sess s (se_Digest c) = None \<and> sess s' = (sess s)(se_Digest c \<mapsto>
         \<lparr>sr_telegram_id = adm_TelegramID (se_Administrator c), sr_created_at = se_CreatedAt c,
          sr_last_seen_at = se_LastSeenAt c, sr_absolute_expires_at = se_AbsoluteExpiresAt c\<rparr>)"
    and touch_sess: "touch g now idle s = (r, s') \<Longrightarrow>
      sess s' = sess s \<or>
      (\<exists>row. sess s g = Some row \<and> sr_created_at row \<le> now \<and>
             sess s' = (sess s)(g \<mapsto> row\<lparr>sr_last_seen_at := now\<rparr>))"
    and touch_accepts: "touch g now idle s = (Inr a, s') \<Longrightarrow>
      (\<exists>row. sess s g = Some row \<and> adm_TelegramID a = sr_telegram_id row \<and>
             now < sr_absolute_expires_at row \<and> now < sr_last_seen_at row + idle)"
    and delete_sess: "delete g s = (ru, s') \<Longrightarrow> sess s' = sess s \<or> sess s' = (sess s)(g := None)"
    and delete_takes: "delete g s = (Inr u, s') \<Longrightarrow> sess s' = (sess s)(g := None)"
    and deleteAll_sess: "deleteAll i s = (ru, s') \<Longrightarrow> sess s' g = sess s g \<or> sess s' g = None"
    and deleteAll_takes: "deleteAll i s = (Inr u, s') \<Longrightarrow> sess s' g = Some row \<Longrightarrow> sr_telegram_id row \<noteq> i"

text \<open>The calls that reach the session store while an administrator is logged in.\<close>

datatype session_op =
    OpAuthenticate go_time string
  | OpRevokeSession string
  | OpRevokeAll int

fun session_step ::
    "(byte list \<Rightarrow> go_time \<Rightarrow> duration \<Rightarrow> ('s, administrator) call) \<Rightarrow> (byte list \<Rightarrow> ('s, unit) call)
       \<Rightarrow> (int \<Rightarrow> ('s, unit) call) \<Rightarrow> (string \<Rightarrow> byte list) \<Rightarrow> session_op \<Rightarrow> 's \<Rightarrow> bool \<times> 's" where
  "session_step touch delete deleteAll dig (OpAuthenticate now token) s =
     (let (r, s1) = authenticate touch dig now token s in (is_ok r, s1))"
| "session_step touch delete deleteAll dig (OpRevokeSession token) s =
     (let (r, s1) = revoke_session delete dig token s in (is_ok r, s1))"
| "session_step touch delete deleteAll dig (OpRevokeAll i) s =
     (let (r, s1) = revoke_all_sessions deleteAll i s in (is_ok r, s1))"

fun session_run where
  "session_run touch delete deleteAll dig [] s = s"
| "session_run touch delete deleteAll dig (x # xs) s =
     session_run touch delete deleteAll dig xs (snd (session_step touch delete deleteAll dig x s))"

text \<open>The last time a token of digest \<open>g\<close> was shown, from \<open>m\<close> on.\<close>

fun last_use :: "(string \<Rightarrow> byte list) \<Rightarrow> byte list \<Rightarrow> go_time \<Rightarrow> session_op list \<Rightarrow> go_time" where
  "last_use dig g m [] = m"
| "last_use dig g m (OpAuthenticate now token # xs) =
     last_use dig g (if dig token = g then max m now else m) xs"
| "last_use dig g m (OpRevokeSession token # xs) = last_use dig g m xs"
| "last_use dig g m (OpRevokeAll i # xs) = last_use dig g m xs"

text \<open>A session row created at \<open>t0\<close> and last touched by \<open>m\<close>, or none.\<close>

definition lives_from :: "go_time \<Rightarrow> go_time \<Rightarrow> session_row option \<Rightarrow> bool" where
  "lives_from t0 m entry = (case entry of None \<Rightarrow> True
     | Some row \<Rightarrow> sr_created_at row = t0 \<and> sr_absolute_expires_at row = t0 + sessionAbsoluteLifetime \<and>
                  sr_last_seen_at row \<le> m)"

lemma lives_from_mono: "lives_from t0 m entry \<Longrightarrow> m \<le> m' \<Longrightarrow> lives_from t0 m' entry"
  by (auto simp: lives_from_def split: option.splits)

context session_store
begin

lemma step_lives:
  "lives_from t0 m (sess s g) \<Longrightarrow>
     lives_from t0 (last_use dig g m [x]) (sess (snd (session_step touch delete deleteAll dig x s)) g)"
proof (cases x)
  case (OpAuthenticate now token)
  assume inv: "lives_from t0 m (sess s g)"
  obtain r s1 where t: "touch (dig token) now sessionIdleTimeout s = (r, s1)" by fastforce
  from touch_sess [OF t] inv have "lives_from t0 (last_use dig g m [x]) (sess s1 g)"
    by (auto simp: lives_from_def OpAuthenticate split: option.splits if_splits)
  moreover have "lives_from t0 (last_use dig g m [x]) (sess s g)"
    using lives_from_mono [OF inv] OpAuthenticate by simp
  ultimately show ?thesis using t OpAuthenticate
    by (auto simp: authenticate_def Let_def split: sum.splits prod.splits)
next
  case (OpRevokeSession token)
  assume inv: "lives_from t0 m (sess s g)"
  obtain r s1 where t: "delete (dig token) s = (r, s1)" by fastforce
  from delete_sess [OF t] inv have "lives_from t0 (last_use dig g m [x]) (sess s1 g)"
    by (auto simp: lives_from_def OpRevokeSession split: option.splits if_splits)
  with inv t OpRevokeSession show ?thesis
    by (auto simp: revoke_session_def Let_def split: sum.splits prod.splits)
next
  case (OpRevokeAll i)
  assume inv: "lives_from t0 m (sess s g)"
  obtain r s1 where t: "deleteAll i s = (r, s1)" by fastforce
  from deleteAll_sess [OF t, of g] inv have "lives_from t0 (last_use dig g m [x]) (sess s1 g)"
    by (auto simp: lives_from_def OpRevokeAll split: option.splits)
  with inv t OpRevokeAll show ?thesis
    by (auto simp: revoke_all_sessions_def Let_def split: sum.splits prod.splits)
qed

lemma run_lives:
  "lives_from t0 m (sess s g) \<Longrightarrow>
     lives_from t0 (last_use dig g m xs) (sess (session_run touch delete deleteAll dig xs s) g)"
proof (induction xs arbitrary: s m)
  case Nil
  then show ?case by simp
next
  case (Cons x xs)
  from Cons.IH [OF step_lives [where x = x and dig = dig, OF Cons.prems]] show ?case by (cases x) simp_all
qed

lemma step_gone: "sess s g = None \<Longrightarrow> sess (snd (session_step touch delete deleteAll dig x s)) g = None"
proof (cases x)
  case (OpAuthenticate now token)
  assume none: "sess s g = None"
  obtain r s1 where t: "touch (dig token) now sessionIdleTimeout s = (r, s1)" by fastforce
  from touch_sess [OF t] none have "sess s1 g = None" by auto
  with none t OpAuthenticate show ?thesis
    by (auto simp: authenticate_def Let_def split: sum.splits prod.splits)
next
  case (OpRevokeSession token)
  assume none: "sess s g = None"
  obtain r s1 where t: "delete (dig token) s = (r, s1)" by fastforce
  from delete_sess [OF t] none have "sess s1 g = None" by auto
  with none t OpRevokeSession show ?thesis
    by (auto simp: revoke_session_def Let_def split: sum.splits prod.splits)
next
  case (OpRevokeAll i)
  assume none: "sess s g = None"
  obtain r s1 where t: "deleteAll i s = (r, s1)" by fastforce
  from deleteAll_sess [OF t, of g] none have "sess s1 g = None" by auto
  with none t OpRevokeAll show ?thesis
    by (auto simp: revoke_all_sessions_def Let_def split: sum.splits prod.splits)
qed

lemma run_gone: "sess s g = None \<Longrightarrow> sess (session_run touch delete deleteAll dig xs s) g = None"
  by (induction xs arbitrary: s) (simp_all add: step_gone)

lemma authenticate_accepts:
  assumes "authenticate touch dig now token s = (Inr a, s')"
  obtains row where "sess s (dig token) = Some row" "adm_TelegramID a = sr_telegram_id row"
    "now < sr_absolute_expires_at row" "now < sr_last_seen_at row + sessionIdleTimeout"
    "adm_Active a" "valid_role (adm_Role a)" "valid_session_token token"
  using assms
  by (auto simp: authenticate_def split: if_splits sum.splits prod.splits dest!: touch_accepts)

text \<open>
  A session that was created at \<open>t0\<close> cannot be used seven days later, however often it is used,
  nor twelve hours after its last use.
\<close>

lemma created_then_authenticated:
  assumes "create_session create dig t0 adm (s, src) = (Inr token, (s1, src1))"
    and "authenticate touch dig now token (session_run touch delete deleteAll dig xs s1) = (Inr a, s2)"
  shows "now < t0 + sessionAbsoluteLifetime \<and>
    now < last_use dig (dig token) t0 xs + sessionIdleTimeout"
proof -
  from assms(1) obtain c where c: "create c s = (Inr (), s1)"
    and dg: "se_Digest c = dig token" "se_CreatedAt c = t0" "se_LastSeenAt c = t0"
      "se_AbsoluteExpiresAt c = t0 + sessionAbsoluteLifetime"
    by (auto simp: create_session_def Let_def split: if_splits sum.splits prod.splits)
  from create_stores [OF c] dg have "lives_from t0 t0 (sess s1 (dig token))"
    by (auto simp: lives_from_def)
  then have "lives_from t0 (last_use dig (dig token) t0 xs)
      (sess (session_run touch delete deleteAll dig xs s1) (dig token))"
    by (rule run_lives)
  with assms(2) show ?thesis
    by (elim authenticate_accepts) (auto simp: lives_from_def)
qed

lemma revoked_never_authenticates:
  assumes "revoke_session delete dig token s = (Inr u, s1)"
  shows "\<not> is_ok (fst (authenticate touch dig now token (session_run touch delete deleteAll dig xs s1)))"
proof -
  from assms have "sess s1 (dig token) = None"
    by (auto simp: revoke_session_def split: if_splits dest: delete_takes)
  then have "sess (session_run touch delete deleteAll dig xs s1) (dig token) = None" by (rule run_gone)
  then show ?thesis
    by (cases "authenticate touch dig now token (session_run touch delete deleteAll dig xs s1)")
      (auto simp: is_ok_iff elim!: authenticate_accepts)
qed

end


section \<open>The tables satisfy the interfaces\<close>

lemmas statement_splits = prod.splits fault.splits sum.splits if_splits option.splits

interpretation codes: login_code_store find_active replace_code consume_stored_code
    "\<lambda>s. map_of (admin_login_codes (fst s))"
proof unfold_locales
  fix i s r s'
  assume "find_active i s = (r, s')"
  then show "map_of (admin_login_codes (fst s')) = map_of (admin_login_codes (fst s))"
    by (auto simp: find_active_def statement_def Let_def split: statement_splits)
next
  fix c s ru s'
  assume "replace_code c s = (ru, s')"
  then show "map_of (admin_login_codes (fst s')) = map_of (admin_login_codes (fst s)) \<or>
    map_of (admin_login_codes (fst s')) = (map_of (admin_login_codes (fst s)))
      (lc_TelegramID c \<mapsto> \<lparr>lr_digest = lc_Digest c, lr_expires_at = lc_ExpiresAt c\<rparr>)"
    by (auto simp: replace_code_def statement_def update_conv' Let_def split: statement_splits)
next
  fix c s u s'
  assume "replace_code c s = (Inr u, s')"
  then show "map_of (admin_login_codes (fst s')) = (map_of (admin_login_codes (fst s)))
      (lc_TelegramID c \<mapsto> \<lparr>lr_digest = lc_Digest c, lr_expires_at = lc_ExpiresAt c\<rparr>)"
    by (auto simp: replace_code_def statement_def update_conv' Let_def split: statement_splits)
next
  fix i g now s r s'
  assume "consume_stored_code i g now s = (r, s')"
  then show "map_of (admin_login_codes (fst s')) = map_of (admin_login_codes (fst s)) \<or>
    map_of (admin_login_codes (fst s')) = (map_of (admin_login_codes (fst s)))(i := None)"
    by (auto simp: consume_stored_code_def statement_def delete_conv' Let_def split: statement_splits)
next
  fix i g now s a s'
  assume "consume_stored_code i g now s = (Inr a, s')"
  then show "map_of (admin_login_codes (fst s')) = (map_of (admin_login_codes (fst s)))(i := None) \<and> adm_TelegramID a = i \<and>
    (\<exists>row. map_of (admin_login_codes (fst s)) i = Some row \<and> lr_digest row = g \<and> now < lr_expires_at row)"
    by (auto simp: consume_stored_code_def statement_def delete_conv' Let_def scan_administrator_def split: statement_splits)
qed

interpretation sessions: session_store insert_session authenticate_and_touch delete_session
    delete_all_sessions "\<lambda>s. admin_sessions (fst s)"
proof unfold_locales
  fix c s ru s'
  assume "insert_session c s = (ru, s')"
  then show "admin_sessions (fst s') = admin_sessions (fst s) \<or>
    (admin_sessions (fst s) (se_Digest c) = None \<and> admin_sessions (fst s') = (admin_sessions (fst s))
      (se_Digest c \<mapsto> \<lparr>sr_telegram_id = adm_TelegramID (se_Administrator c), sr_created_at = se_CreatedAt c,
        sr_last_seen_at = se_LastSeenAt c, sr_absolute_expires_at = se_AbsoluteExpiresAt c\<rparr>))"
    by (auto simp: insert_session_def statement_def Let_def split: statement_splits)
next
  fix c s u s'
  assume "insert_session c s = (Inr u, s')"
  then show "admin_sessions (fst s) (se_Digest c) = None \<and> admin_sessions (fst s') = (admin_sessions (fst s))
      (se_Digest c \<mapsto> \<lparr>sr_telegram_id = adm_TelegramID (se_Administrator c), sr_created_at = se_CreatedAt c,
        sr_last_seen_at = se_LastSeenAt c, sr_absolute_expires_at = se_AbsoluteExpiresAt c\<rparr>)"
    by (auto simp: insert_session_def statement_def Let_def split: statement_splits)
next
  fix g now idle s r s'
  assume "authenticate_and_touch g now idle s = (r, s')"
  then show "admin_sessions (fst s') = admin_sessions (fst s) \<or>
    (\<exists>row. admin_sessions (fst s) g = Some row \<and> sr_created_at row \<le> now \<and>
       admin_sessions (fst s') = (admin_sessions (fst s))(g \<mapsto> row\<lparr>sr_last_seen_at := now\<rparr>))"
    by (auto simp: authenticate_and_touch_def statement_def Let_def split: statement_splits)
next
  fix g now idle s a s'
  assume "authenticate_and_touch g now idle s = (Inr a, s')"
  then show "\<exists>row. admin_sessions (fst s) g = Some row \<and> adm_TelegramID a = sr_telegram_id row \<and>
      now < sr_absolute_expires_at row \<and> now < sr_last_seen_at row + idle"
    by (auto simp: authenticate_and_touch_def statement_def Let_def scan_administrator_def
        split: statement_splits)
next
  fix g s ru s'
  assume "delete_session g s = (ru, s')"
  then show "admin_sessions (fst s') = admin_sessions (fst s) \<or>
      admin_sessions (fst s') = (admin_sessions (fst s))(g := None)"
    by (auto simp: delete_session_def statement_def Let_def split: statement_splits)
next
  fix g s u s'
  assume "delete_session g s = (Inr u, s')"
  then show "admin_sessions (fst s') = (admin_sessions (fst s))(g := None)"
    by (auto simp: delete_session_def statement_def Let_def split: statement_splits)
next
  fix i s ru s' g
  assume "delete_all_sessions i s = (ru, s')"
  then show "admin_sessions (fst s') g = admin_sessions (fst s) g \<or> admin_sessions (fst s') g = None"
    by (auto simp: delete_all_sessions_def statement_def Let_def split: statement_splits)
next
  fix i s u s' g row
  assume "delete_all_sessions i s = (Inr u, s')" "admin_sessions (fst s') g = Some row"
  then show "sr_telegram_id row \<noteq> i"
    by (auto simp: delete_all_sessions_def statement_def Let_def split: statement_splits)
qed

section \<open>Login codes are unbiased\<close>

lemma loginCodeAlphabet_facts: "length loginCodeAlphabet = 62" "distinct loginCodeAlphabet"
  by (simp_all add: loginCodeAlphabet_def)

lemma alphabet_valid: "c \<in> set loginCodeAlphabet \<Longrightarrow> valid_code_character c"
  by (auto simp: loginCodeAlphabet_def valid_code_character_def)

lemma generate_code_valid:
  "set code \<subseteq> set loginCodeAlphabet \<Longrightarrow> length code \<le> loginCodeLength \<Longrightarrow>
     generate_code code src = (Inr c, rest) \<Longrightarrow> set c \<subseteq> set loginCodeAlphabet \<and> length c = loginCodeLength"
proof (induction code src rule: generate_code.induct)
  case (1 code)
  then show ?case by (auto split: if_splits)
next
  case (2 code b src)
  show ?case
  proof (cases "length code < loginCodeLength")
    case False
    with 2 show ?thesis by auto
  next
    case True
    have "unat (b AND 63) < 62 \<Longrightarrow> loginCodeAlphabet ! unat (b AND 63) \<in> set loginCodeAlphabet"
      by (simp add: loginCodeAlphabet_facts)
    with 2 True show ?thesis
      by (auto simp: Let_def loginCodeAlphabet_facts split: if_splits)
  qed
qed

text \<open>Enough bytes whose low six bits are an index make the loop succeed.\<close>

definition usable :: "byte \<Rightarrow> bool" where
  "usable b \<longleftrightarrow> unat (b AND 63) < 62"

lemma generate_code_enough:
  "length code \<le> loginCodeLength \<Longrightarrow> loginCodeLength \<le> length code + length (filter usable src) \<Longrightarrow>
     is_ok (fst (generate_code code src))"
proof (induction code src rule: generate_code.induct)
  case (1 code)
  then show ?case by simp
next
  case (2 code b src)
  then show ?case by (auto simp: Let_def usable_def loginCodeAlphabet_facts)
qed

end
