(* ===== verification/Administrator_Store.thy ===== *)
theory Administrator_Store
  imports Auth_Store
begin

text \<open>
  Changing administrator roles (\<open>internal/postgres/administrator_store.go\<close>): one transaction
  that checks the change with \<open>auth.ValidateRoleChange\<close>, writes it, revokes what a removed
  administrator could log in with, and records the audit event.
\<close>

abbreviation "ErrAdministratorNotFound \<equiv> Sentinel ''administrator not found''"

section \<open>Operations\<close>

definition count_owners :: "auth_db \<Rightarrow> int" where
  "count_owners d =
     int (length (filter (\<lambda>(i, row). ar_role row = RoleOwner \<and> ar_active row) (administrators d)))"

definition no_administrator :: administrator where
  "no_administrator = \<lparr>adm_TelegramID = 0, adm_Role = NoRole, adm_Root = False, adm_Active = False\<rparr>"

text \<open>
  \<open>loadRoleChangeState\<close>: the actor must be active; an unknown target is the zero value. The
  columns of a found target are not null, so the check on \<open>Valid\<close> never fails.
\<close>

definition load_role_change_state ::
    "int \<Rightarrow> int \<Rightarrow> (auth_db \<times> faults, administrator \<times> administrator \<times> int) call" where
  "load_role_change_state actorID targetID =
     and_then (wrapping ''load administrator role state'' (statement (\<lambda>d.
         (Inr (case map_of (administrators d) actorID of
                 None \<Rightarrow> None
               | Some actor \<Rightarrow>
                   if ar_active actor
                   then Some (actor, map_of (administrators d) targetID, count_owners d) else None), d))))
       (\<lambda>row. case row of
          None \<Rightarrow> fail_with ErrRoleManagementForbidden
        | Some (actor, target, ownerCount) \<Rightarrow>
            ok (scan_administrator actorID actor,
                (case target of None \<Rightarrow> no_administrator | Some t \<Rightarrow> scan_administrator targetID t),
                ownerCount))"

definition persist_role :: "int \<Rightarrow> role \<Rightarrow> auth_db \<Rightarrow> (go_error + unit) \<times> auth_db" where
  "persist_role targetID newRole d =
     (let row = (case map_of (administrators d) targetID of
                   None \<Rightarrow> \<lparr>ar_role = newRole, ar_is_root = False, ar_active = True\<rparr>
                 | Some old \<Rightarrow> old\<lparr>ar_role := newRole, ar_active := True\<rparr>)
      in if ar_is_root row \<and> ar_role row \<noteq> RoleOwner then (Inl constraint_violation, d)
         else (Inr (), d\<lparr>administrators := AList.update targetID row (administrators d)\<rparr>))"

definition deactivate :: "int \<Rightarrow> auth_db \<Rightarrow> (go_error + unit) \<times> auth_db" where
  "deactivate targetID d =
     (Inr (), d\<lparr>administrators :=
        map (\<lambda>(i, row). (i, if i = targetID then row\<lparr>ar_active := False\<rparr> else row)) (administrators d)\<rparr>)"

definition delete_login_code :: "int \<Rightarrow> auth_db \<Rightarrow> (go_error + unit) \<times> auth_db" where
  "delete_login_code targetID d =
     (Inr (), d\<lparr>admin_login_codes := AList.delete targetID (admin_login_codes d)\<rparr>)"

definition delete_sessions_of :: "int \<Rightarrow> auth_db \<Rightarrow> (go_error + unit) \<times> auth_db" where
  "delete_sessions_of targetID d =
     (Inr (), d\<lparr>admin_sessions := (\<lambda>g. case admin_sessions d g of
         None \<Rightarrow> None
       | Some session \<Rightarrow> if sr_telegram_id session = targetID then None else Some session)\<rparr>)"

definition record_role_audit ::
    "int \<Rightarrow> string \<Rightarrow> int \<Rightarrow> role \<Rightarrow> auth_db \<Rightarrow> (go_error + unit) \<times> auth_db" where
  "record_role_audit actorID action targetID r d =
     (Inr (), d\<lparr>admin_audit_events := admin_audit_events d @ [(actorID, action, targetID, r)]\<rparr>)"

definition change_operation :: "int \<Rightarrow> int \<Rightarrow> role option \<Rightarrow> (auth_db \<times> faults, unit) call" where
  "change_operation actorID targetID newRole =
     and_then (wrapping ''lock administrator roles'' (statement (ok ()))) (\<lambda>_.
     and_then (load_role_change_state actorID targetID) (\<lambda>(actor, target, ownerCount).
       if max_int64 < ownerCount then fail_with ErrInvalidRoleChange
       else if newRole = None \<and> adm_TelegramID target = 0 then fail_with ErrAdministratorNotFound
       else case validate_role_change (adm_Role actor) (adm_Role target) (adm_Root target) ownerCount newRole of
         Some e \<Rightarrow> fail_with e
       | None \<Rightarrow>
           and_then (case newRole of
               Some r \<Rightarrow> wrapping ''persist administrator role'' (statement (persist_role targetID r))
             | None \<Rightarrow>
                 and_then (wrapping ''remove administrator'' (statement (deactivate targetID))) (\<lambda>_.
                 and_then (wrapping ''revoke administrator login code'' (statement (delete_login_code targetID))) (\<lambda>_.
                 wrapping ''revoke administrator sessions'' (statement (delete_sessions_of targetID)))))
           (\<lambda>_. wrapping ''record administrator audit event'' (statement
                 (record_role_audit actorID
                    (case newRole of None \<Rightarrow> ''administrator.remove'' | Some _ \<Rightarrow> ''administrator.set_role'')
                    targetID (case newRole of None \<Rightarrow> NoRole | Some r \<Rightarrow> r))))))"

definition change_role :: "int \<Rightarrow> int \<Rightarrow> role option \<Rightarrow> (auth_db \<times> faults, unit) call" where
  "change_role actorID targetID newRole = run_in_transaction (change_operation actorID targetID newRole)"

definition set_role :: "int \<Rightarrow> int \<Rightarrow> role \<Rightarrow> go_time \<Rightarrow> (auth_db \<times> faults, unit) call" where
  "set_role actorID targetID r now st =
     (if actorID \<le> 0 \<or> targetID \<le> 0 \<or> now = 0 \<or> (r \<noteq> RoleOwner \<and> r \<noteq> RoleAdministrator)
      then (Inl ErrInvalidRoleChange, st)
      else change_role actorID targetID (Some r) st)"

definition remove_administrator :: "int \<Rightarrow> int \<Rightarrow> go_time \<Rightarrow> (auth_db \<times> faults, unit) call" where
  "remove_administrator actorID targetID now st =
     (if actorID \<le> 0 \<or> targetID \<le> 0 \<or> now = 0 then (Inl ErrInvalidRoleChange, st)
      else change_role actorID targetID None st)"

text \<open>
  \<open>List\<close>: the active administrators in the order of their ids, checked again in Go. The columns
  of the JSON rows have the types of the fields they are read into.
\<close>

definition listed_administrators :: "auth_db \<Rightarrow> administrator list" where
  "listed_administrators d =
     map (\<lambda>(i, row). scan_administrator i row) (sort_key fst (filter (\<lambda>(i, row). ar_active row) (administrators d)))"

fun valid_administrator_list :: "int \<Rightarrow> administrator list \<Rightarrow> bool" where
  "valid_administrator_list previous [] = True"
| "valid_administrator_list previous (a # rows) =
     (previous < adm_TelegramID a \<and> adm_Active a \<and>
      (adm_Role a = RoleOwner \<or> adm_Role a = RoleAdministrator) \<and>
      \<not> (adm_Root a \<and> adm_Role a \<noteq> RoleOwner) \<and>
      valid_administrator_list (adm_TelegramID a) rows)"

definition list_administrators :: "(auth_db \<times> faults, administrator list) call" where
  "list_administrators =
     and_then (wrapping ''list administrators'' (statement (\<lambda>d. (Inr (listed_administrators d), d))))
       (\<lambda>rows. if valid_administrator_list 0 rows then ok rows
               else fail_with (Err ''persisted administrator list is invalid''))"

section \<open>The administrator table invariant\<close>

text \<open>Keys are unique, every root row is an active owner, and there is an active owner.\<close>

definition roles_inv :: "auth_db \<Rightarrow> bool" where
  "roles_inv d \<longleftrightarrow>
     distinct (map fst (administrators d)) \<and>
     (\<forall>(i, row) \<in> set (administrators d). ar_is_root row \<longrightarrow> ar_role row = RoleOwner \<and> ar_active row) \<and>
     (\<exists>(i, row) \<in> set (administrators d). ar_role row = RoleOwner \<and> ar_active row)"

lemma count_owners_two:
  assumes "distinct (map fst (administrators d))" and "1 < count_owners d"
  shows "\<exists>(i, row) \<in> set (administrators d). i \<noteq> t \<and> ar_role row = RoleOwner \<and> ar_active row"
proof (rule ccontr)
  let ?os = "filter (\<lambda>(i, row). ar_role row = RoleOwner \<and> ar_active row) (administrators d)"
  assume "\<not> ?thesis"
  then have "set (map fst ?os) \<subseteq> {t}" by auto
  moreover have "distinct (map fst ?os)" using assms(1) by (simp add: distinct_map_filter)
  ultimately have "length (map fst ?os) \<le> card {t}"
    by (metis card_mono distinct_card finite.emptyI finite.insertI)
  with assms(2) show False by (simp add: count_owners_def)
qed

lemma load_role_change_state_Inr:
  assumes "load_role_change_state actorID targetID s = (Inr (actor, target, n), s')"
  shows "fst s' = fst s \<and> n = count_owners (fst s) \<and>
    target = (case map_of (administrators (fst s)) targetID of
                None \<Rightarrow> no_administrator | Some t \<Rightarrow> scan_administrator targetID t) \<and>
    (\<exists>row. map_of (administrators (fst s)) actorID = Some row \<and> ar_active row \<and>
           actor = scan_administrator actorID row)"
proof -
  from assms obtain row s1 where st: "statement (\<lambda>d.
         (Inr (case map_of (administrators d) actorID of
                 None \<Rightarrow> None
               | Some actor \<Rightarrow>
                   if ar_active actor
                   then Some (actor, map_of (administrators d) targetID, count_owners d) else None), d)) s
       = (Inr row, s1)"
    and rest: "(case row of
          None \<Rightarrow> fail_with ErrRoleManagementForbidden
        | Some (actor, target, ownerCount) \<Rightarrow>
            ok (scan_administrator actorID actor,
                (case target of None \<Rightarrow> no_administrator | Some t \<Rightarrow> scan_administrator targetID t),
                ownerCount)) s1 = (Inr (actor, target, n), s')"
    unfolding load_role_change_state_def and_then_Inr wrapping_Inr by blast
  from statement_InrD [OF st] rest show ?thesis
    by (auto split: option.splits if_splits)
qed

definition changed :: "int \<Rightarrow> int \<Rightarrow> role option \<Rightarrow> auth_db \<Rightarrow> auth_db option" where
  "changed actorID targetID newRole d =
     (case newRole of
        Some r \<Rightarrow>
          (case persist_role targetID r d of
             (Inl _, _) \<Rightarrow> None
           | (Inr _, d1) \<Rightarrow> Some (snd (record_role_audit actorID ''administrator.set_role'' targetID r d1)))
      | None \<Rightarrow>
          Some (snd (record_role_audit actorID ''administrator.remove'' targetID NoRole
            (snd (delete_sessions_of targetID (snd (delete_login_code targetID (snd (deactivate targetID d)))))))))"

lemma change_operation_Inr:
  assumes "change_operation actorID targetID newRole s = (Inr u, s')"
  shows "\<exists>actor. map_of (administrators (fst s)) actorID = Some actor \<and> ar_active actor \<and>
    validate_role_change (ar_role actor)
       (case map_of (administrators (fst s)) targetID of None \<Rightarrow> NoRole | Some t \<Rightarrow> ar_role t)
       (case map_of (administrators (fst s)) targetID of None \<Rightarrow> False | Some t \<Rightarrow> ar_is_root t)
       (count_owners (fst s)) newRole = None \<and>
    (newRole = None \<longrightarrow> targetID = 0 \<or> map_of (administrators (fst s)) targetID \<noteq> None) \<and>
    changed actorID targetID newRole (fst s) = Some (fst s')"
proof -
  from assms obtain s1 s2 actor target n where
      lock: "statement (ok ()) s = (Inr (), s1)"
    and load: "load_role_change_state actorID targetID s1 = (Inr (actor, target, n), s2)"
    and rest: "(if max_int64 < n then fail_with ErrInvalidRoleChange
       else if newRole = None \<and> adm_TelegramID target = 0 then fail_with ErrAdministratorNotFound
       else case validate_role_change (adm_Role actor) (adm_Role target) (adm_Root target) n newRole of
         Some e \<Rightarrow> fail_with e
       | None \<Rightarrow>
           and_then (case newRole of
               Some r \<Rightarrow> wrapping ''persist administrator role'' (statement (persist_role targetID r))
             | None \<Rightarrow>
                 and_then (wrapping ''remove administrator'' (statement (deactivate targetID))) (\<lambda>_.
                 and_then (wrapping ''revoke administrator login code'' (statement (delete_login_code targetID))) (\<lambda>_.
                 wrapping ''revoke administrator sessions'' (statement (delete_sessions_of targetID)))))
           (\<lambda>_. wrapping ''record administrator audit event'' (statement
                 (record_role_audit actorID
                    (case newRole of None \<Rightarrow> ''administrator.remove'' | Some _ \<Rightarrow> ''administrator.set_role'')
                    targetID (case newRole of None \<Rightarrow> NoRole | Some r \<Rightarrow> r))))) s2 = (Inr u, s')"
    unfolding change_operation_def and_then_Inr wrapping_Inr by (auto split: prod.splits)
  from statement_InrD [OF lock] have s1: "fst s1 = fst s" by simp
  from load_role_change_state_Inr [OF load] s1 obtain row where
      d: "fst s2 = fst s" and n: "n = count_owners (fst s)"
    and t: "target = (case map_of (administrators (fst s)) targetID of
                None \<Rightarrow> no_administrator | Some t \<Rightarrow> scan_administrator targetID t)"
    and row: "map_of (administrators (fst s)) actorID = Some row" "ar_active row"
      "actor = scan_administrator actorID row"
    by auto
  from rest have val: "validate_role_change (adm_Role actor) (adm_Role target) (adm_Root target) n newRole = None"
    and found: "newRole = None \<longrightarrow> adm_TelegramID target \<noteq> 0"
    by (auto split: if_splits option.splits)
  have roles: "adm_Role actor = ar_role row"
    "adm_Role target = (case map_of (administrators (fst s)) targetID of None \<Rightarrow> NoRole | Some t \<Rightarrow> ar_role t)"
    "adm_Root target = (case map_of (administrators (fst s)) targetID of None \<Rightarrow> False | Some t \<Rightarrow> ar_is_root t)"
    using row t by (auto simp: scan_administrator_def no_administrator_def split: option.splits)
  have "changed actorID targetID newRole (fst s) = Some (fst s')"
    using rest val found d
    by (cases newRole)
      (auto simp: changed_def and_then_Inr deactivate_def delete_login_code_def delete_sessions_of_def
        record_role_audit_def dest!: statement_InrD split: if_splits)
  moreover have "newRole = None \<longrightarrow> targetID = 0 \<or> map_of (administrators (fst s)) targetID \<noteq> None"
    using found t by (auto simp: no_administrator_def split: option.splits)
  ultimately show ?thesis using val roles n row by auto
qed

text \<open>The invariant in terms of look-ups.\<close>

lemma roles_inv_iff:
  "roles_inv d \<longleftrightarrow>
     distinct (map fst (administrators d)) \<and>
     (\<forall>i row. map_of (administrators d) i = Some row \<longrightarrow> ar_is_root row \<longrightarrow>
        ar_role row = RoleOwner \<and> ar_active row) \<and>
     (\<exists>i row. map_of (administrators d) i = Some row \<and> ar_role row = RoleOwner \<and> ar_active row)"
proof (cases "distinct (map fst (administrators d))")
  case True
  then have "\<And>i row. (i, row) \<in> set (administrators d) \<longleftrightarrow> map_of (administrators d) i = Some row"
    by (simp add: map_of_eq_Some_iff)
  then show ?thesis by (simp add: roles_inv_def Ball_def Bex_def split_paired_All split_paired_Ex)
next
  case False
  then show ?thesis by (simp add: roles_inv_def)
qed

lemma another_owner:
  assumes "distinct (map fst (administrators d))" and "1 < count_owners d"
  obtains i row where "i \<noteq> t" "map_of (administrators d) i = Some row"
    "ar_role row = RoleOwner" "ar_active row"
proof -
  obtain i row where "(i, row) \<in> set (administrators d)" "i \<noteq> t" "ar_role row = RoleOwner"
      "ar_active row"
    using count_owners_two [OF assms, of t] by auto
  with assms(1) show thesis by (intro that [of i row]) simp_all
qed

lemma persist_role_Inr:
  assumes "persist_role t r d = (Inr u, d')"
  obtains row where "d' = d\<lparr>administrators := AList.update t row (administrators d)\<rparr>"
    "ar_role row = r" "ar_active row" "ar_is_root row \<longrightarrow> r = RoleOwner"
  using assms by (auto simp: persist_role_def Let_def split: if_splits option.splits)

lemma persist_role_inv:
  assumes inv: "roles_inv d" and p: "persist_role t r d = (Inr u, d')"
    and v: "validate_role_change actor
       (case map_of (administrators d) t of None \<Rightarrow> NoRole | Some x \<Rightarrow> ar_role x)
       (case map_of (administrators d) t of None \<Rightarrow> False | Some x \<Rightarrow> ar_is_root x)
       (count_owners d) (Some r) = None"
  shows "roles_inv d'"
proof -
  obtain row where d': "d' = d\<lparr>administrators := AList.update t row (administrators d)\<rparr>"
    and row: "ar_role row = r" "ar_active row" "ar_is_root row \<longrightarrow> r = RoleOwner"
    using p by (rule persist_role_Inr)
  have dist: "distinct (map fst (administrators d))" using inv by (simp add: roles_inv_def)
  obtain i o_row where o_row: "map_of (administrators d) i = Some o_row" "ar_role o_row = RoleOwner"
      "ar_active o_row" "i \<noteq> t \<or> r = RoleOwner"
  proof (cases "r = RoleOwner")
    case True
    with inv that show ?thesis by (auto simp: roles_inv_iff)
  next
    case False
    obtain j x where x: "map_of (administrators d) j = Some x" "ar_role x = RoleOwner" "ar_active x"
      using inv by (auto simp: roles_inv_iff)
    show ?thesis
    proof (cases "j = t")
      case True
      with x False v have "1 < count_owners d"
        by (auto simp: validate_role_change_def split: if_splits)
      from another_owner [OF dist this, of t] that show ?thesis by blast
    next
      case False
      with x that show ?thesis by blast
    qed
  qed
  have "\<exists>j x. map_of (administrators d') j = Some x \<and> ar_role x = RoleOwner \<and> ar_active x"
  proof (cases "i = t")
    case True
    with o_row row show ?thesis by (intro exI [of _ t] exI [of _ row]) (simp add: d' update_conv')
  next
    case False
    with o_row show ?thesis by (intro exI [of _ i] exI [of _ o_row]) (simp add: d' update_conv')
  qed
  with inv row dist show ?thesis
    by (auto simp: roles_inv_iff d' update_conv' distinct_update)
qed

lemma deactivate_inv:
  assumes inv: "roles_inv d"
    and v: "validate_role_change actor
       (case map_of (administrators d) t of None \<Rightarrow> NoRole | Some x \<Rightarrow> ar_role x)
       (case map_of (administrators d) t of None \<Rightarrow> False | Some x \<Rightarrow> ar_is_root x)
       (count_owners d) None = None"
  shows "roles_inv (snd (deactivate t d))"
proof -
  let ?upd = "\<lambda>(i, row). (i, if i = t then row\<lparr>ar_active := False\<rparr> else row)"
  have dist: "distinct (map fst (administrators d))" using inv by (simp add: roles_inv_def)
  have keys: "map fst (map ?upd (administrators d)) = map fst (administrators d)"
    by (rule map_fst_map_rows)
  have look: "map_of (map ?upd (administrators d)) i =
      map_option (\<lambda>row. if i = t then row\<lparr>ar_active := False\<rparr> else row) (map_of (administrators d) i)" for i
    by (rule map_of_map_rows)
  obtain i o_row where o_row: "map_of (administrators d) i = Some o_row" "ar_role o_row = RoleOwner"
      "ar_active o_row" "i \<noteq> t"
  proof -
    obtain j x where x: "map_of (administrators d) j = Some x" "ar_role x = RoleOwner" "ar_active x"
      using inv by (auto simp: roles_inv_iff)
    show thesis
    proof (cases "j = t")
      case True
      with x v have "1 < count_owners d"
        by (auto simp: validate_role_change_def split: if_splits)
      from another_owner [OF dist this, of t] that show thesis by blast
    next
      case False
      with x that show thesis by blast
    qed
  qed
  have "\<not> (\<exists>x. map_of (administrators d) t = Some x \<and> ar_is_root x)"
    using v by (auto simp: validate_role_change_def split: if_splits)
  then have nr: "map_of (administrators d) t = Some x \<Longrightarrow> \<not> ar_is_root x" for x by blast
  have t: "administrators (snd (deactivate t d)) = map ?upd (administrators d)"
    by (simp add: deactivate_def)
  have "\<forall>j row. map_of (map ?upd (administrators d)) j = Some row \<longrightarrow> ar_is_root row \<longrightarrow>
        ar_role row = RoleOwner \<and> ar_active row"
  proof (intro allI impI)
    fix j row
    assume "map_of (map ?upd (administrators d)) j = Some row" and root: "ar_is_root row"
    then obtain x where x: "map_of (administrators d) j = Some x"
        "row = (if j = t then x\<lparr>ar_active := False\<rparr> else x)"
      unfolding look by blast
    show "ar_role row = RoleOwner \<and> ar_active row"
    proof (cases "j = t")
      case True
      with x root nr show ?thesis by auto
    next
      case False
      with x root inv show ?thesis unfolding roles_inv_iff by auto
    qed
  qed
  moreover have "map_of (map ?upd (administrators d)) i = Some o_row"
    unfolding look using o_row by (simp del: map_of_eq_Some_iff)
  ultimately show ?thesis
    unfolding roles_inv_iff t keys using dist o_row by blast
qed

lemma changed_inv:
  assumes "roles_inv d"
    and "validate_role_change actor
       (case map_of (administrators d) t of None \<Rightarrow> NoRole | Some x \<Rightarrow> ar_role x)
       (case map_of (administrators d) t of None \<Rightarrow> False | Some x \<Rightarrow> ar_is_root x)
       (count_owners d) newRole = None"
    and "changed actorID t newRole d = Some d'"
  shows "roles_inv d'"
proof (cases newRole)
  case None
  with deactivate_inv assms have "roles_inv (snd (deactivate t d))" by blast
  with None assms(3) show ?thesis
    by (auto simp: changed_def roles_inv_def record_role_audit_def delete_sessions_of_def
        delete_login_code_def)
next
  case (Some r)
  with assms(3) obtain d1 where p: "persist_role t r d = (Inr (), d1)"
    and d': "d' = snd (record_role_audit actorID ''administrator.set_role'' t r d1)"
    by (auto simp: changed_def split: prod.splits sum.splits)
  from persist_role_inv [OF assms(1) p] assms(2) Some have "roles_inv d1" by blast
  with d' show ?thesis by (simp add: roles_inv_def record_role_audit_def)
qed

text \<open>A change under any faults: nothing happened, or the whole change by an active owner did.\<close>

lemma change_role_outcome:
  assumes "change_role actorID t newRole (d, fs) = (r, (d', fs'))"
  shows "(d' = d \<and> \<not> is_ok r) \<or>
    (\<exists>actor. map_of (administrators d) actorID = Some actor \<and> ar_active actor \<and>
      validate_role_change (ar_role actor)
       (case map_of (administrators d) t of None \<Rightarrow> NoRole | Some x \<Rightarrow> ar_role x)
       (case map_of (administrators d) t of None \<Rightarrow> False | Some x \<Rightarrow> ar_is_root x)
       (count_owners d) newRole = None \<and>
      changed actorID t newRole d = Some d')"
  using transaction_outcome [OF assms [unfolded change_role_def]]
  by (auto dest!: change_operation_Inr)

text \<open>
  The operations that reach the table \<open>administrators\<close>, in the order they are served, on an
  unreliable connection.
\<close>

datatype role_op =
    OpSetRole int int role go_time
  | OpRemove int int go_time
  | OpEnsureRoot int

fun role_step :: "role_op \<Rightarrow> (auth_db \<times> faults, unit) call" where
  "role_step (OpSetRole actorID targetID r now) = set_role actorID targetID r now"
| "role_step (OpRemove actorID targetID now) = remove_administrator actorID targetID now"
| "role_step (OpEnsureRoot telegramID) = ensure_root_owner telegramID"

fun role_run :: "role_op list \<Rightarrow> auth_db \<times> faults \<Rightarrow> auth_db \<times> faults" where
  "role_run [] st = st"
| "role_run (x # xs) st = role_run xs (snd (role_step x st))"

lemma ensure_root_owner_inv:
  assumes "ensure_root_owner i (d, fs) = (r, (d', fs'))" and "roles_inv d"
  shows "roles_inv d'"
proof -
  let ?row = "\<lparr>ar_role = RoleOwner, ar_is_root = True, ar_active = True\<rparr>"
  have "d' = d \<or> d' = d\<lparr>administrators := AList.update i ?row (administrators d)\<rparr>"
    using assms(1)
    by (auto simp: ensure_root_owner_def split: if_splits dest!: statement_outcome)
  moreover have "roles_inv (d\<lparr>administrators := AList.update i ?row (administrators d)\<rparr>)"
  proof -
    have "map_of (AList.update i ?row (administrators d)) i = Some ?row" by (simp add: update_conv')
    moreover have "\<forall>j row. map_of (AList.update i ?row (administrators d)) j = Some row \<longrightarrow>
        ar_is_root row \<longrightarrow> ar_role row = RoleOwner \<and> ar_active row"
      using assms(2) unfolding update_conv' roles_inv_iff
      by (auto simp del: map_of_eq_Some_iff)
    ultimately show ?thesis
      using assms(2) distinct_update [of "administrators d" i ?row]
      unfolding roles_inv_iff by (simp del: map_of_eq_Some_iff) (metis administrator_row.select_convs(1,3))
  qed
  ultimately show ?thesis using assms(2) by auto
qed

lemma role_step_inv:
  assumes "role_step x (d, fs) = (r, (d', fs'))" and "roles_inv d"
  shows "roles_inv d'"
  using assms
  by (cases x) (auto simp: set_role_def remove_administrator_def split: if_splits
      dest: change_role_outcome changed_inv ensure_root_owner_inv)


end
