(* ===== verification/Login.thy ===== *)
theory Login
  imports Administrator_Store "HOL-Library.Sublist"
begin

text \<open>
  What logging in guarantees: the authentication services of \<open>internal/auth\<close> on the tables of
  \<open>internal/postgres\<close>, through the interfaces \<open>login_code_store\<close> and \<open>session_store\<close>.
\<close>

section \<open>Login codes are uniform\<close>

text \<open>How many of the sequences of \<open>n\<close> bytes complete a code that lacks \<open>k\<close> characters.\<close>

fun completions :: "nat \<Rightarrow> nat \<Rightarrow> nat" where
  "completions n 0 = 256 ^ n"
| "completions 0 (Suc k) = 0"
| "completions (Suc n) (Suc k) = 8 * completions n (Suc k) + 4 * completions n k"

lemma low_bits: "unat ((b :: byte) AND 63) = unat b mod 64"
proof -
  have "(63 :: byte) = mask 6" by (simp add: mask_eq_exp_minus_1)
  then have "b AND 63 = take_bit 6 b" by (simp only: take_bit_eq_mask)
  then show ?thesis by (simp only: unsigned_take_bit_eq) (simp add: take_bit_eq_mod)
qed

lemma bytes_with_low_bits:
  assumes "j < 64"
  shows "card {b :: byte. unat (b AND 63) = j} = 4"
proof -
  have "{b :: byte. unat (b AND 63) = j} = word_of_nat ` {j, j + 64, j + 128, j + 192}"
  proof (intro set_eqI iffI)
    fix b :: byte
    assume "b \<in> {b. unat (b AND 63) = j}"
    then have m: "unat b mod 64 = j" by (simp add: low_bits)
    have "unat b < 256" using unsigned_less [of b] by simp
    then have "unat b div 64 < 4" by simp
    then have "unat b div 64 \<in> {0, 1, 2, 3}" by auto
    moreover have "unat b = 64 * (unat b div 64) + j" using m by (metis mult_div_mod_eq)
    ultimately have "unat b \<in> {j, j + 64, j + 128, j + 192}" by auto
    moreover have "b = word_of_nat (unat b)" by simp
    ultimately show "b \<in> word_of_nat ` {j, j + 64, j + 128, j + 192}" by blast
  next
    fix b :: byte
    assume "b \<in> word_of_nat ` {j, j + 64, j + 128, j + 192}"
    then obtain k where k: "k \<in> {j, j + 64, j + 128, j + 192}" and b: "b = word_of_nat k"
      by (rule imageE)
    from k assms have "k < 256" by auto
    then have "unat b = k" unfolding b by (simp add: unat_of_nat)
    moreover have "(j + 64 * m) mod 64 = j" for m using assms by simp
    from this [of 0] this [of 1] this [of 2] this [of 3] have "k mod 64 = j" using k by auto
    ultimately show "b \<in> {b. unat (b AND 63) = j}" by (simp add: low_bits)
  qed
  moreover have "inj_on (word_of_nat :: nat \<Rightarrow> byte) {j, j + 64, j + 128, j + 192}"
    using assms by (auto simp: inj_on_def word_unat_eq_iff unat_of_nat)
  ultimately show ?thesis by (simp add: card_image)
qed

lemma sum_over_bytes:
  assumes "j < 62"
  shows "(\<Sum>b :: byte \<in> UNIV. if 62 \<le> unat (b AND 63) then A else if unat (b AND 63) = j then B else (0::nat))
    = 8 * A + 4 * B"
proof -
  have lt: "unat (b AND 63) < 64" for b :: byte by (simp add: low_bits)
  have "(\<Sum>b :: byte \<in> UNIV. if 62 \<le> unat (b AND 63) then A else if unat (b AND 63) = j then B else 0)
    = (\<Sum>b :: byte \<in> UNIV. (if unat (b AND 63) = 62 then A else 0) + (if unat (b AND 63) = 63 then A else 0)
         + (if unat (b AND 63) = j then B else 0))"
  proof (rule sum.cong [OF refl])
    fix b :: byte
    show "(if 62 \<le> unat (b AND 63) then A else if unat (b AND 63) = j then B else 0) =
       (if unat (b AND 63) = 62 then A else 0) + (if unat (b AND 63) = 63 then A else 0)
         + (if unat (b AND 63) = j then B else 0)"
      using lt [of b] assms by (cases "unat (b AND 63) = 62"; cases "unat (b AND 63) = 63") auto
  qed
  also have "\<dots> = 8 * A + 4 * B"
    using assms by (simp add: sum.distrib sum.If_cases bytes_with_low_bits Collect_conv_if)
  finally show ?thesis .
qed

text \<open>The byte sequences of length \<open>n\<close> from which \<open>generate_code\<close> goes on from \<open>acc\<close> to \<open>code\<close>.\<close>

definition yielding :: "nat \<Rightarrow> string \<Rightarrow> string \<Rightarrow> byte list set" where
  "yielding n acc code = {src. length src = n \<and> fst (generate_code acc src) = Inr code}"

lemma yielding_full:
  assumes "loginCodeLength \<le> length acc"
  shows "card (yielding n acc code) = (if acc = code then 256 ^ n else 0)"
proof -
  have "fst (generate_code acc src) = Inr code \<longleftrightarrow> acc = code" for src
    using assms by (cases src) auto
  then have "yielding n acc code = (if acc = code then {src. set src \<subseteq> UNIV \<and> length src = n} else {})"
    by (auto simp: yielding_def)
  then show ?thesis using card_lists_length_eq [of "UNIV :: byte set" n] by (simp add: card_word)
qed

lemma yielding_Suc:
  assumes "length acc < loginCodeLength"
  shows "card (yielding (Suc n) acc code) =
    (\<Sum>b :: byte \<in> UNIV. card (yielding n (if 62 \<le> unat (b AND 63) then acc
                                else acc @ [loginCodeAlphabet ! unat (b AND 63)]) code))"
proof -
  let ?next = "\<lambda>b :: byte. if 62 \<le> unat (b AND 63) then acc else acc @ [loginCodeAlphabet ! unat (b AND 63)]"
  have step: "generate_code acc (b # src) = generate_code (?next b) src" for b src
    using assms by (simp add: Let_def loginCodeAlphabet_facts)
  have fin: "finite (yielding n acc' code)" for n acc'
    using finite_lists_length_eq [of "UNIV :: byte set" n] by (simp add: yielding_def)
  have "yielding (Suc n) acc code = (\<Union>b \<in> UNIV. (#) b ` yielding n (?next b) code)"
    using step by (auto simp: yielding_def length_Suc_conv image_iff simp del: generate_code.simps)
  moreover have "card (\<Union>b \<in> UNIV. (#) b ` yielding n (?next b) code) =
      (\<Sum>b \<in> UNIV. card ((#) b ` yielding n (?next b) code))"
    by (rule card_UN_disjoint) (auto simp: fin)
  moreover have "card ((#) b ` yielding n (?next b) code) = card (yielding n (?next b) code)" for b
    by (rule card_image) simp
  ultimately show ?thesis by simp
qed

lemma yielding_off:
  "\<not> prefix acc code \<Longrightarrow> yielding n acc code = {}"
proof (induction n arbitrary: acc)
  case 0
  then show ?case by (auto simp: yielding_def split: if_splits)
next
  case (Suc n)
  have fin: "finite (yielding (Suc n) acc code)"
    using finite_lists_length_eq [of "UNIV :: byte set" "Suc n"] by (simp add: yielding_def)
  have "card (yielding (Suc n) acc code) = 0"
  proof (cases "length acc < loginCodeLength")
    case True
    have "\<not> prefix (acc @ xs) code" for xs using Suc.prems append_prefixD by blast
    then have "yielding n (acc @ xs) code = {}" for xs by (rule Suc.IH)
    moreover have "yielding n acc code = {}" using Suc by blast
    ultimately show ?thesis by (simp add: yielding_Suc [OF True] if_distrib cong: if_cong)
  next
    case False
    with Suc.prems show ?thesis by (auto simp: yielding_full)
  qed
  with fin show ?case by simp
qed

lemma yielding_count:
  assumes "length code = loginCodeLength" and "set code \<subseteq> set loginCodeAlphabet"
    and "k \<le> loginCodeLength"
  shows "card (yielding n (take (loginCodeLength - k) code) code) = completions n k"
  using assms(3)
proof (induction n k rule: completions.induct)
  case (1 n)
  with assms(1) show ?case by (simp add: yielding_full)
next
  case (2 k)
  with assms(1) have "take (loginCodeLength - Suc k) code \<noteq> code"
    "length (take (loginCodeLength - Suc k) code) < loginCodeLength" by (auto simp: take_all_iff)
  then show ?case by (simp add: yielding_def)
next
  case (3 n k)
  let ?p = "loginCodeLength - Suc k"
  let ?acc = "take ?p code"
  have p: "?p < loginCodeLength" "length ?acc = ?p" using assms(1) 3 by auto
  have "code ! ?p \<in> set loginCodeAlphabet" using assms p by auto
  then obtain j where j: "j < 62" "loginCodeAlphabet ! j = code ! ?p"
    by (metis in_set_conv_nth loginCodeAlphabet_facts(1))
  have take: "take (loginCodeLength - k) code = ?acc @ [code ! ?p]"
  proof -
    have "loginCodeLength - k = Suc ?p" using 3 by linarith
    with take_Suc_conv_app_nth [of ?p code] assms(1) p show ?thesis by simp
  qed
  have next_card: "card (yielding n (if 62 \<le> unat (b AND 63) then ?acc
             else ?acc @ [loginCodeAlphabet ! unat (b AND 63)]) code) =
        (if 62 \<le> unat (b AND 63) then completions n (Suc k)
         else if unat (b AND 63) = j then completions n k else 0)" for b :: byte
  proof (cases "62 \<le> unat (b AND 63) \<or> unat (b AND 63) = j")
    case True
    with 3 take j show ?thesis by auto
  next
    case False
    then have "loginCodeAlphabet ! unat (b AND 63) \<noteq> code ! ?p"
      using j loginCodeAlphabet_facts by (metis nth_eq_iff_index_eq not_le)
    then have "\<not> prefix (?acc @ [loginCodeAlphabet ! unat (b AND 63)]) code"
    proof (rule contrapos_nn)
      assume "prefix (?acc @ [loginCodeAlphabet ! unat (b AND 63)]) code"
      then obtain zs where "code = (?acc @ [loginCodeAlphabet ! unat (b AND 63)]) @ zs"
        by (rule prefixE)
      then have "code ! ?p = ((?acc @ [loginCodeAlphabet ! unat (b AND 63)]) @ zs) ! ?p"
        by (rule arg_cong)
      then show "loginCodeAlphabet ! unat (b AND 63) = code ! ?p"
        using p(2) by (simp add: nth_append)
    qed
    with False show ?thesis by (simp add: yielding_off)
  qed
  have "card (yielding (Suc n) ?acc code) = (\<Sum>b :: byte \<in> UNIV.
      if 62 \<le> unat (b AND 63) then completions n (Suc k)
      else if unat (b AND 63) = j then completions n k else 0)"
    using p by (subst yielding_Suc) (simp_all only: next_card)
  also have "\<dots> = completions (Suc n) (Suc k)"
    by (simp only: sum_over_bytes [OF j(1)] completions.simps)
  finally show ?case .
qed

text \<open>
  Login codes carry no bias: out of the equally likely sequences of \<open>n\<close> random bytes,
  every code of eight letters and digits is produced by the same number of them
  (\<open>completions n 8\<close>, which does not depend on the code); no other string is ever produced.
\<close>

theorem login_codes_uniform:
  "card {src. length src = n \<and> fst (generate_code [] src) = Inr code} =
     (if length code = loginCodeLength \<and> set code \<subseteq> set loginCodeAlphabet
      then completions n loginCodeLength else 0)"
proof (cases "length code = loginCodeLength \<and> set code \<subseteq> set loginCodeAlphabet")
  case True
  with yielding_count [of code loginCodeLength n] show ?thesis by (simp add: yielding_def)
next
  case False
  then have "fst (generate_code [] src) \<noteq> Inr code" for src
    using generate_code_valid [of "[]" src code "snd (generate_code [] src)"]
    by (metis empty_set empty_subsetI le0 list.size(3) prod.collapse)
  with False show ?thesis by auto
qed

section \<open>Codes, sessions and removed administrators\<close>

text \<open>
  C2. A login code is used at most once: whatever attempts with whatever codes are made for an
  administrator, in whatever order and with whatever lost statements and acknowledgements, at
  most one of them succeeds before the next code is issued.
\<close>

theorem login_code_single_use:
  "successes i xs (fst (consume_run consume_stored_code dig xs st)) \<le> 1"
  by (rule codes.at_most_one)

text \<open>
  A login attempt that succeeds after a code was issued at \<open>t0\<close> shows a code with the digest
  of the issued one, comes less than five minutes after \<open>t0\<close>, and logs in the administrator the
  code was issued for, who is active; the issued code has eight characters of the alphabet.
\<close>

theorem login_code_lifetime:
  assumes "issue_code find_active replace_code dig t0 i (s, src) = (Inr code, (s1, src1))"
    and "consume_code consume_stored_code dig t i attempt s1 = (Inr a, s2)"
  shows "dig attempt = dig code \<and> t < t0 + loginCodeLifetime \<and> adm_TelegramID a = i \<and>
    adm_Active a \<and> length code = loginCodeLength \<and> set code \<subseteq> set loginCodeAlphabet"
proof -
  from assms(1) obtain src2 where g: "generate_code [] src = (Inr code, src2)"
    by (auto simp: issue_code_def Let_def split: sum.splits prod.splits if_splits)
  have "adm_Active a"
    using assms(2) by (auto simp: consume_code_def consume_stored_code_def statement_def Let_def
        scan_administrator_def split: statement_splits)
  with codes.issue_then_consume [OF assms] generate_code_valid [OF _ _ g] show ?thesis by simp
qed

text \<open>
  A session token created at \<open>t0\<close> stops working seven days after \<open>t0\<close> however often it is
  used, and twelve hours after it was last shown, whatever authentications, revocations and
  database failures happen in between.
\<close>

theorem session_lifetime:
  assumes "create_session insert_session dig t0 adm (st, src) = (Inr token, (st1, src1))"
    and "authenticate authenticate_and_touch dig now token
           (session_run authenticate_and_touch delete_session delete_all_sessions dig xs st1) = (Inr a, st2)"
  shows "now < t0 + sessionAbsoluteLifetime \<and>
    now < last_use dig (dig token) t0 xs + sessionIdleTimeout"
  by (rule sessions.created_then_authenticated [OF assms])

text \<open>
  C6. A session that was logged out never authenticates again: not with its own token, nor with
  any other string, at any time and after any sequence of uses and revocations of sessions.
\<close>

theorem logged_out_forever:
  assumes "revoke_session delete_session dig token st = (Inr u, st1)"
  shows "\<not> is_ok (fst (authenticate authenticate_and_touch dig now token
    (session_run authenticate_and_touch delete_session delete_all_sessions dig xs st1)))"
  by (rule sessions.revoked_never_authenticates [OF assms])

text \<open>The two services of \<open>LoginFlow\<close> on the tables, with one random source.\<close>

definition codes_service ::
    "(string \<Rightarrow> byte list) \<Rightarrow> go_time \<Rightarrow> int \<Rightarrow> string
       \<Rightarrow> ((auth_db \<times> faults) \<times> byte list, administrator) call" where
  "codes_service dig now i code st =
     (let (s, src) = st; (r, s1) = consume_code consume_stored_code dig now i code s in (r, (s1, src)))"

definition login :: "(string \<Rightarrow> byte list) \<Rightarrow> go_time \<Rightarrow> int \<Rightarrow> string
    \<Rightarrow> ((auth_db \<times> faults) \<times> byte list, string \<times> string) call" where
  "login dig now = exchange (codes_service dig now) (create_session insert_session dig now)"

text \<open>
  C7. Exchanging a login code never opens a session for nothing: when it succeeds, the stored
  code had the digest of the one shown, was in time and is gone, the new session row belongs to
  that same active administrator, and the two tokens handed out are the first 64 bytes of the
  random source; when the random source fails for the CSRF token, the tables are untouched and
  the code can still be used.
\<close>

theorem login_opens_own_session:
  assumes "login dig now i code ((d, fs), src) = (r, ((d', fs'), src'))"
  shows "case r of
      Inr (token, csrf) \<Rightarrow>
        (\<exists>stored row. map_of (admin_login_codes d) i = Some stored \<and> lr_digest stored = dig code \<and>
           now < lr_expires_at stored \<and> map_of (admin_login_codes d') i = None \<and>
           map_of (administrators d) i = Some row \<and> ar_active row \<and> administrators d' = administrators d \<and>
           admin_sessions d' = (admin_sessions d)(dig token \<mapsto>
             \<lparr>sr_telegram_id = i, sr_created_at = now, sr_last_seen_at = now,
              sr_absolute_expires_at = now + sessionAbsoluteLifetime\<rparr>)) \<and>
        csrf = b64_encode (take 32 src) \<and> token = b64_encode (take 32 (drop 32 src)) \<and>
        src = take 64 src @ src' \<and> length (take 64 src) = 64
    | Inl e \<Rightarrow> length src < csrfTokenBytes \<longrightarrow> d' = d"
proof -
  show ?thesis
  proof (cases "length src < csrfTokenBytes")
    case True
    with assms show ?thesis by (auto simp: login_def exchange_def read_full_def)
  next
    case False
    show ?thesis
    proof (cases r)
      case (Inl e)
      with False show ?thesis by simp
    next
      case (Inr tokens)
      obtain token csrf where tk: "tokens = (token, csrf)" by fastforce
      from assms False Inr tk obtain a s1 where
          con: "consume_code consume_stored_code dig now i code (d, fs) = (Inr a, s1)"
        and new: "create_session insert_session dig now a (s1, drop 32 src) = (Inr token, ((d', fs'), src'))"
        and csrf: "csrf = b64_encode (take 32 src)"
        by (auto simp: login_def exchange_def codes_service_def read_full_def Let_def
            split: prod.splits sum.splits)
      obtain d1 fs1 where s1: "s1 = (d1, fs1)" by fastforce
      from new obtain c s2 where ins: "insert_session c s1 = (Inr (), (d', fs'))"
        and src: "32 \<le> length (drop 32 src)" "token = b64_encode (take 32 (drop 32 src))"
          "src' = drop 32 (drop 32 src)"
        and c: "se_Digest c = dig token" "se_CreatedAt c = now" "se_LastSeenAt c = now"
          "se_AbsoluteExpiresAt c = now + sessionAbsoluteLifetime"
          "adm_TelegramID (se_Administrator c) = adm_TelegramID a"
        by (auto simp: create_session_def read_full_def Let_def split: if_splits sum.splits prod.splits)
      from codes.consume_code_takes [OF con] s1 obtain stored where
          code: "map_of (admin_login_codes d) i = Some stored" "lr_digest stored = dig code"
            "now < lr_expires_at stored" "map_of (admin_login_codes d1) i = None" "adm_TelegramID a = i"
        by auto
      from con s1 obtain row where row: "map_of (administrators d) i = Some row" "ar_active row"
          "administrators d1 = administrators d" "admin_sessions d1 = admin_sessions d"
        by (auto simp: consume_code_def consume_stored_code_def split: if_splits option.splits
            dest!: statement_InrD)
      from ins s1 have rest: "administrators d' = administrators d1"
          "admin_login_codes d' = admin_login_codes d1"
        by (auto simp: insert_session_def split: if_splits dest!: statement_InrD)
      have "src = take 64 src @ src'" using src by simp
      moreover have "length (take 64 src) = 64" using src by simp
      ultimately show ?thesis
        using sessions.create_stores [OF ins] s1 c code row rest src csrf Inr tk by auto
    qed
  qed
qed

section \<open>Removing an administrator\<close>


text \<open>
  Only an active owner changes roles, and every change is one audited transaction: whenever
  setting a role leaves the tables different from before, even under an error whose outcome is
  unknown, the actor was an active owner, no root owner was demoted, the last active owner was
  not demoted, only the target's row changed and exactly one audit event was appended.
\<close>

theorem only_owners_set_roles:
  assumes "set_role actorID targetID r now (d, fs) = (res, (d', fs'))" and "d' \<noteq> d"
  shows "(\<exists>actor. map_of (administrators d) actorID = Some actor \<and> ar_active actor \<and>
        ar_role actor = RoleOwner) \<and>
    (r \<noteq> RoleOwner \<longrightarrow> (\<forall>old. map_of (administrators d) targetID = Some old \<longrightarrow> \<not> ar_is_root old \<and>
        (ar_role old = RoleOwner \<longrightarrow> 1 < count_owners d))) \<and>
    (\<exists>row. map_of (administrators d') targetID = Some row \<and> ar_role row = r \<and> ar_active row) \<and>
    (\<forall>j. j \<noteq> targetID \<longrightarrow> map_of (administrators d') j = map_of (administrators d) j) \<and>
    admin_audit_events d' = admin_audit_events d @ [(actorID, ''administrator.set_role'', targetID, r)]"
proof -
  from assms obtain actor where actor: "map_of (administrators d) actorID = Some actor" "ar_active actor"
    and v: "validate_role_change (ar_role actor)
       (case map_of (administrators d) targetID of None \<Rightarrow> NoRole | Some x \<Rightarrow> ar_role x)
       (case map_of (administrators d) targetID of None \<Rightarrow> False | Some x \<Rightarrow> ar_is_root x)
       (count_owners d) (Some r) = None"
    and ch: "changed actorID targetID (Some r) d = Some d'"
    by (auto simp: set_role_def split: if_splits dest!: change_role_outcome)
  from v have "ar_role actor = RoleOwner"
    by (auto simp: validate_role_change_def split: if_splits)
  moreover from v have "r \<noteq> RoleOwner \<longrightarrow> (\<forall>old. map_of (administrators d) targetID = Some old \<longrightarrow>
      \<not> ar_is_root old \<and> (ar_role old = RoleOwner \<longrightarrow> 1 < count_owners d))"
    by (auto simp: validate_role_change_def split: if_splits)
  moreover from ch obtain d1 where p: "persist_role targetID r d = (Inr (), d1)"
    and d': "d' = snd (record_role_audit actorID ''administrator.set_role'' targetID r d1)"
    by (auto simp: changed_def split: prod.splits sum.splits)
  moreover obtain row where "d1 = d\<lparr>administrators := AList.update targetID row (administrators d)\<rparr>"
    "ar_role row = r" "ar_active row"
    using p by (rule persist_role_Inr)
  moreover from this d' have "administrators d' = AList.update targetID row (administrators d)"
    "admin_audit_events d' = admin_audit_events d @ [(actorID, ''administrator.set_role'', targetID, r)]"
    by (simp_all add: record_role_audit_def)
  ultimately show ?thesis using actor by (simp add: update_conv')
qed

section \<open>Concrete runs\<close>

text \<open>
  A table with a root owner and an administrator who has a login code and a session, a digest
  function, and a random source.
\<close>

definition sample_digest :: "string \<Rightarrow> byte list" where
  "sample_digest xs = replicate 31 0 @ [word_of_nat (length xs)]"

definition sample_source :: "byte list" where
  "sample_source = map word_of_nat [0..<96]"

definition sample_administrator :: administrator where
  "sample_administrator = \<lparr>adm_TelegramID = 7, adm_Role = RoleAdministrator, adm_Root = False, adm_Active = True\<rparr>"

definition sample_db :: auth_db where
  "sample_db = \<lparr>administrators =
       [(1, \<lparr>ar_role = RoleOwner, ar_is_root = True, ar_active = True\<rparr>),
        (7, \<lparr>ar_role = RoleAdministrator, ar_is_root = False, ar_active = True\<rparr>)],
     admin_login_codes = [(7, \<lparr>lr_digest = sample_digest ''ABCDEFGH'', lr_expires_at = 100 * second\<rparr>)],
     admin_sessions = (\<lambda>_. None), admin_audit_events = []\<rparr>"


theorem login_code_lifetime_witness:
  "let x = issue_code find_active replace_code sample_digest (10 * second) 7 ((sample_db, []), sample_source);
       y = consume_code consume_stored_code sample_digest (20 * second) 7 ''ABCDEFGH'' (fst (snd x))
   in fst x = Inr ''ABCDEFGH'' \<and> fst y = Inr sample_administrator \<and> 20 * second < 10 * second + loginCodeLifetime"
proof -
  let ?x = "issue_code find_active replace_code sample_digest (10 * second) 7 ((sample_db, []), sample_source)"
  let ?y = "consume_code consume_stored_code sample_digest (20 * second) 7 ''ABCDEFGH'' (fst (snd ?x))"
  have x: "fst ?x = Inr ''ABCDEFGH''" by code_simp
  have y: "fst ?y = Inr sample_administrator" by code_simp
  from login_code_lifetime [OF split_result3 [OF x] split_result [OF y]] x y
  show ?thesis unfolding Let_def by blast
qed

theorem session_lifetime_witness:
  "let x = create_session insert_session sample_digest 5 sample_administrator ((sample_db, []), sample_source);
       token = b64_encode (take 32 sample_source);
       y = authenticate authenticate_and_touch sample_digest (12 * hour) token
             (session_run authenticate_and_touch delete_session delete_all_sessions sample_digest
                [OpAuthenticate hour token] (fst (snd x)))
   in fst x = Inr token \<and> fst y = Inr sample_administrator \<and> 12 * hour < 5 + sessionAbsoluteLifetime"
proof -
  let ?token = "b64_encode (take 32 sample_source)"
  let ?x = "create_session insert_session sample_digest 5 sample_administrator ((sample_db, []), sample_source)"
  let ?y = "authenticate authenticate_and_touch sample_digest (12 * hour) ?token
             (session_run authenticate_and_touch delete_session delete_all_sessions sample_digest
                [OpAuthenticate hour ?token] (fst (snd ?x)))"
  have x: "fst ?x = Inr ?token" by code_simp
  have y: "fst ?y = Inr sample_administrator" by code_simp
  from session_lifetime [OF split_result3 [OF x] split_result [OF y]] x y
  show ?thesis unfolding Let_def by blast
qed

theorem logged_out_forever_witness:
  "let token = b64_encode (take 32 sample_source);
       x = revoke_session delete_session sample_digest token (sample_db, [])
   in fst x = Inr () \<and>
      \<not> is_ok (fst (authenticate authenticate_and_touch sample_digest hour token
        (session_run authenticate_and_touch delete_session delete_all_sessions sample_digest
           [OpRevokeAll 7] (snd x))))"
proof -
  let ?token = "b64_encode (take 32 sample_source)"
  let ?x = "revoke_session delete_session sample_digest ?token (sample_db, [])"
  have x: "fst ?x = Inr ()" by code_simp
  from logged_out_forever [OF split_result [OF x]] x show ?thesis unfolding Let_def by blast
qed

theorem login_opens_own_session_witness:
  "let x = login sample_digest hour 1 ''ABCDEFGH'' ((sample_db, []), sample_source);
       y = login sample_digest second 7 ''ABCDEFGH'' ((sample_db, []), sample_source)
   in fst x = Inl ErrLoginCodeInvalid \<and> is_ok (fst y) \<and>
      (case fst y of
        Inr (token, csrf) \<Rightarrow> csrf = b64_encode (take 32 sample_source) \<and>
          token = b64_encode (take 32 (drop 32 sample_source))
      | Inl e \<Rightarrow> False)"
proof -
  let ?y = "login sample_digest second 7 ''ABCDEFGH'' ((sample_db, []), sample_source)"
  have x: "fst (login sample_digest hour 1 ''ABCDEFGH'' ((sample_db, []), sample_source)) = Inl ErrLoginCodeInvalid"
    by code_simp
  have y: "is_ok (fst ?y)" by code_simp
  obtain r d' fs' src' where y': "?y = (r, ((d', fs'), src'))" by (metis prod.exhaust)
  from login_opens_own_session [OF y'] y y' x show ?thesis
    unfolding Let_def by (cases r) auto
qed


theorem only_owners_set_roles_witness:
  "let x = set_role 1 7 RoleOwner hour (sample_db, [])
   in fst (snd x) \<noteq> sample_db \<and> map_of (administrators (fst (snd x))) 1 = map_of (administrators sample_db) 1"
proof -
  let ?x = "set_role 1 7 RoleOwner hour (sample_db, [])"
  have x: "fst ?x = Inr ()" by code_simp
  have a: "administrators (fst (snd ?x)) \<noteq> administrators sample_db" by code_simp
  then have "fst (snd ?x) \<noteq> sample_db" by metis
  from only_owners_set_roles [OF split_result3 [OF x] this] this show ?thesis
    unfolding Let_def by simp
qed

end
