(* ===== verification/Login_Limits.thy ===== *)
theory Login_Limits
  imports Addresses
begin

text \<open>
  The two limiters of login attempts: the one of the web login
  (\<open>internal/httpapi/login_rate_limiter.go\<close>), which counts attempts in all, by address and by
  account, and the one of the Telegram command (\<open>internal/telegram/admin_login_rate_limiter.go\<close>).
  Both forget what is too old; the theorems compare them with limiters that keep everything.
  Each operation holds the mutex, so a run is a sequence of operations.
\<close>

section \<open>The limiter of the web login\<close>

record login_rate_limits =
  rl_AccountAttempts :: int
  rl_AccountWindow :: duration
  rl_IPAttempts :: int
  rl_IPWindow :: duration
  rl_GlobalAttempts :: int
  rl_GlobalWindow :: duration

definition default_login_rate_limits :: login_rate_limits where
  "default_login_rate_limits = \<lparr>rl_AccountAttempts = 5, rl_AccountWindow = 15 * minute, rl_IPAttempts = 20,
     rl_IPWindow = 15 * minute, rl_GlobalAttempts = 100, rl_GlobalWindow = minute\<rparr>"

record attempt_event =
  ev_id :: nat
  ev_at :: go_time
  ev_pending :: bool

text \<open>A map's absent key reads as the empty slice.\<close>

record login_rate_limiter =
  ll_limits :: login_rate_limits
  ll_nextID :: nat
  ll_global :: "go_time list"
  ll_byIP :: "ip_addr \<Rightarrow> attempt_event list option"
  ll_byAccount :: "int \<Rightarrow> attempt_event list option"

record login_attempt =
  la_id :: nat
  la_ip :: ip_addr
  la_telegramID :: int

definition valid_limits :: "login_rate_limits \<Rightarrow> bool" where
  "valid_limits l \<longleftrightarrow> 0 < rl_AccountAttempts l \<and> 0 < rl_AccountWindow l \<and> 0 < rl_IPAttempts l \<and>
     0 < rl_IPWindow l \<and> 0 < rl_GlobalAttempts l \<and> 0 < rl_GlobalWindow l"

definition new_login_rate_limiter :: "login_rate_limits \<Rightarrow> go_error + login_rate_limiter" where
  "new_login_rate_limiter l =
     (if \<not> valid_limits l then Inl (Err ''login rate limits and windows must be positive'')
      else Inr \<lparr>ll_limits = l, ll_nextID = 0, ll_global = [], ll_byIP = (\<lambda>k. None), ll_byAccount = (\<lambda>k. None)\<rparr>)"

definition at_key :: "('k \<Rightarrow> 'a list option) \<Rightarrow> 'k \<Rightarrow> 'a list" where
  "at_key m k = (case m k of None \<Rightarrow> [] | Some xs \<Rightarrow> xs)"

definition or_delete :: "'a list \<Rightarrow> 'a list option" where
  "or_delete xs = (if xs = [] then None else Some xs)"

definition prune_times :: "go_time list \<Rightarrow> go_time \<Rightarrow> go_time list" where
  "prune_times values cutoff = dropWhile (\<lambda>t. t \<le> cutoff) values"

definition prune_events :: "attempt_event list \<Rightarrow> go_time \<Rightarrow> attempt_event list" where
  "prune_events events cutoff = dropWhile (\<lambda>e. ev_at e \<le> cutoff) events"

definition prune_map :: "('k \<Rightarrow> attempt_event list option) \<Rightarrow> go_time \<Rightarrow> 'k \<Rightarrow> attempt_event list option" where
  "prune_map m cutoff k = (case m k of None \<Rightarrow> None | Some events \<Rightarrow> or_delete (prune_events events cutoff))"

definition prune :: "go_time \<Rightarrow> login_rate_limiter \<Rightarrow> login_rate_limiter" where
  "prune now l = l\<lparr>ll_global := prune_times (ll_global l) (now - rl_GlobalWindow (ll_limits l)),
     ll_byIP := prune_map (ll_byIP l) (now - rl_IPWindow (ll_limits l)),
     ll_byAccount := prune_map (ll_byAccount l) (now - rl_AccountWindow (ll_limits l))\<rparr>"

definition begin_attempt ::
    "ip_addr option \<Rightarrow> int \<Rightarrow> go_time \<Rightarrow> login_rate_limiter \<Rightarrow> login_attempt option \<times> login_rate_limiter" where
  "begin_attempt sourceIP telegramID now l0 =
     (case sourceIP of
        None \<Rightarrow> (None, l0)
      | Some address \<Rightarrow>
          if telegramID \<le> 0 then (None, l0)
          else
            let ip = unmap address; l = prune now l0; limits = ll_limits l in
            if rl_GlobalAttempts limits \<le> int (length (ll_global l)) \<or>
               rl_IPAttempts limits \<le> int (length (at_key (ll_byIP l) ip)) \<or>
               rl_AccountAttempts limits \<le> int (length (at_key (ll_byAccount l) telegramID))
            then (None, l)
            else
              let event = \<lparr>ev_id = ll_nextID l + 1, ev_at = now, ev_pending = True\<rparr> in
              (Some \<lparr>la_id = ev_id event, la_ip = ip, la_telegramID = telegramID\<rparr>,
               l\<lparr>ll_nextID := ll_nextID l + 1, ll_global := ll_global l @ [now],
                 ll_byIP := (ll_byIP l)(ip \<mapsto> at_key (ll_byIP l) ip @ [event]),
                 ll_byAccount := (ll_byAccount l)(telegramID \<mapsto> at_key (ll_byAccount l) telegramID @ [event])\<rparr>))"

definition retain_pending_except :: "attempt_event list \<Rightarrow> nat \<Rightarrow> attempt_event list" where
  "retain_pending_except events completedID = filter (\<lambda>e. ev_pending e \<and> ev_id e \<noteq> completedID) events"

fun mark_completed :: "attempt_event list \<Rightarrow> nat \<Rightarrow> attempt_event list" where
  "mark_completed [] completedID = []"
| "mark_completed (e # es) completedID =
     (if ev_id e = completedID then e\<lparr>ev_pending := False\<rparr> # es else e # mark_completed es completedID)"

definition settle :: "bool \<Rightarrow> nat \<Rightarrow> attempt_event list \<Rightarrow> attempt_event list" where
  "settle succeeded completedID events =
     (if succeeded then retain_pending_except events completedID else mark_completed events completedID)"

definition settle_key :: "bool \<Rightarrow> nat \<Rightarrow> 'k \<Rightarrow> ('k \<Rightarrow> attempt_event list option) \<Rightarrow> 'k \<Rightarrow> attempt_event list option" where
  "settle_key succeeded completedID k m = m(k := or_delete (settle succeeded completedID (at_key m k)))"

definition complete_attempt :: "login_attempt \<Rightarrow> bool \<Rightarrow> login_rate_limiter \<Rightarrow> login_rate_limiter" where
  "complete_attempt attempt succeeded l =
     l\<lparr>ll_byIP := settle_key succeeded (la_id attempt) (la_ip attempt) (ll_byIP l),
       ll_byAccount := settle_key succeeded (la_id attempt) (la_telegramID attempt) (ll_byAccount l)\<rparr>"

section \<open>Runs\<close>

text \<open>
  The callers hold the attempts they were given; \<open>Complete\<close> has an effect only the first time.
  An attempt is called by its position among those given out.
\<close>

datatype limiter_op =
    BeginAttempt "ip_addr option" int go_time
  | CompleteAttempt nat bool

definition take_attempt :: "nat \<Rightarrow> (login_attempt \<times> bool) list \<Rightarrow> login_attempt option \<times> (login_attempt \<times> bool) list" where
  "take_attempt k held =
     (if k < length held \<and> \<not> snd (held ! k) then (Some (fst (held ! k)), held[k := (fst (held ! k), True)])
      else (None, held))"

fun limiter_run ::
    "limiter_op list \<Rightarrow> login_rate_limiter \<Rightarrow> (login_attempt \<times> bool) list \<Rightarrow> bool list" where
  "limiter_run [] l held = []"
| "limiter_run (BeginAttempt ip account now # ops) l held =
     (case begin_attempt ip account now l of
        (None, l1) \<Rightarrow> False # limiter_run ops l1 held
      | (Some a, l1) \<Rightarrow> True # limiter_run ops l1 (held @ [(a, False)]))"
| "limiter_run (CompleteAttempt k succeeded # ops) l held =
     (case take_attempt k held of
        (None, held1) \<Rightarrow> limiter_run ops l held1
      | (Some a, held1) \<Rightarrow> limiter_run ops (complete_attempt a succeeded l) held1)"

section \<open>A limiter that keeps everything\<close>

text \<open>
  The specification: three logs that are never pruned. An attempt is admitted if fewer than the
  limit of the attempts on record are more recent than the window; a failed attempt stays on
  record, a success takes the failures of its address and of its account off the record.
\<close>

record login_log =
  lo_limits :: login_rate_limits
  lo_admitted :: nat
  lo_global :: "go_time list"
  lo_ip :: "ip_addr \<Rightarrow> attempt_event list"
  lo_account :: "int \<Rightarrow> attempt_event list"

definition recent :: "go_time \<Rightarrow> attempt_event list \<Rightarrow> attempt_event list" where
  "recent cutoff events = filter (\<lambda>e. cutoff < ev_at e) events"

definition log_begin :: "ip_addr option \<Rightarrow> int \<Rightarrow> go_time \<Rightarrow> login_log \<Rightarrow> login_attempt option \<times> login_log" where
  "log_begin sourceIP account now l =
     (case sourceIP of
        None \<Rightarrow> (None, l)
      | Some address \<Rightarrow>
          let ip = unmap address; limits = lo_limits l in
          if 0 < account \<and>
             int (length (filter (\<lambda>t. now - rl_GlobalWindow limits < t) (lo_global l))) < rl_GlobalAttempts limits \<and>
             int (length (recent (now - rl_IPWindow limits) (lo_ip l ip))) < rl_IPAttempts limits \<and>
             int (length (recent (now - rl_AccountWindow limits) (lo_account l account))) < rl_AccountAttempts limits
          then
            let e = \<lparr>ev_id = lo_admitted l + 1, ev_at = now, ev_pending = True\<rparr> in
            (Some \<lparr>la_id = lo_admitted l + 1, la_ip = ip, la_telegramID = account\<rparr>,
             l\<lparr>lo_admitted := lo_admitted l + 1, lo_global := lo_global l @ [now],
               lo_ip := (lo_ip l)(ip := lo_ip l ip @ [e]), lo_account := (lo_account l)(account := lo_account l account @ [e])\<rparr>)
          else (None, l))"

definition log_complete :: "login_attempt \<Rightarrow> bool \<Rightarrow> login_log \<Rightarrow> login_log" where
  "log_complete a succeeded l =
     l\<lparr>lo_ip := (lo_ip l)(la_ip a := settle succeeded (la_id a) (lo_ip l (la_ip a))),
       lo_account := (lo_account l)(la_telegramID a := settle succeeded (la_id a) (lo_account l (la_telegramID a)))\<rparr>"

fun log_run :: "limiter_op list \<Rightarrow> login_log \<Rightarrow> (login_attempt \<times> bool) list \<Rightarrow> bool list" where
  "log_run [] l held = []"
| "log_run (BeginAttempt ip account now # ops) l held =
     (case log_begin ip account now l of
        (None, l1) \<Rightarrow> False # log_run ops l1 held
      | (Some a, l1) \<Rightarrow> True # log_run ops l1 (held @ [(a, False)]))"
| "log_run (CompleteAttempt k succeeded # ops) l held =
     (case take_attempt k held of
        (None, held1) \<Rightarrow> log_run ops l held1
      | (Some a, held1) \<Rightarrow> log_run ops (log_complete a succeeded l) held1)"

definition empty_log :: "login_rate_limits \<Rightarrow> login_log" where
  "empty_log limits = \<lparr>lo_limits = limits, lo_admitted = 0, lo_global = [], lo_ip = (\<lambda>k. []), lo_account = (\<lambda>k. [])\<rparr>"

text \<open>The clock does not go backwards.\<close>

fun clock_of :: "limiter_op \<Rightarrow> go_time list" where
  "clock_of (BeginAttempt ip account now) = [now]"
| "clock_of (CompleteAttempt k succeeded) = []"

definition clocks :: "limiter_op list \<Rightarrow> go_time list" where
  "clocks ops = concat (map clock_of ops)"

section \<open>The pruned lists are the recent part of the logs\<close>

lemma at_key_or_delete [simp]: "at_key (m(k := or_delete xs)) k' = (if k' = k then xs else at_key m k')"
  by (simp add: at_key_def or_delete_def)

lemma at_key_update [simp]: "at_key (m(k \<mapsto> xs)) k' = (if k' = k then xs else at_key m k')"
  by (simp add: at_key_def)

lemma at_key_prune_map: "at_key (prune_map m cutoff) k = prune_events (at_key m k) cutoff"
  by (cases "m k") (auto simp: at_key_def prune_map_def or_delete_def prune_events_def dropWhile_eq_Nil_conv [THEN iffD2])

lemma at_key_settle_key: "at_key (settle_key s i k m) k' = (if k' = k then settle s i (at_key m k) else at_key m k')"
  by (simp add: settle_key_def)

lemma mark_completed_map:
  "distinct (map ev_id es) \<Longrightarrow>
   mark_completed es i = map (\<lambda>e. if ev_id e = i then e\<lparr>ev_pending := False\<rparr> else e) es"
proof (induction es)
  case (Cons e es)
  show ?case
  proof (cases "ev_id e = i")
    case True
    with Cons.prems have "\<forall>x \<in> set es. ev_id x \<noteq> i" by (auto simp: image_iff)
    then have "map (\<lambda>e. if ev_id e = i then e\<lparr>ev_pending := False\<rparr> else e) es = es"
      by (intro map_idI) simp
    with True show ?thesis by simp
  qed (use Cons in simp)
qed simp

text \<open>What an entry of a log satisfies at a time \<open>T\<close>, with the ids given out up to \<open>n\<close>.\<close>

definition log_ok :: "go_time \<Rightarrow> nat \<Rightarrow> attempt_event list \<Rightarrow> bool" where
  "log_ok T n es \<longleftrightarrow> sorted (map ev_at es) \<and> distinct (map ev_id es) \<and>
     (\<forall>e \<in> set es. ev_at e \<le> T \<and> ev_id e \<le> n)"

lemma log_okI:
  "sorted (map ev_at es) \<Longrightarrow> distinct (map ev_id es) \<Longrightarrow> (\<And>e. e \<in> set es \<Longrightarrow> ev_at e \<le> T \<and> ev_id e \<le> n) \<Longrightarrow>
   log_ok T n es"
  by (simp add: log_ok_def)

lemma log_ok_Nil [simp]: "log_ok T n []"
  by (simp add: log_ok_def)

lemma log_ok_mono: "log_ok T n es \<Longrightarrow> T \<le> T' \<Longrightarrow> n \<le> n' \<Longrightarrow> log_ok T' n' es"
  unfolding log_ok_def by fastforce

lemma log_ok_append:
  "log_ok T n es \<Longrightarrow> T \<le> now \<Longrightarrow> log_ok now (Suc n) (es @ [\<lparr>ev_id = Suc n, ev_at = now, ev_pending = True\<rparr>])"
  unfolding log_ok_def by (fastforce simp: sorted_append)

lemma sorted_map_filter: "sorted (map f xs) \<Longrightarrow> sorted (map f (filter P xs))"
  by (induction xs) auto


lemma log_ok_settle:
  assumes "log_ok T n es" shows "log_ok T n (settle s i es)"
proof (cases s)
  case True
  then show ?thesis
    using assms by (auto simp: settle_def retain_pending_except_def log_ok_def sorted_map_filter distinct_map_filter)
next
  case False
   let ?f = "\<lambda>e :: attempt_event. if ev_id e = i then e\<lparr>ev_pending := False\<rparr> else e"
  have "ev_at \<circ> ?f = ev_at" "ev_id \<circ> ?f = ev_id" by auto
 moreover have "settle s i es = map (\<lambda>e. if ev_id e = i then e\<lparr>ev_pending := False\<rparr> else e) es"
    using False assms by (simp add: settle_def mark_completed_map log_ok_def)
  ultimately show ?thesis using assms by (auto simp: log_ok_def)
qed

lemma recent_settle:
  assumes "log_ok T n es" shows "recent c (settle s i es) = settle s i (recent c es)"
proof (cases s)
  case True
  then show ?thesis by (auto simp: settle_def retain_pending_except_def recent_def intro: filter_cong)
next
  case False
  let ?f = "\<lambda>e. if ev_id e = i then e\<lparr>ev_pending := False\<rparr> else e"
  have "distinct (map ev_id (recent c es))"
    using assms by (simp add: log_ok_def recent_def distinct_map_filter)
  with False assms show ?thesis
    by (simp add: settle_def mark_completed_map log_ok_def recent_def filter_map o_def if_distrib [of ev_at] cong: if_cong)
qed

lemma dropWhile_sorted:
  "sorted (map f xs) \<Longrightarrow> dropWhile (\<lambda>x. f x \<le> c) xs = filter (\<lambda>x. c < f x) xs" for f :: "'a \<Rightarrow> int"
proof (induction xs)
  case (Cons x xs)
  show ?case
  proof (cases "f x \<le> c")
    case False
    with Cons.prems have "\<forall>y \<in> set xs. c < f y" by fastforce
    with False show ?thesis by simp
  qed (use Cons in simp)
qed simp

lemma prune_recent:
  assumes "log_ok T n es" "c \<le> c'" shows "prune_events (recent c es) c' = recent c' es"
proof -
  have "sorted (map ev_at (recent c es))"
    using assms by (simp add: log_ok_def recent_def sorted_map_filter)
  then show ?thesis
    using assms(2) by (auto simp: prune_events_def dropWhile_sorted recent_def intro!: filter_cong)
qed

section \<open>The simulation\<close>

text \<open>
  \<open>T\<close> is the clock at the last attempt that was looked at: every map of the limiter holds the part
  of its log that was recent then.
\<close>

definition keeps ::
    "go_time \<Rightarrow> nat \<Rightarrow> duration \<Rightarrow> ('k \<Rightarrow> attempt_event list option) \<Rightarrow> ('k \<Rightarrow> attempt_event list) \<Rightarrow> bool" where
  "keeps T n w m logs \<longleftrightarrow> (\<forall>k. at_key m k = recent (T - w) (logs k) \<and> log_ok T n (logs k))"

definition simulates :: "go_time \<Rightarrow> login_rate_limiter \<Rightarrow> login_log \<Rightarrow> bool" where
  "simulates T l s \<longleftrightarrow> ll_limits l = lo_limits s \<and> ll_nextID l = lo_admitted s \<and>
     ll_global l = filter (\<lambda>t. T - rl_GlobalWindow (lo_limits s) < t) (lo_global s) \<and>
     sorted (lo_global s) \<and> (\<forall>t \<in> set (lo_global s). t \<le> T) \<and>
     keeps T (lo_admitted s) (rl_IPWindow (lo_limits s)) (ll_byIP l) (lo_ip s) \<and>
     keeps T (lo_admitted s) (rl_AccountWindow (lo_limits s)) (ll_byAccount l) (lo_account s)"

lemma keepsI: "(\<And>k. at_key m k = recent (T - w) (logs k)) \<Longrightarrow> (\<And>k. log_ok T n (logs k)) \<Longrightarrow> keeps T n w m logs"
  by (simp add: keeps_def)

lemma keepsD:
  assumes "keeps T n w m logs"
  shows "at_key m k = recent (T - w) (logs k)" "log_ok T n (logs k)"
  using assms by (simp_all add: keeps_def)

lemma keeps_prune:
  assumes "keeps T n w m logs" "T \<le> now" shows "keeps now n w (prune_map m (now - w)) logs"
proof (rule keepsI)
  fix k
  show "at_key (prune_map m (now - w)) k = recent (now - w) (logs k)"
    using prune_recent [OF keepsD(2) [OF assms(1)], of "T - w" "now - w"] assms(2)
    by (simp add: at_key_prune_map keepsD(1) [OF assms(1)])
  show "log_ok now n (logs k)" using log_ok_mono [OF keepsD(2) [OF assms(1)] assms(2)] by simp
qed

lemma keeps_admit:
  assumes k: "keeps now n w m logs" and w: "0 < w" and e: "e = \<lparr>ev_id = Suc n, ev_at = now, ev_pending = True\<rparr>"
  shows "keeps now (Suc n) w (m(k \<mapsto> at_key m k @ [e])) (logs(k := logs k @ [e]))"
proof (rule keepsI)
  fix k'
  show "at_key (m(k \<mapsto> at_key m k @ [e])) k' = recent (now - w) ((logs(k := logs k @ [e])) k')"
    using w e by (simp add: keepsD(1) [OF k] recent_def)
  show "log_ok now (Suc n) ((logs(k := logs k @ [e])) k')"
    using e log_ok_append [OF keepsD(2) [OF k]] log_ok_mono [OF keepsD(2) [OF k]] by simp
qed

lemma keeps_settle:
  assumes k: "keeps T n w m logs"
  shows "keeps T n w (settle_key s i k m) (logs(k := settle s i (logs k)))"
  by (rule keepsI)
     (simp_all add: at_key_settle_key keepsD [OF k] recent_settle [OF keepsD(2) [OF k]] log_ok_settle [OF keepsD(2) [OF k]])

lemma simulates_prune:
  assumes "simulates T l s" "T \<le> now" shows "simulates now (prune now l) s"
proof -
  have "sorted (filter (\<lambda>t. T - rl_GlobalWindow (lo_limits s) < t) (lo_global s))"
    using assms(1) sorted_map_filter [of "\<lambda>t. t" "lo_global s"] by (simp add: simulates_def)
  then have "prune_times (ll_global l) (now - rl_GlobalWindow (lo_limits s)) =
      filter (\<lambda>t. now - rl_GlobalWindow (lo_limits s) < t) (lo_global s)"
    using assms dropWhile_sorted [of "\<lambda>t. t"]
    by (auto simp: simulates_def prune_times_def intro!: filter_cong)
  with assms show ?thesis
    by (auto simp: simulates_def prune_def keeps_prune dest: order_trans)
qed

lemma simulates_begin:
  assumes "simulates T l s" "T \<le> now" "valid_limits (lo_limits s)"
  shows "fst (begin_attempt ip account now l) = fst (log_begin ip account now s) \<and>
    (\<exists>T'. T \<le> T' \<and> T' \<le> now \<and> simulates T' (snd (begin_attempt ip account now l)) (snd (log_begin ip account now s)))"
proof (cases "ip = None \<or> account \<le> 0")
  case True
  then show ?thesis using assms(1,2) by (auto simp: begin_attempt_def log_begin_def Let_def split: option.splits)
next
  case False
  then obtain a where ip: "ip = Some a" and acc: "0 < account" by auto
  let ?l = "prune now l" and ?a = "unmap a" and ?n = "lo_admitted s"
  let ?e = "\<lparr>ev_id = Suc ?n, ev_at = now, ev_pending = True\<rparr>"
  have sim: "simulates now ?l s" using simulates_prune assms(1,2) .
  note keeps = sim [unfolded simulates_def, THEN conjunct2, THEN conjunct2, THEN conjunct2, THEN conjunct2, THEN conjunct2]
  have full: "(rl_GlobalAttempts (ll_limits ?l) \<le> int (length (ll_global ?l)) \<or>
       rl_IPAttempts (ll_limits ?l) \<le> int (length (at_key (ll_byIP ?l) ?a)) \<or>
       rl_AccountAttempts (ll_limits ?l) \<le> int (length (at_key (ll_byAccount ?l) account))) \<longleftrightarrow>
      \<not> (int (length (filter (\<lambda>t. now - rl_GlobalWindow (lo_limits s) < t) (lo_global s))) < rl_GlobalAttempts (lo_limits s) \<and>
         int (length (recent (now - rl_IPWindow (lo_limits s)) (lo_ip s ?a))) < rl_IPAttempts (lo_limits s) \<and>
         int (length (recent (now - rl_AccountWindow (lo_limits s)) (lo_account s account))) < rl_AccountAttempts (lo_limits s))"
    (is "?full \<longleftrightarrow> \<not> ?room")
    using sim keepsD(1) [OF keeps [THEN conjunct1]] keepsD(1) [OF keeps [THEN conjunct2]]
    by (auto simp: simulates_def)
  let ?l1 = "?l\<lparr>ll_nextID := Suc ?n, ll_global := ll_global ?l @ [now],
    ll_byIP := (ll_byIP ?l)(?a \<mapsto> at_key (ll_byIP ?l) ?a @ [?e]),
    ll_byAccount := (ll_byAccount ?l)(account \<mapsto> at_key (ll_byAccount ?l) account @ [?e])\<rparr>"
  let ?s1 = "s\<lparr>lo_admitted := Suc ?n, lo_global := lo_global s @ [now],
    lo_ip := (lo_ip s)(?a := lo_ip s ?a @ [?e]), lo_account := (lo_account s)(account := lo_account s account @ [?e])\<rparr>"
  let ?given = "Some \<lparr>la_id = Suc ?n, la_ip = ?a, la_telegramID = account\<rparr>"
  have id: "ll_nextID ?l = ?n" using sim by (simp add: simulates_def)
  have impl: "begin_attempt ip account now l = (if ?full then (None, ?l) else (?given, ?l1))"
    using acc by (simp add: begin_attempt_def ip Let_def id)
  have spec: "log_begin ip account now s = (if ?room then (?given, ?s1) else (None, s))"
    using acc by (simp add: log_begin_def ip Let_def)
  have "simulates now ?l1 ?s1"
    using sim keeps assms(3) unfolding simulates_def
    by (simp add: sorted_append valid_limits_def keeps_admit)
  with sim full assms(2) show ?thesis
    unfolding impl spec by (cases ?full) (simp_all, blast+)
qed

lemma simulates_complete:
  "simulates T l s \<Longrightarrow> simulates T (complete_attempt a succeeded l) (log_complete a succeeded s)"
  by (simp add: simulates_def complete_attempt_def log_complete_def keeps_settle)

lemma log_begin_limits [simp]: "lo_limits (snd (log_begin ip account now s)) = lo_limits s"
  by (auto simp: log_begin_def Let_def split: option.splits)

lemma log_complete_limits [simp]: "lo_limits (log_complete a succeeded s) = lo_limits s"
  by (simp add: log_complete_def)

lemma simulates_run:
  "simulates T l s \<Longrightarrow> valid_limits (lo_limits s) \<Longrightarrow> sorted (T # clocks ops) \<Longrightarrow>
   limiter_run ops l held = log_run ops s held"
proof (induction ops l held arbitrary: T s rule: limiter_run.induct)
  case (2 ip account now ops l held)
  from "2.prems"(3) have T: "T \<le> now" "sorted (now # clocks ops)" by (simp_all add: clocks_def)
  obtain T' where T': "T' \<le> now" "simulates T' (snd (begin_attempt ip account now l)) (snd (log_begin ip account now s))"
    and same: "fst (begin_attempt ip account now l) = fst (log_begin ip account now s)"
    using simulates_begin [OF "2.prems"(1) T(1) "2.prems"(2)] by blast
  from T T'(1) have T'': "sorted (T' # clocks ops)" by auto
  obtain r l1 where b: "begin_attempt ip account now l = (r, l1)" by fastforce
  obtain s1 where g: "log_begin ip account now s = (r, s1)" using same b by (cases "log_begin ip account now s") simp
  have ok: "simulates T' l1 s1" "valid_limits (lo_limits s1)"
    using T'(2) b g "2.prems"(2) log_begin_limits [of ip account now s] by simp_all
  show ?case
    using b g "2.IH" [OF b [symmetric]] ok T'' by (cases r) (auto split: prod.splits)
next
  case (3 k succeeded ops l held)
  obtain r held1 where t: "take_attempt k held = (r, held1)" by fastforce
  have T: "sorted (T # clocks ops)" using "3.prems"(3) by (simp add: clocks_def)
  show ?case
  proof (cases r)
    case None
    with t "3.IH"(1) [OF t [symmetric] None "3.prems"(1,2) T] show ?thesis by simp
  next
    case (Some a)
    with t "3.IH"(2) [OF t [symmetric] Some simulates_complete [OF "3.prems"(1)] _ T] "3.prems"(2) show ?thesis by simp
  qed
qed simp

lemma simulates_empty: "simulates T \<lparr>ll_limits = l, ll_nextID = 0, ll_global = [], ll_byIP = (\<lambda>k. None), ll_byAccount = (\<lambda>k. None)\<rparr> (empty_log l)"
  by (simp add: simulates_def empty_log_def keeps_def at_key_def recent_def)

section \<open>The pace of the attempts against an account\<close>

definition paced :: "int \<Rightarrow> duration \<Rightarrow> go_time list \<Rightarrow> bool" where
  "paced N w ts \<longleftrightarrow> (\<forall>u. int (length (filter (\<lambda>t. u - w < t \<and> t \<le> u) ts)) \<le> N)"

lemma paced_snoc:
  assumes "paced N w ts" "int (length (filter (\<lambda>t. now - w < t) ts)) < N"
  shows "paced N w (ts @ [now])"
  unfolding paced_def
proof
  fix u
  show "int (length (filter (\<lambda>t. u - w < t \<and> t \<le> u) (ts @ [now]))) \<le> N"
  proof (cases "now \<le> u")
    case True
    have "length (filter (\<lambda>t. u - w < t \<and> t \<le> u) ts) \<le> length (filter (\<lambda>t. now - w < t) ts)"
    proof -
      have "filter (\<lambda>t. u - w < t \<and> t \<le> u) ts = filter (\<lambda>t. u - w < t \<and> t \<le> u) (filter (\<lambda>t. now - w < t) ts)"
        using True by (auto intro: filter_cong)
      then show ?thesis by (metis length_filter_le)
    qed
    with assms(2) show ?thesis by simp
  next
    case False
    with assms(1) show ?thesis by (simp add: paced_def)
  qed
qed

text \<open>The attempts that were admitted, each with its account and its time.\<close>

fun admissions :: "limiter_op list \<Rightarrow> bool list \<Rightarrow> (int \<times> go_time) list" where
  "admissions [] results = []"
| "admissions (CompleteAttempt k succeeded # ops) results = admissions ops results"
| "admissions (BeginAttempt ip account now # ops) [] = []"
| "admissions (BeginAttempt ip account now # ops) (r # results) =
     (if r then [(account, now)] else []) @ admissions ops results"

definition times_of :: "int \<Rightarrow> (int \<times> go_time) list \<Rightarrow> go_time list" where
  "times_of account adm = map snd (filter (\<lambda>(a, t). a = account) adm)"

text \<open>No attempt against \<open>account\<close> is reported as a success.\<close>

definition no_success :: "int \<Rightarrow> (int \<times> go_time) list \<Rightarrow> limiter_op list \<Rightarrow> bool" where
  "no_success account adm ops \<longleftrightarrow>
     list_all (\<lambda>oper. case oper of CompleteAttempt k True \<Rightarrow> k < length adm \<longrightarrow> fst (adm ! k) \<noteq> account | _ \<Rightarrow> True) ops"

lemma times_of_append [simp]: "times_of account (xs @ ys) = times_of account xs @ times_of account ys"
  by (simp add: times_of_def)

lemma mark_completed_at [simp]: "map ev_at (mark_completed es i) = map ev_at es"
  by (induction es) auto

lemma log_begin_Some:
  assumes "log_begin ip account now s = (Some a, s1)"
  shows "la_telegramID a = account \<and> map ev_at (lo_account s1 k) = map ev_at (lo_account s k) @ times_of k [(account, now)] \<and>
    lo_limits s1 = lo_limits s \<and>
    int (length (filter (\<lambda>t. now - rl_AccountWindow (lo_limits s) < t) (map ev_at (lo_account s account)))) <
      rl_AccountAttempts (lo_limits s)"
  using assms
  by (auto simp: log_begin_def Let_def recent_def times_of_def filter_map o_def split: option.splits if_splits)

lemma log_run_paced:
  "map (la_telegramID \<circ> fst) held = map fst past \<Longrightarrow> map ev_at (lo_account s account) = times_of account past \<Longrightarrow>
   paced N w (times_of account past) \<Longrightarrow> N = rl_AccountAttempts (lo_limits s) \<Longrightarrow> w = rl_AccountWindow (lo_limits s) \<Longrightarrow>
   no_success account (past @ admissions ops (log_run ops s held)) ops \<Longrightarrow>
   paced N w (times_of account (past @ admissions ops (log_run ops s held)))"
proof (induction ops s held arbitrary: past rule: log_run.induct)
  case (1 s held)
  then show ?case by simp
next
  case (2 ip acc now ops s held)
  obtain r s1 where g: "log_begin ip acc now s = (r, s1)" by fastforce
  show ?case
  proof (cases r)
    case None
    then have "s1 = s" using g by (auto simp: log_begin_def Let_def split: option.splits if_splits)
    with None g "2.IH"(1) [OF g [symmetric] None, of past] "2.prems" show ?thesis by (simp add: no_success_def)
  next
    case (Some a)
    note f = log_begin_Some [OF g [unfolded Some], of account]
    have pace: "paced N w (times_of account (past @ [(acc, now)]))"
    proof (cases "acc = account")
      case True
      have "int (length (filter (\<lambda>t. now - w < t) (times_of account past))) < N"
        using f "2.prems"(2,4,5) True by simp
      with "2.prems"(3) True show ?thesis by (simp add: times_of_def paced_snoc)
    next
      case False
      with "2.prems"(3) show ?thesis by (simp add: times_of_def)
    qed
    have adm: "(past @ [(acc, now)]) @ admissions ops (log_run ops s1 (held @ [(a, False)])) =
        past @ admissions (BeginAttempt ip acc now # ops) (log_run (BeginAttempt ip acc now # ops) s held)"
      using Some g by simp
    have quiet: "no_success account ((past @ [(acc, now)]) @ admissions ops (log_run ops s1 (held @ [(a, False)]))) ops"
      using "2.prems"(6) unfolding adm by (simp add: no_success_def)
    have "paced N w (times_of account ((past @ [(acc, now)]) @ admissions ops (log_run ops s1 (held @ [(a, False)]))))"
      by (rule "2.IH"(2) [OF g [symmetric] Some])
         (use f "2.prems"(1,2,4,5) pace quiet in \<open>simp_all\<close>)
    then show ?thesis unfolding adm .
  qed
next
  case (3 k succeeded ops s held)
  let ?adm = "past @ admissions ops (log_run (CompleteAttempt k succeeded # ops) s held)"
  obtain r held1 where t: "take_attempt k held = (r, held1)" by fastforce
  have held1: "map (la_telegramID \<circ> fst) held1 = map fst past"
  proof -
    have "map (la_telegramID \<circ> fst) (held[k := (fst (held ! k), True)]) = map (la_telegramID \<circ> fst) held"
      by (cases "k < length held") (simp_all add: map_update list_update_same_conv list_update_beyond)
    with t "3.prems"(1) show ?thesis by (auto simp: take_attempt_def o_def split: if_splits)
  qed
  show ?case
  proof (cases r)
    case None
    with t "3.IH"(1) [OF t [symmetric] None held1] "3.prems" show ?thesis by (simp add: no_success_def)
  next
    case (Some a)
    then have k: "k < length held" "a = fst (held ! k)" using t by (auto simp: take_attempt_def split: if_splits)
    have len: "length held = length past" using "3.prems"(1) by (metis length_map)
    have who: "la_telegramID a = fst (?adm ! k)"
      using k len arg_cong [OF "3.prems"(1), of "\<lambda>xs. xs ! k"] by (simp add: nth_append)
    have "succeeded \<Longrightarrow> fst (?adm ! k) \<noteq> account"
      using "3.prems"(6) k len by (simp add: no_success_def)
    then have "map ev_at (lo_account (log_complete a succeeded s) account) = times_of account past"
      using "3.prems"(2) who by (cases succeeded) (auto simp: log_complete_def settle_def)
    with Some t "3.IH"(2) [OF t [symmetric] Some held1] "3.prems" show ?thesis
      by (simp add: no_success_def)
  qed
qed

section \<open>The limiter of the Telegram command\<close>

definition adminLoginRateLimit :: int where
  "adminLoginRateLimit = 3"

definition adminLoginRateWindow :: duration where
  "adminLoginRateWindow = minute"

type_synonym admin_login_rate_limiter = "int \<Rightarrow> go_time list"

definition new_admin_login_rate_limiter :: admin_login_rate_limiter where
  "new_admin_login_rate_limiter = (\<lambda>k. [])"

definition allow :: "int \<Rightarrow> go_time \<Rightarrow> admin_login_rate_limiter \<Rightarrow> bool \<times> admin_login_rate_limiter" where
  "allow telegramID now attempts =
     (if telegramID \<le> 0 then (False, attempts)
      else
        let cutoff = now - adminLoginRateWindow; kept = filter (\<lambda>t. cutoff < t) (attempts telegramID) in
        if adminLoginRateLimit \<le> int (length kept) then (False, attempts(telegramID := kept))
        else (True, attempts(telegramID := kept @ [now])))"

fun allow_run :: "(int \<times> go_time) list \<Rightarrow> admin_login_rate_limiter \<Rightarrow> bool list" where
  "allow_run [] attempts = []"
| "allow_run ((telegramID, now) # reqs) attempts =
     (let (ok, attempts1) = allow telegramID now attempts in ok # allow_run reqs attempts1)"

text \<open>The reference counts, in the history of all requests, those that were allowed in the last window.\<close>

definition counted :: "(int \<times> go_time) list \<Rightarrow> int \<Rightarrow> go_time \<Rightarrow> int" where
  "counted allowed telegramID now =
     int (length (filter (\<lambda>(k, t). k = telegramID \<and> now - adminLoginRateWindow < t) allowed))"

fun counting_run :: "(int \<times> go_time) list \<Rightarrow> (int \<times> go_time) list \<Rightarrow> bool list" where
  "counting_run [] allowed = []"
| "counting_run ((telegramID, now) # reqs) allowed =
     (let ok = 0 < telegramID \<and> counted allowed telegramID now < adminLoginRateLimit
      in ok # counting_run reqs (if ok then allowed @ [(telegramID, now)] else allowed))"

lemma filter_recent: "c \<le> c' \<Longrightarrow> filter (\<lambda>t. c' < t) (filter (\<lambda>t. c < t) ts) = filter (\<lambda>t. c' < t) ts" for c :: int
  by (auto intro: filter_cong)

text \<open>What is kept for an account agrees with the history on every later window.\<close>

definition remembers :: "go_time \<Rightarrow> admin_login_rate_limiter \<Rightarrow> (int \<times> go_time) list \<Rightarrow> bool" where
  "remembers T attempts allowed \<longleftrightarrow>
     (\<forall>k c. T - adminLoginRateWindow \<le> c \<longrightarrow>
        filter (\<lambda>t. c < t) (attempts k) = filter (\<lambda>t. c < t) (times_of k allowed))"

lemma counted_times: "counted allowed k now = int (length (filter (\<lambda>t. now - adminLoginRateWindow < t) (times_of k allowed)))"
  by (simp add: counted_def times_of_def filter_map o_def case_prod_beta' conj_commute)

lemma allow_remembers:
  assumes "remembers T attempts allowed" "T \<le> now"
  shows "fst (allow k now attempts) \<longleftrightarrow> 0 < k \<and> counted allowed k now < adminLoginRateLimit"
    and "remembers now (snd (allow k now attempts)) (if fst (allow k now attempts) then allowed @ [(k, now)] else allowed)"
proof -
  have kept: "filter (\<lambda>t. c < t) (attempts j) = filter (\<lambda>t. c < t) (times_of j allowed)"
    if "now - adminLoginRateWindow \<le> c" for j c
    using assms that unfolding remembers_def by (meson diff_right_mono order_trans)
  show "fst (allow k now attempts) \<longleftrightarrow> 0 < k \<and> counted allowed k now < adminLoginRateLimit"
    by (auto simp: allow_def Let_def counted_times kept)
  show "remembers now (snd (allow k now attempts)) (if fst (allow k now attempts) then allowed @ [(k, now)] else allowed)"
    unfolding remembers_def allow_def Let_def
    by (auto simp: kept times_of_def filter_recent simp del: filter_filter)
qed

lemma allow_run_remembers:
  "remembers T attempts allowed \<Longrightarrow> sorted (T # map snd reqs) \<Longrightarrow> allow_run reqs attempts = counting_run reqs allowed"
proof (induction reqs attempts arbitrary: T allowed rule: allow_run.induct)
  case (2 k now reqs attempts)
  then have T: "T \<le> now" "sorted (now # map snd reqs)" by auto
  obtain ok attempts1 where a: "allow k now attempts = (ok, attempts1)" by fastforce
  show ?case
    using allow_remembers [OF "2.prems"(1) T(1), of k] "2.IH" [OF a [symmetric] refl _ T(2)] a by (simp add: Let_def)
qed simp

section \<open>Properties\<close>

lemma new_limiter_Inr:
  "new_login_rate_limiter limits = Inr l \<Longrightarrow> valid_limits limits \<and> simulates T l (empty_log limits)"
  using simulates_empty [of T limits] by (auto simp: new_login_rate_limiter_def split: if_splits)

lemma limiter_run_log:
  assumes "new_login_rate_limiter limits = Inr l" "sorted (clocks ops)"
  shows "limiter_run ops l [] = log_run ops (empty_log limits) []"
proof -
  obtain T where "sorted (T # clocks ops)"
    using assms(2) by (cases "clocks ops") (auto intro: that)
  then show ?thesis
    using new_limiter_Inr [OF assms(1)] by (intro simulates_run [of T]) (auto simp: empty_log_def)
qed

text \<open>
  C23. Forgetting the old attempts changes nothing: on a clock that does not go backwards, the limiter
  of the web login, whose maps are pruned at every attempt and lose their empty entries, admits
  and rejects exactly as the specification that keeps the log of all attempts, whatever the
  order of the attempts and of their outcomes.
\<close>

theorem limiter_refines_log:
  assumes "new_login_rate_limiter limits = Inr l" "sorted (clocks ops)"
  shows "limiter_run ops l [] = log_run ops (empty_log limits) []"
  by (rule limiter_run_log [OF assms])

definition example_limits :: login_rate_limits where
  "example_limits = \<lparr>rl_AccountAttempts = 2, rl_AccountWindow = 10, rl_IPAttempts = 3, rl_IPWindow = 10,
     rl_GlobalAttempts = 4, rl_GlobalWindow = 5\<rparr>"

definition example_ops :: "ip_addr \<Rightarrow> limiter_op list" where
  "example_ops a = [BeginAttempt (Some a) 7 100, CompleteAttempt 0 False, BeginAttempt (Some a) 7 101, CompleteAttempt 1 False,
     BeginAttempt (Some a) 7 102, BeginAttempt (Some a) 7 111, CompleteAttempt 2 True, BeginAttempt (Some a) 7 112]"

lemma example_limiter:
  "\<exists>l. new_login_rate_limiter example_limits = Inr l"
  by (simp add: new_login_rate_limiter_def valid_limits_def example_limits_def)

lemma example_clocks: "sorted (clocks (example_ops a))"
  by (simp add: example_ops_def clocks_def)

lemma example_run:
  assumes "new_login_rate_limiter example_limits = Inr l"
  shows "limiter_run (example_ops a) l [] = [True, True, False, True, True]"
  using assms
  by (simp add: limiter_run_log [OF assms example_clocks], simp add: example_ops_def example_limits_def empty_log_def
      log_begin_def log_complete_def take_attempt_def settle_def retain_pending_except_def recent_def Let_def)

lemma limiter_refines_log_witness:
  "\<exists>l. new_login_rate_limiter example_limits = Inr l \<and>
     limiter_run (example_ops (IPv4 [1, 2, 3, 4])) l [] = [True, True, False, True, True] \<and>
     limiter_run (example_ops (IPv4 [1, 2, 3, 4])) l [] = log_run (example_ops (IPv4 [1, 2, 3, 4])) (empty_log example_limits) []"
  using example_limiter example_run limiter_refines_log [OF _ example_clocks] by blast

text \<open>
  A password cannot be guessed faster than the limits say: while no attempt against an account
  is reported as a success, every time window of the account's length holds at most the
  configured number of admitted attempts against it, from whatever addresses they come and
  whatever happens to the other accounts in between.
\<close>

theorem guesses_are_paced:
  assumes "new_login_rate_limiter limits = Inr l" "sorted (clocks ops)"
    and "no_success account (admissions ops (limiter_run ops l [])) ops"
  shows "paced (rl_AccountAttempts limits) (rl_AccountWindow limits)
    (times_of account (admissions ops (limiter_run ops l [])))"
proof -
  have start: "paced (rl_AccountAttempts limits) (rl_AccountWindow limits) (times_of account [])"
    using new_limiter_Inr [OF assms(1), of 0] by (auto simp: valid_limits_def paced_def times_of_def)
  have "paced (rl_AccountAttempts limits) (rl_AccountWindow limits)
    (times_of account ([] @ admissions ops (log_run ops (empty_log limits) [])))"
    by (rule log_run_paced)
       (use start assms(3) in \<open>simp_all add: limiter_run_log [OF assms(1,2)] empty_log_def times_of_def\<close>)
  then show ?thesis by (simp add: limiter_run_log [OF assms(1,2)])
qed

definition example_guesses :: "ip_addr \<Rightarrow> limiter_op list" where
  "example_guesses a = [BeginAttempt (Some a) 7 100, CompleteAttempt 0 False, BeginAttempt (Some a) 8 101, CompleteAttempt 1 True,
     BeginAttempt (Some a) 7 102, BeginAttempt (Some a) 7 103]"

lemma guesses_are_paced_witness:
  "\<exists>l. new_login_rate_limiter example_limits = Inr l \<and>
     admissions (example_guesses (IPv4 [1, 2, 3, 4])) (limiter_run (example_guesses (IPv4 [1, 2, 3, 4])) l []) =
       [(7, 100), (8, 101), (7, 102)] \<and>
     paced 2 10 (times_of 7 (admissions (example_guesses (IPv4 [1, 2, 3, 4])) (limiter_run (example_guesses (IPv4 [1, 2, 3, 4])) l [])))"
proof -
  obtain l where l: "new_login_rate_limiter example_limits = Inr l" using example_limiter by blast
  let ?ops = "example_guesses (IPv4 [1, 2, 3, 4])"
  have clk: "sorted (clocks ?ops)" by (simp add: example_guesses_def clocks_def)
  have run: "admissions ?ops (limiter_run ?ops l []) = [(7, 100), (8, 101), (7, 102)]"
    by (simp add: limiter_run_log [OF l clk], simp add: example_guesses_def example_limits_def empty_log_def
        log_begin_def log_complete_def take_attempt_def settle_def retain_pending_except_def recent_def Let_def)
  have "no_success 7 (admissions ?ops (limiter_run ?ops l [])) ?ops"
    unfolding run by (simp add: example_guesses_def no_success_def)
  from guesses_are_paced [OF l clk this] l run show ?thesis
    by (auto simp: example_limits_def)
qed

text \<open>
  The limiter of the Telegram login command answers like the count over the whole history: a
  request is allowed exactly if the account is a real one and fewer than three of the requests
  it was allowed lie in the last minute, although only the recent times are kept.
\<close>

theorem allow_counts_history:
  assumes "sorted (map snd reqs)"
  shows "allow_run reqs new_admin_login_rate_limiter = counting_run reqs []"
proof -
  obtain T where "sorted (T # map snd reqs)"
    using assms by (cases "map snd reqs") (auto intro: that)
  then show ?thesis
    by (intro allow_run_remembers [of T]) (auto simp: remembers_def new_admin_login_rate_limiter_def times_of_def)
qed

definition example_requests :: "(int \<times> go_time) list" where
  "example_requests = map (\<lambda>t. (7, t * second)) [0, 10, 20, 30, 60, 61, 70]"

lemma allow_counts_history_witness:
  "allow_run example_requests new_admin_login_rate_limiter = [True, True, True, False, True, False, True] \<and>
   allow_run example_requests new_admin_login_rate_limiter = counting_run example_requests []"
proof
  show "allow_run example_requests new_admin_login_rate_limiter = counting_run example_requests []"
    by (rule allow_counts_history) (simp add: example_requests_def)
  show "allow_run example_requests new_admin_login_rate_limiter = [True, True, True, False, True, False, True]"
    by (simp add: example_requests_def new_admin_login_rate_limiter_def allow_def adminLoginRateLimit_def
        adminLoginRateWindow_def Let_def)
qed

end
