(* ===== verification/Telegram.thy ===== *)
theory Telegram
  imports Addresses Access
begin

text \<open>
  The client of the Telegram Bot API (\<open>internal/telegram/client.go\<close>), the reading of a chat member
  (\<open>membership.go\<close>), the wrapper that can change its token (\<open>swap_aware_client.go\<close>) and the
  polling loop over the updates (\<open>runner.go\<close>). HTTP and JSON are parameters: \<open>ap_Do\<close> carries
  out a request, the \<open>ap_\<close> decoders read a result. The effects of the outside world are a state
  \<open>'w\<close>.
\<close>

section \<open>Data\<close>

datatype chat_type = ChatPrivate | ChatGroup | ChatSupergroup | ChatChannel | OtherChat string

record tg_user =
  us_ID :: int
  us_IsBot :: bool
  us_Username :: string

record chat =
  ch_ID :: int
  ch_Type :: chat_type

record chat_member =
  cm_User :: tg_user
  cm_Status :: string
  cm_IsMember :: "bool option"

record chat_member_updated =
  cu_Chat :: chat
  cu_From :: tg_user
  cu_Date :: int
  cu_OldChatMember :: chat_member
  cu_NewChatMember :: chat_member

record api_message =
  am_Chat :: chat
  am_From :: "tg_user option"
  am_Text :: string

record callback_query =
  cq_ID :: string
  cq_From :: tg_user
  cq_Data :: string

record tg_update =
  up_UpdateID :: int
  up_Message :: "api_message option"
  up_CallbackQuery :: "callback_query option"
  up_ChatMember :: "chat_member_updated option"

record api_error =
  xe_StatusCode :: int
  xe_ErrorCode :: int
  xe_RetryAfterDuration :: duration
  xe_Temporary :: bool

text \<open>The errors of the client: \<open>*APIError\<close>, \<open>*requestError\<close> or any other.\<close>

datatype telegram_error = APIError api_error | RequestError | OtherError go_error

definition retry_after :: "telegram_error \<Rightarrow> duration option" where
  "retry_after err =
     (case err of
        APIError a \<Rightarrow> if xe_RetryAfterDuration a \<le> 0 then None else Some (xe_RetryAfterDuration a)
      | _ \<Rightarrow> None)"

definition is_temporary :: "telegram_error \<Rightarrow> bool" where
  "is_temporary err =
     (case err of APIError a \<Rightarrow> xe_Temporary a | RequestError \<Rightarrow> True | OtherError e \<Rightarrow> False)"

text \<open>The error as text, where it is wrapped and its kind is not looked at again.\<close>

definition error_text :: "telegram_error \<Rightarrow> go_error" where
  "error_text err =
     (case err of
        APIError a \<Rightarrow> Err ''Telegram API returned status''
      | RequestError \<Rightarrow> Err ''Telegram request failed''
      | OtherError e \<Rightarrow> e)"

section \<open>Responses\<close>

record 'raw envelope =
  en_OK :: bool
  en_Result :: 'raw
  en_ErrorCode :: int
  en_RetryAfter :: int

text \<open>
  A response is its status code and its body, read as an envelope (\<open>None\<close> if that fails);
  \<open>unmarshal\<close> reads the result.
\<close>

definition decode_telegram_response ::
    "('raw \<Rightarrow> 'a option) \<Rightarrow> int \<times> 'raw envelope option \<Rightarrow> telegram_error + 'a" where
  "decode_telegram_response unmarshal response =
     (case response of
        (status, None) \<Rightarrow> Inl (OtherError (Err ''decode Telegram response''))
      | (status, Some env) \<Rightarrow>
          if status < 200 \<or> 300 \<le> status \<or> \<not> en_OK env
          then
            let errorCode = (if en_ErrorCode env = 0 then status else en_ErrorCode env) in
            Inl (APIError \<lparr>xe_StatusCode = status, xe_ErrorCode = errorCode,
              xe_RetryAfterDuration = s64 (en_RetryAfter env * second),
              xe_Temporary = (status = 429 \<or> 500 \<le> status \<or> errorCode = 429 \<or> 500 \<le> errorCode)\<rparr>)
          else case unmarshal (en_Result env) of
            None \<Rightarrow> Inl (OtherError (Err ''decode Telegram result''))
          | Some x \<Rightarrow> Inr x)"

text \<open>The requests, each with the fields of its payload that vary.\<close>

datatype telegram_request =
    GetUpdatesRequest int
  | SendMessageRequest int string
  | SendPhotoRequest int string "byte list"
  | ApprovalRequest int int
  | AnswerCallbackRequest string string
  | GetChatMemberRequest int int
  | GetMeRequest

record ('raw, 'w) telegram_api =
  ap_Do :: "telegram_request \<Rightarrow> 'w \<Rightarrow> (int \<times> 'raw envelope option) option \<times> 'w"
  ap_updates :: "'raw \<Rightarrow> tg_update list option"
  ap_member :: "'raw \<Rightarrow> chat_member option"
  ap_user :: "'raw \<Rightarrow> tg_user option"
  ap_bool :: "'raw \<Rightarrow> bool option"

text \<open>\<open>call\<close>; a payload of these types never fails to encode.\<close>

definition call_api ::
    "('raw, 'w) telegram_api \<Rightarrow> telegram_request \<Rightarrow> ('raw \<Rightarrow> 'a option) \<Rightarrow> 'w \<Rightarrow> (telegram_error + 'a) \<times> 'w" where
  "call_api api request unmarshal w =
     (case ap_Do api request w of
        (None, w1) \<Rightarrow> (Inl RequestError, w1)
      | (Some response, w1) \<Rightarrow> (decode_telegram_response unmarshal response, w1))"

section \<open>The client\<close>

definition get_updates :: "('raw, 'w) telegram_api \<Rightarrow> int \<Rightarrow> 'w \<Rightarrow> (telegram_error + tg_update list) \<times> 'w" where
  "get_updates api offset = call_api api (GetUpdatesRequest offset) (ap_updates api)"

definition send_message :: "('raw, 'w) telegram_api \<Rightarrow> int \<Rightarrow> string \<Rightarrow> 'w \<Rightarrow> (telegram_error + unit) \<times> 'w" where
  "send_message api chatID txt = call_api api (SendMessageRequest chatID txt) (\<lambda>raw. Some ())"

definition png_magic :: "byte list" where
  "png_magic = [0x89, 0x50, 0x4E, 0x47, 0x0D, 0x0A, 0x1A, 0x0A]"

definition send_photo ::
    "('raw, 'w) telegram_api \<Rightarrow> int \<Rightarrow> string \<Rightarrow> byte list \<Rightarrow> 'w \<Rightarrow> (telegram_error + unit) \<times> 'w" where
  "send_photo api chatID caption png w =
     (if chatID \<le> 0 \<or> blank caption \<or> 1024 < length caption \<or> length png < 8 \<or> 10485760 < length png \<or>
         take 8 png \<noteq> png_magic
      then (Inl (OtherError (Err ''Telegram photo input is invalid'')), w)
      else call_api api (SendPhotoRequest chatID caption png) (\<lambda>raw. Some ()) w)"

definition send_approval_request ::
    "('raw, 'w) telegram_api \<Rightarrow> int \<Rightarrow> int \<Rightarrow> 'w \<Rightarrow> (telegram_error + unit) \<times> 'w" where
  "send_approval_request api administratorID targetTelegramID w =
     (if administratorID \<le> 0 \<or> targetTelegramID \<le> 0
      then (Inl (OtherError (Err ''approval request identifiers are invalid'')), w)
      else call_api api (ApprovalRequest administratorID targetTelegramID) (\<lambda>raw. Some ()) w)"

definition answer_callback_query ::
    "('raw, 'w) telegram_api \<Rightarrow> string \<Rightarrow> string \<Rightarrow> 'w \<Rightarrow> (telegram_error + bool) \<times> 'w" where
  "answer_callback_query api callbackID txt w =
     (if blank callbackID \<or> blank txt then (Inl (OtherError (Err ''callback answer is invalid'')), w)
      else call_api api (AnswerCallbackRequest callbackID txt) (ap_bool api) w)"

definition get_chat_member ::
    "('raw, 'w) telegram_api \<Rightarrow> int \<Rightarrow> int \<Rightarrow> 'w \<Rightarrow> (telegram_error + chat_member) \<times> 'w" where
  "get_chat_member api chatID userID w =
     (if chatID = 0 \<or> userID \<le> 0
      then (Inl (OtherError (Err ''invalid Telegram chat member identifiers'')), w)
      else case call_api api (GetChatMemberRequest chatID userID) (ap_member api) w of
        (Inl e, w1) \<Rightarrow> (Inl e, w1)
      | (Inr member, w1) \<Rightarrow>
          if us_ID (cm_User member) \<noteq> userID \<or> blank (cm_Status member)
          then (Inl (OtherError (Err ''Telegram chat member response is invalid'')), w1)
          else (Inr member, w1))"

definition get_me :: "('raw, 'w) telegram_api \<Rightarrow> 'w \<Rightarrow> (telegram_error + tg_user) \<times> 'w" where
  "get_me api w =
     (case call_api api GetMeRequest (ap_user api) w of
        (Inl e, w1) \<Rightarrow> (Inl e, w1)
      | (Inr u, w1) \<Rightarrow>
          if us_ID u \<le> 0 \<or> \<not> us_IsBot u \<or> blank (us_Username u)
          then (Inl (OtherError (Err ''Telegram bot identity is invalid'')), w1)
          else (Inr u, w1))"

definition membership_result_of :: "chat_member \<Rightarrow> membership_result" where
  "membership_result_of m =
     (if cm_Status m \<in> {''creator'', ''administrator'', ''member''} then Member
      else if cm_Status m = ''restricted''
      then (case cm_IsMember m of None \<Rightarrow> IndeterminateMember | Some True \<Rightarrow> Member | Some False \<Rightarrow> NotMember)
      else if cm_Status m \<in> {''left'', ''kicked''} then NotMember
      else IndeterminateMember)"

section \<open>Changing the token\<close>

abbreviation "ErrBotIdentityChanged \<equiv> Sentinel ''bot identity changed''"

record 'client swap_aware_client =
  sw_current :: 'client
  sw_identity :: tg_user

definition new_swap_aware_client :: "'client option \<Rightarrow> tg_user \<Rightarrow> go_error + 'client swap_aware_client" where
  "new_swap_aware_client initial identity =
     (case initial of
        None \<Rightarrow> Inl (Err ''swap-aware client requires an initial client and verified bot identity'')
      | Some c \<Rightarrow>
          if us_ID identity \<le> 0 \<or> \<not> us_IsBot identity \<or> us_Username identity = ''''
          then Inl (Err ''swap-aware client requires an initial client and verified bot identity'')
          else Inr \<lparr>sw_current = c, sw_identity = identity\<rparr>)"

text \<open>\<open>factory\<close> builds a client for a token (\<open>None\<close>: nil), \<open>verify\<close> asks it for its identity.\<close>

definition swap_client ::
    "(string \<Rightarrow> 'client option) \<Rightarrow> ('client \<Rightarrow> 'w \<Rightarrow> (go_error + tg_user) \<times> 'w) \<Rightarrow> string
       \<Rightarrow> 'client swap_aware_client \<times> 'w \<Rightarrow> (go_error + unit) \<times> ('client swap_aware_client \<times> 'w)" where
  "swap_client factory verify token st =
     (let (c, w) = st in
      if token = '''' then (Inl (Err ''token swap requires a token, factory and verifier''), st)
      else case factory token of
        None \<Rightarrow> (Inl (Err ''token swap factory returned no client''), st)
      | Some candidate \<Rightarrow>
      (case verify candidate w of
         (Inl e, w1) \<Rightarrow> (Inl e, (c, w1))
       | (Inr verified, w1) \<Rightarrow>
           if us_ID verified \<noteq> us_ID (sw_identity c) \<or> \<not> us_IsBot verified \<or> us_Username verified = ''''
           then (Inl ErrBotIdentityChanged, (c, w1))
           else (Inr (), (c\<lparr>sw_current := candidate,
                  sw_identity := (sw_identity c)\<lparr>us_Username := us_Username verified\<rparr>\<rparr>, w1))))"

end
