(* ===== verification/Update_Runner.thy ===== *)
theory Update_Runner
  imports Telegram
begin

text \<open>
  The polling loop (\<open>internal/telegram/runner.go\<close>): updates are fetched from an offset, each is
  given to the callback, membership and message handlers, and the offset moves past it. A
  handler that fails makes the runner wait and poll again without moving past the update. The
  handlers, the client and the wait are parameters that change a state \<open>'w\<close>; \<open>rn_done\<close> is
  \<open>ctx.Err() != nil\<close>.
\<close>

record tg_message =
  ms_ChatType :: chat_type
  ms_SenderID :: int
  ms_Text :: string

record reply =
  rp_Text :: string
  rp_QRContent :: string

record callback =
  cb_ID :: string
  cb_SenderID :: int
  cb_Data :: string

record membership_event =
  me_ChatID :: int
  me_ChatType :: chat_type
  me_TelegramID :: int
  me_Result :: membership_result

record 'w runner =
  rn_GetUpdates :: "int \<Rightarrow> 'w \<Rightarrow> (telegram_error + tg_update list) \<times> 'w"
  rn_SendMessage :: "int \<Rightarrow> string \<Rightarrow> 'w \<Rightarrow> (telegram_error + unit) \<times> 'w"
  rn_SendPhoto :: "(int \<Rightarrow> string \<Rightarrow> byte list \<Rightarrow> 'w \<Rightarrow> (telegram_error + unit) \<times> 'w) option"
  rn_handler :: "tg_message \<Rightarrow> 'w \<Rightarrow> reply option \<times> 'w"
  rn_membership :: "(membership_event \<Rightarrow> 'w \<Rightarrow> (go_error + unit) \<times> 'w) option"
  rn_callbacks :: "(callback \<Rightarrow> 'w \<Rightarrow> (go_error + unit) \<times> 'w) option"
  rn_qr :: "(string \<Rightarrow> byte list option) option"
  rn_wait :: "duration \<Rightarrow> 'w \<Rightarrow> go_error option \<times> 'w"
  rn_done :: "'w \<Rightarrow> bool"

definition pollingRetryDelay :: duration where
  "pollingRetryDelay = second"

text \<open>A nil handler and an absent part of the update are skipped.\<close>

definition give_callback :: "'w runner \<Rightarrow> tg_update \<Rightarrow> 'w \<Rightarrow> (go_error + unit) \<times> 'w" where
  "give_callback rn u w =
     (case (up_CallbackQuery u, rn_callbacks rn) of
        (Some q, Some handle) \<Rightarrow>
          handle \<lparr>cb_ID = cq_ID q, cb_SenderID = us_ID (cq_From q), cb_Data = cq_Data q\<rparr> w
      | _ \<Rightarrow> (Inr (), w))"

definition give_membership :: "'w runner \<Rightarrow> tg_update \<Rightarrow> 'w \<Rightarrow> (go_error + unit) \<times> 'w" where
  "give_membership rn u w =
     (case (up_ChatMember u, rn_membership rn) of
        (Some change, Some handle) \<Rightarrow>
          if ch_ID (cu_Chat change) \<noteq> 0 \<and> 0 < us_ID (cm_User (cu_NewChatMember change))
          then handle \<lparr>me_ChatID = ch_ID (cu_Chat change), me_ChatType = ch_Type (cu_Chat change),
                 me_TelegramID = us_ID (cm_User (cu_NewChatMember change)),
                 me_Result = membership_result_of (cu_NewChatMember change)\<rparr> w
          else (Inr (), w)
      | _ \<Rightarrow> (Inr (), w))"

text \<open>The reply goes out as a photo if it has a link to show and everything for it works.\<close>

definition send_reply :: "'w runner \<Rightarrow> int \<Rightarrow> reply \<Rightarrow> 'w \<Rightarrow> 'w" where
  "send_reply rn chatID reply w =
     (let attempt =
        (if rp_QRContent reply = '''' then None
         else case (rn_qr rn, rn_SendPhoto rn) of
           (Some encode, Some send) \<Rightarrow>
             (case encode (rp_QRContent reply) of
                None \<Rightarrow> None
              | Some png \<Rightarrow> Some (send chatID (rp_Text reply) png w))
         | _ \<Rightarrow> None)
      in case attempt of
           Some (Inr _, w1) \<Rightarrow> w1
         | Some (Inl _, w1) \<Rightarrow> snd (rn_SendMessage rn chatID (rp_Text reply) w1)
         | None \<Rightarrow> snd (rn_SendMessage rn chatID (rp_Text reply) w))"

definition give_message :: "'w runner \<Rightarrow> tg_update \<Rightarrow> 'w \<Rightarrow> 'w" where
  "give_message rn u w =
     (case up_Message u of
        Some m \<Rightarrow>
          (case am_From m of
             Some sender \<Rightarrow>
               (case rn_handler rn \<lparr>ms_ChatType = ch_Type (am_Chat m), ms_SenderID = us_ID sender, ms_Text = am_Text m\<rparr> w of
                  (Some reply, w1) \<Rightarrow> send_reply rn (ch_ID (am_Chat m)) reply w1
                | (None, w1) \<Rightarrow> w1)
           | None \<Rightarrow> w)
      | None \<Rightarrow> w)"

text \<open>One update: \<open>Inl ()\<close> if a handler failed.\<close>

definition give_update :: "'w runner \<Rightarrow> tg_update \<Rightarrow> 'w \<Rightarrow> (unit + unit) \<times> 'w" where
  "give_update rn u w =
     (case give_callback rn u w of
        (Inl _, w1) \<Rightarrow> (Inl (), w1)
      | (Inr _, w1) \<Rightarrow>
     (case give_membership rn u w1 of
        (Inl _, w2) \<Rightarrow> (Inl (), w2)
      | (Inr _, w2) \<Rightarrow> (Inr (), give_message rn u w2)))"

definition past :: "tg_update \<Rightarrow> int \<Rightarrow> int" where
  "past u offset = (if offset \<le> up_UpdateID u then s64 (up_UpdateID u + 1) else offset)"

datatype poll_result = PollAgain int | RunnerReturns "go_error option"

text \<open>\<open>if ctx.Err() != nil\<close>, the wait and its error.\<close>

definition poll_later :: "'w runner \<Rightarrow> int \<Rightarrow> 'w \<Rightarrow> poll_result \<times> 'w" where
  "poll_later rn offset w =
     (if rn_done rn w then (RunnerReturns None, w)
      else case rn_wait rn pollingRetryDelay w of
        (None, w1) \<Rightarrow> (PollAgain offset, w1)
      | (Some e, w1) \<Rightarrow> (RunnerReturns (if rn_done rn w1 then None else Some e), w1))"

fun give_updates :: "'w runner \<Rightarrow> tg_update list \<Rightarrow> int \<Rightarrow> 'w \<Rightarrow> poll_result \<times> 'w" where
  "give_updates rn [] offset w = (PollAgain offset, w)"
| "give_updates rn (u # us) offset w =
     (case give_update rn u w of
        (Inl _, w1) \<Rightarrow> poll_later rn offset w1
      | (Inr _, w1) \<Rightarrow> give_updates rn us (past u offset) w1)"

text \<open>One turn of the loop of \<open>Run\<close>.\<close>

definition poll :: "'w runner \<Rightarrow> int \<Rightarrow> 'w \<Rightarrow> poll_result \<times> 'w" where
  "poll rn offset w =
     (if rn_done rn w then (RunnerReturns None, w)
      else case rn_GetUpdates rn offset w of
        (Inl _, w1) \<Rightarrow> poll_later rn offset w1
      | (Inr updates, w1) \<Rightarrow> give_updates rn updates offset w1)"

text \<open>\<open>Run\<close> ends when the context does; \<open>n\<close> turns of it.\<close>

fun run_polls :: "nat \<Rightarrow> 'w runner \<Rightarrow> int \<Rightarrow> 'w \<Rightarrow> poll_result \<times> 'w" where
  "run_polls 0 rn offset w = (PollAgain offset, w)"
| "run_polls (Suc n) rn offset w =
     (case poll rn offset w of
        (RunnerReturns r, w1) \<Rightarrow> (RunnerReturns r, w1)
      | (PollAgain offset1, w1) \<Rightarrow> run_polls n rn offset1 w1)"

section \<open>The updates that are accepted\<close>

text \<open>The updates of a batch, and of a run, whose handlers accepted them.\<close>

fun accepted_of :: "'w runner \<Rightarrow> tg_update list \<Rightarrow> 'w \<Rightarrow> tg_update list" where
  "accepted_of rn [] w = []"
| "accepted_of rn (u # us) w =
     (case give_update rn u w of (Inl _, w1) \<Rightarrow> [] | (Inr _, w1) \<Rightarrow> u # accepted_of rn us w1)"

fun accepted :: "nat \<Rightarrow> 'w runner \<Rightarrow> int \<Rightarrow> 'w \<Rightarrow> tg_update list" where
  "accepted 0 rn offset w = []"
| "accepted (Suc n) rn offset w =
     (let now = (if rn_done rn w then []
        else case rn_GetUpdates rn offset w of (Inl _, w1) \<Rightarrow> [] | (Inr us, w1) \<Rightarrow> accepted_of rn us w1)
      in case poll rn offset w of
        (RunnerReturns r, w1) \<Rightarrow> now
      | (PollAgain offset1, w1) \<Rightarrow> now @ accepted n rn offset1 w1)"

text \<open>
  What the Bot API documents of \<open>getUpdates\<close>: of all the updates there will be, numbered in
  order, it gives the first so many that are not below the offset.
\<close>

definition update_ids_ok :: "tg_update list \<Rightarrow> bool" where
  "update_ids_ok us \<longleftrightarrow> sorted_wrt (<) (map up_UpdateID us) \<and> (\<forall>u \<in> set us. int64 (up_UpdateID u + 1))"

definition serves_updates :: "'w runner \<Rightarrow> tg_update list \<Rightarrow> bool" where
  "serves_updates rn us \<longleftrightarrow> (\<forall>offset w got w1. rn_GetUpdates rn offset w = (Inr got, w1) \<longrightarrow>
     (\<exists>k. got = take k (filter (\<lambda>u. offset \<le> up_UpdateID u) us)))"

definition between :: "int \<Rightarrow> int \<Rightarrow> tg_update list \<Rightarrow> tg_update list" where
  "between lo hi us = filter (\<lambda>u. lo \<le> up_UpdateID u \<and> up_UpdateID u < hi) us"

lemma between_empty [simp]: "between lo lo us = []"
  by (simp add: between_def)

lemma between_append:
  "sorted_wrt (<) (map up_UpdateID us) \<Longrightarrow> lo \<le> mid \<Longrightarrow> mid \<le> hi \<Longrightarrow>
   between lo mid us @ between mid hi us = between lo hi us"
proof (induction us)
  case (Cons u us)
  show ?case
  proof (cases "up_UpdateID u < mid")
    case True
    with Cons show ?thesis by (simp add: between_def)
  next
    case False
    with Cons.prems have "between lo mid us = []" by (auto simp: between_def filter_empty_conv)
    with Cons False show ?thesis by (simp add: between_def)
  qed
qed (simp add: between_def)

lemma poll_later_PollAgain: "poll_later rn offset w = (PollAgain offset1, w1) \<Longrightarrow> offset1 = offset"
  by (auto simp: poll_later_def split: if_splits prod.splits option.splits)

lemma give_updates_accepts:
  assumes "give_updates rn us offset w = (PollAgain offset1, w1)"
    and "sorted_wrt (<) (map up_UpdateID us)" "\<forall>u \<in> set us. offset \<le> up_UpdateID u \<and> int64 (up_UpdateID u + 1)"
  shows "offset \<le> offset1 \<and> accepted_of rn us w = between offset offset1 us \<and>
    (\<forall>u \<in> set us. \<forall>x > up_UpdateID u. (\<forall>v \<in> set us. up_UpdateID v < x) \<longrightarrow> offset1 \<le> x)"
  using assms
proof (induction rn us offset w rule: give_updates.induct)
  case (1 rn offset w)
  then show ?case by simp
next
  case (2 rn u us offset w)
  obtain r w2 where g: "give_update rn u w = (r, w2)" by fastforce
  show ?case
  proof (cases r)
    case (Inl a)
    with 2 g have "offset1 = offset" by (auto dest: poll_later_PollAgain)
    with Inl g "2.prems"(3) show ?thesis by auto
  next
    case (Inr a)
    let ?after = "up_UpdateID u + 1"
    have past: "past u offset = ?after"
      using "2.prems"(3) by (simp add: past_def s64_ident_iff)
    have prems: "give_updates rn us ?after w2 = (PollAgain offset1, w1)"
      "sorted_wrt (<) (map up_UpdateID us)" "\<forall>v \<in> set us. ?after \<le> up_UpdateID v \<and> int64 (up_UpdateID v + 1)"
      using "2.prems" g Inr past by auto
    note IH = "2.IH" [OF g [symmetric] Inr, unfolded past, OF prems]
    have "between offset offset1 (u # us) = u # between ?after offset1 us"
      using IH prems(3) "2.prems"(3) unfolding between_def by (auto intro!: filter_cong)
    moreover have "offset1 \<le> x" if "v \<in> set (u # us)" "up_UpdateID v < x" "\<forall>v \<in> set (u # us). up_UpdateID v < x" for v x
    proof (cases us)
      case Nil
      with prems(1) that show ?thesis by auto
    next
      case (Cons v' vs)
      with IH that show ?thesis by auto
    qed
    ultimately show ?thesis using IH g Inr "2.prems"(3) by auto
  qed
qed

lemma batch_accepted:
  assumes ids: "update_ids_ok us" and got: "got = take k (filter (\<lambda>u. offset \<le> up_UpdateID u) us)"
    and run: "give_updates rn got offset w = (PollAgain offset1, w1)"
  shows "offset \<le> offset1 \<and> accepted_of rn got w = between offset offset1 us"
proof -
  let ?from = "filter (\<lambda>u. offset \<le> up_UpdateID u) us"
  have sorted: "sorted_wrt (<) (map up_UpdateID ?from)"
    using ids by (auto simp: update_ids_ok_def sorted_wrt_map intro: sorted_wrt_filter)
  have parts: "?from = got @ drop k ?from" using got by simp
  from sorted have less: "sorted_wrt (<) (map up_UpdateID got)"
    "\<forall>u \<in> set got. \<forall>v \<in> set (drop k ?from). up_UpdateID u < up_UpdateID v"
    by (subst (asm) parts, simp add: sorted_wrt_append)+
  have range: "\<forall>u \<in> set got. offset \<le> up_UpdateID u \<and> int64 (up_UpdateID u + 1)"
    using got ids by (auto simp: update_ids_ok_def dest: in_set_takeD)
  note acc = give_updates_accepts [OF run less(1) range]
  have rest: "between offset offset1 (drop k ?from) = []"
  proof (cases "got = []")
    case True
    with run have "offset1 = offset" by simp
    then show ?thesis by simp
  next
    case False
    then have "hd got \<in> set got" by simp
    with acc less(2) have "\<forall>v \<in> set (drop k ?from). offset1 \<le> up_UpdateID v" by blast
    then show ?thesis by (auto simp: between_def filter_empty_conv)
  qed
  have "between offset offset1 us = between offset offset1 ?from"
    by (auto simp: between_def intro: filter_cong)
  also have "\<dots> = between offset offset1 got"
    by (subst parts) (use rest in \<open>simp add: between_def\<close>)
  finally show ?thesis
    using acc by simp
qed

lemma poll_accepted:
  assumes "update_ids_ok us" "serves_updates rn us" "poll rn offset w = (PollAgain offset1, w1)"
  shows "offset \<le> offset1 \<and>
    (if rn_done rn w then []
     else case rn_GetUpdates rn offset w of (Inl _, w1) \<Rightarrow> [] | (Inr got, w1) \<Rightarrow> accepted_of rn got w1) =
    between offset offset1 us"
proof -
  obtain r w2 where g: "rn_GetUpdates rn offset w = (r, w2)" by fastforce
  have run: "\<not> rn_done rn w" using assms(3) by (auto simp: poll_def)
  show ?thesis
  proof (cases r)
    case (Inl e)
    with assms(3) g run show ?thesis by (auto simp: poll_def dest: poll_later_PollAgain)
  next
    case (Inr got)
    with assms(2) g obtain k where "got = take k (filter (\<lambda>u. offset \<le> up_UpdateID u) us)"
      unfolding serves_updates_def by metis
    from batch_accepted [OF assms(1) this] assms(3) g run Inr show ?thesis by (simp add: poll_def)
  qed
qed

text \<open>
  C26. No update is lost and none is taken twice: whatever handlers fail and whatever polls fail, when
  the runner has come to an offset, the updates that its handlers have accepted are exactly
  those from the first offset up to it, each once and in order; a rejected update and all after
  it are still to come.
\<close>

theorem updates_accepted_once:
  assumes "update_ids_ok us" "serves_updates rn us" "run_polls n rn offset w = (PollAgain offset1, w1)"
  shows "accepted n rn offset w = between offset offset1 us \<and> offset \<le> offset1"
  using assms(3)
proof (induction n arbitrary: offset w)
  case (Suc n)
  obtain offset2 w2 where p: "poll rn offset w = (PollAgain offset2, w2)"
    and r: "run_polls n rn offset2 w2 = (PollAgain offset1, w1)"
    using Suc.prems by (auto split: prod.splits poll_result.splits)
  have first: "offset \<le> offset2 \<and>
    (if rn_done rn w then []
     else case rn_GetUpdates rn offset w of (Inl _, w1) \<Rightarrow> [] | (Inr got, w1) \<Rightarrow> accepted_of rn got w1) =
    between offset offset2 us"
    by (rule poll_accepted [OF assms(1,2) p])
  have "accepted (Suc n) rn offset w = between offset offset2 us @ accepted n rn offset2 w2"
    using first p by (simp only: accepted.simps Let_def) simp
  with first Suc.IH [OF r] assms(1) show ?case
    by (simp add: between_append update_ids_ok_def)
qed simp

text \<open>Three updates with a callback each; the state counts the calls, and the second call fails.\<close>

definition example_update :: "int \<Rightarrow> tg_update" where
  "example_update n = \<lparr>up_UpdateID = n, up_Message = None,
     up_CallbackQuery = Some \<lparr>cq_ID = ''q'', cq_From = \<lparr>us_ID = 5, us_IsBot = False, us_Username = ''''\<rparr>, cq_Data = ''approve:7''\<rparr>,
     up_ChatMember = None\<rparr>"

definition example_updates :: "tg_update list" where
  "example_updates = [example_update 10, example_update 12, example_update 13]"

definition example_runner :: "int runner" where
  "example_runner = \<lparr>rn_GetUpdates = (\<lambda>offset w. (Inr (take 2 (filter (\<lambda>u. offset \<le> up_UpdateID u) example_updates)), w)),
     rn_SendMessage = (\<lambda>c t w. (Inr (), w)), rn_SendPhoto = None, rn_handler = (\<lambda>m w. (None, w)), rn_membership = None,
     rn_callbacks = Some (\<lambda>c w. (if w = 1 then Inl (Err ''unavailable'') else Inr (), w + 1)), rn_qr = None,
     rn_wait = (\<lambda>d w. (None, w)), rn_done = (\<lambda>w. False)\<rparr>"

lemma example_poll:
  "run_polls 1 example_runner 0 0 = (PollAgain 11, 2)"
  "run_polls 2 example_runner 0 0 = (PollAgain 14, 4)"
  by (simp_all add: eval_nat_numeral poll_def example_runner_def example_updates_def example_update_def give_update_def
      give_callback_def give_membership_def give_message_def past_def poll_later_def s64_id)

lemma updates_accepted_once_witness:
  "accepted 1 example_runner 0 0 = [example_update 10] \<and> accepted 2 example_runner 0 0 = example_updates"
proof -
  have ids: "update_ids_ok example_updates"
    by (simp add: update_ids_ok_def example_updates_def example_update_def int64_def)
  have srv: "serves_updates example_runner example_updates"
    by (auto simp: serves_updates_def example_runner_def)
  show ?thesis
    using updates_accepted_once [OF ids srv example_poll(1)] updates_accepted_once [OF ids srv example_poll(2)]
    by (simp add: between_def example_updates_def example_update_def)
qed

end
