(* ===== verification/Telegram_Commands.thy ===== *)
theory Telegram_Commands
  imports Update_Runner Snapshot Access_Store Auth
begin

text \<open>
  What the bot does with messages and with the buttons under an approval request: the services
  of a user's access and status (\<open>internal/vpn\<close>), the reads of the users
  (\<open>internal/postgres/user_management_store.go\<close>), the commands (\<open>internal/telegram/command_handler.go\<close>,
  \<open>admin_commands.go\<close>) and the approval buttons (\<open>approval_handler.go\<close>,
  \<open>approval_request_notifier.go\<close>). The replies are Chinese texts, which a parameter spells out
  from \<open>reply_text\<close>.
\<close>

section \<open>Users\<close>

record user_overview =
  uo_TelegramID :: int
  uo_Eligible :: bool
  uo_Status :: access_status
  uo_Generation :: int
  uo_PeriodStartedAt :: go_time
  uo_LastVPNActivityAt :: go_time
  uo_UsedBytes :: int
  uo_LimitBytes :: int
  uo_QuotaBlocked :: bool

record user_statistics =
  ut_Total :: int
  ut_Active :: int
  ut_Pending :: int
  ut_Blocked :: int
  ut_TotalUsedBytes :: int

abbreviation "ErrVPNUserNotFound \<equiv> Sentinel ''VPN user not found''"

text \<open>The row that the query joins; a missing quota window reads as zeros.\<close>

definition overview_of :: "vpn_db \<Rightarrow> int \<times> vpn_user_row \<Rightarrow> user_overview" where
  "overview_of d u =
     (case u of (i, row) \<Rightarrow>
        let q = map_of (quota_windows d) i in
        \<lparr>uo_TelegramID = i, uo_Eligible = vu_eligible row, uo_Status = vu_status row,
         uo_Generation = vu_credential_generation row, uo_PeriodStartedAt = null_time (vu_period_started_at row),
         uo_LastVPNActivityAt = null_time (vu_last_vpn_activity_at row),
         uo_UsedBytes = (case q of None \<Rightarrow> 0 | Some r \<Rightarrow> qr_used_bytes r),
         uo_LimitBytes = (case q of None \<Rightarrow> 0 | Some r \<Rightarrow> qr_limit_bytes r),
         uo_QuotaBlocked = (case q of None \<Rightarrow> False | Some r \<Rightarrow> qr_blocked r)\<rparr>)"

text \<open>A negative generation does not decode into a \<open>uint64\<close>.\<close>

definition valid_user_overview :: "user_overview \<Rightarrow> int \<Rightarrow> bool" where
  "valid_user_overview u previous \<longleftrightarrow>
     previous < uo_TelegramID u \<and> 0 \<le> uo_Generation u \<and> uo_Generation u \<le> max_int64 \<and> 0 \<le> uo_UsedBytes u \<and> 0 \<le> uo_LimitBytes u \<and>
     (case uo_Status u of OtherStatus _ \<Rightarrow> False | _ \<Rightarrow> True)"

fun valid_user_list :: "user_overview list \<Rightarrow> int \<Rightarrow> bool" where
  "valid_user_list [] previous = True"
| "valid_user_list (u # us) previous = (valid_user_overview u previous \<and> valid_user_list us (uo_TelegramID u))"

definition list_users :: "int \<Rightarrow> int \<Rightarrow> (vpn_db \<times> faults, user_overview list) call" where
  "list_users after limit =
     (if after < 0 \<or> limit < 1 \<or> 200 < limit then fail_with (Err ''user list window is invalid'')
      else and_then (wrapping ''list VPN users'' (statement (\<lambda>d.
             (Inr (map (overview_of d) (take (nat limit) (sort_key fst (filter (\<lambda>(i, row). after < i) (vpn_users d))))), d))))
           (\<lambda>users. if valid_user_list users after then ok users
                    else fail_with (Err ''persisted VPN user list is invalid'')))"

definition find_user :: "int \<Rightarrow> (vpn_db \<times> faults, user_overview) call" where
  "find_user telegramID st =
     (if telegramID \<le> 0 then (Inl (Err ''Telegram ID must be positive''), st)
      else case statement (\<lambda>d. (case map_of (vpn_users d) telegramID of
                None \<Rightarrow> Inl ErrNoRows | Some row \<Rightarrow> Inr (overview_of d (telegramID, row)), d)) st of
        (Inl e, st1) \<Rightarrow>
          (Inl (if errors_is e ''no rows in result set'' then ErrVPNUserNotFound else Wrap ''find VPN user'' e), st1)
      | (Inr u, st1) \<Rightarrow>
          if \<not> valid_user_overview u 0 \<or> uo_TelegramID u \<noteq> telegramID then (Inl (Err ''persisted VPN user is invalid''), st1)
          else (Inr u, st1))"

definition count_users :: "(vpn_user_row \<Rightarrow> bool) \<Rightarrow> vpn_db \<Rightarrow> int" where
  "count_users P d = int (length (filter (\<lambda>(i, row). P row) (vpn_users d)))"

definition user_statistics_of :: "vpn_db \<Rightarrow> user_statistics" where
  "user_statistics_of d = \<lparr>ut_Total = int (length (vpn_users d)),
     ut_Active = count_users (\<lambda>r. vu_status r = Active) d,
     ut_Pending = count_users (\<lambda>r. vu_status r = PendingApproval \<or> vu_status r = ApprovalRejected) d,
     ut_Blocked = count_users (\<lambda>r. vu_status r = PermanentlyBlocked) d,
     ut_TotalUsedBytes = sum_list (map (\<lambda>(i, row). case map_of (quota_windows d) i of None \<Rightarrow> 0 | Some q \<Rightarrow> qr_used_bytes q)
        (vpn_users d))\<rparr>"

text \<open>A sum beyond \<open>int64\<close> does not scan.\<close>

definition statistics :: "(vpn_db \<times> faults, user_statistics) call" where
  "statistics =
     and_then (wrapping ''load VPN user statistics'' (statement (\<lambda>d.
         let s = user_statistics_of d in
         (if int64 (ut_TotalUsedBytes s) then Inr s else Inl (Err ''value out of range''), d))))
       (\<lambda>s. if ut_Total s < 0 \<or> ut_Active s < 0 \<or> ut_Pending s < 0 \<or> ut_Blocked s < 0 \<or> ut_TotalUsedBytes s < 0 \<or>
               ut_Total s < ut_Active s + ut_Pending s + ut_Blocked s
            then fail_with (Err ''persisted VPN user statistics are invalid'') else ok s)"

section \<open>Access and status of a user\<close>

record vpn_access =
  va_SubscriptionURL :: string
  va_NewlyIssued :: bool

abbreviation "ErrQualificationUnavailable \<equiv> Sentinel ''qualification is temporarily unavailable''"

record 'w access_service =
  sv_Evaluate :: "int \<Rightarrow> ('w, qualification_decision) call"
  sv_ApplyQualification :: "int \<Rightarrow> qualification_decision \<Rightarrow> ('w, access_change) call"
  sv_Claim :: "int \<Rightarrow> go_time \<Rightarrow> ('w, provisioned_access) call"
  sv_FindActiveByTelegramID :: "int \<Rightarrow> ('w, credential_bundle) call"
  sv_SubscriptionURL :: "string \<Rightarrow> go_error + string"
  sv_now :: "'w \<Rightarrow> go_time"

text \<open>The part after the qualification: a new claim, or the credentials of an active access.\<close>

definition claim_or_find :: "'w access_service \<Rightarrow> int \<Rightarrow> ('w, vpn_access) call" where
  "claim_or_find sv telegramID w =
     (let (claimed, w1) = sv_Claim sv telegramID (sv_now sv w) w;
          newlyIssued = (case claimed of Inl e \<Rightarrow> \<not> errors_is e ''access is already active'' | Inr _ \<Rightarrow> True);
          (bundle, w2) = (case claimed of
             Inr provisioned \<Rightarrow> (Inr (pa_Credentials provisioned), w1)
           | Inl e \<Rightarrow> if newlyIssued then (Inl e, w1) else sv_FindActiveByTelegramID sv telegramID w1)
      in case bundle of
           Inl e \<Rightarrow> (Inl (Wrap ''obtain VPN credentials'' e), w2)
         | Inr b \<Rightarrow>
             (case sv_SubscriptionURL sv (cb_SubscriptionToken b) of
                Inl e \<Rightarrow> (Inl (Wrap ''build subscription URL'' e), w2)
              | Inr link \<Rightarrow> (Inr \<lparr>va_SubscriptionURL = link, va_NewlyIssued = newlyIssued\<rparr>, w2)))"

definition get_or_claim :: "'w access_service \<Rightarrow> int \<Rightarrow> ('w, vpn_access) call" where
  "get_or_claim sv telegramID w =
     (if telegramID \<le> 0 then (Inl (Err ''Telegram ID must be positive''), w)
      else case sv_Evaluate sv telegramID w of
        (Inl e, w1) \<Rightarrow> (Inl (Wrap ''evaluate VPN qualification'' e), w1)
      | (Inr decision, w1) \<Rightarrow>
     (case decision of
        IndeterminateDecision \<Rightarrow> (Inl ErrQualificationUnavailable, w1)
      | Ineligible \<Rightarrow>
          (case sv_ApplyQualification sv telegramID decision w1 of
             (Inl e, w2) \<Rightarrow> (Inl (Wrap ''persist VPN qualification'' e), w2)
           | (Inr _, w2) \<Rightarrow> (Inl ErrNotEligible, w2))
      | Eligible \<Rightarrow>
          (case sv_ApplyQualification sv telegramID decision w1 of
             (Inl e, w2) \<Rightarrow> (Inl (Wrap ''persist VPN qualification'' e), w2)
           | (Inr _, w2) \<Rightarrow> claim_or_find sv telegramID w2)
      | OtherDecision s \<Rightarrow> (Inl (Err ''qualification decision is invalid''), w1)))"

record vpn_status =
  vs_Overview :: user_overview
  vs_SubscriptionURL :: string
  vs_ResetsAt :: go_time

record 'w status_service =
  ss_FindUser :: "int \<Rightarrow> ('w, user_overview) call"
  ss_FindActiveByTelegramID :: "int \<Rightarrow> ('w, credential_bundle) call"
  ss_SubscriptionURL :: "string \<Rightarrow> go_error + string"
  ss_period :: duration

definition get_status :: "'w status_service \<Rightarrow> int \<Rightarrow> ('w, vpn_status) call" where
  "get_status ss telegramID w =
     (if ss_period ss \<le> 0 then (Inl (Err ''VPN status service dependencies are required''), w)
      else if telegramID \<le> 0 then (Inl (Err ''Telegram ID must be positive''), w)
      else case ss_FindUser ss telegramID w of
        (Inl e, w1) \<Rightarrow> (Inl (Wrap ''load VPN status'' e), w1)
      | (Inr overview, w1) \<Rightarrow>
          if uo_TelegramID overview \<noteq> telegramID then (Inl (Err ''VPN status owner is invalid''), w1)
          else
            let status = \<lparr>vs_Overview = overview, vs_SubscriptionURL = '''',
                  vs_ResetsAt = (if uo_PeriodStartedAt overview = 0 then 0 else uo_PeriodStartedAt overview + ss_period ss)\<rparr>
            in if uo_Status overview \<noteq> Active \<or> \<not> uo_Eligible overview then (Inr status, w1)
               else case ss_FindActiveByTelegramID ss telegramID w1 of
                 (Inl e, w2) \<Rightarrow> (Inl (Wrap ''load VPN status credentials'' e), w2)
               | (Inr bundle, w2) \<Rightarrow>
                   (case ss_SubscriptionURL ss (cb_SubscriptionToken bundle) of
                      Inl e \<Rightarrow> (Inl (Wrap ''build VPN status subscription URL'' e), w2)
                    | Inr link \<Rightarrow> (Inr (status\<lparr>vs_SubscriptionURL := link\<rparr>), w2)))"

section \<open>Replies\<close>

datatype reply_text =
    PrivateChatOnly
  | NoLoginCode
  | NoAdminCommand
  | NoStatus
  | StatusText vpn_status
  | NotEligibleText
  | ApprovalNeededText
  | QualificationUnavailableText
  | NoVPN
  | NewSubscription string
  | ExistingSubscription string
  | NoUsersText
  | UsersText "user_overview list"
  | StatisticsText user_statistics
  | RevokedText int revocation_mode
  | RotatedText int bool
  | ApprovedText
  | RejectedText
  | ApprovedAnswer
  | RejectedAnswer

type_synonym wording = "reply_text \<Rightarrow> string"

section \<open>Words and identifiers\<close>

text \<open>\<open>strings.Fields\<close>\<close>

fun split_word :: "string \<Rightarrow> string \<times> string" where
  "split_word [] = ([], [])"
| "split_word (c # cs) =
     (if space_prefix (c # cs) \<noteq> None then ([], c # cs) else (let (w, r) = split_word cs in (c # w, r)))"

lemma split_word_length: "length (fst (split_word s)) + length (snd (split_word s)) = length s"
  by (induction s rule: split_word.induct) (auto split: prod.splits)

lemma trim_left_no_space: "space_prefix (trim_left s) = None"
  by (induction s rule: trim_left.induct) (subst trim_left.simps, simp split: option.splits)

lemma trim_left_length: "length (trim_left s) \<le> length s"
proof (induction s rule: trim_left.induct)
  case (1 s)
  then show ?case
    by (subst trim_left.simps) (fastforce split: option.splits dest: space_prefix_shorter)
qed

function words_of :: "string \<Rightarrow> string list" where
  "words_of s = (case trim_left s of [] \<Rightarrow> []
     | c # cs \<Rightarrow> (let (w, r) = split_word (c # cs) in w # words_of r))"
  by pat_completeness auto
termination
proof (relation "measure length")
  fix s c cs w r x
  assume t: "trim_left s = c # cs" and x: "x = split_word (c # cs)" and wr: "(w, r) = x"
  have "space_prefix (c # cs) = None" using trim_left_no_space [of s] t by simp
  then have "0 < length w" using wr x by (auto simp del: space_prefix.simps split: prod.splits)
  moreover have "length w + length r = length (c # cs)" using split_word_length [of "c # cs"] wr x by (metis fst_conv snd_conv)
  ultimately show "(r, s) \<in> measure length" using trim_left_length [of s] t by (cases w) auto
qed simp

declare words_of.simps [simp del]

fun join_words :: "string list \<Rightarrow> string" where
  "join_words [] = []"
| "join_words [w] = w"
| "join_words (w # v # ws) = w @ '' '' @ join_words (v # ws)"

text \<open>
  \<open>ParseInt\<close> and \<open>FormatInt\<close> back: a text with a sign is no canonical positive number, so reading
  the unsigned ones is enough.
\<close>

definition parse_canonical_telegram_id :: "string \<Rightarrow> int option" where
  "parse_canonical_telegram_id txt =
     (case parse_uint 63 txt of
        None \<Rightarrow> None
      | Some telegramID \<Rightarrow> if 0 < telegramID \<and> format_int telegramID = txt then Some telegramID else None)"

section \<open>Commands of administrators\<close>

record 'w admin_commands =
  ac_FindActive :: "int \<Rightarrow> ('w, administrator) call"
  ac_ListUsers :: "int \<Rightarrow> int \<Rightarrow> ('w, user_overview list) call"
  ac_Statistics :: "('w, user_statistics) call"
  ac_Revoke :: "int \<Rightarrow> int \<Rightarrow> revocation_mode \<Rightarrow> go_time \<Rightarrow> ('w, unit) call"
  ac_Rotate :: "int \<Rightarrow> go_time \<Rightarrow> bool \<Rightarrow> ('w, provisioned_access) call"
  ac_now :: "'w \<Rightarrow> go_time"

text \<open>An active administrator with a permission, or not.\<close>

definition authorized :: "(int \<Rightarrow> ('w, administrator) call) \<Rightarrow> permission \<Rightarrow> int \<Rightarrow> 'w \<Rightarrow> bool \<times> 'w" where
  "authorized findActive perm actorID w =
     (case findActive actorID w of
        (Inl e, w1) \<Rightarrow> (False, w1)
      | (Inr a, w1) \<Rightarrow> (adm_TelegramID a = actorID \<and> adm_Active a \<and> role_allows (adm_Role a) perm, w1))"

definition admin_list_users :: "'w admin_commands \<Rightarrow> ('w, reply_text) call" where
  "admin_list_users ac w =
     (case ac_ListUsers ac 0 20 w of
        (Inl e, w1) \<Rightarrow> (Inl e, w1)
      | (Inr users, w1) \<Rightarrow> (Inr (if users = [] then NoUsersText else UsersText users), w1))"

definition admin_statistics :: "'w admin_commands \<Rightarrow> ('w, reply_text) call" where
  "admin_statistics ac w =
     (case ac_Statistics ac w of (Inl e, w1) \<Rightarrow> (Inl e, w1) | (Inr s, w1) \<Rightarrow> (Inr (StatisticsText s), w1))"

definition revocation_mode_of :: "string \<Rightarrow> revocation_mode option" where
  "revocation_mode_of s =
     (if s = ''self'' then Some ModeSelfService else if s = ''approval'' then Some ModeRequireApproval
      else if s = ''block'' then Some ModePermanentBlock else None)"

definition admin_revoke :: "'w admin_commands \<Rightarrow> int \<Rightarrow> string list \<Rightarrow> ('w, reply_text) call" where
  "admin_revoke ac actorID words w =
     (if length words \<noteq> 3 then (Inl (Err ''administrator revoke command is invalid''), w)
      else case parse_canonical_telegram_id (words ! 1) of
        None \<Rightarrow> (Inl (Err ''Telegram ID is invalid''), w)
      | Some telegramID \<Rightarrow>
     (case revocation_mode_of (words ! 2) of
        None \<Rightarrow> (Inl (Err ''administrator revoke mode is invalid''), w)
      | Some mode \<Rightarrow>
     (case ac_Revoke ac actorID telegramID mode (ac_now ac w) w of
        (Inl e, w1) \<Rightarrow> (Inl e, w1)
      | (Inr _, w1) \<Rightarrow> (Inr (RevokedText telegramID mode), w1))))"

definition admin_rotate :: "'w admin_commands \<Rightarrow> string list \<Rightarrow> ('w, reply_text) call" where
  "admin_rotate ac words w =
     (if length words \<noteq> 3 then (Inl (Err ''administrator rotate command is invalid''), w)
      else case parse_canonical_telegram_id (words ! 1) of
        None \<Rightarrow> (Inl (Err ''Telegram ID is invalid''), w)
      | Some telegramID \<Rightarrow>
          if words ! 2 \<noteq> ''keep'' \<and> words ! 2 \<noteq> ''reset''
          then (Inl (Err ''administrator rotate mode is invalid''), w)
          else
            let reset = (words ! 2 = ''reset'') in
            case ac_Rotate ac telegramID (ac_now ac w) reset w of
              (Inl e, w1) \<Rightarrow> (Inl e, w1)
            | (Inr _, w1) \<Rightarrow> (Inr (RotatedText telegramID reset), w1))"

definition execute_admin_command :: "'w admin_commands \<Rightarrow> int \<Rightarrow> string \<Rightarrow> ('w, reply_text) call" where
  "execute_admin_command ac actorID command w =
     (if actorID \<le> 0 then (Inl ErrAdministratorUnauthorized, w)
      else case authorized (ac_FindActive ac) ManageUsers actorID w of
        (False, w1) \<Rightarrow> (Inl ErrAdministratorUnauthorized, w1)
      | (True, w1) \<Rightarrow>
          let words = words_of command in
          if words = [] then (Inl (Err ''administrator command is invalid''), w1)
          else if hd words = ''/adminusers''
          then (if length words \<noteq> 1 then (Inl (Err ''administrator user list command is invalid''), w1)
                else admin_list_users ac w1)
          else if hd words = ''/adminstats''
          then (if length words \<noteq> 1 then (Inl (Err ''administrator statistics command is invalid''), w1)
                else admin_statistics ac w1)
          else if hd words = ''/adminrevoke'' then admin_revoke ac actorID words w1
          else if hd words = ''/adminrotate'' then admin_rotate ac words w1
          else (Inl (Err ''administrator command is invalid''), w1))"

section \<open>Commands\<close>

record 'w command_handler =
  hd_botUsername :: string
  hd_loginCodes :: "(int \<Rightarrow> ('w, string) call) option"
  hd_loginLimiter :: "(int \<Rightarrow> 'w \<Rightarrow> bool \<times> 'w) option"
  hd_vpnAccess :: "(int \<Rightarrow> ('w, vpn_access) call) option"
  hd_approvals :: "(int \<Rightarrow> ('w, unit) call) option"
  hd_status :: "(int \<Rightarrow> ('w, vpn_status) call) option"
  hd_admin :: "(int \<Rightarrow> string \<Rightarrow> ('w, reply_text) call) option"

text \<open>A command by itself or with the bot's name.\<close>

definition names_command :: "'w command_handler \<Rightarrow> string \<Rightarrow> string \<Rightarrow> bool" where
  "names_command h command txt \<longleftrightarrow>
     txt = command \<or> (hd_botUsername h \<noteq> '''' \<and> txt = command @ ''@'' @ hd_botUsername h)"

definition admin_command_of :: "'w command_handler \<Rightarrow> string \<Rightarrow> string option" where
  "admin_command_of h txt =
     (case words_of txt of
        [] \<Rightarrow> None
      | w # ws \<Rightarrow>
          map_option (\<lambda>command. join_words (command # ws))
            (List.find (\<lambda>command. names_command h command w) [''/adminusers'', ''/adminstats'', ''/adminrevoke'', ''/adminrotate'']))"

definition handle_admin_login :: "wording \<Rightarrow> 'w command_handler \<Rightarrow> tg_message \<Rightarrow> 'w \<Rightarrow> string \<times> 'w" where
  "handle_admin_login say h m w =
     (if ms_ChatType m \<noteq> ChatPrivate then (say PrivateChatOnly, w)
      else case hd_loginCodes h of
        None \<Rightarrow> (say NoLoginCode, w)
      | Some newCode \<Rightarrow>
          (case (case hd_loginLimiter h of None \<Rightarrow> (True, w) | Some permit \<Rightarrow> permit (ms_SenderID m) w) of
             (False, w1) \<Rightarrow> (say NoLoginCode, w1)
           | (True, w1) \<Rightarrow>
               (case newCode (ms_SenderID m) w1 of
                  (Inl e, w2) \<Rightarrow> (say NoLoginCode, w2)
                | (Inr code, w2) \<Rightarrow> (code, w2))))"

definition handle_vpn :: "wording \<Rightarrow> 'w command_handler \<Rightarrow> tg_message \<Rightarrow> 'w \<Rightarrow> string \<times> 'w" where
  "handle_vpn say h m w =
     (if ms_ChatType m \<noteq> ChatPrivate then (say PrivateChatOnly, w)
      else case hd_vpnAccess h of
        None \<Rightarrow> (say NoVPN, w)
      | Some get \<Rightarrow>
     (case get (ms_SenderID m) w of
        (Inr a, w1) \<Rightarrow>
          (say (if va_NewlyIssued a then NewSubscription (va_SubscriptionURL a) else ExistingSubscription (va_SubscriptionURL a)), w1)
      | (Inl e, w1) \<Rightarrow>
          if errors_is e ''user is not eligible'' then (say NotEligibleText, w1)
          else if errors_is e ''administrator approval is required''
          then (say ApprovalNeededText,
                case hd_approvals h of None \<Rightarrow> w1 | Some notify \<Rightarrow> snd (notify (ms_SenderID m) w1))
          else if errors_is e ''qualification is temporarily unavailable'' then (say QualificationUnavailableText, w1)
          else (say NoVPN, w1)))"

definition handle_status :: "wording \<Rightarrow> 'w command_handler \<Rightarrow> tg_message \<Rightarrow> 'w \<Rightarrow> reply \<times> 'w" where
  "handle_status say h m w =
     (if ms_ChatType m \<noteq> ChatPrivate then (\<lparr>rp_Text = say PrivateChatOnly, rp_QRContent = ''''\<rparr>, w)
      else case hd_status h of
        None \<Rightarrow> (\<lparr>rp_Text = say NoStatus, rp_QRContent = ''''\<rparr>, w)
      | Some get \<Rightarrow>
     (case get (ms_SenderID m) w of
        (Inl e, w1) \<Rightarrow> (\<lparr>rp_Text = say NoStatus, rp_QRContent = ''''\<rparr>, w1)
      | (Inr status, w1) \<Rightarrow>
          (\<lparr>rp_Text = say (StatusText status), rp_QRContent = vs_SubscriptionURL status\<rparr>, w1)))"

definition handle_admin_command :: "wording \<Rightarrow> 'w command_handler \<Rightarrow> tg_message \<Rightarrow> string \<Rightarrow> 'w \<Rightarrow> string \<times> 'w" where
  "handle_admin_command say h m command w =
     (if ms_ChatType m \<noteq> ChatPrivate then (say PrivateChatOnly, w)
      else case hd_admin h of
        None \<Rightarrow> (say NoAdminCommand, w)
      | Some execute \<Rightarrow>
     (case execute (ms_SenderID m) command w of
        (Inl e, w1) \<Rightarrow> (say NoAdminCommand, w1)
      | (Inr r, w1) \<Rightarrow> (say r, w1)))"

definition plain_reply :: "string \<times> 'w \<Rightarrow> reply option \<times> 'w" where
  "plain_reply r = (case r of (txt, w) \<Rightarrow> (Some \<lparr>rp_Text = txt, rp_QRContent = ''''\<rparr>, w))"

definition handle_message :: "wording \<Rightarrow> 'w command_handler \<Rightarrow> tg_message \<Rightarrow> 'w \<Rightarrow> reply option \<times> 'w" where
  "handle_message say h m w =
     (if names_command h ''/adminlogin'' (ms_Text m) then plain_reply (handle_admin_login say h m w)
      else if names_command h ''/vpn'' (ms_Text m) then plain_reply (handle_vpn say h m w)
      else if names_command h ''/status'' (ms_Text m)
      then (case handle_status say h m w of (r, w1) \<Rightarrow> (Some r, w1))
      else case admin_command_of h (ms_Text m) of
        None \<Rightarrow> (None, w)
      | Some command \<Rightarrow> plain_reply (handle_admin_command say h m command w))"

section \<open>Approval buttons\<close>

datatype approval_action = ApproveAction | RejectAction

text \<open>The part before the first colon and the one after it, which must not hold another.\<close>

definition parse_approval_callback :: "string \<Rightarrow> (approval_action \<times> int) option" where
  "parse_approval_callback data =
     (case split_at (CHR '':'') data of
        [action, txt] \<Rightarrow>
          (case (if action = ''approve'' then Some ApproveAction else if action = ''reject'' then Some RejectAction else None) of
             None \<Rightarrow> None
           | Some a \<Rightarrow> if txt = '''' then None else map_option (\<lambda>i. (a, i)) (parse_canonical_telegram_id txt))
      | _ \<Rightarrow> None)"

record 'w approval_handler =
  ah_FindActive :: "int \<Rightarrow> ('w, administrator) call"
  ah_Approve :: "int \<Rightarrow> go_time \<Rightarrow> ('w, provisioned_access) call"
  ah_RejectApproval :: "int \<Rightarrow> int \<Rightarrow> go_time \<Rightarrow> ('w, unit) call"
  ah_SendMessage :: "int \<Rightarrow> string \<Rightarrow> ('w, unit) call"
  ah_AnswerCallbackQuery :: "(string \<Rightarrow> string \<Rightarrow> ('w, unit) call) option"
  ah_now :: "'w \<Rightarrow> go_time"

text \<open>The message to the user and the answer to the button; their errors are dropped.\<close>

definition tell_outcome :: "'w approval_handler \<Rightarrow> int \<Rightarrow> string \<Rightarrow> string \<Rightarrow> string \<Rightarrow> 'w \<Rightarrow> 'w" where
  "tell_outcome ah targetID message callbackID answer w =
     (let w1 = snd (ah_SendMessage ah targetID message w) in
      case ah_AnswerCallbackQuery ah of None \<Rightarrow> w1 | Some f \<Rightarrow> snd (f callbackID answer w1))"

definition handle_callback :: "wording \<Rightarrow> 'w approval_handler \<Rightarrow> callback \<Rightarrow> ('w, unit) call" where
  "handle_callback say ah c w =
     (if blank (cb_ID c) \<or> cb_SenderID c \<le> 0 then (Inl (Err ''callback is invalid''), w)
      else case authorized (ah_FindActive ah) ManageApprovals (cb_SenderID c) w of
        (False, w1) \<Rightarrow> (Inl ErrAdministratorUnauthorized, w1)
      | (True, w1) \<Rightarrow>
     (case parse_approval_callback (cb_Data c) of
        None \<Rightarrow> (Inl (Err ''approval callback is invalid''), w1)
      | Some (ApproveAction, targetID) \<Rightarrow>
          (case ah_Approve ah targetID (ah_now ah w1) w1 of
             (Inl e, w2) \<Rightarrow> (Inl e, w2)
           | (Inr _, w2) \<Rightarrow> (Inr (), tell_outcome ah targetID (say ApprovedText) (cb_ID c) (say ApprovedAnswer) w2))
      | Some (RejectAction, targetID) \<Rightarrow>
          (case ah_RejectApproval ah (cb_SenderID c) targetID (ah_now ah w1) w1 of
             (Inl e, w2) \<Rightarrow> (Inl e, w2)
           | (Inr _, w2) \<Rightarrow> (Inr (), tell_outcome ah targetID (say RejectedText) (cb_ID c) (say RejectedAnswer) w2))))"

text \<open>The request for approval, to every administrator; one bad recipient ends it.\<close>

fun send_approval_requests :: "(int \<Rightarrow> ('w, unit) call) \<Rightarrow> int list \<Rightarrow> go_error list \<Rightarrow> ('w, go_error list) call" where
  "send_approval_requests send [] es w = (Inr es, w)"
| "send_approval_requests send (i # ids) es w =
     (if i \<le> 0 then (Inl (Err ''approval recipient is invalid''), w)
      else case send i w of
        (Inl _, w1) \<Rightarrow> send_approval_requests send ids (es @ [Err ''deliver approval request'']) w1
      | (Inr _, w1) \<Rightarrow> send_approval_requests send ids es w1)"

definition notify_approval_required ::
    "('w, int list) call \<Rightarrow> (int \<Rightarrow> int \<Rightarrow> ('w, unit) call) \<Rightarrow> int \<Rightarrow> ('w, unit) call" where
  "notify_approval_required recipients send telegramID w =
     (if telegramID \<le> 0 then (Inl (Err ''approval request is invalid''), w)
      else case recipients w of
        (Inl e, w1) \<Rightarrow> (Inl (Wrap ''list approval recipients'' e), w1)
      | (Inr ids, w1) \<Rightarrow>
     (case send_approval_requests (\<lambda>i. send i telegramID) ids [] w1 of
        (Inl e, w2) \<Rightarrow> (Inl e, w2)
      | (Inr es, w2) \<Rightarrow> (case errors_join (map Some es) of None \<Rightarrow> (Inr (), w2) | Some e \<Rightarrow> (Inl e, w2))))"

section \<open>An update that is never accepted\<close>

text \<open>An update that is first in the queue and whose callback fails in every state the runner gets to.\<close>

lemma rejected_update_stays:
  assumes "\<And>w. stuck w \<Longrightarrow> \<exists>e w1. give_callback rn u w = (Inl e, w1) \<and> stuck w1"
    and "\<And>w r w1. stuck w \<Longrightarrow> rn_GetUpdates rn offset w = (r, w1) \<Longrightarrow> stuck w1 \<and> (\<forall>us. r = Inr us \<longrightarrow> us = [] \<or> hd us = u)"
    and "\<And>w r w1. stuck w \<Longrightarrow> rn_wait rn pollingRetryDelay w = (r, w1) \<Longrightarrow> stuck w1"
  shows "stuck w \<Longrightarrow> run_polls n rn offset w = (PollAgain offset1, w1) \<Longrightarrow> offset1 = offset"
proof (induction n arbitrary: w)
  case (Suc n)
  obtain offset2 w2 where p: "poll rn offset w = (PollAgain offset2, w2)"
    and r: "run_polls n rn offset2 w2 = (PollAgain offset1, w1)"
    using Suc.prems(2) by (auto split: prod.splits poll_result.splits)
  have later: "offset2 = offset \<and> stuck w2" if "poll_later rn offset w3 = (PollAgain offset2, w2)" "stuck w3" for w3
    using that assms(3) by (auto simp: poll_later_def split: if_splits prod.splits option.splits)
  obtain g w3 where g: "rn_GetUpdates rn offset w = (g, w3)" by (metis surj_pair)
  note got = assms(2) [OF Suc.prems(1) g]
  have "offset2 = offset \<and> stuck w2"
  proof (cases g)
    case (Inl e)
    with p g later got show ?thesis by (auto simp: poll_def split: if_splits)
  next
    case (Inr us)
    show ?thesis
    proof (cases us)
      case Nil
      with p g got Inr show ?thesis by (auto simp: poll_def split: if_splits)
    next
      case (Cons u' us')
      with got Inr have u': "u' = u" by simp
      from assms(1) [of w3] got obtain e w4 where "give_callback rn u w3 = (Inl e, w4)" "stuck w4" by blast
      with p g Inr Cons u' later show ?thesis by (auto simp: poll_def give_update_def split: if_splits)
    qed
  qed
  with Suc.IH r show ?case by blast
qed simp

text \<open>
  The bot on the stores: the tables with the issuer's random source on one side, everything else
  on the other.
\<close>

record 'x bot_side =
  bs_FindActive :: "int \<Rightarrow> ('x, administrator) call"
  bs_SendMessage :: "int \<Rightarrow> string \<Rightarrow> ('x, unit) call"
  bs_AnswerCallbackQuery :: "(string \<Rightarrow> string \<Rightarrow> ('x, unit) call) option"
  bs_now :: "'x \<Rightarrow> go_time"
  bs_GetUpdates :: "int \<Rightarrow> 'x \<Rightarrow> (telegram_error + tg_update list) \<times> 'x"
  bs_wait :: "duration \<Rightarrow> 'x \<Rightarrow> go_error option \<times> 'x"
  bs_done :: "'x \<Rightarrow> bool"

type_synonym ('r, 'x) bot_world = "((vpn_db \<times> faults) \<times> 'r) \<times> 'x"

definition stored_approvals ::
    "('r, credential_bundle) call \<Rightarrow> sealer \<Rightarrow> 'x bot_side \<Rightarrow> ('r, 'x) bot_world approval_handler" where
  "stored_approvals issuer seal b = \<lparr>ah_FindActive = (\<lambda>i. with_world (bs_FindActive b i)),
     ah_Approve = (\<lambda>i now. with_tables (store_approve issuer seal i now)),
     ah_RejectApproval = (\<lambda>actor i now. with_tables (with_tables (managed_reject actor i now))),
     ah_SendMessage = (\<lambda>i t. with_world (bs_SendMessage b i t)),
     ah_AnswerCallbackQuery = map_option (\<lambda>f i t. with_world (f i t)) (bs_AnswerCallbackQuery b),
     ah_now = (\<lambda>w. bs_now b (snd w))\<rparr>"

text \<open>The membership and message handlers do not matter here and are left to a parameter.\<close>

definition stored_runner ::
    "('r, credential_bundle) call \<Rightarrow> sealer \<Rightarrow> wording \<Rightarrow> 'x bot_side \<Rightarrow> ('r, 'x) bot_world runner \<Rightarrow> ('r, 'x) bot_world runner" where
  "stored_runner issuer seal say b rn = rn\<lparr>rn_GetUpdates := (\<lambda>offset. with_world (bs_GetUpdates b offset)),
     rn_callbacks := Some (handle_callback say (stored_approvals issuer seal b)),
     rn_wait := (\<lambda>t. with_world (bs_wait b t)), rn_done := (\<lambda>w. bs_done b (snd w))\<rparr>"

definition not_waiting :: "int \<Rightarrow> vpn_db \<Rightarrow> bool" where
  "not_waiting i d \<longleftrightarrow> (case map_of (vpn_users d) i of None \<Rightarrow> True
     | Some row \<Rightarrow> vu_status row \<noteq> PendingApproval \<and> vu_status row \<noteq> ApprovalRejected)"

lemma approve_operation_fails:
  assumes "not_waiting i d"
  shows "provision_operation seal i now reset action bundle (approve now') (d, fs) \<noteq> (Inr x, s')"
proof
  assume "provision_operation seal i now reset action bundle (approve now') (d, fs) = (Inr x, s')"
  then obtain snap s1 account iss account1 where
      lock: "lock_access_snapshot i (d, fs) = (Inr snap, s1)"
    and acc: "restore_access_account snap = Inr account" and app: "approve now' account = (Inr iss, account1)"
    unfolding provision_operation_def
    by (elim and_then_InrE) (auto split: sum.splits prod.splits)
  from lock_access_snapshot_Inr [OF lock] obtain row where
      "map_of (vpn_users d) i = Some row" "as_Status snap = vu_status row"
    by auto
  moreover have "aa_status account = as_Status snap"
    using restore_Inr_snapshot [OF acc] by (auto simp: snapshot_def)
  ultimately show False
    using assms app by (auto simp: not_waiting_def approve_def split: if_splits)
qed

lemma store_approve_fails:
  assumes "not_waiting i (fst s)" "store_approve issuer seal i now (s, r) = (res, (s1, r1))"
  shows "(\<exists>e. res = Inl e) \<and> fst s1 = fst s"
proof -
  obtain d fs d1 fs1 where s: "s = (d, fs)" "s1 = (d1, fs1)" by (metis surj_pair)
  consider e where "res = Inl e" "s1 = s"
    | cred where "run_in_transaction (provision_operation seal i now True ''vpn.approve'' cred (approve now)) s = (res, s1)"
    using assms(2) by (auto simp: store_approve_def provision_stored_def Let_def split: if_splits sum.splits prod.splits)
  then show ?thesis
  proof cases
    case 2
    from transaction_outcome [OF 2 [unfolded s]] show ?thesis
      using approve_operation_fails assms(1) by (fastforce simp: s)
  qed auto
qed

lemma stored_callback_fails:
  assumes "not_waiting target (fst (fst (fst w)))"
    and "up_CallbackQuery u = Some q" "parse_approval_callback (cq_Data q) = Some (ApproveAction, target)"
  shows "\<exists>e w1. give_callback (stored_runner issuer seal say b rn) u w = (Inl e, w1) \<and>
    not_waiting target (fst (fst (fst w1)))"
proof -
  let ?ah = "stored_approvals issuer seal b"
  obtain okay w1 where auth: "authorized (ah_FindActive ?ah) ManageApprovals (us_ID (cq_From q)) w = (okay, w1)" by (metis surj_pair)
  have fw: "fst w1 = fst w"
    using auth by (auto simp: authorized_def stored_approvals_def with_world_def Let_def split: prod.splits sum.splits)
  obtain res w2 where app: "ah_Approve ?ah target (ah_now ?ah w1) w1 = (res, w2)" by (metis surj_pair)
  obtain s r x where w1: "w1 = ((s, r), x)" by (metis surj_pair)
  have sa: "store_approve issuer seal target (ah_now ?ah w1) (s, r) = (res, fst w2)"
    using app by (auto simp: w1 stored_approvals_def with_tables_def Let_def split: prod.splits)
  obtain s1 r1 where w2: "fst w2 = (s1, r1)" by fastforce
  have nw: "not_waiting target (fst s)" using assms(1) fw w1 by (metis fst_conv)
  from store_approve_fails [OF nw sa [unfolded w2]] obtain e where e: "res = Inl e" "fst s1 = fst s" by blast
  have rest: "not_waiting target (fst (fst (fst w2)))" "not_waiting target (fst (fst (fst w1)))"
    using nw e(2) w2 w1 by simp_all
  let ?c = "\<lparr>cb_ID = cq_ID q, cb_SenderID = us_ID (cq_From q), cb_Data = cq_Data q\<rparr>"
  have "handle_callback say ?ah ?c w = (Inl (Err ''callback is invalid''), w) \<or>
      handle_callback say ?ah ?c w = (Inl ErrAdministratorUnauthorized, w1) \<or> handle_callback say ?ah ?c w = (Inl e, w2)"
    by (cases okay) (simp_all add: handle_callback_def auth assms(3) app e(1))
  with assms(1) rest show ?thesis
    by (auto simp: give_callback_def stored_runner_def assms(2) simp del: split_paired_Ex)
qed

text \<open>
  C30. A rejected button stops the bot: when the oldest update is the press of an approval button
  whose user no longer waits - a second administrator pressed the button too, or the request was
  settled on the web - the runner never moves past it, however often it polls, because the
  failed callback is taken for a fault to be retried.
\<close>

theorem stale_approval_blocks_bot:
  assumes "not_waiting target d"
    and "up_CallbackQuery u = Some q" "parse_approval_callback (cq_Data q) = Some (ApproveAction, target)"
    and "\<And>x us x1. bs_GetUpdates b offset x = (Inr us, x1) \<Longrightarrow> us = [] \<or> hd us = u"
    and "run_polls n (stored_runner issuer seal say b rn) offset (((d, fs), r), x) = (PollAgain offset1, w1)"
  shows "offset1 = offset"
proof (rule rejected_update_stays [where u = u and stuck = "\<lambda>w. not_waiting target (fst (fst (fst w)))"])
  show "run_polls n (stored_runner issuer seal say b rn) offset (((d, fs), r), x) = (PollAgain offset1, w1)" by (fact assms(5))
  show "not_waiting target (fst (fst (fst (((d, fs), r), x))))" using assms(1) by simp
  show "\<exists>e w1. give_callback (stored_runner issuer seal say b rn) u w = (Inl e, w1) \<and> not_waiting target (fst (fst (fst w1)))"
    if "not_waiting target (fst (fst (fst w)))" for w
    by (rule stored_callback_fails [OF that assms(2,3)])
  show "not_waiting target (fst (fst (fst w1))) \<and> (\<forall>us. res = Inr us \<longrightarrow> us = [] \<or> hd us = u)"
    if "not_waiting target (fst (fst (fst w)))" "rn_GetUpdates (stored_runner issuer seal say b rn) offset w = (res, w1)" for w res w1
    using that assms(4) by (auto simp: stored_runner_def with_world_def Let_def split: prod.splits)
  show "not_waiting target (fst (fst (fst w1)))"
    if "not_waiting target (fst (fst (fst w)))" "rn_wait (stored_runner issuer seal say b rn) pollingRetryDelay w = (res, w1)" for w res w1
    using that by (auto simp: stored_runner_def with_world_def Let_def split: prod.splits)
qed

text \<open>User 5 was approved before the second administrator pressed the button.\<close>

definition late_press :: tg_update where
  "late_press = example_update 10\<lparr>up_CallbackQuery := Some \<lparr>cq_ID = ''q'',
     cq_From = \<lparr>us_ID = 9, us_IsBot = False, us_Username = ''''\<rparr>, cq_Data = ''approve:5''\<rparr>\<rparr>"

definition sample_bot :: "unit bot_side" where
  "sample_bot = \<lparr>bs_FindActive = (\<lambda>i x. (Inr \<lparr>adm_TelegramID = i, adm_Role = RoleAdministrator, adm_Root = False, adm_Active = True\<rparr>, x)),
     bs_SendMessage = (\<lambda>i t x. (Inr (), x)), bs_AnswerCallbackQuery = None, bs_now = (\<lambda>x. 7),
     bs_GetUpdates = (\<lambda>offset x. (Inr (filter (\<lambda>u. offset \<le> up_UpdateID u) [late_press]), x)),
     bs_wait = (\<lambda>t x. (None, x)), bs_done = (\<lambda>x. False)\<rparr>"

definition quiet_runner :: "(unit, unit) bot_world runner" where
  "quiet_runner = \<lparr>rn_GetUpdates = (\<lambda>offset w. (Inr [], w)), rn_SendMessage = (\<lambda>c t w. (Inr (), w)), rn_SendPhoto = None,
     rn_handler = (\<lambda>m w. (None, w)), rn_membership = None, rn_callbacks = None, rn_qr = None, rn_wait = (\<lambda>d w. (None, w)),
     rn_done = (\<lambda>w. False)\<rparr>"

definition refusing_issuer :: "(unit, credential_bundle) call" where
  "refusing_issuer r = (Inl (Err ''EOF''), r)"

lemma late_press_parsed: "parse_approval_callback ''approve:5'' = Some (ApproveAction, 5)"
  by code_simp

lemma late_polls:
  "\<exists>w1. run_polls 3 (stored_runner refusing_issuer (\<lambda>i g b. Inl (Err ''sealed'')) (\<lambda>t. '''') sample_bot quiet_runner) 10
     (((sample_served_db, []), ()), ()) = (PollAgain 10, w1)"
  by (simp add: eval_nat_numeral poll_def stored_runner_def sample_bot_def with_world_def late_press_def example_update_def
      give_update_def give_callback_def handle_callback_def stored_approvals_def authorized_def role_allows_def blank_def
      trim_left.simps Let_def late_press_parsed with_tables_def store_approve_def provision_stored_def refusing_issuer_def poll_later_def)

lemma stale_approval_blocks_bot_witness:
  "\<exists>w1. run_polls 3 (stored_runner refusing_issuer (\<lambda>i g b. Inl (Err ''sealed'')) (\<lambda>t. '''') sample_bot quiet_runner) 10
     (((sample_served_db, []), ()), ()) = (PollAgain 10, w1) \<and>
   (\<forall>n offset1 w2. run_polls n (stored_runner refusing_issuer (\<lambda>i g b. Inl (Err ''sealed'')) (\<lambda>t. '''') sample_bot quiet_runner) 10
     (((sample_served_db, []), ()), ()) \<noteq> (PollAgain offset1, w2) \<or> offset1 = 10)"
proof -
  have "not_waiting 5 sample_served_db"
    by (simp add: not_waiting_def sample_served_db_def sample_user_row_def)
  moreover have "up_CallbackQuery late_press =
      Some \<lparr>cq_ID = ''q'', cq_From = \<lparr>us_ID = 9, us_IsBot = False, us_Username = ''''\<rparr>, cq_Data = ''approve:5''\<rparr>"
    by (simp add: late_press_def)
  moreover have "us = [] \<or> hd us = late_press" if "bs_GetUpdates sample_bot offset x = (Inr us, x1)" for offset x us x1
    using that by (auto simp: sample_bot_def split: if_splits)
  ultimately show ?thesis
    using late_polls stale_approval_blocks_bot [of 5 sample_served_db late_press _ sample_bot] late_press_parsed
    by (metis callback_query.select_convs(3))
qed

end
