(* ===== verification/Tls.thy ===== *)
theory Tls
  imports Snapshot "HOL-Library.Sublist"
begin

text \<open>
  TLS certificates: the rules for the settings and the walk over the certificate authorities
  (\<open>internal/acme/service.go\<close>), the settings table (\<open>internal/postgres/tls_settings_store.go\<close>)
  and the coordinator that renews (\<open>internal/tlsrunner/coordinator.go\<close>). \<open>net/url\<close> and X.509
  parsing, the ACME client and the ciphers are parameters.
\<close>

section \<open>Settings\<close>

text \<open>What \<open>net/url\<close> makes of a text: the parts the source looks at, and \<open>String()\<close>.\<close>

record url =
  ur_Scheme :: string
  ur_Hostname :: string
  ur_User :: bool
  ur_RawQuery :: string
  ur_Fragment :: string
  ur_Text :: string

type_synonym url_parser = "string \<Rightarrow> url option"

record acme_settings =
  ac_Mode :: string
  ac_Domain :: string
  ac_Challenge :: string
  ac_Email :: string
  ac_CADirectoryURLs :: "string list"
  ac_TermsAccepted :: bool
  ac_DNSProviderName :: string
  ac_DNSProviderToken :: string

abbreviation "ModeSSLIP \<equiv> ''sslip_io''"
abbreviation "ModeDuckDNS \<equiv> ''duckdns''"
abbreviation "ModeCustom \<equiv> ''custom''"
abbreviation "ChallengeHTTP01 \<equiv> ''http_01''"
abbreviation "ChallengeDNS01 \<equiv> ''dns_01''"
abbreviation "ErrInvalidSettings \<equiv> Sentinel ''invalid ACME settings''"
abbreviation "ErrIssuanceFailed \<equiv> Sentinel ''ACME issuance failed''"
abbreviation "ErrNotConfigured \<equiv> Sentinel ''TLS settings are not configured''"

text \<open>
  \<open>strings.ToLower\<close> where the result is only compared with ASCII: besides the ASCII capitals, the
  Kelvin sign (bytes E2 84 AA) becomes a \<open>k\<close> and the dotted capital I (C4 B0) an \<open>i\<close>; every other
  character stays outside ASCII.
\<close>

definition lower_ascii :: "char \<Rightarrow> char" where
  "lower_ascii c = (let n = of_char c :: int in if 65 \<le> n \<and> n \<le> 90 then char_of (n + 32) else c)"

fun to_lower :: "string \<Rightarrow> string" where
  "to_lower [] = []"
| "to_lower (c # cs) =
     (if c = CHR 0xC4 \<and> take 1 cs = [CHR 0xB0] then CHR ''i'' # to_lower (drop 1 cs)
      else if c = CHR 0xE2 \<and> take 2 cs = [CHR 0x84, CHR 0xAA] then CHR ''k'' # to_lower (drop 2 cs)
      else lower_ascii c # to_lower cs)"

text \<open>\<open>domainPattern\<close>: at least two labels of at most 63 characters.\<close>

definition label_char :: "char \<Rightarrow> bool" where
  "label_char c \<longleftrightarrow> (let n = of_char c :: int in (97 \<le> n \<and> n \<le> 122) \<or> (48 \<le> n \<and> n \<le> 57))"

definition label_ok :: "string \<Rightarrow> bool" where
  "label_ok l \<longleftrightarrow> l \<noteq> '''' \<and> length l \<le> 63 \<and> label_char (hd l) \<and> label_char (last l) \<and>
     list_all (\<lambda>c. label_char c \<or> c = CHR ''-'') l"

definition domain_ok :: "string \<Rightarrow> bool" where
  "domain_ok s \<longleftrightarrow> (let labels = split_at CHR ''.'' s in 2 \<le> length labels \<and> list_all label_ok labels)"

text \<open>The loop over the directory URLs.\<close>

fun normalize_urls :: "url_parser \<Rightarrow> string list \<Rightarrow> string list \<Rightarrow> string list option" where
  "normalize_urls parse seen [] = Some []"
| "normalize_urls parse seen (raw # rest) =
     (case parse (trim_space raw) of
        None \<Rightarrow> None
      | Some u \<Rightarrow>
          if ur_Scheme u \<noteq> ''https'' \<or> ur_Hostname u = '''' \<or> ur_User u \<or> ur_RawQuery u \<noteq> '''' \<or> ur_Fragment u \<noteq> ''''
          then None
          else if ur_Text u \<in> set seen then None
          else (case normalize_urls parse (ur_Text u # seen) rest of None \<Rightarrow> None | Some us \<Rightarrow> Some (ur_Text u # us)))"

definition mode_ok :: "acme_settings \<Rightarrow> bool" where
  "mode_ok s \<longleftrightarrow>
     (if ac_Mode s = ModeSSLIP then ac_Challenge s = ChallengeHTTP01 \<and> suffix ''.sslip.io'' (ac_Domain s)
      else if ac_Mode s = ModeDuckDNS then ac_Challenge s = ChallengeDNS01 \<and> suffix ''.duckdns.org'' (ac_Domain s) \<and>
        ac_DNSProviderToken s \<noteq> ''''
      else if ac_Mode s = ModeCustom then
        \<not> (ac_Challenge s = ChallengeDNS01 \<and> (ac_DNSProviderName s = '''' \<or> ac_DNSProviderToken s = '''')) \<and>
        (ac_Challenge s = ChallengeHTTP01 \<or> ac_Challenge s = ChallengeDNS01)
      else False)"

definition trimmed_acme :: "acme_settings \<Rightarrow> acme_settings" where
  "trimmed_acme s = s\<lparr>ac_Domain := to_lower (trim_space (ac_Domain s)), ac_Email := trim_space (ac_Email s),
     ac_DNSProviderName := to_lower (trim_space (ac_DNSProviderName s)),
     ac_DNSProviderToken := trim_space (ac_DNSProviderToken s)\<rparr>"

definition validate_acme :: "url_parser \<Rightarrow> acme_settings \<Rightarrow> go_error + acme_settings" where
  "validate_acme parse input =
     (let s = trimmed_acme input in
      if \<not> ac_TermsAccepted s \<or> 253 < length (ac_Domain s) \<or> \<not> domain_ok (ac_Domain s) \<or> sublist ''..'' (ac_Domain s)
      then Inl ErrInvalidSettings
      else if ac_Email s \<noteq> '''' \<and> (CHR ''@'' \<notin> set (ac_Email s) \<or> 254 < length (ac_Email s))
      then Inl ErrInvalidSettings
      else if ac_CADirectoryURLs s = [] \<or> 5 < length (ac_CADirectoryURLs s) then Inl ErrInvalidSettings
      else case normalize_urls parse [] (ac_CADirectoryURLs s) of
        None \<Rightarrow> Inl ErrInvalidSettings
      | Some urls \<Rightarrow>
          if \<not> mode_ok s then Inl ErrInvalidSettings
          else Inr (s\<lparr>ac_CADirectoryURLs := urls,
                     ac_DNSProviderName := (if ac_Mode s = ModeDuckDNS then ''duckdns'' else ac_DNSProviderName s)\<rparr>))"

section \<open>Obtaining a certificate\<close>

record acme_request =
  rq_CADirectoryURL :: string
  rq_Domain :: string
  rq_Challenge :: string
  rq_Email :: string
  rq_DNSProviderName :: string
  rq_DNSProviderToken :: string

record certificate =
  ce_CertificatePEM :: string
  ce_PrivateKeyPEM :: string
  ce_NotAfter :: go_time

record acme_result =
  re_CADirectoryURL :: string
  re_NotAfter :: go_time

text \<open>
  The ACME client and the installer of the files act on a state \<open>'w\<close>, which also has the clock;
  \<open>verify\<close> is
  \<open>validateCertificate\<close>, which takes the certificate apart and answers with its end.
\<close>

record 'w acme_env =
  ae_Obtain :: "acme_request \<Rightarrow> ('w, certificate) call"
  ae_Install :: "certificate \<Rightarrow> ('w, unit) call"
  ae_now :: "'w \<Rightarrow> go_time"
  ae_verify :: "certificate \<Rightarrow> string \<Rightarrow> go_time \<Rightarrow> go_time option"
  ae_parse :: url_parser

definition acme_request_of :: "acme_settings \<Rightarrow> string \<Rightarrow> acme_request" where
  "acme_request_of s ca = \<lparr>rq_CADirectoryURL = ca, rq_Domain = ac_Domain s, rq_Challenge = ac_Challenge s,
     rq_Email = ac_Email s, rq_DNSProviderName = ac_DNSProviderName s, rq_DNSProviderToken = ac_DNSProviderToken s\<rparr>"

fun obtain_from :: "'w acme_env \<Rightarrow> acme_settings \<Rightarrow> string list \<Rightarrow> ('w, acme_result) call" where
  "obtain_from env s [] w = (Inl ErrIssuanceFailed, w)"
| "obtain_from env s (ca # cas) w =
     (case ae_Obtain env (acme_request_of s ca) w of
        (Inl _, w1) \<Rightarrow> obtain_from env s cas w1
      | (Inr c, w1) \<Rightarrow>
          (case ae_verify env c (ac_Domain s) (ae_now env w1) of
             None \<Rightarrow> obtain_from env s cas w1
           | Some notAfter \<Rightarrow>
               (case ae_Install env (c\<lparr>ce_NotAfter := notAfter\<rparr>) w1 of
                  (Inl e, w2) \<Rightarrow> (Inl (Wrap ''install ACME certificate'' e), w2)
                | (Inr _, w2) \<Rightarrow> (Inr \<lparr>re_CADirectoryURL = ca, re_NotAfter = notAfter\<rparr>, w2))))"

definition acme_obtain :: "'w acme_env \<Rightarrow> acme_settings \<Rightarrow> ('w, acme_result) call" where
  "acme_obtain env settings w =
     (case validate_acme (ae_parse env) settings of
        Inl e \<Rightarrow> (Inl e, w)
      | Inr s \<Rightarrow> obtain_from env s (ac_CADirectoryURLs s) w)"

section \<open>The settings table\<close>

abbreviation "duckDNSTokenPurpose \<equiv> ''acme/duckdns-token''"

definition tls_row_ok :: "tls_row \<Rightarrow> bool" where
  "tls_row_ok row \<longleftrightarrow>
     tr_mode row \<in> {ModeSSLIP, ModeDuckDNS, ModeCustom} \<and> tr_challenge row \<in> {ChallengeHTTP01, ChallengeDNS01} \<and>
     tr_state row \<in> {''unissued'', ''issued'', ''failed''} \<and> tr_last_failure_reason row \<in> {'''', ''all_cas_failed''} \<and>
     (tr_state row = ''issued'' \<longrightarrow> tr_certificate_expires_at row \<noteq> None \<and> tr_last_issued_ca row \<noteq> '''') \<and>
     (tr_mode row = ModeDuckDNS \<longrightarrow> tr_challenge row = ChallengeDNS01 \<and> tr_duckdns_token row \<noteq> None) \<and>
     (tr_mode row = ModeSSLIP \<longrightarrow> tr_challenge row = ChallengeHTTP01)"

definition update_tls :: "(tls_row \<Rightarrow> tls_row) \<Rightarrow> (vpn_db, unit) call" where
  "update_tls f d =
     (if tls_row_ok (f (tls_settings d)) then (Inr (), d\<lparr>tls_settings := f (tls_settings d)\<rparr>)
      else (Inl constraint_violated, d))"

record tls_update =
  tu_Mode :: string
  tu_Domain :: string
  tu_Challenge :: string
  tu_Email :: string
  tu_CADirectoryURLs :: "string list"
  tu_TermsAccepted :: bool
  tu_DuckDNSToken :: string

definition acme_settings_of :: "tls_update \<Rightarrow> acme_settings" where
  "acme_settings_of u = \<lparr>ac_Mode = tu_Mode u, ac_Domain = tu_Domain u, ac_Challenge = tu_Challenge u,
     ac_Email = tu_Email u, ac_CADirectoryURLs = tu_CADirectoryURLs u, ac_TermsAccepted = tu_TermsAccepted u,
     ac_DNSProviderName = ''duckdns'', ac_DNSProviderToken = trim_space (tu_DuckDNSToken u)\<rparr>"

definition no_token :: "(byte list \<times> byte list) option \<Rightarrow> bool" where
  "no_token t = (case t of None \<Rightarrow> True | Some (nonce, ciphertext) \<Rightarrow> nonce = [] \<or> ciphertext = [])"

text \<open>Which token the update stores.\<close>

definition choose_token ::
    "value_sealer \<Rightarrow> acme_settings \<Rightarrow> (byte list \<times> byte list) option
       \<Rightarrow> go_error + (byte list \<times> byte list) option" where
  "choose_token seal v stored =
     (if ac_Mode v = ModeDuckDNS then
        (if ac_DNSProviderToken v \<noteq> '''' then
           (case seal duckDNSTokenPurpose (ac_DNSProviderToken v) of
              Inl e \<Rightarrow> Inl (Wrap ''seal DuckDNS token'' e) | Inr sealed \<Rightarrow> Inr (Some sealed))
         else if no_token stored then Inl (Err ''DuckDNS token is required for duckdns mode'')
         else Inr stored)
      else Inr None)"

definition saved_row :: "acme_settings \<Rightarrow> (byte list \<times> byte list) option \<Rightarrow> tls_row \<Rightarrow> tls_row" where
  "saved_row v token row = row\<lparr>tr_configured := True, tr_mode := ac_Mode v, tr_domain := ac_Domain v,
     tr_challenge := ac_Challenge v, tr_email := ac_Email v, tr_ca_directory_urls := ac_CADirectoryURLs v,
     tr_terms_accepted := ac_TermsAccepted v, tr_duckdns_token := token\<rparr>"

definition tls_save ::
    "url_parser \<Rightarrow> value_sealer \<Rightarrow> int \<Rightarrow> tls_update \<Rightarrow> go_time \<Rightarrow> (vpn_db \<times> faults, unit) call" where
  "tls_save parse seal actor update now =
     (if actor \<le> 0 \<or> now = 0 then fail_with (Err ''TLS settings update parameters are invalid'')
      else case validate_acme parse (acme_settings_of update) of
        Inl e \<Rightarrow> fail_with (Wrap ''validate TLS settings'' e)
      | Inr v \<Rightarrow> run_in_transaction (
          and_then (wrapping ''lock TLS settings'' (statement (\<lambda>d. (Inr (tr_duckdns_token (tls_settings d)), d)))) (\<lambda>stored.
          case choose_token seal v stored of
            Inl e \<Rightarrow> fail_with e
          | Inr token \<Rightarrow>
              and_then (wrapping ''update TLS settings'' (statement (update_tls (saved_row v token)))) (\<lambda>_.
              wrapping ''audit TLS settings update'' (statement (\<lambda>d.
                (Inr (), record_audit actor ''tls.settings.update'' 0 d)))))))"

record tls_overview =
  to_Configured :: bool
  to_Mode :: string
  to_Domain :: string
  to_Challenge :: string
  to_Email :: string
  to_CADirectoryURLs :: "string list"
  to_TermsAccepted :: bool
  to_HasDuckDNSToken :: bool
  to_State :: string
  to_CertificateExpiresAt :: go_time
  to_LastIssuedCA :: string

definition tls_get_overview :: "(vpn_db \<times> faults, tls_overview) call" where
  "tls_get_overview =
     and_then (wrapping ''read TLS settings overview'' (statement (\<lambda>d. (Inr (tls_settings d), d)))) (\<lambda>row.
       if tr_mode row \<notin> {ModeSSLIP, ModeDuckDNS, ModeCustom} then fail_with (Err ''persisted TLS mode is invalid'')
       else if tr_state row \<notin> {''unissued'', ''issued'', ''failed''} then fail_with (Err ''persisted TLS state is invalid'')
       else ok \<lparr>to_Configured = tr_configured row, to_Mode = tr_mode row, to_Domain = tr_domain row,
         to_Challenge = tr_challenge row, to_Email = tr_email row, to_CADirectoryURLs = tr_ca_directory_urls row,
         to_TermsAccepted = tr_terms_accepted row, to_HasDuckDNSToken = (tr_duckdns_token row \<noteq> None),
         to_State = tr_state row, to_CertificateExpiresAt = null_time (tr_certificate_expires_at row),
         to_LastIssuedCA = tr_last_issued_ca row\<rparr>)"

text \<open>\<open>Issued\<close>; by the constraints of the row the comparison is never null when it matters.\<close>

definition tls_issued :: "(vpn_db \<times> faults, bool) call" where
  "tls_issued = wrapping ''read TLS issuance state'' (statement (\<lambda>d.
     (Inr (tr_state (tls_settings d) = ''issued'' \<and>
           unexpired (db_clock d) (tr_certificate_expires_at (tls_settings d))), d)))"

definition stored_settings :: "tls_row \<Rightarrow> acme_settings" where
  "stored_settings row = \<lparr>ac_Mode = tr_mode row, ac_Domain = tr_domain row, ac_Challenge = tr_challenge row,
     ac_Email = tr_email row, ac_CADirectoryURLs = tr_ca_directory_urls row, ac_TermsAccepted = tr_terms_accepted row,
     ac_DNSProviderName = '''', ac_DNSProviderToken = ''''\<rparr>"

definition with_token :: "value_opener \<Rightarrow> tls_row \<Rightarrow> go_error + acme_settings" where
  "with_token openValue row =
     (if tr_mode row = ModeDuckDNS then
        (case tr_duckdns_token row of
           None \<Rightarrow> Inl (Err ''DuckDNS token is missing'')
         | Some sealed \<Rightarrow>
             if no_token (Some sealed) then Inl (Err ''DuckDNS token is missing'')
             else (case openValue duckDNSTokenPurpose sealed of
                 Inl e \<Rightarrow> Inl (Wrap ''open DuckDNS token'' e)
               | Inr token \<Rightarrow> Inr ((stored_settings row)\<lparr>ac_DNSProviderName := ''duckdns'', ac_DNSProviderToken := token\<rparr>)))
      else Inr (stored_settings row))"

definition load_for_issuance ::
    "url_parser \<Rightarrow> value_opener \<Rightarrow> (vpn_db \<times> faults, acme_settings \<times> go_time) call" where
  "load_for_issuance parse openValue =
     and_then (wrapping ''read TLS settings for issuance'' (statement (\<lambda>d. (Inr (tls_settings d), d)))) (\<lambda>row.
       if \<not> tr_configured row then fail_with ErrNotConfigured
       else case with_token openValue row of
         Inl e \<Rightarrow> fail_with e
       | Inr settings \<Rightarrow>
           (case validate_acme parse settings of
              Inl e \<Rightarrow> fail_with (Wrap ''persisted TLS settings are invalid'' e)
            | Inr _ \<Rightarrow> ok (settings, null_time (tr_certificate_expires_at row))))"

definition record_issuance ::
    "url_parser \<Rightarrow> string \<Rightarrow> go_time \<Rightarrow> go_time \<Rightarrow> (vpn_db \<times> faults, unit) call" where
  "record_issuance parse ca expiresAt now =
     (if now = 0 \<or> \<not> now < expiresAt then fail_with (Err ''certificate expiry must be in the future'')
      else case parse (trim_space ca) of
        None \<Rightarrow> fail_with (Err ''issuing CA directory URL is invalid'')
      | Some u \<Rightarrow>
          if ur_Scheme u \<noteq> ''https'' \<or> ur_Hostname u = '''' then fail_with (Err ''issuing CA directory URL is invalid'')
          else run_in_transaction (
            and_then (wrapping ''record TLS issuance'' (statement (update_tls (\<lambda>row. row\<lparr>tr_state := ''issued'',
              tr_certificate_expires_at := Some expiresAt, tr_last_issued_ca := ur_Text u,
              tr_last_failure_at := None, tr_last_failure_reason := ''''\<rparr>)))) (\<lambda>_.
            and_then (wrapping ''queue TLS reconciliation'' (statement (queue_live_users now))) (\<lambda>_.
            wrapping ''audit TLS issuance'' (statement (\<lambda>d.
              (Inr (), record_audit 0 ''tls.certificate.issued'' 0 d)))))))"

definition record_tls_failure :: "string \<Rightarrow> go_time \<Rightarrow> (vpn_db \<times> faults, unit) call" where
  "record_tls_failure reason now =
     (if now = 0 then fail_with (Err ''failure timestamp is required'')
      else if reason \<noteq> ''all_cas_failed'' then fail_with (Err ''unknown TLS failure reason'')
      else run_in_transaction (
        and_then (wrapping ''record TLS failure'' (statement (update_tls (\<lambda>row. row\<lparr>tr_last_failure_at := Some now,
          tr_last_failure_reason := reason,
          tr_state := (if tr_state row = ''issued'' \<and> unexpired now (tr_certificate_expires_at row)
                       then ''issued'' else ''failed'')\<rparr>)))) (\<lambda>_.
        wrapping ''audit TLS failure'' (statement (\<lambda>d. (Inr (), record_audit 0 ''tls.certificate.failed'' 0 d))))))"

section \<open>The coordinator\<close>

abbreviation renewalMargin :: duration where "renewalMargin \<equiv> 720 * hour"

definition ensure_certificate ::
    "'w acme_env \<Rightarrow> value_opener \<Rightarrow> ((vpn_db \<times> faults) \<times> 'w, unit) call" where
  "ensure_certificate env openValue st =
     (case with_tables (load_for_issuance (ae_parse env) openValue) st of
        (Inl e, st1) \<Rightarrow>
          (if errors_is e ''TLS settings are not configured'' then Inr () else Inl (Wrap ''load TLS settings'' e), st1)
      | (Inr (settings, expiresAt), st1) \<Rightarrow>
          let now = ae_now env (snd st1) in
          if expiresAt \<noteq> 0 \<and> now < expiresAt - renewalMargin then (Inr (), st1)
          else case with_world (acme_obtain env settings) st1 of
            (Inl e, st2) \<Rightarrow>
              (let (r, st3) = with_tables (record_tls_failure ''all_cas_failed'' now) st2
               in (Inl (Join (Wrap ''obtain TLS certificate'' e # (case r of Inl e' \<Rightarrow> [e'] | Inr _ \<Rightarrow> []))), st3))
          | (Inr result, st2) \<Rightarrow>
              wrapping ''record TLS issuance''
                (with_tables (record_issuance (ae_parse env) (re_CADirectoryURL result) (re_NotAfter result) now)) st2)"

section \<open>Normal forms\<close>

lemma mode_ok_iff:
  "mode_ok s \<longleftrightarrow>
     (ac_Mode s = ModeSSLIP \<and> ac_Challenge s = ChallengeHTTP01 \<and> suffix ''.sslip.io'' (ac_Domain s)) \<or>
     (ac_Mode s = ModeDuckDNS \<and> ac_Challenge s = ChallengeDNS01 \<and> suffix ''.duckdns.org'' (ac_Domain s) \<and>
       ac_DNSProviderToken s \<noteq> '''') \<or>
     (ac_Mode s = ModeCustom \<and>
       (ac_Challenge s = ChallengeHTTP01 \<or>
        (ac_Challenge s = ChallengeDNS01 \<and> ac_DNSProviderName s \<noteq> '''' \<and> ac_DNSProviderToken s \<noteq> '''')))"
  by (auto simp: mode_ok_def split: if_splits)

lemma trim_left_None: "space_prefix (trim_left s) = None"
  by (induction s rule: trim_left.induct) (metis option.case_eq_if option.collapse trim_left.simps)

lemma trim_left_id: "space_prefix s = None \<Longrightarrow> trim_left s = s"
  by (subst trim_left.simps) simp

lemma trim_right_None: "space_suffix (trim_right s) = None"
  by (induction s rule: trim_right.induct) (metis option.case_eq_if option.collapse trim_right.simps)

lemma trim_right_id: "space_suffix s = None \<Longrightarrow> trim_right s = s"
  by (subst trim_right.simps) simp

lemma trim_right_take: "\<exists>k. trim_right s = take k s"
proof (induction s rule: trim_right.induct)
  case (1 s)
  show ?case
  proof (cases "space_suffix s")
    case None
    then show ?thesis by (intro exI [of _ "length s"]) (simp add: trim_right_id)
  next
    case (Some k)
    from 1 [OF Some] obtain j where "trim_right (take (length s - k) s) = take j (take (length s - k) s)" by blast
    with Some have "trim_right s = take (min j (length s - k)) s" by (subst trim_right.simps) (simp add: min.commute)
    then show ?thesis ..
  qed
qed

lemma space_prefix_take: "space_prefix s = None \<Longrightarrow> space_prefix (take k s) = None"
proof (cases s)
  case (Cons c cs)
  assume none: "space_prefix s = None"
  show ?thesis
  proof (cases k)
    case k: (Suc n)
    show ?thesis
    proof (cases "take n cs")
      case Nil
      with none Cons k show ?thesis by (auto simp: Let_def split: if_splits)
    next
      case one: (Cons d ds)
      then obtain ds' m where cs: "cs = d # ds'" and m: "n = Suc m" and ds: "ds = take m ds'"
        by (cases cs; cases n) auto
      show ?thesis
      proof (cases ds)
        case Nil
        with none Cons k one cs show ?thesis by (auto simp: Let_def split: if_splits)
      next
        case (Cons e es)
        then obtain es' where "ds' = e # es'" using ds by (cases ds'; cases m) auto
        with none \<open>s = c # cs\<close> k one cs Cons show ?thesis by (auto simp: Let_def split: if_splits)
      qed
    qed
  qed simp
qed simp

lemma trim_space_idem: "trim_space (trim_space s) = trim_space s"
proof -
  obtain k where k: "trim_right (trim_left s) = take k (trim_left s)" using trim_right_take by blast
  have "space_prefix (trim_right (trim_left s)) = None"
    unfolding k by (rule space_prefix_take) (rule trim_left_None)
  then show ?thesis unfolding trim_space_def by (simp add: trim_left_id trim_right_id trim_right_None)
qed

lemma trim_space_Nil [simp]: "trim_space [] = []"
  by (simp add: trim_space_def trim_left_id trim_right_id space_suffix_def)

definition printable :: "char \<Rightarrow> bool" where
  "printable c \<longleftrightarrow> 32 < (of_char c :: nat) \<and> (of_char c :: nat) < 128"

lemma printable_prefix: "list_all printable s \<Longrightarrow> space_prefix s = None"
  by (cases s) (auto simp: printable_def simp del: space_prefix.simps(2) intro: printable_no_space)

lemma printable_trim: "list_all printable s \<Longrightarrow> trim_space s = s"
proof -
  assume p: "list_all printable s"
  then have "space_prefix (drop k s) = None" for k
    by (intro printable_prefix) (auto simp: list_all_iff dest: in_set_dropD)
  then have "space_suffix s = None" by (simp add: space_suffix_def)
  with p show ?thesis by (simp add: trim_space_def trim_left_id trim_right_id printable_prefix)
qed

lemma split_at_covers: "c \<in> set s \<Longrightarrow> c = sep \<or> (\<exists>p \<in> set (split_at sep s). c \<in> set p)"
proof (induction s)
  case (Cons d ds)
  then show ?case by (cases "split_at sep ds") auto
qed simp

lemma domain_ok_chars: "domain_ok s \<Longrightarrow> list_all (\<lambda>c. label_char c \<or> c = CHR ''-'' \<or> c = CHR ''.'') s"
  using split_at_covers [of _ s "CHR ''.''"] by (fastforce simp: domain_ok_def list_all_iff label_ok_def Let_def)

lemma label_char_facts: "label_char c \<Longrightarrow> printable c \<and> lower_ascii c = c \<and> c \<noteq> CHR 0xC4 \<and> c \<noteq> CHR 0xE2"
  by (auto simp: label_char_def printable_def lower_ascii_def Let_def simp flip: of_nat_of_char [where 'a = int])

lemma domain_char_facts:
  "label_char c \<or> c = CHR ''-'' \<or> c = CHR ''.'' \<Longrightarrow> printable c \<and> lower_ascii c = c \<and> c \<noteq> CHR 0xC4 \<and> c \<noteq> CHR 0xE2"
  using label_char_facts by (auto simp: printable_def lower_ascii_def)

lemma domain_normal:
  assumes "domain_ok s"
  shows "to_lower (trim_space s) = s"
proof -
  have chars: "list_all (\<lambda>c. printable c \<and> lower_ascii c = c \<and> c \<noteq> CHR 0xC4 \<and> c \<noteq> CHR 0xE2) s"
    using domain_ok_chars [OF assms] domain_char_facts by (simp add: list_all_iff)
  then have "to_lower s = s" by (induction s) auto
  moreover have "trim_space s = s" using chars by (intro printable_trim) (simp add: list_all_iff)
  ultimately show ?thesis by simp
qed

lemma normalize_urls_again:
  assumes "\<And>raw u. parse raw = Some u \<Longrightarrow> parse (trim_space (ur_Text u)) = Some u"
  shows "normalize_urls parse seen raws = Some us \<Longrightarrow> normalize_urls parse seen us = Some us \<and> length us = length raws"
proof (induction raws arbitrary: seen us)
  case Nil
  then show ?case by simp
next
  case (Cons raw rest)
  from Cons.prems obtain u vs where u: "parse (trim_space raw) = Some u" "us = ur_Text u # vs"
      "normalize_urls parse (ur_Text u # seen) rest = Some vs" "ur_Text u \<notin> set seen"
    and ok: "\<not> (ur_Scheme u \<noteq> ''https'' \<or> ur_Hostname u = [] \<or> ur_User u \<or> ur_RawQuery u \<noteq> [] \<or> ur_Fragment u \<noteq> [])"
    by (auto split: option.splits if_splits)
  from assms [OF u(1)] u ok Cons.IH [OF u(3)] show ?case by auto
qed

lemma validate_acme_Inr:
  assumes "validate_acme parse input = Inr v"
  shows "domain_ok (ac_Domain v) \<and> length (ac_Domain v) \<le> 253 \<and> \<not> sublist ''..'' (ac_Domain v) \<and> ac_TermsAccepted v \<and>
    (ac_Email v = '''' \<or> (CHR ''@'' \<in> set (ac_Email v) \<and> length (ac_Email v) \<le> 254)) \<and> trim_space (ac_Email v) = ac_Email v \<and>
    ac_CADirectoryURLs input \<noteq> [] \<and> length (ac_CADirectoryURLs input) \<le> 5 \<and>
    normalize_urls parse [] (ac_CADirectoryURLs input) = Some (ac_CADirectoryURLs v) \<and>
    mode_ok (trimmed_acme input) \<and> ac_Mode v = ac_Mode input \<and> ac_Challenge v = ac_Challenge input \<and>
    ac_Domain v = to_lower (trim_space (ac_Domain input)) \<and>
    ac_DNSProviderToken v = trim_space (ac_DNSProviderToken input)"
  using assms
  by (auto simp: validate_acme_def Let_def trimmed_acme_def trim_space_idem split: if_splits option.splits)

text \<open>Settings that agree with validated ones are refused only for their mode.\<close>

lemma validate_acme_again:
  assumes urls: "\<And>raw u. parse raw = Some u \<Longrightarrow> parse (trim_space (ur_Text u)) = Some u"
    and v: "validate_acme parse input = Inr v"
    and same: "ac_Domain s = ac_Domain v" "ac_Email s = ac_Email v" "ac_CADirectoryURLs s = ac_CADirectoryURLs v"
      "ac_TermsAccepted s = ac_TermsAccepted v"
  shows "if mode_ok (trimmed_acme s) then \<exists>x. validate_acme parse s = Inr x else validate_acme parse s = Inl ErrInvalidSettings"
proof -
  note f = validate_acme_Inr [OF v]
  from f have n0: "normalize_urls parse [] (ac_CADirectoryURLs input) = Some (ac_CADirectoryURLs v)" by blast
  have n: "normalize_urls parse [] (ac_CADirectoryURLs v) = Some (ac_CADirectoryURLs v) \<and>
    length (ac_CADirectoryURLs v) = length (ac_CADirectoryURLs input)"
    by (rule normalize_urls_again [OF _ n0]) (rule urls)
  have dom: "to_lower (trim_space (ac_Domain v)) = ac_Domain v" using f by (intro domain_normal) blast
  have tv: "trim_space (ac_Email v) = ac_Email v" "ac_TermsAccepted v" using f by blast+
  have t: "ac_Domain (trimmed_acme s) = ac_Domain v" "ac_Email (trimmed_acme s) = ac_Email v"
    "ac_CADirectoryURLs (trimmed_acme s) = ac_CADirectoryURLs v" "ac_TermsAccepted (trimmed_acme s)"
    using dom tv by (simp_all add: trimmed_acme_def same)
  have "ac_CADirectoryURLs v \<noteq> []" "length (ac_CADirectoryURLs v) \<le> 5" using f n by auto
  with f t n show ?thesis by (auto simp: validate_acme_def Let_def)
qed

section \<open>Saving and loading\<close>

text \<open>
  C28. Saved TLS settings come back for issuance, except one kind. Whenever saving reports
  success, loading for issuance then answers with exactly the validated settings, the token
  opened again, and the expiry of the stored certificate; but settings for a custom domain with
  the DNS challenge, which saving has accepted with their token, have lost it and are refused.
\<close>

theorem tls_save_then_load:
  assumes urls: "\<And>raw u. parse raw = Some u \<Longrightarrow> parse (trim_space (ur_Text u)) = Some u"
    and cipher: "\<And>t sealed. seal duckDNSTokenPurpose t = Inr sealed \<Longrightarrow>
      openValue duckDNSTokenPurpose sealed = Inr t \<and> \<not> no_token (Some sealed)"
    and saved: "tls_save parse seal actor update now (d, fs) = (Inr (), (d', fs'))"
  shows "\<exists>v. validate_acme parse (acme_settings_of update) = Inr v \<and>
    fst (load_for_issuance parse openValue (d', [])) =
      (if tu_Mode update = ModeCustom \<and> tu_Challenge update = ChallengeDNS01
       then Inl (Wrap ''persisted TLS settings are invalid'' ErrInvalidSettings)
       else Inr (if tu_Mode update = ModeDuckDNS then v
                 else v\<lparr>ac_DNSProviderName := '''', ac_DNSProviderToken := ''''\<rparr>,
                 null_time (tr_certificate_expires_at (tls_settings d))))"
proof -
  from saved obtain v where v: "validate_acme parse (acme_settings_of update) = Inr v"
    by (auto simp: tls_save_def split: if_splits sum.splits)
  note f = validate_acme_Inr [OF v]
  have m: "ac_Mode v = tu_Mode update" "ac_Challenge v = tu_Challenge update"
    using f by (simp_all add: acme_settings_of_def)
  from saved v obtain token d1 where
      up: "update_tls (saved_row v token) d = (Inr (), d1)"
      and d': "d' = record_audit actor ''tls.settings.update'' 0 d1"
      and tok: "choose_token seal v (tr_duckdns_token (tls_settings d)) = Inr token"
    by (auto simp: tls_save_def split: if_splits sum.splits
        dest!: transaction_Inr statement_InrD elim!: and_then_InrE)
  from up d' have row: "tls_settings d' = saved_row v token (tls_settings d)"
    by (auto simp: update_tls_def record_audit_def split: if_splits)
  have duck: "ac_Mode v = ModeDuckDNS \<Longrightarrow> ac_DNSProviderToken v \<noteq> '''' \<and> ac_DNSProviderName v = ''duckdns'' \<and>
      (\<exists>sealed. token = Some sealed \<and> seal duckDNSTokenPurpose (ac_DNSProviderToken v) = Inr sealed)"
    using v tok by (auto simp: validate_acme_def Let_def mode_ok_def choose_token_def trimmed_acme_def
        split: if_splits option.splits sum.splits)
  define t where "t = (if tu_Mode update = ModeDuckDNS then v else v\<lparr>ac_DNSProviderName := '''', ac_DNSProviderToken := ''''\<rparr>)"
  have open_row: "with_token openValue (tls_settings d') = Inr t"
  proof (cases "tu_Mode update = ModeDuckDNS")
    case True
    with duck m obtain sealed where s: "token = Some sealed" "seal duckDNSTokenPurpose (ac_DNSProviderToken v) = Inr sealed"
      "ac_DNSProviderName v = ''duckdns''" by auto
    from cipher [OF s(2)] s True m row show ?thesis
      by (auto simp: with_token_def saved_row_def stored_settings_def t_def)
  next
    case False
    with m row show ?thesis by (simp add: with_token_def saved_row_def stored_settings_def t_def)
  qed
  have again: "if mode_ok (trimmed_acme t) then \<exists>x. validate_acme parse t = Inr x
      else validate_acme parse t = Inl ErrInvalidSettings"
    by (rule validate_acme_again [OF urls v]) (simp_all add: t_def)
  have token: "trim_space (ac_DNSProviderToken v) = ac_DNSProviderToken v" using f trim_space_idem by metis
  have dom: "to_lower (trim_space (ac_Domain v)) = ac_Domain v" using f by (intro domain_normal) blast
  have ok: "mode_ok (trimmed_acme (acme_settings_of update))" and dv: "ac_Domain (trimmed_acme (acme_settings_of update)) = ac_Domain v"
    using f by (simp_all add: trimmed_acme_def)
  have mode: "mode_ok (trimmed_acme t) \<longleftrightarrow> \<not> (tu_Mode update = ModeCustom \<and> tu_Challenge update = ChallengeDNS01)"
    using ok dv m duck token dom by (auto simp: mode_ok_iff trimmed_acme_def t_def acme_settings_of_def)
  have load: "fst (load_for_issuance parse openValue (d', [])) =
      (case validate_acme parse t of
         Inl e \<Rightarrow> Inl (Wrap ''persisted TLS settings are invalid'' e)
       | Inr _ \<Rightarrow> Inr (t, null_time (tr_certificate_expires_at (tls_settings d))))"
    using open_row row by (auto simp: load_for_issuance_def and_then_def saved_row_def wrapping_def split: sum.splits)
  show ?thesis
    using v load again mode by (auto simp: t_def split: if_splits)
qed

lemma load_for_issuance_frame:
  "load_for_issuance parse openValue s = (r, s') \<Longrightarrow> fst s' = fst s \<and>
     (\<forall>x t. r = Inr (x, t) \<longrightarrow> t = null_time (tr_certificate_expires_at (tls_settings (fst s))))"
  by (auto simp: load_for_issuance_def and_then_def wrapping_def
      dest!: statement_read_either split: prod.splits sum.splits if_splits)

lemma tls_save_effect:
  assumes "tls_save parse seal actor update now (d, fs) = (Inr (), (d', fs'))"
  shows "\<exists>v token. d' = record_audit actor ''tls.settings.update'' 0 (d\<lparr>tls_settings := saved_row v token (tls_settings d)\<rparr>)"
  using assms
  by (auto simp: tls_save_def update_tls_def split: if_splits sum.splits
      dest!: transaction_Inr statement_InrD elim!: and_then_InrE) blast

text \<open>
  C29. The coordinator asks only how old the certificate is. When the owner saves another domain
  while the stored certificate is good for more than 30 days, the tables go on saying that a
  certificate is issued, users go on being served, and \<open>Ensure\<close> requests nothing for the new
  domain: it changes neither the tables nor anything outside them.
\<close>

theorem new_domain_waits_for_expiry:
  assumes "tls_save parse seal actor update now (d, fs) = (Inr (), (d', fs'))"
    and "tr_certificate_expires_at (tls_settings d) = Some expiry" and "expiry \<noteq> 0"
    and "ae_now env w < expiry - renewalMargin"
    and "ensure_certificate env openValue ((d', fs'), w) = (r, ((d'', fs''), w'))"
  shows "w' = w \<and> d'' = d' \<and> admitting d'' = admitting d"
proof -
  from tls_save_effect [OF assms(1)] assms(2) have row: "tr_certificate_expires_at (tls_settings d') = Some expiry"
      "admitting d' = admitting d"
    by (auto simp: record_audit_def saved_row_def admitting_def)
  obtain r1 s1 where load: "load_for_issuance (ae_parse env) openValue (d', fs') = (r1, s1)" by (metis prod.exhaust)
  from load_for_issuance_frame [OF load] row(1)
  have "fst s1 = d'" "\<And>x t. r1 = Inr (x, t) \<Longrightarrow> t = expiry" by (auto simp: null_time_def)
  with assms(3-5) load row(2) show ?thesis
    by (auto simp: ensure_certificate_def with_tables_def Let_def split: sum.splits prod.splits if_splits)
qed

section \<open>Concrete settings\<close>

definition sample_url :: url where
  "sample_url = \<lparr>ur_Scheme = ''https'', ur_Hostname = ''ca'', ur_User = False, ur_RawQuery = [], ur_Fragment = [],
     ur_Text = ''https://ca''\<rparr>"

definition sample_parser :: url_parser where
  "sample_parser raw = Some sample_url"

definition sample_token_sealer :: value_sealer where
  "sample_token_sealer purpose token = (if token = ''t'' then Inr ([1], [2]) else Inl (Err ''sealed''))"

definition sample_token_opener :: value_opener where
  "sample_token_opener purpose sealed = Inr ''t''"

definition sample_update :: "string \<Rightarrow> string \<Rightarrow> string \<Rightarrow> tls_update" where
  "sample_update mode challenge host = \<lparr>tu_Mode = mode, tu_Domain = host, tu_Challenge = challenge, tu_Email = [],
     tu_CADirectoryURLs = [''https://ca''], tu_TermsAccepted = True, tu_DuckDNSToken = ''t''\<rparr>"

definition sample_tls_db :: vpn_db where
  "sample_tls_db = sample_served_db\<lparr>tls_settings :=
     (tls_settings sample_served_db)\<lparr>tr_last_issued_ca := ''https://ca''\<rparr>\<rparr>"

definition sample_acme_env :: "unit acme_env" where
  "sample_acme_env = \<lparr>ae_Obtain = (\<lambda>rq w. (Inl (Err ''offline''), w)), ae_Install = (\<lambda>c. ok ()), ae_now = (\<lambda>w. hour),
     ae_verify = (\<lambda>c host t. None), ae_parse = sample_parser\<rparr>"

theorem tls_save_then_load_witness:
  "(let x = tls_save sample_parser sample_token_sealer 1 (sample_update ModeDuckDNS ChallengeDNS01 ''a.duckdns.org'') hour
      (sample_tls_db, []) in
    is_ok (fst x) \<and> is_ok (fst (load_for_issuance sample_parser sample_token_opener (fst (snd x), [])))) \<and>
   (let x = tls_save sample_parser sample_token_sealer 1 (sample_update ModeCustom ChallengeDNS01 ''a.b'') hour
      (sample_tls_db, []) in
    is_ok (fst x) \<and> \<not> is_ok (fst (load_for_issuance sample_parser sample_token_opener (fst (snd x), []))))"
proof -
  have urls: "sample_parser raw = Some u \<Longrightarrow> sample_parser (trim_space (ur_Text u)) = Some u" for raw u
    by (simp add: sample_parser_def)
  have cipher: "sample_token_sealer duckDNSTokenPurpose t = Inr sealed \<Longrightarrow>
      sample_token_opener duckDNSTokenPurpose sealed = Inr t \<and> \<not> no_token (Some sealed)" for t sealed
    by (auto simp: sample_token_sealer_def sample_token_opener_def no_token_def split: if_splits)
  have load: "tls_save sample_parser sample_token_sealer actor u now (d, fs) = (Inr (), (d1, fs1)) \<Longrightarrow>
      fst (load_for_issuance sample_parser sample_token_opener (d1, [])) =
        (if tu_Mode u = ModeCustom \<and> tu_Challenge u = ChallengeDNS01 then Inl (Wrap ''persisted TLS settings are invalid'' ErrInvalidSettings)
         else fst (load_for_issuance sample_parser sample_token_opener (d1, []))) \<and>
      (\<not> (tu_Mode u = ModeCustom \<and> tu_Challenge u = ChallengeDNS01) \<longrightarrow>
        is_ok (fst (load_for_issuance sample_parser sample_token_opener (d1, []))))" for actor u now d fs d1 fs1
    using tls_save_then_load [where parse = sample_parser and seal = sample_token_sealer and openValue = sample_token_opener and
      actor = actor and update = u and now = now and d = d and fs = fs and d' = d1 and fs' = fs1] urls cipher
    by (auto split: if_splits)
  have a: "fst (tls_save sample_parser sample_token_sealer 1 (sample_update ModeDuckDNS ChallengeDNS01 ''a.duckdns.org'') hour
      (sample_tls_db, [])) = Inr ()" by code_simp
  have b: "fst (tls_save sample_parser sample_token_sealer 1 (sample_update ModeCustom ChallengeDNS01 ''a.b'') hour
      (sample_tls_db, [])) = Inr ()" by code_simp
  have "is_ok (fst (load_for_issuance sample_parser sample_token_opener
      (fst (snd (tls_save sample_parser sample_token_sealer 1 (sample_update ModeDuckDNS ChallengeDNS01 ''a.duckdns.org'') hour
      (sample_tls_db, []))), [])))"
    using load [OF split_result3 [OF a]] by (auto simp: sample_update_def is_ok_iff)
  moreover have "\<not> is_ok (fst (load_for_issuance sample_parser sample_token_opener
      (fst (snd (tls_save sample_parser sample_token_sealer 1 (sample_update ModeCustom ChallengeDNS01 ''a.b'') hour
      (sample_tls_db, []))), [])))"
    using load [OF split_result3 [OF b]] by (auto simp: sample_update_def is_ok_iff)
  ultimately show ?thesis using a b by (simp only: Let_def is_ok_simps simp_thms)
qed

theorem new_domain_waits_for_expiry_witness:
  "let x = tls_save sample_parser sample_token_sealer 1 (sample_update ModeCustom ChallengeHTTP01 ''new.domain'') hour
      (sample_tls_db, []);
       y = ensure_certificate sample_acme_env sample_token_opener (snd x, ())
   in is_ok (fst x) \<and> fst (fst (snd y)) = fst (snd x) \<and> admitting (fst (snd x))"
proof -
  let ?x = "tls_save sample_parser sample_token_sealer 1 (sample_update ModeCustom ChallengeHTTP01 ''new.domain'') hour
      (sample_tls_db, [])"
  let ?y = "ensure_certificate sample_acme_env sample_token_opener (snd ?x, ())"
  have a: "fst ?x = Inr ()" by code_simp
  have y: "?y = (fst ?y, ((fst (fst (snd ?y)), snd (fst (snd ?y))), snd (snd ?y)))" by (simp only: prod.collapse)
  have now: "admitting sample_tls_db" by code_simp
  obtain d1 fs1 where x: "snd ?x = (d1, fs1)" by (metis prod.exhaust)
  have run: "?x = (Inr (), (d1, fs1))" using a x by (metis prod.collapse)
  have t: "tr_certificate_expires_at (tls_settings sample_tls_db) = Some (1000 * hour)"
    by (simp add: sample_tls_db_def sample_served_db_def)
  have n: "ae_now sample_acme_env () < 1000 * hour - renewalMargin" "1000 * hour \<noteq> (0::int)"
    by (simp_all add: sample_acme_env_def)
  from new_domain_waits_for_expiry [OF run t n(2,1) y [unfolded x]]
  have same: "fst (fst (snd ?y)) = d1" and good: "admitting (fst (fst (snd ?y)))" unfolding x using now by blast+
  from good have "admitting d1" unfolding same .
  with same show ?thesis unfolding Let_def x a by simp
qed

end
