(* ===== verification/Subscription.thy ===== *)
theory Subscription
  imports Snapshot Tls
begin

text \<open>
  The subscription documents that clients are configured with (\<open>internal/subscription\<close>): the
  format, the link, the gate on the certificate and the three renderings of the same entries.
  Parameters: the parser of URLs (as in theory Tls), the joining of a path, the text of a URL, the JSON
  encoder, Base64 with padding and the X25519 product with the base point.
\<close>

section \<open>Format and link\<close>

datatype sub_format = FormatBase64 | FormatSingBox | FormatClash | OtherFormat string

definition format_of :: "string \<Rightarrow> sub_format" where
  "format_of s = (if s = ''base64'' then FormatBase64 else if s = ''sing-box'' then FormatSingBox
     else if s = ''clash'' then FormatClash else OtherFormat s)"

text \<open>\<open>strings.Contains\<close>\<close>

fun contains_text :: "string \<Rightarrow> string \<Rightarrow> bool" where
  "contains_text [] p = (p = [])"
| "contains_text (c # cs) p = (take (length p) (c # cs) = p \<or> contains_text cs p)"

definition negotiate_format :: "string \<Rightarrow> string \<Rightarrow> go_error + sub_format" where
  "negotiate_format explicit userAgent =
     (if explicit \<noteq> '''' then
        (case format_of explicit of
           OtherFormat s \<Rightarrow> Inl (Err ''subscription format is invalid'')
         | f \<Rightarrow> Inr f)
      else
        let normalized = to_lower userAgent in
        if contains_text normalized ''sing-box'' then Inr FormatSingBox
        else if contains_text normalized ''mihomo'' \<or> contains_text normalized ''clash'' then Inr FormatClash
        else Inr FormatBase64)"

text \<open>
  What the link builder keeps of its base URL is a text; \<open>secure\<close> is that the scheme is https in any
  spelling, \<open>normal\<close> the text with the scheme in lower case and the path without final slashes.
\<close>

record base_url =
  bu_url :: url
  bu_secure :: bool
  bu_normal :: string

definition new_link_builder :: "(string \<Rightarrow> base_url option) \<Rightarrow> string \<Rightarrow> go_error + string" where
  "new_link_builder parse baseURL =
     (case parse (trim_space baseURL) of
        None \<Rightarrow> Inl (Err ''subscription base URL must be an absolute HTTPS URL'')
      | Some b \<Rightarrow>
          if \<not> bu_secure b \<or> ur_Hostname (bu_url b) = ''''
          then Inl (Err ''subscription base URL must be an absolute HTTPS URL'')
          else if ur_User (bu_url b) \<or> ur_RawQuery (bu_url b) \<noteq> '''' \<or> ur_Fragment (bu_url b) \<noteq> ''''
          then Inl (Err ''subscription base URL contains forbidden components'')
          else Inr (bu_normal b))"

definition subscription_url :: "(string \<Rightarrow> string list \<Rightarrow> string option) \<Rightarrow> string \<Rightarrow> string \<Rightarrow> go_error + string" where
  "subscription_url joinPath baseURL token =
     (if \<not> canonical_b64 32 token then Inl (Err ''subscription token is invalid'')
      else case joinPath baseURL [''sub'', token] of
        None \<Rightarrow> Inl (Err ''build subscription URL'')
      | Some link \<Rightarrow> Inr link)"

section \<open>Inputs\<close>

type_synonym base_point = "byte list \<Rightarrow> byte list"

definition reality_public_key :: "base_point \<Rightarrow> string \<Rightarrow> go_error + string" where
  "reality_public_key product encodedPrivateKey =
     (case b64_decode encodedPrivateKey of
        None \<Rightarrow> Inl (Err ''REALITY private key is invalid'')
      | Some privateBytes \<Rightarrow>
          if length privateBytes \<noteq> 32 \<or> b64_encode privateBytes \<noteq> encodedPrivateKey
          then Inl (Err ''REALITY private key is invalid'')
          else Inr (b64_encode (product privateBytes)))"

definition incomplete :: "core_settings \<Rightarrow> credential_bundle \<Rightarrow> bool" where
  "incomplete s b \<longleftrightarrow> blank (cs_TLSServerName s) \<or> blank (cs_RealityServer s) \<or>
     cs_VLESSPort s = 0 \<or> cs_Hysteria2Port s = 0 \<or> cs_TUICPort s = 0 \<or> cs_AnyTLSPort s = 0 \<or>
     blank (cb_VLESSUUID b) \<or> blank (cb_Hysteria2Password b) \<or> blank (cb_TUICUUID b) \<or>
     blank (cb_TUICPassword b) \<or> blank (cb_AnyTLSPassword b)"

definition public_addresses :: "core_settings \<Rightarrow> string list" where
  "public_addresses s =
     (if cs_ListenIPv4 s \<noteq> '''' then [cs_ListenIPv4 s] else []) @
     (if cs_ListenIPv6 s \<noteq> '''' then [cs_ListenIPv6 s] else [])"

definition subscription_inputs ::
    "base_point \<Rightarrow> core_settings \<Rightarrow> credential_bundle \<Rightarrow> go_error + (string \<times> string list)" where
  "subscription_inputs product s b =
     (case reality_public_key product (cs_RealityPrivateKey s) of
        Inl e \<Rightarrow> Inl e
      | Inr publicKey \<Rightarrow>
          if incomplete s b then Inl (Err ''subscription settings and credentials are incomplete'')
          else if public_addresses s = [] then Inl (Err ''subscription has no public address'')
          else Inr (publicKey, public_addresses s))"

definition address_family_name :: "string \<Rightarrow> string" where
  "address_family_name address = (if list_ex (\<lambda>c. c = CHR '':'') address then ''IPv6'' else ''IPv4'')"

section \<open>Links\<close>

text \<open>The query is given in the order that \<open>url.Values.Encode\<close> sorts it into.\<close>

record share_link =
  sl_Scheme :: string
  sl_User :: string
  sl_Password :: "string option"
  sl_Address :: string
  sl_Port :: int
  sl_Query :: "(string \<times> string) list"
  sl_Name :: string

definition share_links :: "core_settings \<Rightarrow> credential_bundle \<Rightarrow> string \<Rightarrow> string \<Rightarrow> share_link list" where
  "share_links s b publicKey address =
     (let family = address_family_name address in
      [\<lparr>sl_Scheme = ''vless'', sl_User = cb_VLESSUUID b, sl_Password = None, sl_Address = address, sl_Port = cs_VLESSPort s,
        sl_Query = [(''encryption'', ''none''), (''flow'', ''xtls-rprx-vision''), (''fp'', ''chrome''), (''pbk'', publicKey),
          (''security'', ''reality''), (''sid'', cs_RealityShortID s), (''sni'', cs_RealityServer s), (''type'', ''tcp'')],
        sl_Name = ''VLESS '' @ family\<rparr>,
       \<lparr>sl_Scheme = ''hysteria2'', sl_User = cb_Hysteria2Password b, sl_Password = None, sl_Address = address,
        sl_Port = cs_Hysteria2Port s, sl_Query = [(''sni'', cs_TLSServerName s)], sl_Name = ''Hysteria2 '' @ family\<rparr>,
       \<lparr>sl_Scheme = ''tuic'', sl_User = cb_TUICUUID b, sl_Password = Some (cb_TUICPassword b), sl_Address = address,
        sl_Port = cs_TUICPort s, sl_Query = [(''alpn'', ''h3''), (''congestion_control'', ''bbr''), (''sni'', cs_TLSServerName s),
          (''udp_relay_mode'', ''native'')], sl_Name = ''TUIC '' @ family\<rparr>,
       \<lparr>sl_Scheme = ''anytls'', sl_User = cb_AnyTLSPassword b, sl_Password = None, sl_Address = address,
        sl_Port = cs_AnyTLSPort s, sl_Query = [(''security'', ''tls''), (''sni'', cs_TLSServerName s)],
        sl_Name = ''AnyTLS '' @ family\<rparr>])"

definition link_list :: "base_point \<Rightarrow> core_settings \<Rightarrow> credential_bundle \<Rightarrow> go_error + share_link list" where
  "link_list product s b =
     (case subscription_inputs product s b of
        Inl e \<Rightarrow> Inl e
      | Inr (publicKey, addresses) \<Rightarrow> Inr (concat (map (share_links s b publicKey) addresses)))"

definition newline :: string where "newline = [CHR 0x0A]"

text \<open>\<open>linkText\<close> is \<open>url.URL.String\<close>, \<open>standard\<close> Base64 with padding.\<close>

definition render_base64 ::
    "(share_link \<Rightarrow> string) \<Rightarrow> (string \<Rightarrow> string) \<Rightarrow> base_point \<Rightarrow> core_settings \<Rightarrow> credential_bundle \<Rightarrow> go_error + string" where
  "render_base64 linkText standard product s b =
     (case link_list product s b of
        Inl e \<Rightarrow> Inl e
      | Inr links \<Rightarrow> Inr (standard (concat (map (\<lambda>l. linkText l @ newline) links))))"

section \<open>Documents\<close>

definition sing_box_outbounds :: "core_settings \<Rightarrow> credential_bundle \<Rightarrow> string \<Rightarrow> string \<Rightarrow> json list" where
  "sing_box_outbounds s b publicKey address =
     (let family = address_family_name address;
          entry = (\<lambda>type name port rest. JObject ([(''type'', JString type), (''tag'', JString (name @ '' '' @ family)),
            (''server'', JString address), (''server_port'', JNumber port)] @ rest));
          tls = (\<lambda>rest. (''tls'', JObject ([(''enabled'', JBool True), (''server_name'', JString (cs_TLSServerName s))] @ rest)))
      in
      [entry ''vless'' ''VLESS'' (cs_VLESSPort s) [(''uuid'', JString (cb_VLESSUUID b)), (''flow'', JString ''xtls-rprx-vision''),
         (''tls'', JObject [(''enabled'', JBool True), (''server_name'', JString (cs_RealityServer s)),
            (''utls'', JObject [(''enabled'', JBool True), (''fingerprint'', JString ''chrome'')]),
            (''reality'', JObject [(''enabled'', JBool True), (''public_key'', JString publicKey),
               (''short_id'', JString (cs_RealityShortID s))])])],
       entry ''hysteria2'' ''Hysteria2'' (cs_Hysteria2Port s) [(''password'', JString (cb_Hysteria2Password b)), tls []],
       entry ''tuic'' ''TUIC'' (cs_TUICPort s) [(''uuid'', JString (cb_TUICUUID b)), (''password'', JString (cb_TUICPassword b)),
         (''congestion_control'', JString ''bbr''), (''udp_relay_mode'', JString ''native''),
         tls [(''alpn'', JArray [JString ''h3''])]],
       entry ''anytls'' ''AnyTLS'' (cs_AnyTLSPort s) [(''password'', JString (cb_AnyTLSPassword b)), tls []]])"

definition render_sing_box :: "base_point \<Rightarrow> core_settings \<Rightarrow> credential_bundle \<Rightarrow> go_error + json" where
  "render_sing_box product s b =
     (case subscription_inputs product s b of
        Inl e \<Rightarrow> Inl e
      | Inr (publicKey, addresses) \<Rightarrow>
          let outbounds = concat (map (sing_box_outbounds s b publicKey) addresses) in
          Inr (JObject [(''log'', JObject [(''level'', JString ''warn'')]), (''outbounds'', JArray outbounds),
            (''route'', JObject [(''final'', the (member ''tag'' (hd outbounds)))])]))"

definition clash_proxies :: "core_settings \<Rightarrow> credential_bundle \<Rightarrow> string \<Rightarrow> string \<Rightarrow> json list" where
  "clash_proxies s b publicKey address =
     (let family = address_family_name address;
          entry = (\<lambda>type name port rest. JObject ([(''name'', JString (name @ '' '' @ family)), (''type'', JString type),
            (''server'', JString address), (''port'', JNumber port)] @ rest))
      in
      [entry ''vless'' ''VLESS'' (cs_VLESSPort s) [(''uuid'', JString (cb_VLESSUUID b)), (''network'', JString ''tcp''),
         (''tls'', JBool True), (''udp'', JBool True), (''flow'', JString ''xtls-rprx-vision''),
         (''servername'', JString (cs_RealityServer s)), (''client-fingerprint'', JString ''chrome''),
         (''reality-opts'', JObject [(''public-key'', JString publicKey), (''short-id'', JString (cs_RealityShortID s))])],
       entry ''hysteria2'' ''Hysteria2'' (cs_Hysteria2Port s) [(''password'', JString (cb_Hysteria2Password b)),
         (''sni'', JString (cs_TLSServerName s)), (''skip-cert-verify'', JBool False)],
       entry ''tuic'' ''TUIC'' (cs_TUICPort s) [(''uuid'', JString (cb_TUICUUID b)), (''password'', JString (cb_TUICPassword b)),
         (''sni'', JString (cs_TLSServerName s)), (''alpn'', JArray [JString ''h3'']), (''udp-relay-mode'', JString ''native''),
         (''congestion-controller'', JString ''bbr'')],
       entry ''anytls'' ''AnyTLS'' (cs_AnyTLSPort s) [(''password'', JString (cb_AnyTLSPassword b)),
         (''sni'', JString (cs_TLSServerName s)), (''client-fingerprint'', JString ''chrome''), (''udp'', JBool True),
         (''skip-cert-verify'', JBool False)]])"

definition render_clash :: "base_point \<Rightarrow> core_settings \<Rightarrow> credential_bundle \<Rightarrow> go_error + json" where
  "render_clash product s b =
     (case subscription_inputs product s b of
        Inl e \<Rightarrow> Inl e
      | Inr (publicKey, addresses) \<Rightarrow>
          let proxies = concat (map (clash_proxies s b publicKey) addresses) in
          Inr (JObject [(''proxies'', JArray proxies),
            (''proxy-groups'', JArray [JObject [(''name'', JString ''VPN''), (''type'', JString ''select''),
               (''proxies'', JArray (map (\<lambda>p. the (member ''name'' p)) proxies))]]),
            (''rules'', JArray [JString ''MATCH,VPN''])]))"

section \<open>The service\<close>

abbreviation "ErrTLSNotReady \<equiv> Sentinel ''TLS certificate is not issued''"

record 'w subscription_service =
  su_FindActiveBySubscriptionToken :: "string \<Rightarrow> ('w, credential_bundle) call"
  su_Load :: "('w, core_settings) call"
  su_readiness :: "('w, bool) call option"
  su_linkText :: "share_link \<Rightarrow> string"
  su_standard :: "string \<Rightarrow> string"
  su_encode :: "json \<Rightarrow> string"
  su_product :: base_point

definition render_format :: "'w subscription_service \<Rightarrow> sub_format \<Rightarrow> core_settings \<Rightarrow> credential_bundle \<Rightarrow> go_error + string" where
  "render_format su f s b =
     (case f of
        FormatBase64 \<Rightarrow> render_base64 (su_linkText su) (su_standard su) (su_product su) s b
      | FormatSingBox \<Rightarrow> map_sum id (su_encode su) (render_sing_box (su_product su) s b)
      | FormatClash \<Rightarrow> map_sum id (su_encode su) (render_clash (su_product su) s b)
      | OtherFormat _ \<Rightarrow> Inl (Err ''subscription format is invalid''))"

definition certificate_ready :: "'w subscription_service \<Rightarrow> ('w, unit) call" where
  "certificate_ready su w =
     (case su_readiness su of
        None \<Rightarrow> (Inr (), w)
      | Some issued \<Rightarrow>
          (case issued w of
             (Inl e, w1) \<Rightarrow> (Inl (Wrap ''check TLS readiness'' e), w1)
           | (Inr False, w1) \<Rightarrow> (Inl ErrTLSNotReady, w1)
           | (Inr True, w1) \<Rightarrow> (Inr (), w1)))"

definition render_subscription :: "'w subscription_service \<Rightarrow> string \<Rightarrow> sub_format \<Rightarrow> ('w, string) call" where
  "render_subscription su token f =
     (case f of
        OtherFormat _ \<Rightarrow> fail_with (Err ''subscription format is invalid'')
      | _ \<Rightarrow>
          and_then (certificate_ready su) (\<lambda>_.
          and_then (wrapping ''load subscription credentials'' (su_FindActiveBySubscriptionToken su token)) (\<lambda>b.
          and_then (wrapping ''load subscription settings'' (su_Load su)) (\<lambda>s w.
            (render_format su f s b, w)))))"

section \<open>The clients' documents fit the core's\<close>

text \<open>What a client needs to reach an inbound, read out of an entry in each format.\<close>

record endpoint =
  ep_protocol :: string
  ep_address :: string
  ep_port :: "json option"
  ep_uuid :: "json option"
  ep_password :: "json option"
  ep_server_name :: "json option"
  ep_public_key :: "json option"
  ep_short_id :: "json option"

definition path :: "string list \<Rightarrow> json \<Rightarrow> json option" where
  "path keys doc = foldl (\<lambda>d k. Option.bind d (member k)) (Some doc) keys"

definition sing_box_endpoint :: "json \<Rightarrow> endpoint" where
  "sing_box_endpoint e = \<lparr>ep_protocol = text_of (member ''type'' e), ep_address = text_of (member ''server'' e),
     ep_port = member ''server_port'' e, ep_uuid = member ''uuid'' e, ep_password = member ''password'' e,
     ep_server_name = path [''tls'', ''server_name''] e, ep_public_key = path [''tls'', ''reality'', ''public_key''] e,
     ep_short_id = path [''tls'', ''reality'', ''short_id''] e\<rparr>"

definition clash_endpoint :: "json \<Rightarrow> endpoint" where
  "clash_endpoint e = \<lparr>ep_protocol = text_of (member ''type'' e), ep_address = text_of (member ''server'' e),
     ep_port = member ''port'' e, ep_uuid = member ''uuid'' e, ep_password = member ''password'' e,
     ep_server_name = (case member ''servername'' e of None \<Rightarrow> member ''sni'' e | x \<Rightarrow> x),
     ep_public_key = path [''reality-opts'', ''public-key''] e, ep_short_id = path [''reality-opts'', ''short-id''] e\<rparr>"

text \<open>A link's user is the UUID where the protocol has one, and the password where it has none.\<close>

definition link_endpoint :: "share_link \<Rightarrow> endpoint" where
  "link_endpoint l = \<lparr>ep_protocol = sl_Scheme l, ep_address = sl_Address l, ep_port = Some (JNumber (sl_Port l)),
     ep_uuid = (if sl_Scheme l \<in> {''vless'', ''tuic''} then Some (JString (sl_User l)) else None),
     ep_password = (if sl_Scheme l = ''vless'' then None
        else if sl_Scheme l = ''tuic'' then map_option JString (sl_Password l) else Some (JString (sl_User l))),
     ep_server_name = map_option JString (map_of (sl_Query l) ''sni''),
     ep_public_key = map_option JString (map_of (sl_Query l) ''pbk''),
     ep_short_id = map_option JString (map_of (sl_Query l) ''sid'')\<rparr>"

text \<open>
  When an inbound of the core takes a client: protocol, address and port agree, one of its accounts
  has the client's credentials, and the client's view of TLS is the one the inbound has.
\<close>

definition tls_fits :: "base_point \<Rightarrow> json \<Rightarrow> endpoint \<Rightarrow> bool" where
  "tls_fits product i e \<longleftrightarrow>
     (if ep_protocol e = ''vless''
      then ep_server_name e = path [''tls'', ''reality'', ''handshake'', ''server''] i \<and>
        ep_public_key e = map_option JString (map_option (b64_encode \<circ> product)
          (b64_decode (text_of (path [''tls'', ''reality'', ''private_key''] i)))) \<and>
        (case ep_short_id e of None \<Rightarrow> False | Some x \<Rightarrow> x \<in> set (elements (path [''tls'', ''reality'', ''short_id''] i)))
      else ep_server_name e = path [''tls'', ''server_name''] i)"

definition admits :: "base_point \<Rightarrow> json \<Rightarrow> endpoint \<Rightarrow> bool" where
  "admits product i e \<longleftrightarrow> ep_protocol e = text_of (member ''type'' i) \<and> ep_address e = text_of (member ''listen'' i) \<and>
     ep_port e = member ''listen_port'' i \<and>
     list_ex (\<lambda>a. member ''uuid'' a = ep_uuid e \<and> member ''password'' a = ep_password e) (accounts_of i) \<and>
     tls_fits product i e"

lemma subscription_inputs_Inr:
  "subscription_inputs product s b = Inr (publicKey, addresses) \<longleftrightarrow>
     (\<exists>key. b64_decode (cs_RealityPrivateKey s) = Some key \<and> length key = 32 \<and> b64_encode key = cs_RealityPrivateKey s \<and>
        publicKey = b64_encode (product key)) \<and>
     \<not> incomplete s b \<and> addresses = public_addresses s \<and> addresses \<noteq> []"
  by (auto simp: subscription_inputs_def reality_public_key_def split: option.splits sum.splits if_splits)

lemma public_listen: "public_addresses s = map snd (listen_addresses s)"
  by (simp add: public_addresses_def listen_addresses_def)

lemma entries_agree:
  "map sing_box_endpoint (sing_box_outbounds s b pk a) = map link_endpoint (share_links s b pk a)"
  "map clash_endpoint (clash_proxies s b pk a) = map link_endpoint (share_links s b pk a)"
  by (simp_all add: sing_box_outbounds_def clash_proxies_def share_links_def Let_def sing_box_endpoint_def clash_endpoint_def
      link_endpoint_def member_def text_of_def path_def)

text \<open>The entries of an address, and the inbounds on it, protocol by protocol.\<close>

lemma link_protocols:
  "map sl_Scheme (share_links s b pk a) = core_protocols"
  by (simp add: share_links_def core_protocols_def Let_def)

lemma admits_build_inbound:
  assumes "u \<in> set users" "b64_decode (cs_RealityPrivateKey s) = Some key"
    and "member ''uuid'' (protocol_user (ep_protocol e) u) = ep_uuid e"
    and "member ''password'' (protocol_user (ep_protocol e) u) = ep_password e"
    and "ep_protocol e \<in> set core_protocols"
    and "ep_port e = member ''listen_port'' (build_inbound (ep_protocol e) t a s users)"
    and "ep_address e = a" "tls_fits product (build_inbound (ep_protocol e) t a s users) e"
  shows "admits product (build_inbound (ep_protocol e) t a s users) e"
proof -
  have "text_of (member ''listen'' (build_inbound (ep_protocol e) t a s users)) = a"
    by (simp add: build_inbound_def member_def text_of_def Let_def)
  moreover have "list_ex (\<lambda>a. member ''uuid'' a = ep_uuid e \<and> member ''password'' a = ep_password e)
      (accounts_of (build_inbound (ep_protocol e) t a s users))"
    unfolding build_inbound_members(1) [OF assms(5)] list_ex_iff set_map
    using assms(1,3,4) by blast
  ultimately show ?thesis
    unfolding admits_def build_inbound_members(2) [OF assms(5)] using assms(6-8) by metis
qed

lemma inbound_admits_link:
  assumes u: "u \<in> set users" and key: "b64_decode (cs_RealityPrivateKey s) = Some key"
    and l: "l \<in> set (share_links s (us_Credentials u) (b64_encode (product key)) a)"
  shows "admits product (build_inbound (sl_Scheme l) t a s users) (link_endpoint l)"
proof -
  note inbound_simps = build_inbound_def member_def text_of_def path_def protocol_user_def certificate_tls_def
    reality_tls_def elements_def tls_fits_def link_endpoint_def core_protocols_def Let_def
  have e: "ep_protocol (link_endpoint l) = sl_Scheme l"
    by (simp add: link_endpoint_def)
  from l consider (vless) "l = share_links s (us_Credentials u) (b64_encode (product key)) a ! 0"
    | (hysteria2) "l = share_links s (us_Credentials u) (b64_encode (product key)) a ! 1"
    | (tuic) "l = share_links s (us_Credentials u) (b64_encode (product key)) a ! 2"
    | (anytls) "l = share_links s (us_Credentials u) (b64_encode (product key)) a ! 3"
  proof -
    have "length (share_links s (us_Credentials u) (b64_encode (product key)) a) = 4"
      by (simp add: share_links_def Let_def)
    with l obtain i where "i < 4" "l = share_links s (us_Credentials u) (b64_encode (product key)) a ! i"
      by (metis in_set_conv_nth)
    moreover from \<open>i < 4\<close> have "i = 0 \<or> i = 1 \<or> i = 2 \<or> i = 3" by linarith
    ultimately show thesis using that by metis
  qed
  then show ?thesis
  proof cases
    case vless
    show ?thesis
      by (rule admits_build_inbound [OF u key, of "link_endpoint l", unfolded e])
        (simp_all add: vless share_links_def inbound_simps key)
  next
    case hysteria2
    show ?thesis
      by (rule admits_build_inbound [OF u key, of "link_endpoint l", unfolded e])
        (simp_all add: hysteria2 share_links_def inbound_simps)
  next
    case tuic
    show ?thesis
      by (rule admits_build_inbound [OF u key, of "link_endpoint l", unfolded e])
        (simp_all add: tuic share_links_def inbound_simps)
  next
    case anytls
    show ?thesis
      by (rule admits_build_inbound [OF u key, of "link_endpoint l", unfolded e])
        (simp_all add: anytls share_links_def inbound_simps)
  qed
qed

lemma inbound_link_exists:
  assumes "p \<in> set core_protocols"
  shows "\<exists>l \<in> set (share_links s b pk a). sl_Scheme l = p"
  using assms link_protocols [of s b pk a] by (metis imageE list.set_map)

text \<open>
  C31. The clients' documents fit the core's. When the core is configured from settings that hold a
  user and a subscription can be made of the user's credentials, the links, the sing-box document
  and the Clash document give the same endpoints; every endpoint is admitted by an inbound of the
  core's configuration (protocol, address, port, credentials, server name, REALITY key and
  short ID), and every inbound of the core admits one of the endpoints.
\<close>

theorem subscription_reaches_core:
  assumes "generate s = Inr doc" "u \<in> set (cs_Users s)"
    and "link_list product s (us_Credentials u) = Inr links"
    and "render_sing_box product s (us_Credentials u) = Inr singBox"
    and "render_clash product s (us_Credentials u) = Inr clash"
  shows "map sing_box_endpoint (elements (member ''outbounds'' singBox)) = map link_endpoint links \<and>
    map clash_endpoint (elements (member ''proxies'' clash)) = map link_endpoint links \<and>
    (\<forall>l \<in> set links. \<exists>i \<in> set (inbounds_of doc). admits product i (link_endpoint l)) \<and>
    (\<forall>i \<in> set (inbounds_of doc). \<exists>l \<in> set links. admits product i (link_endpoint l))"
proof -
  let ?b = "us_Credentials u" and ?users = "sort_key us_TelegramID (cs_Users s)"
  from assms(3) obtain key where key: "b64_decode (cs_RealityPrivateKey s) = Some key"
    and inputs: "subscription_inputs product s ?b = Inr (b64_encode (product key), public_addresses s)"
    by (auto simp: link_list_def subscription_inputs_Inr split: sum.splits)
  let ?pk = "b64_encode (product key)"
  have links: "links = concat (map (share_links s ?b ?pk) (public_addresses s))"
    and outbounds: "elements (member ''outbounds'' singBox) = concat (map (sing_box_outbounds s ?b ?pk) (public_addresses s))"
    and proxies: "elements (member ''proxies'' clash) = concat (map (clash_proxies s ?b ?pk) (public_addresses s))"
    using assms(3-5) inputs
    by (auto simp: link_list_def render_sing_box_def render_clash_def Let_def member_def elements_def)
  have doc: "inbounds_of doc =
      concat (map (\<lambda>p. map (\<lambda>a. build_inbound p (inbound_tag p a) (snd a) s ?users) (listen_addresses s)) core_protocols)"
    using assms(1) by (auto simp: generate_def validate_and_sort_def Let_def inbounds_of_document
        split: option.splits sum.splits)
  have u: "u \<in> set ?users" using assms(2) by simp
  have forward: "\<exists>i \<in> set (inbounds_of doc). admits product i (link_endpoint l)" if "l \<in> set links" for l
  proof -
    from that obtain a where a: "a \<in> set (listen_addresses s)" "l \<in> set (share_links s ?b ?pk (snd a))"
      by (auto simp: links public_listen)
    moreover have "sl_Scheme l \<in> set core_protocols"
      using a(2) link_protocols [of s ?b ?pk "snd a"] by (metis image_eqI list.set_map)
    ultimately show ?thesis
      using inbound_admits_link [where product = product, OF u key a(2)] by (auto simp: doc)
  qed
  have backward: "\<exists>l \<in> set links. admits product i (link_endpoint l)" if i: "i \<in> set (inbounds_of doc)" for i
  proof -
    from i obtain p a where p: "p \<in> set core_protocols" "a \<in> set (listen_addresses s)"
      and "i = build_inbound p (inbound_tag p a) (snd a) s ?users"
      by (auto simp: doc)
    moreover obtain l where "l \<in> set (share_links s ?b ?pk (snd a))" "sl_Scheme l = p"
      using inbound_link_exists [OF p(1)] by blast
    ultimately show ?thesis
      using inbound_admits_link [where product = product, OF u key] by (auto simp: links public_listen intro!: bexI [of _ l])
  qed
  show ?thesis
    using forward backward by (simp add: outbounds proxies links map_concat entries_agree comp_def)
qed

text \<open>The sample settings' first user, with the identity in the place of the base point's product.\<close>

lemma sample_subscription:
  "is_ok (link_list id sample_settings (us_Credentials (hd (cs_Users sample_settings))))"
  "is_ok (render_sing_box id sample_settings (us_Credentials (hd (cs_Users sample_settings))))"
  "is_ok (render_clash id sample_settings (us_Credentials (hd (cs_Users sample_settings))))"
  by code_simp+

lemma subscription_reaches_core_witness:
  "\<exists>doc links. generate sample_settings = Inr doc \<and>
     link_list id sample_settings (us_Credentials (hd (cs_Users sample_settings))) = Inr links \<and>
     (\<forall>l \<in> set links. \<exists>i \<in> set (inbounds_of doc). admits id i (link_endpoint l))"
proof -
  let ?u = "hd (cs_Users sample_settings)"
  obtain doc links singBox clash where ok: "generate sample_settings = Inr doc"
    "link_list id sample_settings (us_Credentials ?u) = Inr links"
    "render_sing_box id sample_settings (us_Credentials ?u) = Inr singBox"
    "render_clash id sample_settings (us_Credentials ?u) = Inr clash"
    using sample_settings_generate sample_subscription by (auto simp: is_ok_iff)
  have "?u \<in> set (cs_Users sample_settings)"
    by (simp add: sample_settings_def)
  from subscription_reaches_core [OF ok(1) this ok(2-4)] ok show ?thesis by blast
qed

end
