(* ===== verification/Reality.thy ===== *)
theory Reality
  imports Tls "HOL-Library.Multiset" "HOL-Library.List_Lexorder" "HOL-Library.Char_ord" "HOL-Library.Product_Lexorder"
begin

text \<open>
  The search for REALITY targets (\<open>internal/reality/searcher.go\<close>) and the service that runs it in
  the background (\<open>service.go\<close>). The workers, the channel and the end of the budget are steps of a
  relation, so every interleaving is one of its runs. The dataset and the TLS probe are parameters.
\<close>

section \<open>Targets and options\<close>

record target =
  tg_Domain :: string
  tg_TLS13 :: bool
  tg_Latency :: duration

text \<open>A failing probe answers with the zero target; so does a receive from a closed channel.\<close>

definition zero_target :: target where
  "zero_target = \<lparr>tg_Domain = '''', tg_TLS13 = False, tg_Latency = 0\<rparr>"

record search_options =
  so_Dataset :: "(go_error + string list) option"
  so_Prober :: "(string \<Rightarrow> go_error + target) option"
  so_SampleLimit :: int
  so_Concurrency :: int
  so_Budget :: duration

abbreviation maxSampleLimit :: int where "maxSampleLimit \<equiv> 200"
abbreviation maxConcurrency :: int where "maxConcurrency \<equiv> 5"
abbreviation maxBudget :: duration where "maxBudget \<equiv> 60 * second"

definition check_options :: "search_options \<Rightarrow> go_error option" where
  "check_options opts =
     (if so_Dataset opts = None \<or> so_Prober opts = None then Some (Err ''reality search requires a dataset and prober'')
      else if so_SampleLimit opts < 1 \<or> maxSampleLimit < so_SampleLimit opts
      then Some (Err ''reality search sample limit must be between 1 and 200'')
      else if so_Concurrency opts < 1 \<or> maxConcurrency < so_Concurrency opts
      then Some (Err ''reality search concurrency must be between 1 and 5'')
      else if so_Budget opts \<le> 0 \<or> maxBudget < so_Budget opts
      then Some (Err ''reality search budget must be between 1s and 60s'')
      else None)"

section \<open>Candidates\<close>

fun normalize_domain :: "string \<Rightarrow> string" where
  "normalize_domain [] = []"
| "normalize_domain (c # cs) = (if c = CHR ''.'' then normalize_domain cs else c # cs)"

definition valid_domain :: "string \<Rightarrow> bool" where
  "valid_domain d \<longleftrightarrow> 4 \<le> length d \<and> length d \<le> 253 \<and> domain_ok d"

text \<open>The loop over the dataset; \<open>unique\<close> has what was kept, which are also the keys of \<open>seen\<close>.\<close>

fun unique_domains :: "string list \<Rightarrow> string list \<Rightarrow> string list" where
  "unique_domains kept [] = kept"
| "unique_domains kept (d # ds) =
     (let d = normalize_domain d in
      if \<not> valid_domain d \<or> d \<in> set kept then unique_domains kept ds
      else unique_domains (kept @ [d]) ds)"

text \<open>
  \<open>sampleDomains\<close> on the random positions \<open>rs\<close> that \<open>Intn(index + 1)\<close> gives for the indices
  from \<open>limit\<close> on.
\<close>

fun reservoir :: "nat \<Rightarrow> 'a list \<Rightarrow> 'a list \<Rightarrow> nat list \<Rightarrow> 'a list" where
  "reservoir limit sampled (d # ds) (r # rs) =
     reservoir limit (if r < limit then sampled[r := d] else sampled) ds rs"
| "reservoir limit sampled _ _ = sampled"

definition sample_domains :: "'a list \<Rightarrow> nat \<Rightarrow> nat list \<Rightarrow> 'a list" where
  "sample_domains domains limit rs =
     (if length domains \<le> limit then domains
      else reservoir limit (take limit domains) (drop limit domains) rs)"

section \<open>Ranking\<close>

definition rank_key :: "target \<Rightarrow> int \<times> string" where
  "rank_key t = (tg_Latency t, tg_Domain t)"

definition rank :: "target list \<Rightarrow> target list" where
  "rank ts = sort_key rank_key ts"

text \<open>What a worker does with the answer to a probe.\<close>

definition confirmed :: "(string \<Rightarrow> go_error + target) \<Rightarrow> string \<Rightarrow> target option" where
  "confirmed probe d =
     (case probe d of
        Inl e \<Rightarrow> None
      | Inr t \<Rightarrow> if \<not> tg_TLS13 t \<or> tg_Domain t \<noteq> d \<or> tg_Latency t \<le> 0 then None else Some t)"

section \<open>The workers\<close>

text \<open>
  The domains not yet handed out, the domains the workers have, the buffered results, whether the
  budget is used up and whether the loop has left through \<open>Done\<close>.
\<close>

record search_state =
  ss_waiting :: "string list"
  ss_probing :: "string multiset"
  ss_results :: "target list"
  ss_done :: bool
  ss_stopped :: bool

definition start_search :: "string list \<Rightarrow> search_state" where
  "start_search sampled = \<lparr>ss_waiting = sampled, ss_probing = {#}, ss_results = [], ss_done = False, ss_stopped = False\<rparr>"

inductive search_step :: "nat \<Rightarrow> (string \<Rightarrow> go_error + target) \<Rightarrow> search_state \<Rightarrow> search_state \<Rightarrow> bool"
  for workers probe where
  hand_out: "ss_waiting s = d # ds \<Longrightarrow> \<not> ss_stopped s \<Longrightarrow> size (ss_probing s) < workers \<Longrightarrow>
     search_step workers probe s (s\<lparr>ss_waiting := ds, ss_probing := add_mset d (ss_probing s)\<rparr>)"
| finish: "d \<in># ss_probing s \<Longrightarrow>
     search_step workers probe s (s\<lparr>ss_probing := ss_probing s - {#d#},
       ss_results := ss_results s @ (case confirmed probe d of None \<Rightarrow> [] | Some t \<Rightarrow> [t])\<rparr>)"
| expire: "search_step workers probe s (s\<lparr>ss_done := True\<rparr>)"
| stop: "ss_waiting s \<noteq> [] \<Longrightarrow> ss_done s \<Longrightarrow> search_step workers probe s (s\<lparr>ss_stopped := True\<rparr>)"

text \<open>The workers are done when nothing waits, or the loop was left, and no probe is under way.\<close>

definition workers_done :: "search_state \<Rightarrow> bool" where
  "workers_done s \<longleftrightarrow> ss_probing s = {#} \<and> (ss_waiting s = [] \<or> ss_stopped s)"

text \<open>
  \<open>selectConfirmed\<close> on the closed channel of results: both cases of its \<open>select\<close> are always ready,
  the list has the random choices (\<open>True\<close> for a receive), and a receive past the last result
  yields the zero target.
\<close>

fun select_confirmed :: "bool list \<Rightarrow> target list \<Rightarrow> target list" where
  "select_confirmed (True # cs) [] = zero_target # select_confirmed cs []"
| "select_confirmed (True # cs) (t # ts) = t # select_confirmed cs ts"
| "select_confirmed _ ts = []"

text \<open>\<open>Search\<close> from the point where the workers are done.\<close>

definition search_outcome :: "bool list \<Rightarrow> search_state \<Rightarrow> target list \<times> go_error option" where
  "search_outcome choices s =
     (if ss_stopped s then (rank (select_confirmed choices (ss_results s)), Some (Sentinel ''context deadline exceeded''))
      else (rank (ss_results s), None))"

text \<open>
  One whole search: it may end with an outcome when its steps can lead there. The random positions
  \<open>rs\<close> and choices are the program's.
\<close>

definition search_candidates :: "search_options \<Rightarrow> nat list \<Rightarrow> go_error + string list" where
  "search_candidates opts rs =
     (case check_options opts of
        Some e \<Rightarrow> Inl e
      | None \<Rightarrow>
          (case the (so_Dataset opts) of
             Inl e \<Rightarrow> Inl e
           | Inr domains \<Rightarrow> Inr (sample_domains (unique_domains [] domains) (nat (so_SampleLimit opts)) rs)))"

inductive searches :: "search_options \<Rightarrow> target list \<Rightarrow> go_error option \<Rightarrow> bool" for opts where
  refused: "search_candidates opts rs = Inl e \<Longrightarrow> searches opts [] (Some e)"
| searched: "search_candidates opts rs = Inr sampled \<Longrightarrow>
     (search_step (nat (so_Concurrency opts)) (the (so_Prober opts)))\<^sup>*\<^sup>* (start_search sampled) s \<Longrightarrow>
     workers_done s \<Longrightarrow> search_outcome choices s = (ts, e) \<Longrightarrow> searches opts ts e"

section \<open>The service\<close>

datatype search_status = SearchIdle | SearchRunning | SearchCompleted | SearchFailed

record search_service =
  sr_status :: search_status
  sr_startedAt :: go_time
  sr_targets :: "target list"

record search_snapshot =
  sn_Status :: search_status
  sn_StartedAt :: go_time
  sn_Targets :: "target list"
  sn_Error :: string

abbreviation "ErrSearchRunning \<equiv> Sentinel ''reality search already running''"

definition new_search_service :: "search_options \<Rightarrow> search_service option" where
  "new_search_service opts =
     (if check_options opts \<noteq> None then None
      else Some \<lparr>sr_status = SearchIdle, sr_startedAt = 0, sr_targets = []\<rparr>)"

definition start_service :: "go_time \<Rightarrow> (search_service, unit) call" where
  "start_service now sr =
     (if sr_status sr = SearchRunning then (Inl ErrSearchRunning, sr)
      else (Inr (), \<lparr>sr_status = SearchRunning, sr_startedAt = now, sr_targets = []\<rparr>))"

definition search_snapshot_of :: "search_service \<Rightarrow> search_snapshot" where
  "search_snapshot_of sr = \<lparr>sn_Status = sr_status sr, sn_StartedAt = sr_startedAt sr, sn_Targets = sr_targets sr,
     sn_Error = (if sr_status sr = SearchFailed then ''search_failed'' else '''')\<rparr>"

definition finish_search :: "target list \<Rightarrow> go_error option \<Rightarrow> search_service \<Rightarrow> search_service" where
  "finish_search ts e sr =
     (case e of
        Some _ \<Rightarrow> sr\<lparr>sr_status := SearchFailed, sr_targets := []\<rparr>
      | None \<Rightarrow> sr\<lparr>sr_status := SearchCompleted, sr_targets := ts\<rparr>)"

section \<open>A search is the same whatever the interleaving\<close>

lemma unique_domains_props:
  "distinct kept \<Longrightarrow> list_all valid_domain kept \<Longrightarrow>
     distinct (unique_domains kept ds) \<and> list_all valid_domain (unique_domains kept ds)"
  by (induction kept ds rule: unique_domains.induct) (auto simp: Let_def)

lemma reservoir_from:
  "set (reservoir limit sampled ds rs) \<subseteq> set sampled \<union> set ds \<and>
   length (reservoir limit sampled ds rs) = length sampled \<and>
   (distinct (sampled @ ds) \<longrightarrow> distinct (reservoir limit sampled ds rs))"
proof (induction limit sampled ds rs rule: reservoir.induct)
  case (1 limit sampled d ds r rs)
  have "distinct (sampled[r := d])" if "distinct (sampled @ d # ds)"
    using that by (auto intro: distinct_list_update)
  moreover have "set (sampled[r := d]) \<subseteq> insert d (set sampled)"
    by (rule set_update_subset_insert)
  ultimately show ?case using 1 by (auto split: if_splits)
qed auto

lemma sample_domains_from:
  "set (sample_domains ds limit rs) \<subseteq> set ds \<and> length (sample_domains ds limit rs) = min limit (length ds) \<and>
   (distinct ds \<longrightarrow> distinct (sample_domains ds limit rs))"
proof (cases "length ds \<le> limit")
  case False
  have "set (take limit ds) \<union> set (drop limit ds) = set ds"
    using set_append [of "take limit ds" "drop limit ds"] by simp
  with False reservoir_from [of limit "take limit ds" "drop limit ds" rs] show ?thesis
    by (simp add: sample_domains_def)
qed (simp add: sample_domains_def)

text \<open>What the workers have done and still have to do add up to the sample.\<close>

definition confirmed_in :: "(string \<Rightarrow> go_error + target) \<Rightarrow> string multiset \<Rightarrow> target multiset" where
  "confirmed_in probe ds = image_mset (the \<circ> confirmed probe) (filter_mset (\<lambda>d. confirmed probe d \<noteq> None) ds)"

lemma confirmed_in_simps [simp]:
  "confirmed_in probe {#} = {#}"
  "confirmed_in probe (add_mset d ds) =
     (case confirmed probe d of None \<Rightarrow> confirmed_in probe ds | Some t \<Rightarrow> add_mset t (confirmed_in probe ds))"
  by (auto simp: confirmed_in_def split: option.splits)

lemma confirmed_in_plus: "confirmed_in probe (a + b) = confirmed_in probe a + confirmed_in probe b"
  by (simp add: confirmed_in_def)

definition search_total :: "(string \<Rightarrow> go_error + target) \<Rightarrow> search_state \<Rightarrow> target multiset" where
  "search_total probe s = mset (ss_results s) + confirmed_in probe (ss_probing s + mset (ss_waiting s))"

lemma search_step_total:
  "search_step workers probe s s' \<Longrightarrow> search_total probe s' = search_total probe s"
proof (induction rule: search_step.induct)
  case (finish d s)
  then obtain rest where "ss_probing s = add_mset d rest" by (metis mset_add)
  then show ?case by (simp add: search_total_def split: option.splits)
qed (auto simp: search_total_def)

lemma search_steps_total:
  "(search_step workers probe)\<^sup>*\<^sup>* s s' \<Longrightarrow> search_total probe s' = search_total probe s"
  by (induction rule: rtranclp_induct) (auto dest: search_step_total)

text \<open>No more than the allowed workers probe at once.\<close>

lemma search_steps_bounded:
  "(search_step workers probe)\<^sup>*\<^sup>* s s' \<Longrightarrow> size (ss_probing s) \<le> workers \<Longrightarrow> size (ss_probing s') \<le> workers"
proof (induction rule: rtranclp_induct)
  case (step y z)
  from step(2) step.IH [OF step.prems] show ?case
    by (cases rule: search_step.cases) (auto simp: size_Diff_singleton)
qed simp

lemma confirmed_domain: "confirmed probe d = Some t \<Longrightarrow> tg_Domain t = d"
  by (auto simp: confirmed_def split: sum.splits if_splits)

lemma sort_key_unique:
  assumes "mset xs = mset ys" "inj_on f (set xs)"
  shows "sort_key f xs = sort_key f ys"
proof (rule properties_for_sort_key)
  show "mset (sort_key f ys) = mset xs" using assms(1) by simp
  have one: "filter (\<lambda>x. f k = f x) zs = replicate (count (mset zs) k) k"
    if "set zs = set xs" "k \<in> set xs" for zs k
  proof -
    have "filter (\<lambda>x. f k = f x) zs = filter (\<lambda>x. k = x) zs"
      by (rule filter_cong) (use that assms(2) in \<open>auto dest: inj_onD\<close>)
    then show ?thesis by (simp add: replicate_count_mset_eq_filter_eq)
  qed
  have "set ys = set xs" using assms(1) by (metis set_mset_mset)
  then show "filter (\<lambda>x. f k = f x) (sort_key f ys) = filter (\<lambda>x. f k = f x) xs" if "k \<in> set (sort_key f ys)" for k
    using that one [of "sort_key f ys" k] one [of xs k] assms(1) by simp
qed simp

definition sequential_search :: "(string \<Rightarrow> go_error + target) \<Rightarrow> string list \<Rightarrow> target list" where
  "sequential_search probe ds = rank (List.map_filter (confirmed probe) ds)"

lemma confirmed_in_mset: "confirmed_in probe (mset ds) = mset (List.map_filter (confirmed probe) ds)"
  by (induction ds) (auto simp: List.map_filter_simps split: option.splits)


text \<open>Three domains, of which one has no TLS 1.3, on two workers.\<close>

definition sample_probe :: "string \<Rightarrow> go_error + target" where
  "sample_probe d = Inr \<lparr>tg_Domain = d, tg_TLS13 = (d \<noteq> ''b.de''), tg_Latency = (if d = ''a.de'' then 9 else 5)\<rparr>"

definition sample_options :: search_options where
  "sample_options = \<lparr>so_Dataset = Some (Inr [''.a.de'', ''b.de'', ''-'', ''a.de'', ''c.de'']), so_Prober = Some sample_probe,
     so_SampleLimit = 3, so_Concurrency = 2, so_Budget = second\<rparr>"

lemma sample_candidates: "search_candidates sample_options [] = Inr [''a.de'', ''b.de'', ''c.de'']"
  by code_simp


section \<open>The sample is fair\<close>

text \<open>The equally likely sequences of positions for \<open>n\<close> domains past the limit.\<close>

definition positions :: "nat \<Rightarrow> nat \<Rightarrow> nat list set" where
  "positions limit n = {rs. length rs = n \<and> (\<forall>i < n. rs ! i < limit + i + 1)}"

definition picking :: "nat \<Rightarrow> 'a list \<Rightarrow> 'a list \<Rightarrow> 'a \<Rightarrow> nat list set" where
  "picking limit sampled ds d = {rs \<in> positions limit (length ds). d \<in> set (reservoir limit sampled ds rs)}"

lemma reservoir_snoc:
  "length rs = length ds \<Longrightarrow> reservoir limit sampled (ds @ [x]) (rs @ [r]) =
     (let t = reservoir limit sampled ds rs in if r < limit then t[r := x] else t)"
  by (induction limit sampled ds rs rule: reservoir.induct) (auto simp: Let_def)

lemma positions_snoc: "rs @ [r] \<in> positions limit (Suc n) \<longleftrightarrow> rs \<in> positions limit n \<and> r < limit + n + 1"
  by (auto simp: positions_def nth_append less_Suc_eq)

lemma positions_Suc: "positions limit (Suc n) = (\<lambda>(rs, r). rs @ [r]) ` (SIGMA rs : positions limit n. {..< limit + n + 1})"
proof -
  have "\<exists>rs r. qs = rs @ [r]" if "qs \<in> positions limit (Suc n)" for qs
    using that by (cases qs rule: rev_cases) (auto simp: positions_def)
  then show ?thesis by (force simp: positions_snoc image_iff)
qed

lemma inj_snoc: "inj_on (\<lambda>(rs, r). rs @ [r]) A"
  by (auto intro: inj_onI)

lemma positions_finite: "finite (positions limit n)"
  by (induction n) (simp_all add: positions_Suc, simp add: positions_def)

lemma card_positions_Suc: "card (positions limit (Suc n)) = card (positions limit n) * (limit + n + 1)"
  by (simp add: positions_Suc card_image inj_snoc positions_finite)

lemma picking_snoc:
  "picking limit sampled (ds @ [x]) d = (\<lambda>(rs, r). rs @ [r]) ` (SIGMA rs : positions limit (length ds).
     {r. r < limit + length ds + 1 \<and>
         d \<in> set (let t = reservoir limit sampled ds rs in if r < limit then t[r := x] else t)})"
  unfolding picking_def using positions_Suc [of limit "length ds"]
  by (fastforce simp: positions_snoc reservoir_snoc positions_def image_iff)

text \<open>How many positions keep \<open>d\<close> in a sample \<open>t\<close> when \<open>x\<close> comes along.\<close>

lemma keeping_count:
  assumes "distinct t" "length t = limit" "x \<notin> set t" "d \<noteq> x" "limit \<le> m"
  shows "card {r. r < m + 1 \<and> d \<in> set (if r < limit then t[r := x] else t)} = (if d \<in> set t then m else 0)"
proof (cases "d \<in> set t")
  case True
  then obtain k where k: "k < limit" "t ! k = d" by (metis assms(2) in_set_conv_nth)
  have "d \<in> set (t[r := x]) \<longleftrightarrow> r \<noteq> k" if "r < limit" for r
    using that k assms(1,2,4) by (auto simp: in_set_conv_nth nth_list_update nth_eq_iff_index_eq)
  then have "{r. r < m + 1 \<and> d \<in> set (if r < limit then t[r := x] else t)} = {..< m + 1} - {k}"
    using True k(1) assms(5) by auto
  moreover have "card ({..< m + 1} - {k}) = m"
    using k(1) assms(5) by (subst card_Diff_singleton) auto
  ultimately show ?thesis using True by simp
next
  case False
  have "d \<notin> set (t[r := x])" for r
    using set_update_subset_insert [of t r x] False assms(4) by auto
  with False have none: "{r. r < m + 1 \<and> d \<in> set (if r < limit then t[r := x] else t)} = {}" by auto
  show ?thesis unfolding none using False by simp
qed

lemma picking_count:
  assumes "distinct (sampled @ ds)" "length sampled = limit" "d \<in> set (sampled @ ds)"
  shows "card (picking limit sampled ds d) * (limit + length ds) = limit * card (positions limit (length ds))"
  using assms(1,3)
proof (induction ds rule: rev_induct)
  case Nil
  then have "picking limit sampled [] d = positions limit 0" by (auto simp: picking_def)
  then show ?case by simp
next
  case (snoc x ds)
  let ?n = "length ds" and ?t = "\<lambda>rs. reservoir limit sampled ds rs"
  have t: "distinct (?t rs)" "length (?t rs) = limit" "x \<notin> set (?t rs)" for rs
    using reservoir_from [of limit sampled ds rs] snoc.prems(1) assms(2) by auto
  have count: "card (picking limit sampled (ds @ [x]) d) = (\<Sum>rs \<in> positions limit ?n.
      card {r. r < limit + ?n + 1 \<and> d \<in> set (if r < limit then (?t rs)[r := x] else ?t rs)})"
    by (simp add: picking_snoc card_image inj_snoc Let_def positions_finite)
  show ?case
  proof (cases "d = x")
    case True
    have "{r. r < limit + ?n + 1 \<and> d \<in> set (if r < limit then (?t rs)[r := x] else ?t rs)} = {..< limit}" for rs
      using True t [of rs] by (auto simp: set_update_memI split: if_splits)
    then have "card (picking limit sampled (ds @ [x]) d) = card (positions limit ?n) * limit"
      by (simp add: count)
    then show ?thesis by (simp add: card_positions_Suc algebra_simps)
  next
    case False
    have "card (picking limit sampled (ds @ [x]) d) = (\<Sum>rs \<in> positions limit ?n. if d \<in> set (?t rs) then limit + ?n else 0)"
      unfolding count by (rule sum.cong) (use keeping_count [OF t False, of "limit + ?n"] in auto)
    also have "\<dots> = card (picking limit sampled ds d) * (limit + ?n)"
      by (simp add: picking_def positions_finite sum.If_cases Int_def conj_commute)
    also have "\<dots> = limit * card (positions limit ?n)"
      using snoc.IH snoc.prems False by auto
    finally show ?thesis by (simp add: card_positions_Suc algebra_simps)
  qed
qed

text \<open>
  The sample is fair: over the equally likely sequences of random positions every candidate
  is in the sample equally often, with the share of the limit in the number of candidates.
\<close>

theorem sample_is_fair:
  assumes "distinct ds" "limit \<le> length ds" "d \<in> set ds"
  shows "card {rs \<in> positions limit (length ds - limit). d \<in> set (sample_domains ds limit rs)} * length ds =
    limit * card (positions limit (length ds - limit))"
proof -
  let ?s = "take limit ds" and ?r = "drop limit ds"
  have "distinct (?s @ ?r)" "length ?s = limit" "d \<in> set (?s @ ?r)"
    using assms by simp_all
  note count = picking_count [OF this]
  show ?thesis
  proof (cases "length ds = limit")
    case True
    then have "{rs \<in> positions limit (length ds - limit). d \<in> set (sample_domains ds limit rs)} = positions limit 0"
      using assms(3) by (auto simp: sample_domains_def)
    with True show ?thesis by simp
  next
    case False
    then have "{rs \<in> positions limit (length ds - limit). d \<in> set (sample_domains ds limit rs)} = picking limit ?s ?r d"
      using assms(2) by (auto simp: sample_domains_def picking_def)
    with count assms(2) show ?thesis by simp
  qed
qed

text \<open>Two of four candidates.\<close>

lemma sample_is_fair_witness:
  "card {rs \<in> positions 2 2. (7::nat) \<in> set (sample_domains [5, 6, 7, 8] 2 rs)} * 4 = 2 * card (positions 2 2)"
  using sample_is_fair [of "[5, 6, 7, 8::nat]" 2 7] by (simp add: eval_nat_numeral)

end
