(* ===== verification/Reality_Health.thy ===== *)
theory Reality_Health
  imports Reality
begin

text \<open>
  The hourly check of the configured REALITY target: the stored state of its health
  (\<open>internal/postgres/reality_health_store.go\<close>), the monitor (\<open>internal/reality/health_monitor.go\<close>)
  and the notices to the administrators (\<open>telegram_health_notifier.go\<close>). The probe, the clock and the
  delivery of messages are parameters.
\<close>

section \<open>The stored state\<close>

record health_row =
  hr_target_domain :: string
  hr_healthy :: bool
  hr_last_checked_at :: go_time
  hr_last_transition_at :: go_time
  hr_last_notification_at :: "go_time option"
  hr_notification_pending :: "string option"

type_synonym health_db = "vpn_db \<times> health_row option"

abbreviation "HealthTransitionNone \<equiv> ''none''"
abbreviation "HealthTransitionFailed \<equiv> ''failed''"
abbreviation "HealthTransitionRecovered \<equiv> ''recovered''"
abbreviation "ErrRealityTargetNotConfigured \<equiv> Sentinel ''REALITY target is not configured''"

definition health_row_ok :: "health_row \<Rightarrow> bool" where
  "health_row_ok row \<longleftrightarrow> 4 \<le> length (hr_target_domain row) \<and> length (hr_target_domain row) \<le> 253 \<and>
     hr_notification_pending row \<in> {None, Some HealthTransitionFailed, Some HealthTransitionRecovered} \<and>
     hr_last_transition_at row \<le> hr_last_checked_at row"

definition put_health :: "health_row \<Rightarrow> (health_db, unit) call" where
  "put_health row d = (if health_row_ok row then (Inr (), (fst d, Some row)) else (Inl constraint_violated, d))"

definition validate_target_domain :: "string \<Rightarrow> go_error option" where
  "validate_target_domain target =
     (if target \<noteq> trim_space target \<or> \<not> valid_domain target then Some (Err ''REALITY target domain is invalid'') else None)"

definition current_reality_target :: "(health_db \<times> faults, string) call" where
  "current_reality_target st =
     (case statement (\<lambda>d. (let row = core_settings_table (fst d) in
              if cr_configured row \<and> cr_reality_server row \<noteq> '''' then Inr (cr_reality_server row) else Inl ErrNoRows, d)) st of
        (Inl e, st1) \<Rightarrow>
          (Inl (if errors_is e ''no rows in result set'' then ErrRealityTargetNotConfigured
                else Wrap ''read configured REALITY target'' e), st1)
      | (Inr target, st1) \<Rightarrow>
          if validate_target_domain target \<noteq> None then (Inl (Err ''persisted REALITY target is invalid''), st1)
          else (Inr target, st1))"

definition pending_transition :: "string \<Rightarrow> string option" where
  "pending_transition t = (if t = HealthTransitionFailed \<or> t = HealthTransitionRecovered then Some t else None)"

text \<open>Which transition an observation is, seen from the stored row.\<close>

definition transition_of :: "health_row \<Rightarrow> string \<Rightarrow> bool \<Rightarrow> go_error + string" where
  "transition_of row target healthy =
     (if hr_target_domain row \<noteq> target then Inr (if healthy then HealthTransitionNone else HealthTransitionFailed)
      else if hr_healthy row \<noteq> healthy then Inr (if healthy then HealthTransitionRecovered else HealthTransitionFailed)
      else case hr_notification_pending row of
        None \<Rightarrow> Inr HealthTransitionNone
      | Some p \<Rightarrow>
          if p = HealthTransitionFailed \<or> p = HealthTransitionRecovered then Inr p
          else if p = '''' \<or> p = HealthTransitionNone then Inr HealthTransitionNone
          else Inl (Err ''persisted REALITY health notification state is invalid''))"

definition observed_row :: "health_row \<Rightarrow> string \<Rightarrow> bool \<Rightarrow> go_time \<Rightarrow> string \<Rightarrow> health_row" where
  "observed_row row target healthy now t =
     (let changed = (hr_target_domain row \<noteq> target \<or> hr_healthy row \<noteq> healthy) in
      row\<lparr>hr_target_domain := target, hr_healthy := healthy, hr_last_checked_at := now,
          hr_last_transition_at := (if changed then now else hr_last_transition_at row),
          hr_notification_pending := (if changed then pending_transition t else hr_notification_pending row)\<rparr>)"

definition lock_health :: "(health_db \<times> faults, health_row) call" where
  "lock_health = statement (\<lambda>d. (case snd d of None \<Rightarrow> Inl ErrNoRows | Some row \<Rightarrow> Inr row, d))"

definition first_row :: "string \<Rightarrow> bool \<Rightarrow> go_time \<Rightarrow> string \<Rightarrow> health_row" where
  "first_row target healthy now t = \<lparr>hr_target_domain = target, hr_healthy = healthy, hr_last_checked_at = now,
     hr_last_transition_at = now, hr_last_notification_at = None, hr_notification_pending = pending_transition t\<rparr>"

definition record_health_operation :: "string \<Rightarrow> bool \<Rightarrow> go_time \<Rightarrow> (health_db \<times> faults, string) call" where
  "record_health_operation target healthy now st =
     (case lock_health st of
        (Inl e, st1) \<Rightarrow>
          if errors_is e ''no rows in result set''
          then (let t = (if healthy then HealthTransitionNone else HealthTransitionFailed) in
                and_then (statement (put_health (first_row target healthy now t))) (\<lambda>_. ok t) st1)
          else (Inl (Wrap ''lock REALITY health state'' e), st1)
      | (Inr row, st1) \<Rightarrow>
          (case transition_of row target healthy of
             Inl e \<Rightarrow> (Inl e, st1)
           | Inr t \<Rightarrow> and_then (statement (put_health (observed_row row target healthy now t))) (\<lambda>_. ok t) st1))"

definition record_reality_health :: "string \<Rightarrow> bool \<Rightarrow> go_time \<Rightarrow> (health_db \<times> faults, string) call" where
  "record_reality_health target healthy now =
     (case validate_target_domain target of
        Some e \<Rightarrow> fail_with e
      | None \<Rightarrow>
          if now = 0 then fail_with (Err ''REALITY health observation time is required'')
          else wrapping ''persist REALITY health observation'' (run_in_transaction (record_health_operation target healthy now)))"

definition clear_pending :: "string \<Rightarrow> string \<Rightarrow> go_time \<Rightarrow> health_db \<Rightarrow> health_db" where
  "clear_pending target t now d =
     (case snd d of
        None \<Rightarrow> d
      | Some row \<Rightarrow>
          if hr_target_domain row = target \<and> hr_notification_pending row = Some t
          then (fst d, Some (row\<lparr>hr_notification_pending := None, hr_last_notification_at := Some now\<rparr>))
          else d)"

definition acknowledge_reality_health :: "string \<Rightarrow> string \<Rightarrow> go_time \<Rightarrow> (health_db \<times> faults, unit) call" where
  "acknowledge_reality_health target t now =
     (case validate_target_domain target of
        Some e \<Rightarrow> fail_with e
      | None \<Rightarrow>
          if t \<noteq> HealthTransitionFailed \<and> t \<noteq> HealthTransitionRecovered
          then fail_with (Err ''REALITY health notification transition is invalid'')
          else if now = 0 then fail_with (Err ''REALITY health notification time is required'')
          else run_in_transaction (statement (\<lambda>d. (Inr (), clear_pending target t now d))))"

section \<open>The monitor\<close>

record 'w health_monitor =
  hm_CurrentTarget :: "('w, string) call"
  hm_Probe :: "string \<Rightarrow> ('w, target) call"
  hm_Record :: "string \<Rightarrow> bool \<Rightarrow> go_time \<Rightarrow> ('w, string) call"
  hm_Acknowledge :: "string \<Rightarrow> string \<Rightarrow> go_time \<Rightarrow> ('w, unit) call"
  hm_NotifyFailure :: "string \<Rightarrow> ('w, unit) call"
  hm_NotifyRecovery :: "string \<Rightarrow> ('w, unit) call"
  hm_now :: "'w \<Rightarrow> go_time"

definition probe_healthy :: "string \<Rightarrow> go_error + target \<Rightarrow> bool" where
  "probe_healthy target probe =
     (case probe of Inl e \<Rightarrow> False | Inr t \<Rightarrow> tg_Domain t = target \<and> tg_TLS13 t \<and> 0 < tg_Latency t)"

definition notify_transition :: "'w health_monitor \<Rightarrow> string \<Rightarrow> string \<Rightarrow> go_time \<Rightarrow> ('w, unit) call" where
  "notify_transition hm target t now =
     (if t = HealthTransitionNone then ok ()
      else if t = HealthTransitionFailed
      then and_then (hm_NotifyFailure hm target) (\<lambda>_. hm_Acknowledge hm target t now)
      else if t = HealthTransitionRecovered
      then and_then (hm_NotifyRecovery hm target) (\<lambda>_. hm_Acknowledge hm target t now)
      else fail_with (Err ''persisted REALITY health transition is invalid''))"

definition check_target :: "'w health_monitor \<Rightarrow> string \<Rightarrow> ('w, unit) call" where
  "check_target hm target w =
     (let (probe, w1) = hm_Probe hm target w; now = hm_now hm w1 in
      if now = 0 then (Inl (Err ''REALITY health check time is invalid''), w1)
      else and_then (hm_Record hm target (probe_healthy target probe) now)
             (\<lambda>t. notify_transition hm target t now) w1)"

definition check_health :: "'w health_monitor \<Rightarrow> ('w, unit) call" where
  "check_health hm w =
     (case hm_CurrentTarget hm w of
        (Inl e, w1) \<Rightarrow> (if errors_is e ''REALITY target is not configured'' then Inr () else Inl e, w1)
      | (Inr t, w1) \<Rightarrow>
          (let target = trim_space t in
           if validate_target_domain target \<noteq> None then (Inl (Err ''configured REALITY target is invalid''), w1)
           else check_target hm target w1))"

text \<open>
  \<open>Run\<close>: an error of a check is dropped, and so is one of the wait unless the context is done. \<open>None\<close>
  when the loop still runs after so many rounds.
\<close>

fun run_monitor :: "nat \<Rightarrow> 'w health_monitor \<Rightarrow> ('w \<Rightarrow> bool) \<Rightarrow> (duration \<Rightarrow> ('w, unit) call) \<Rightarrow> 'w \<Rightarrow> unit option \<times> 'w" where
  "run_monitor 0 hm done wait w = (None, w)"
| "run_monitor (Suc n) hm done wait w =
     (if done w then (Some (), w)
      else let w1 = snd (check_health hm w); w2 = snd (wait hour w1) in
           if done w2 then (Some (), w2) else run_monitor n hm done wait w2)"

section \<open>The notices\<close>

record 'w health_notifier =
  hn_ActiveAdministratorIDs :: "('w, int list) call"
  hn_SendMessage :: "int \<Rightarrow> string \<Rightarrow> ('w, unit) call"
  hn_RecordNotification :: "string \<Rightarrow> bool \<Rightarrow> int \<Rightarrow> int \<Rightarrow> go_time \<Rightarrow> ('w, unit) call"
  hn_now :: "'w \<Rightarrow> go_time"

fun send_notices :: "'w health_notifier \<Rightarrow> string \<Rightarrow> int list \<Rightarrow> int \<Rightarrow> 'w \<Rightarrow> int \<times> 'w" where
  "send_notices hn message [] failed w = (failed, w)"
| "send_notices hn message (i # is) failed w =
     (if i \<le> 0 then send_notices hn message is (failed + 1) w
      else case hn_SendMessage hn i message w of
        (Inl _, w1) \<Rightarrow> send_notices hn message is (failed + 1) w1
      | (Inr _, w1) \<Rightarrow> send_notices hn message is failed w1)"

definition notify_health :: "'w health_notifier \<Rightarrow> string \<Rightarrow> bool \<Rightarrow> string \<Rightarrow> ('w, unit) call" where
  "notify_health hn target healthy message w =
     (case validate_target_domain target of
        Some e \<Rightarrow> (Inl e, w)
      | None \<Rightarrow>
     (case hn_ActiveAdministratorIDs hn w of
        (Inl e, w1) \<Rightarrow> (Inl (Wrap ''list REALITY health notification recipients'' e), w1)
      | (Inr is, w1) \<Rightarrow>
          (let (failed, w2) = send_notices hn message is 0 w1; now = hn_now hn w2 in
           if now = 0 then (Inl (Err ''REALITY health notification time is invalid''), w2)
           else wrapping ''record REALITY health notification audit''
                  (hn_RecordNotification hn target healthy (int (length is)) failed now) w2)))"

text \<open>That no notice at all could be delivered is recorded, but it is no error.\<close>

lemma send_notices_failing:
  "(\<And>i w. \<exists>e w1. hn_SendMessage hn i message w = (Inl e, w1)) \<Longrightarrow>
     fst (send_notices hn message is failed w) = failed + int (length is)"
proof (induction "is" arbitrary: failed w)
  case (Cons i "is")
  from Cons.prems [of i w] obtain e w1 where "hn_SendMessage hn i message w = (Inl e, w1)" by blast
  with Cons.IH [OF Cons.prems] show ?case by simp
qed simp

lemma undelivered_notice_succeeds:
  assumes "\<And>i w. \<exists>e w1. hn_SendMessage hn i message w = (Inl e, w1)"
    and "validate_target_domain target = None" "hn_ActiveAdministratorIDs hn w = (Inr is, w1)"
    and "\<And>w. hn_now hn w \<noteq> 0" "\<And>n m t w. \<exists>w1. hn_RecordNotification hn target healthy n m t w = (Inr (), w1)"
  shows "fst (notify_health hn target healthy message w) = Inr ()"
proof -
  obtain failed w2 where send: "send_notices hn message is 0 w1 = (failed, w2)"
    by (cases "send_notices hn message is 0 w1")
  from assms(5) [of "int (length is)" failed "hn_now hn w2" w2] obtain w3 where
    "hn_RecordNotification hn target healthy (int (length is)) failed (hn_now hn w2) w2 = (Inr (), w3)" by blast
  with send assms(2-4) show ?thesis by (simp add: notify_health_def wrapping_def Let_def)
qed

text \<open>\<open>AuditStore.RecordRealityHealthNotification\<close>; the target of the event is not a user.\<close>

definition valid_notification_counts :: "int \<Rightarrow> int \<Rightarrow> bool" where
  "valid_notification_counts attempted failed \<longleftrightarrow> 0 \<le> attempted \<and> 0 \<le> failed \<and> failed \<le> attempted"

definition record_reality_notification :: "string \<Rightarrow> bool \<Rightarrow> int \<Rightarrow> int \<Rightarrow> go_time \<Rightarrow> (vpn_db \<times> faults, unit) call" where
  "record_reality_notification target healthy attempted failed now =
     (if validate_target_domain target \<noteq> None \<or> \<not> valid_notification_counts attempted failed \<or> now = 0
      then fail_with (Err ''REALITY health notification audit is invalid'')
      else wrapping ''record REALITY health notification audit'' (statement (\<lambda>d.
        (Inr (), record_audit 0 (if healthy then ''reality.health.recovery_notification''
                                 else ''reality.health.failure_notification'') 0 d))))"

section \<open>What the administrators were told last\<close>

text \<open>
  The monitor on the stores. The probe, the delivery of a notice and the clock act on a state \<open>'x\<close>;
  the notices that were delivered are kept in a list.
\<close>

record 'x health_side =
  hs_probe :: "string \<Rightarrow> ('x, target) call"
  hs_notify :: "string \<Rightarrow> bool \<Rightarrow> ('x, unit) call"
  hs_now :: "'x \<Rightarrow> go_time"

type_synonym 'x health_world = "(health_db \<times> faults) \<times> 'x \<times> (string \<times> bool) list"

definition on_side :: "('x \<Rightarrow> 'r \<times> 'x) \<Rightarrow> 'x health_world \<Rightarrow> 'r \<times> 'x health_world" where
  "on_side f = with_world (\<lambda>(x, told). let (r, x1) = f x in (r, (x1, told)))"

definition telling :: "'x health_side \<Rightarrow> bool \<Rightarrow> string \<Rightarrow> ('x health_world, unit) call" where
  "telling hs healthy target = with_world (\<lambda>(x, told).
     let (r, x1) = hs_notify hs target healthy x in (r, (x1, if is_ok r then told @ [(target, healthy)] else told)))"

definition stored_monitor :: "'x health_side \<Rightarrow> 'x health_world health_monitor" where
  "stored_monitor hs = \<lparr>hm_CurrentTarget = with_tables current_reality_target,
     hm_Probe = (\<lambda>t. on_side (hs_probe hs t)),
     hm_Record = (\<lambda>t h now. with_tables (record_reality_health t h now)),
     hm_Acknowledge = (\<lambda>t tr now. with_tables (acknowledge_reality_health t tr now)),
     hm_NotifyFailure = telling hs False, hm_NotifyRecovery = telling hs True,
     hm_now = (\<lambda>w. hs_now hs (fst (snd w)))\<rparr>"

definition last_told :: "(string \<times> bool) list \<Rightarrow> bool" where
  "last_told told = (if told = [] then True else snd (last told))"

definition transition_name :: "bool \<Rightarrow> string" where
  "transition_name healthy = (if healthy then HealthTransitionRecovered else HealthTransitionFailed)"

definition notices_agree :: "string \<Rightarrow> health_row option \<Rightarrow> bool \<Rightarrow> bool" where
  "notices_agree target h told =
     (case h of
        None \<Rightarrow> told
      | Some row \<Rightarrow>
          if hr_target_domain row \<noteq> target then told
          else case hr_notification_pending row of
            None \<Rightarrow> told = hr_healthy row
          | Some p \<Rightarrow> p = transition_name (hr_healthy row))"

definition settled_row :: "string \<Rightarrow> bool \<Rightarrow> string \<Rightarrow> health_row option \<Rightarrow> bool" where
  "settled_row target healthy t h \<longleftrightarrow>
     (\<exists>row. h = Some row \<and> hr_target_domain row = target \<and> hr_healthy row = healthy \<and>
        hr_notification_pending row = pending_transition t \<and> (t = HealthTransitionNone \<or> t = transition_name healthy))"

lemma put_health_Inr: "put_health row d = (Inr u, d') \<longleftrightarrow> health_row_ok row \<and> d' = (fst d, Some row)"
  by (auto simp: put_health_def)

lemma put_then:
  "and_then (statement (put_health row)) (\<lambda>_. ok t) s = (Inr x, s') \<Longrightarrow> x = t \<and> fst s' = (fst (fst s), Some row)"
  by (auto simp: put_health_Inr elim!: and_then_InrE dest!: statement_InrD)

lemma read_row:
  assumes "lock_health st = (r, st0)"
  shows "fst st0 = fst st \<and> (\<forall>row. r = Inr row \<longrightarrow> snd (fst st) = Some row) \<and>
    (\<forall>e. r = Inl e \<and> errors_is e ''no rows in result set'' \<longrightarrow> snd (fst st) = None)"
  using assms by (auto simp: lock_health_def statement_def Let_def split: option.splits prod.splits fault.splits)

lemma first_observation:
  "notices_agree target None told \<Longrightarrow> t = (if healthy then HealthTransitionNone else HealthTransitionFailed) \<Longrightarrow>
     settled_row target healthy t (Some (first_row target healthy now t)) \<and>
     notices_agree target (Some (first_row target healthy now t)) told"
  by (simp add: settled_row_def notices_agree_def first_row_def pending_transition_def transition_name_def)

lemma next_observation:
  "notices_agree target (Some row) told \<Longrightarrow> transition_of row target healthy = Inr t \<Longrightarrow>
     settled_row target healthy t (Some (observed_row row target healthy now t)) \<and>
     notices_agree target (Some (observed_row row target healthy now t)) told"
proof -
  assume agree: "notices_agree target (Some row) told" and t: "transition_of row target healthy = Inr t"
  show ?thesis
  proof (cases "hr_target_domain row = target \<and> hr_healthy row = healthy")
    case True
    then have same: "observed_row row target healthy now t = row\<lparr>hr_last_checked_at := now\<rparr>"
      by (simp add: observed_row_def Let_def)
    show ?thesis
    proof (cases "hr_notification_pending row")
      case None
      from True None t have "t = HealthTransitionNone" by (simp add: transition_of_def)
      with True None agree show ?thesis
        unfolding same by (simp add: settled_row_def notices_agree_def pending_transition_def)
    next
      case (Some p)
      with True agree have "p = transition_name healthy" by (simp add: notices_agree_def)
      moreover from True Some t this have "t = transition_name healthy"
        by (cases healthy) (simp_all add: transition_of_def transition_name_def)
      ultimately show ?thesis
        using True Some agree
        unfolding same
        by (cases healthy) (simp_all add: settled_row_def notices_agree_def pending_transition_def transition_name_def)
    qed
  next
    case False
    with t have cases: "(hr_target_domain row \<noteq> target \<and> healthy \<and> t = HealthTransitionNone) \<or> t = transition_name healthy"
      by (cases "hr_target_domain row = target"; cases healthy) (simp_all add: transition_of_def transition_name_def)
    have new: "observed_row row target healthy now t = row\<lparr>hr_target_domain := target, hr_healthy := healthy,
        hr_last_checked_at := now, hr_last_transition_at := now, hr_notification_pending := pending_transition t\<rparr>"
      using False by (auto simp: observed_row_def Let_def)
    have pending: "pending_transition (transition_name healthy) = Some (transition_name healthy)"
      by (cases healthy) (simp_all add: pending_transition_def transition_name_def)
    from cases show ?thesis
    proof
      assume "t = transition_name healthy"
      then show ?thesis unfolding new by (simp add: settled_row_def notices_agree_def pending)
    next
      assume none: "hr_target_domain row \<noteq> target \<and> healthy \<and> t = HealthTransitionNone"
      then have "pending_transition t = None" by (simp add: pending_transition_def)
      with none agree show ?thesis unfolding new by (simp add: settled_row_def notices_agree_def)
    qed
  qed
qed

lemma record_health_operation_effect:
  assumes "record_health_operation target healthy now st = (Inr t, st1)" "notices_agree target (snd (fst st)) told"
  shows "fst (fst st1) = fst (fst st) \<and> settled_row target healthy t (snd (fst st1)) \<and>
    notices_agree target (snd (fst st1)) told"
proof -
  obtain r st0 where read: "lock_health st = (r, st0)"
    by (cases "lock_health st")
  note row = read_row [OF read]
  show ?thesis
  proof (cases r)
    case (Inl e)
    with assms(1) read have e: "errors_is e ''no rows in result set''"
      by (auto simp: record_health_operation_def split: if_splits)
    let ?t = "if healthy then HealthTransitionNone else HealthTransitionFailed"
    from assms(1) read Inl e have "and_then (statement (put_health (first_row target healthy now ?t))) (\<lambda>_. ok ?t) st0 = (Inr t, st1)"
      by (simp add: record_health_operation_def Let_def)
    from put_then [OF this] first_observation [of target told ?t healthy now] assms(2) row Inl e show ?thesis by simp
  next
    case (Inr row1)
    with assms(1) read obtain t' where t': "transition_of row1 target healthy = Inr t'"
      and "and_then (statement (put_health (observed_row row1 target healthy now t'))) (\<lambda>_. ok t') st0 = (Inr t, st1)"
      by (auto simp: record_health_operation_def split: sum.splits)
    from put_then [OF this(2)] next_observation [OF _ t', of told now] assms(2) row Inr show ?thesis by simp
  qed
qed

lemma record_reality_health_effect:
  assumes "record_reality_health target healthy now st = (r, st1)" "notices_agree target (snd (fst st)) told"
  shows "fst (fst st1) = fst (fst st) \<and> notices_agree target (snd (fst st1)) told \<and>
    (\<forall>t. r = Inr t \<longrightarrow> settled_row target healthy t (snd (fst st1)))"
proof (cases "validate_target_domain target = None \<and> now \<noteq> 0")
  case False
  with assms show ?thesis by (auto simp: record_reality_health_def split: option.splits if_splits)
next
  case True
  with assms(1) obtain r' where run: "run_in_transaction (record_health_operation target healthy now) st = (r', st1)"
    and r: "\<And>t. r = Inr t \<Longrightarrow> r' = Inr t"
    by (auto simp: record_reality_health_def elim!: wrappingE)
  obtain d fs d1 fs1 where st: "st = (d, fs)" "st1 = (d1, fs1)" by (metis surj_pair)
  from transaction_outcome [OF run [unfolded st]] consider e where "r' = Inl e" "d1 = d"
    | tr fs2 fs3 where "record_health_operation target healthy now (d, fs2) = (Inr tr, (d1, fs3))"
        "r' = Inr tr \<or> (\<exists>e. r' = Inl e)"
    by blast
  then show ?thesis
  proof cases
    case 1
    with r assms(2) show ?thesis by (auto simp: st)
  next
    case 2
    from record_health_operation_effect [OF 2(1), of told] assms(2) 2(2) r show ?thesis
      by (auto simp: st)
  qed
qed

lemma acknowledge_effect:
  assumes "acknowledge_reality_health target t now st = (r, st1)"
  shows "fst (fst st1) = fst (fst st) \<and>
    (snd (fst st1) = snd (fst st) \<and> (\<forall>u. r = Inr u \<longrightarrow> (\<forall>row. snd (fst st) = Some row \<longrightarrow>
        \<not> (hr_target_domain row = target \<and> hr_notification_pending row = Some t))) \<or>
     (\<exists>row. snd (fst st) = Some row \<and> hr_target_domain row = target \<and> hr_notification_pending row = Some t \<and>
        snd (fst st1) = Some (row\<lparr>hr_notification_pending := None, hr_last_notification_at := Some now\<rparr>)))"
proof (cases "validate_target_domain target = None \<and> (t = HealthTransitionFailed \<or> t = HealthTransitionRecovered) \<and> now \<noteq> 0")
  case False
  with assms show ?thesis by (auto simp: acknowledge_reality_health_def split: option.splits if_splits)
next
  case True
  let ?f = "clear_pending target t now"
  from True assms have run: "run_in_transaction (statement (\<lambda>d. (Inr (), ?f d))) st = (r, st1)"
    by (auto simp: acknowledge_reality_health_def)
  obtain d fs d1 fs1 where st: "st = (d, fs)" "st1 = (d1, fs1)" by (metis surj_pair)
  from transaction_outcome [OF run [unfolded st]]
  have "(\<exists>e. r = Inl e \<and> d1 = d) \<or> d1 = ?f d"
    by (auto dest!: statement_total)
  then show ?thesis by (auto simp: st clear_pending_def split: option.splits if_splits)
qed

text \<open>
  What holds between checks: the target \<open>t\<close> is configured, and what was told last agrees with
  the row or is about to be corrected.
\<close>

definition monitored :: "string \<Rightarrow> 'x health_world \<Rightarrow> bool" where
  "monitored t w \<longleftrightarrow> cr_configured (core_settings_table (fst (fst (fst w)))) \<and>
     cr_reality_server (core_settings_table (fst (fst (fst w)))) = t \<and> t \<noteq> '''' \<and> validate_target_domain t = None \<and>
     notices_agree t (snd (fst (fst w))) (last_told (snd (snd w)))"

lemma last_told_snoc [simp]: "last_told (told @ [(t, healthy)]) = healthy"
  by (simp add: last_told_def)

lemma current_target_effect:
  assumes "current_reality_target st = (r, st1)" "cr_configured (core_settings_table (fst (fst st)))"
    "cr_reality_server (core_settings_table (fst (fst st))) = t" "t \<noteq> ''''"
  shows "fst st1 = fst st \<and> (r = Inr t \<or> (\<exists>e. r = Inl e \<and> \<not> errors_is e ''REALITY target is not configured''))"
  using assms
  by (auto simp: current_reality_target_def statement_def Let_def split: prod.splits fault.splits if_splits)

lemma on_side_frame: "on_side f w = (r, w1) \<Longrightarrow> fst w1 = fst w \<and> snd (snd w1) = snd (snd w)"
  by (auto simp: on_side_def with_world_def split: prod.splits)

lemma telling_effect:
  "telling hs healthy target w = (r, w1) \<Longrightarrow> fst w1 = fst w \<and>
     snd (snd w1) = (if is_ok r then snd (snd w) @ [(target, healthy)] else snd (snd w))"
  by (auto simp: telling_def with_world_def Let_def split: prod.splits)

text \<open>Telling about a settled row.\<close>

lemma notify_transition_settles:
  assumes "notify_transition (stored_monitor hs) t tr now w = (r, w1)"
    and settled: "settled_row t healthy tr (snd (fst (fst w)))" and agree: "notices_agree t (snd (fst (fst w))) (last_told (snd (snd w)))"
  shows "fst (fst (fst w1)) = fst (fst (fst w)) \<and> notices_agree t (snd (fst (fst w1))) (last_told (snd (snd w1))) \<and>
    (r = Inr () \<longrightarrow> settled_row t healthy HealthTransitionNone (snd (fst (fst w1))))"
proof -
  from settled obtain row where row: "snd (fst (fst w)) = Some row" "hr_target_domain row = t" "hr_healthy row = healthy"
      "hr_notification_pending row = pending_transition tr" "tr = HealthTransitionNone \<or> tr = transition_name healthy"
    by (auto simp: settled_row_def)
  show ?thesis
  proof (cases "tr = HealthTransitionNone")
    case True
    with assms show ?thesis by (auto simp: notify_transition_def)
  next
    case False
    with row(5) have tr: "tr = transition_name healthy" by simp
    let ?tell = "telling hs healthy t" and ?ack = "\<lambda>_. with_tables (acknowledge_reality_health t tr now)"
    have pending: "hr_notification_pending row = Some tr"
      using row(4) tr by (cases healthy) (simp_all add: pending_transition_def transition_name_def)
    have "and_then ?tell ?ack w = (r, w1)"
      using assms(1) tr by (cases healthy) (simp_all add: notify_transition_def stored_monitor_def transition_name_def)
    then show ?thesis
    proof (cases rule: and_thenE)
      case (1 e)
      with telling_effect [OF 1(1)] agree show ?thesis by simp
    next
      case (2 u w2)
      note told = telling_effect [OF 2(1)]
      from 2(2) have ack: "acknowledge_reality_health t tr now (fst w2) = (r, fst w1)" and side: "snd w1 = snd w2"
        by (auto simp: with_tables_def Let_def split: prod.splits)
      have h2: "snd (fst (fst w2)) = Some row" using told row(1) by simp
      have agree2: "notices_agree t (Some row) healthy"
        using row(2,3) pending tr by (simp add: notices_agree_def)
      have told2: "last_told (snd (snd w1)) = healthy"
        using told side 2(1) by (simp add: is_ok_def)
      from acknowledge_effect [OF ack] consider
          (kept) "snd (fst (fst w1)) = Some row" "r \<noteq> Inr ()"
        | (cleared) "snd (fst (fst w1)) = Some (row\<lparr>hr_notification_pending := None, hr_last_notification_at := Some now\<rparr>)"
        using h2 row(2) pending by auto
      then show ?thesis
      proof cases
        case kept
        with acknowledge_effect [OF ack] told agree2 told2 show ?thesis by simp
      next
        case cleared
        with acknowledge_effect [OF ack] told told2 row(2,3) show ?thesis
          by (simp add: notices_agree_def settled_row_def pending_transition_def)
      qed
    qed
  qed
qed

lemma stored_monitor_simps:
  "hm_Probe (stored_monitor hs) target = on_side (hs_probe hs target)"
  "hm_Record (stored_monitor hs) target healthy now = with_tables (record_reality_health target healthy now)"
  "hm_now (stored_monitor hs) w = hs_now hs (fst (snd w))"
  by (simp_all add: stored_monitor_def)

lemma check_health_effect:
  assumes "check_health (stored_monitor hs) w = (r, w1)" "monitored t w"
  shows "monitored t w1 \<and> (r = Inr () \<longrightarrow>
    settled_row t (probe_healthy t (fst (hs_probe hs t (fst (snd w))))) HealthTransitionNone (snd (fst (fst w1))))"
proof -
  from assms(2) have t: "validate_target_domain t = None" "trim_space t = t"
    by (auto simp: monitored_def validate_target_domain_def split: if_splits)
  obtain r0 st0 where cur: "current_reality_target (fst w) = (r0, st0)" by (cases "current_reality_target (fst w)")
  with current_target_effect [OF cur] assms(2) have st0: "fst st0 = fst (fst w)"
    and r0: "r0 = Inr t \<or> (\<exists>e. r0 = Inl e \<and> \<not> errors_is e ''REALITY target is not configured'')"
    by (auto simp: monitored_def)
  let ?w0 = "(st0, snd w)"
  have step: "hm_CurrentTarget (stored_monitor hs) w = (r0, ?w0)"
    by (simp add: stored_monitor_def with_tables_def cur)
  have mon0: "monitored t ?w0" using assms(2) st0 by (simp add: monitored_def)
  from r0 show ?thesis
  proof
    assume "\<exists>e. r0 = Inl e \<and> \<not> errors_is e ''REALITY target is not configured''"
    with assms(1) step mon0 show ?thesis by (auto simp: check_health_def)
  next
    assume "r0 = Inr t"
    with assms(1) step t have check: "check_target (stored_monitor hs) t ?w0 = (r, w1)"
      by (simp add: check_health_def)
    obtain probe w2 where probe: "on_side (hs_probe hs t) ?w0 = (probe, w2)" by (cases "on_side (hs_probe hs t) ?w0")
    have p: "probe = fst (hs_probe hs t (fst (snd w)))"
      using probe by (auto simp: on_side_def with_world_def Let_def split: prod.splits)
    note w2 = on_side_frame [OF probe]
    let ?now = "hs_now hs (fst (snd w2))" and ?healthy = "probe_healthy t probe"
    have mon2: "monitored t w2" using mon0 w2 by (simp add: monitored_def)
    show ?thesis
    proof (cases "?now = 0")
      case True
      with check probe mon2 show ?thesis by (auto simp: check_target_def stored_monitor_simps)
    next
      case False
      with check probe have "and_then (with_tables (record_reality_health t ?healthy ?now))
          (\<lambda>tr. notify_transition (stored_monitor hs) t tr ?now) w2 = (r, w1)"
        by (simp add: check_target_def stored_monitor_simps Let_def)
      then show ?thesis
      proof (cases rule: and_thenE)
        case (1 e)
        then have "record_reality_health t ?healthy ?now (fst w2) = (Inl e, fst w1)" "snd w1 = snd w2"
          by (auto simp: with_tables_def Let_def split: prod.splits)
        from record_reality_health_effect [OF this(1)] this(2) mon2 1(2) show ?thesis by (auto simp: monitored_def)
      next
        case (2 tr w3)
        then have rec: "record_reality_health t ?healthy ?now (fst w2) = (Inr tr, fst w3)" "snd w3 = snd w2"
          by (auto simp: with_tables_def Let_def split: prod.splits)
        from record_reality_health_effect [OF rec(1)] rec(2) mon2 have
          w3: "fst (fst (fst w3)) = fst (fst (fst w2))" "settled_row t ?healthy tr (snd (fst (fst w3)))"
            "notices_agree t (snd (fst (fst w3))) (last_told (snd (snd w3)))"
          by (auto simp: monitored_def)
        from notify_transition_settles [OF 2(2) w3(2,3)] w3(1) mon2 p show ?thesis by (auto simp: monitored_def)
      qed
    qed
  qed
qed

lemma run_monitor_monitored:
  "run_monitor n (stored_monitor hs) done (\<lambda>d. on_side (wait d)) w = (res, w1) \<Longrightarrow> monitored t w \<Longrightarrow> monitored t w1"
proof (induction n arbitrary: w)
  case (Suc n)
  obtain r1 w2 where check: "check_health (stored_monitor hs) w = (r1, w2)" by (cases "check_health (stored_monitor hs) w")
  obtain r2 w3 where wait: "on_side (wait hour) w2 = (r2, w3)" by (cases "on_side (wait hour) w2")
  from check_health_effect [OF check Suc.prems(2)] on_side_frame [OF wait] have "monitored t w3"
    by (simp add: monitored_def)
  with Suc check wait show ?case by (auto simp: Let_def split: if_splits)
qed simp

text \<open>
  The administrators end up knowing the state of the target. Let the monitor run for any
  number of rounds on a configured target that the database has no health row of yet, whatever
  statements, commits, probes, notices and waits fail. Whenever a check then returns without an
  error, the stored health is the verdict of its probe, no notice is pending, and the last notice
  that was delivered says the same as the stored health; without any notice the target is healthy.
\<close>

theorem health_notices_settle:
  assumes "cr_configured (core_settings_table d)" "cr_reality_server (core_settings_table d) = t" "t \<noteq> ''''"
    and "validate_target_domain t = None" "\<And>row. h = Some row \<Longrightarrow> hr_target_domain row \<noteq> t"
    and "run_monitor n (stored_monitor hs) done (\<lambda>d. on_side (wait d)) (((d, h), fs), (x, [])) = (res, w1)"
    and "check_health (stored_monitor hs) w1 = (Inr (), w2)"
  shows "\<exists>row. snd (fst (fst w2)) = Some row \<and> hr_target_domain row = t \<and> hr_notification_pending row = None \<and>
    hr_healthy row = probe_healthy t (fst (hs_probe hs t (fst (snd w1)))) \<and>
    last_told (snd (snd w2)) = hr_healthy row"
proof -
  have "monitored t (((d, h), fs), (x, []))"
    using assms(1-5) by (auto simp: monitored_def notices_agree_def last_told_def split: option.splits)
  from check_health_effect [OF assms(7) run_monitor_monitored [OF assms(6) this]] show ?thesis
    by (auto simp: settled_row_def monitored_def notices_agree_def pending_transition_def)
qed

text \<open>A target that does not answer, while the first read of a row is lost.\<close>

definition sample_target_db :: vpn_db where
  "sample_target_db = sample_served_db\<lparr>core_settings_table :=
     core_settings_defaults\<lparr>cr_configured := True, cr_reality_server := ''a.de''\<rparr>\<rparr>"

definition dead_target :: "unit health_side" where
  "dead_target = \<lparr>hs_probe = (\<lambda>t x. (Inl (Err ''timeout''), x)), hs_notify = (\<lambda>t h x. (Inr (), x)), hs_now = (\<lambda>x. 7)\<rparr>"

abbreviation "first_round \<equiv> run_monitor 1 (stored_monitor dead_target) (\<lambda>w. False) (\<lambda>d. on_side (\<lambda>x. (Inr (), x)))
  (((sample_target_db, None), [Fine, Fine, Lost ''reset'']), ((), []))"

lemma dead_target_checked: "fst (check_health (stored_monitor dead_target) (snd first_round)) = Inr ()"
  by code_simp

lemma health_notices_settle_witness:
  "\<exists>w2. check_health (stored_monitor dead_target) (snd first_round) = (Inr (), w2) \<and> last_told (snd (snd w2)) = False"
proof -
  obtain res w1 where run: "first_round = (res, w1)" by (cases first_round)
  then obtain w2 where check: "check_health (stored_monitor dead_target) w1 = (Inr (), w2)"
    using dead_target_checked by (metis prod.collapse snd_conv)
  have "validate_target_domain ''a.de'' = None" by code_simp
  from health_notices_settle [OF _ _ _ this _ run check] have "last_told (snd (snd w2)) = False"
    by (auto simp: sample_target_db_def dead_target_def probe_healthy_def)
  with run check show ?thesis by simp
qed

end
