(* ===== verification/Notices.thy ===== *)
theory Notices
  imports Reality_Health Traffic_Runner Core_Worker
begin

text \<open>
  The audit store (\<open>internal/postgres/audit_store.go\<close>), the notices of the core worker
  (\<open>internal/coreworker/telegram_notifier.go\<close>) and of the traffic service
  (\<open>internal/trafficrunner/telegram_notifier.go\<close>), and the loops that drive the traffic service and
  the quota sweep (\<open>trafficrunner/service.go\<close>, \<open>internal/quotasweep/scheduler.go\<close>). The wording of a
  notice is a parameter; an audit event keeps the actor, the action and the target user.
\<close>

section \<open>The audit store\<close>

definition record_login_attempt :: "int \<Rightarrow> ip_addr option \<Rightarrow> bool \<Rightarrow> go_time \<Rightarrow> (vpn_db \<times> faults, unit) call" where
  "record_login_attempt telegramID sourceIP succeeded at =
     (if telegramID \<le> 0 \<or> sourceIP = None \<or> at = 0 then fail_with (Err ''login audit is invalid'')
      else wrapping ''record login audit'' (statement (\<lambda>d.
        (Inr (), record_audit 0 (if succeeded then ''auth.login.success'' else ''auth.login.failure'') telegramID d))))"

definition record_planned_restart_notification :: "int \<Rightarrow> int \<Rightarrow> go_time \<Rightarrow> (vpn_db \<times> faults, unit) call" where
  "record_planned_restart_notification attempted failed at =
     (if \<not> valid_notification_counts attempted failed \<or> at = 0
      then fail_with (Err ''planned restart notification audit is invalid'')
      else wrapping ''record planned restart notification audit'' (statement (\<lambda>d.
        (Inr (), record_audit 0 ''core.planned_restart_notification'' 0 d))))"

definition record_core_failure_notification ::
    "core_failure_code \<Rightarrow> int \<Rightarrow> int \<Rightarrow> go_time \<Rightarrow> (vpn_db \<times> faults, unit) call" where
  "record_core_failure_notification failure attempted failed at =
     (if \<not> valid_core_failure failure \<or> \<not> valid_notification_counts attempted failed \<or> at = 0
      then fail_with (Err ''core failure notification audit is invalid'')
      else wrapping ''record core failure notification audit'' (statement (\<lambda>d.
        (Inr (), record_audit 0 ''core.failure_notification'' 0 d))))"

definition record_traffic_failure_notification ::
    "string \<Rightarrow> bool \<Rightarrow> int \<Rightarrow> int \<Rightarrow> go_time \<Rightarrow> (vpn_db \<times> faults, unit) call" where
  "record_traffic_failure_notification stage failClosed attempted failed at =
     (if \<not> valid_traffic_failure_stage stage \<or> \<not> valid_notification_counts attempted failed \<or> at = 0
      then fail_with (Err ''traffic failure notification audit is invalid'')
      else wrapping ''record traffic failure notification audit'' (statement (\<lambda>d.
        (Inr (), record_audit 0 ''traffic.failure_notification'' 0 d))))"

definition record_traffic_recovery_notification ::
    "bool \<Rightarrow> int \<Rightarrow> int \<Rightarrow> go_time \<Rightarrow> (vpn_db \<times> faults, unit) call" where
  "record_traffic_recovery_notification wasFailClosed attempted failed at =
     (if \<not> valid_notification_counts attempted failed \<or> at = 0
      then fail_with (Err ''traffic recovery notification audit is invalid'')
      else wrapping ''record traffic recovery notification audit'' (statement (\<lambda>d.
        (Inr (), record_audit 0 ''traffic.recovery_notification'' 0 d))))"

text \<open>
  \<open>List\<close>: the newest events first, those before an identity if one is given. The identity of an
  event is its position; a null actor is \<open>0\<close>. The check of the rows that Go makes again refuses
  what the columns allow: a blank action.
\<close>

type_synonym audit_entry = "int \<times> int \<times> string \<times> int"

definition audit_entries :: "vpn_db \<Rightarrow> audit_entry list" where
  "audit_entries d = map (\<lambda>(k, e). (int k, e)) (rev (enumerate 1 (audit_events d)))"

fun valid_audit_entries :: "int option \<Rightarrow> audit_entry list \<Rightarrow> bool" where
  "valid_audit_entries previous [] = True"
| "valid_audit_entries previous ((i, actor, action, target) # es) =
     (0 < i \<and> (case previous of None \<Rightarrow> True | Some p \<Rightarrow> i < p) \<and> 0 \<le> actor \<and> \<not> blank action \<and>
      valid_audit_entries (Some i) es)"

definition list_audit :: "int \<Rightarrow> int \<Rightarrow> (vpn_db \<times> faults, audit_entry list) call" where
  "list_audit before limit =
     (if before < 0 \<or> limit < 1 \<or> 200 < limit then fail_with (Err ''audit list window is invalid'')
      else and_then (wrapping ''list audit events'' (statement (\<lambda>d.
             (Inr (take (nat limit) (filter (\<lambda>(i, e). before = 0 \<or> i < before) (audit_entries d))), d))))
           (\<lambda>events. if valid_audit_entries None events then ok events
                     else fail_with (Err ''persisted audit event is invalid'')))"

section \<open>Notices of the core worker\<close>

record 'w core_notifier =
  cn_ActiveVPNUserIDs :: "('w, int list) call"
  cn_ActiveAdministratorIDs :: "('w, int list) call"
  cn_SendMessage :: "int \<Rightarrow> string \<Rightarrow> ('w, unit) call"
  cn_RecordPlannedRestart :: "int \<Rightarrow> int \<Rightarrow> go_time \<Rightarrow> ('w, unit) call"
  cn_RecordCoreFailure :: "core_failure_code \<Rightarrow> int \<Rightarrow> int \<Rightarrow> go_time \<Rightarrow> ('w, unit) call"
  cn_now :: "'w \<Rightarrow> go_time"
  cn_plannedRestartMessage :: string
  cn_failureMessage :: "core_failure_code \<Rightarrow> string"

text \<open>\<open>send\<close>: how many failed, the errors, in order.\<close>

fun send_core_notices :: "'w core_notifier \<Rightarrow> string \<Rightarrow> int list \<Rightarrow> 'w \<Rightarrow> (int \<times> go_error list) \<times> 'w" where
  "send_core_notices cn message [] w = ((0, []), w)"
| "send_core_notices cn message (i # is) w =
     (if i \<le> 0 then
        (let ((failed, es), w1) = send_core_notices cn message is w
         in ((failed + 1, Err ''notification recipient is invalid'' # es), w1))
      else case cn_SendMessage cn i message w of
        (Inl e, w1) \<Rightarrow>
          (let ((failed, es), w2) = send_core_notices cn message is w1
           in ((failed + 1, Wrap (''send core notification to '' @ format_int i) e # es), w2))
      | (Inr _, w1) \<Rightarrow> send_core_notices cn message is w1)"

definition send_and_record ::
    "'w core_notifier \<Rightarrow> string \<Rightarrow> string \<Rightarrow> (int \<Rightarrow> int \<Rightarrow> go_time \<Rightarrow> ('w, unit) call) \<Rightarrow> int list \<Rightarrow> ('w, unit) call" where
  "send_and_record cn message what recorder recipients w =
     (let ((failed, es), w1) = send_core_notices cn message recipients w; at = cn_now cn w1;
          (recorded, w2) = (if at = 0 then (Inl (Err ''notification time is invalid''), w1)
                            else wrapping what (recorder (int (length recipients)) failed at) w1)
      in (case errors_join (map Some es @ [err_of recorded]) of None \<Rightarrow> Inr () | Some e \<Rightarrow> Inl e, w2))"

definition notify_planned_restart :: "'w core_notifier \<Rightarrow> ('w, unit) call" where
  "notify_planned_restart cn w =
     (case cn_ActiveVPNUserIDs cn w of
        (Inl e, w1) \<Rightarrow> (Inl (Wrap ''list active VPN users'' e), w1)
      | (Inr recipients, w1) \<Rightarrow>
          send_and_record cn (cn_plannedRestartMessage cn) ''record planned restart notification''
            (cn_RecordPlannedRestart cn) recipients w1)"

definition notify_core_failure :: "'w core_notifier \<Rightarrow> core_failure_code \<Rightarrow> ('w, unit) call" where
  "notify_core_failure cn failure w =
     (if \<not> valid_core_failure failure then (Inl (Err ''core failure code is invalid''), w)
      else case cn_ActiveAdministratorIDs cn w of
        (Inl e, w1) \<Rightarrow> (Inl (Wrap ''list active administrators'' e), w1)
      | (Inr recipients, w1) \<Rightarrow>
          send_and_record cn (cn_failureMessage cn failure) ''record core failure notification''
            (cn_RecordCoreFailure cn failure) recipients w1)"

section \<open>Notices of the traffic service\<close>

record 'w fault_notifier =
  fn_ActiveAdministratorIDs :: "('w, int list) call"
  fn_SendMessage :: "int \<Rightarrow> string \<Rightarrow> ('w, unit) call"
  fn_RecordFailure :: "string \<Rightarrow> bool \<Rightarrow> int \<Rightarrow> int \<Rightarrow> go_time \<Rightarrow> ('w, unit) call"
  fn_RecordRecovery :: "bool \<Rightarrow> int \<Rightarrow> int \<Rightarrow> go_time \<Rightarrow> ('w, unit) call"
  fn_now :: "'w \<Rightarrow> go_time"
  fn_failureMessage :: "string \<Rightarrow> bool \<Rightarrow> string"
  fn_recoveryMessage :: string

fun count_undelivered :: "'w fault_notifier \<Rightarrow> string \<Rightarrow> int list \<Rightarrow> 'w \<Rightarrow> int \<times> 'w" where
  "count_undelivered fn message [] w = (0, w)"
| "count_undelivered fn message (i # is) w =
     (if i \<le> 0 then (let (n, w1) = count_undelivered fn message is w in (n + 1, w1))
      else case fn_SendMessage fn i message w of
        (Inl e, w1) \<Rightarrow> (let (n, w2) = count_undelivered fn message is w1 in (n + 1, w2))
      | (Inr _, w1) \<Rightarrow> count_undelivered fn message is w1)"

definition send_and_audit ::
    "'w fault_notifier \<Rightarrow> string \<Rightarrow> (int \<Rightarrow> int \<Rightarrow> go_time \<Rightarrow> ('w, unit) call) \<Rightarrow> ('w, unit) call" where
  "send_and_audit fn message recorder w =
     (case fn_ActiveAdministratorIDs fn w of
        (Inl e, w1) \<Rightarrow> (Inl (Err ''list traffic notification recipients failed''), w1)
      | (Inr ids, w1) \<Rightarrow>
          (let (failed, w2) = count_undelivered fn message ids w1; at = fn_now fn w2 in
           if at = 0 then (Inl (Err ''traffic notification time is invalid''), w2)
           else
             (let (audited, w3) = recorder (int (length ids)) failed at w2 in
              if 0 < failed
              then (case errors_join [Some (Err ''one or more traffic notifications failed''), err_of audited] of
                      None \<Rightarrow> (Inr (), w3) | Some e \<Rightarrow> (Inl e, w3))
              else (audited, w3))))"

definition notify_traffic_failure :: "'w fault_notifier \<Rightarrow> string \<times> bool \<times> go_time \<Rightarrow> ('w, unit) call" where
  "notify_traffic_failure fn notification =
     (let (stage, failClosed, startedAt) = notification in
      if \<not> valid_failure_stage stage \<or> startedAt = 0
      then fail_with (Err ''traffic failure notification is invalid'')
      else send_and_audit fn (fn_failureMessage fn stage failClosed) (fn_RecordFailure fn stage failClosed))"

definition notify_traffic_recovery :: "'w fault_notifier \<Rightarrow> traffic_fault_recovery \<Rightarrow> ('w, unit) call" where
  "notify_traffic_recovery fn recovery =
     (if \<not> fr_Recovered recovery \<or> fr_StartedAt recovery = 0
      then fail_with (Err ''traffic recovery notification is invalid'')
      else send_and_audit fn (fn_recoveryMessage fn) (fn_RecordRecovery fn (fr_WasFailClosed recovery)))"

section \<open>The loop of the traffic service\<close>

text \<open>
  \<open>Service.Run\<close>: a step every 15 seconds until the context is done, for at most as many rounds as
  the fuel says (\<open>None\<close>: still running). The error of a step is dropped.
\<close>

fun run_traffic_service ::
    "nat \<Rightarrow> (go_time \<Rightarrow> ('w, unit) call) \<Rightarrow> ('w \<Rightarrow> go_time) \<Rightarrow> ('w \<Rightarrow> bool) \<Rightarrow> (duration \<Rightarrow> ('w, unit) call)
       \<Rightarrow> 'w \<Rightarrow> (go_error + unit) option \<times> 'w" where
  "run_traffic_service 0 step now done wait w = (None, w)"
| "run_traffic_service (Suc n) step now done wait w =
     (if done w then (Some (Inr ()), w)
      else case wait (15 * second) (snd (step (now w) w)) of
        (Inl e, w2) \<Rightarrow> (Some (if done w2 then Inr () else Inl e), w2)
      | (Inr _, w2) \<Rightarrow> run_traffic_service n step now done wait w2)"

end
