(* ===== verification/Qualification.thy ===== *)
theory Qualification
  imports Telegram Access_Store
begin

unbundle bit_operations_syntax

text \<open>
  The qualification of users (\<open>internal/qualification\<close>) and its stores
  (\<open>internal/postgres/qualification_store.go\<close>, \<open>qualification_rule_store.go\<close>): the rate-limited
  lookup of chat members, the check of the rules, the handler of membership events, the
  periodic recheck of all users and the management of the rules. The database and Telegram are
  a state \<open>'w\<close>; what a component calls is a parameter that changes it.
\<close>

section \<open>Looking up a member, with retries\<close>

definition maxMembershipAttempts :: nat where
  "maxMembershipAttempts = 5"

record 'w lookup_env =
  lk_GetChatMember :: "int \<Rightarrow> int \<Rightarrow> 'w \<Rightarrow> (telegram_error + chat_member) \<times> 'w"
  lk_wait :: "duration \<Rightarrow> 'w \<Rightarrow> go_error option \<times> 'w"
  lk_now :: "'w \<Rightarrow> go_time"
  lk_jitter :: "duration \<Rightarrow> 'w \<Rightarrow> duration \<times> 'w"

record retrying_member_lookup =
  rt_interval :: duration
  rt_nextRequest :: go_time

definition new_retrying_member_lookup :: "int \<Rightarrow> go_error + retrying_member_lookup" where
  "new_retrying_member_lookup requestsPerSecond =
     (if requestsPerSecond < 1 \<or> 20 < requestsPerSecond
      then Inl (Err ''membership request rate must be between 1 and 20 per second'')
      else Inr \<lparr>rt_interval = go_div second requestsPerSecond, rt_nextRequest = 0\<rparr>)"

text \<open>The slot that a request at \<open>now\<close> is given.\<close>

definition request_at :: "retrying_member_lookup \<Rightarrow> go_time \<Rightarrow> go_time" where
  "request_at l now = (if now < rt_nextRequest l then rt_nextRequest l else now)"

definition wait_for_rate ::
    "'w lookup_env \<Rightarrow> retrying_member_lookup \<times> 'w \<Rightarrow> go_error option \<times> (retrying_member_lookup \<times> 'w)" where
  "wait_for_rate env st =
     (let (l, w) = st; now = lk_now env w; requestAt = request_at l now;
          l1 = l\<lparr>rt_nextRequest := requestAt + rt_interval l\<rparr>; delay = time_sub requestAt now
      in if 0 < delay then (let (r, w1) = lk_wait env delay w in (r, (l1, w1))) else (None, (l1, w)))"

text \<open>The pause after a temporary error of attempt number \<open>attempt\<close>.\<close>

definition membership_retry_delay :: "'w lookup_env \<Rightarrow> telegram_error \<Rightarrow> nat \<Rightarrow> 'w \<Rightarrow> duration \<times> 'w" where
  "membership_retry_delay env err attempt w =
     (case retry_after err of
        Some delay \<Rightarrow> (delay, w)
      | None \<Rightarrow>
          let delay = second * 2 ^ attempt; maximumJitter = go_div delay 2; (jitter, w1) = lk_jitter env maximumJitter w
          in (if 0 < jitter \<and> jitter < maximumJitter then delay + jitter else delay, w1))"

function member_attempts ::
    "'w lookup_env \<Rightarrow> int \<Rightarrow> int \<Rightarrow> nat \<Rightarrow> retrying_member_lookup \<times> 'w
       \<Rightarrow> (telegram_error + chat_member) \<times> (retrying_member_lookup \<times> 'w)" where
  "member_attempts env chatID userID attempt st =
     (if maxMembershipAttempts \<le> attempt
      then (Inl (OtherError (Err ''membership retry attempts exhausted'')), st)
      else case wait_for_rate env st of
        (Some e, st1) \<Rightarrow> (Inl (OtherError e), st1)
      | (None, (l1, w1)) \<Rightarrow>
     (case lk_GetChatMember env chatID userID w1 of
        (Inr member, w2) \<Rightarrow> (Inr member, (l1, w2))
      | (Inl err, w2) \<Rightarrow>
          if \<not> is_temporary err \<or> attempt = maxMembershipAttempts - 1 then (Inl err, (l1, w2))
          else case membership_retry_delay env err attempt w2 of
            (delay, w3) \<Rightarrow>
         (case lk_wait env delay w3 of
            (Some e, w4) \<Rightarrow> (Inl (OtherError e), (l1, w4))
          | (None, w4) \<Rightarrow> member_attempts env chatID userID (Suc attempt) (l1, w4))))"
  by pat_completeness auto
termination
  by (relation "measure (\<lambda>(env, chatID, userID, attempt, st). maxMembershipAttempts - attempt)") auto

declare member_attempts.simps [simp del]

text \<open>\<open>GetChatMember\<close> of the retrying lookup\<close>

definition get_member_retrying ::
    "'w lookup_env \<Rightarrow> int \<Rightarrow> int \<Rightarrow> retrying_member_lookup \<times> 'w
       \<Rightarrow> (telegram_error + chat_member) \<times> (retrying_member_lookup \<times> 'w)" where
  "get_member_retrying env chatID userID = member_attempts env chatID userID 0"

section \<open>Checking the rules\<close>

type_synonym indeterminate_reason = "8 word"

definition IndeterminateTelegramTemporary :: indeterminate_reason where
  "IndeterminateTelegramTemporary = 1"

definition IndeterminateUnknownMembership :: indeterminate_reason where
  "IndeterminateUnknownMembership = 2"

record qualification_evaluation =
  qe_Decision :: qualification_decision
  qe_IndeterminateReason :: indeterminate_reason

abbreviation no_decision :: qualification_decision where
  "no_decision \<equiv> OtherDecision ''''"

record 'w checker =
  ck_ActiveRules :: "'w \<Rightarrow> (go_error + (qualification_mode \<times> int list)) \<times> 'w"
  ck_GetChatMember :: "int \<Rightarrow> int \<Rightarrow> 'w \<Rightarrow> (telegram_error + chat_member) \<times> 'w"

text \<open>
  The loop over the rules: \<open>observed\<close> is the chat of the event and its result. The reasons that
  were found are added up on the way.
\<close>

fun scan_rules ::
    "'w checker \<Rightarrow> int \<Rightarrow> (int \<times> membership_result) option \<Rightarrow> int list \<Rightarrow> indeterminate_reason \<Rightarrow> 'w
       \<Rightarrow> (go_error + (membership_result list \<times> indeterminate_reason)) \<times> 'w" where
  "scan_rules ck telegramID observed [] reason w = (Inr ([], reason), w)"
| "scan_rules ck telegramID observed (chatID # rules) reason w =
     (let go_on = (\<lambda>result reason1 w1.
            (case scan_rules ck telegramID observed rules reason1 w1 of
               (Inl e, w2) \<Rightarrow> (Inl e, w2)
             | (Inr (results, reason2), w2) \<Rightarrow> (Inr (result # results, reason2), w2)));
          flag = (\<lambda>result. if result = IndeterminateMember then reason OR IndeterminateUnknownMembership else reason)
      in if chatID = 0 then (Inl (Err ''qualification rule chat ID must not be zero''), w)
         else if map_option fst observed = Some chatID
         then (case the observed of (_, result) \<Rightarrow>
                 (case result of
                    OtherMembership s \<Rightarrow> (Inl (Err ''membership event result is invalid''), w)
                  | _ \<Rightarrow> go_on result (flag result) w))
         else case ck_GetChatMember ck chatID telegramID w of
           (Inl err, w1) \<Rightarrow>
             if is_temporary err then go_on IndeterminateMember (reason OR IndeterminateTelegramTemporary) w1
             else (Inl (Wrap ''query Telegram chat membership'' (error_text err)), w1)
         | (Inr member, w1) \<Rightarrow> go_on (membership_result_of member) (flag (membership_result_of member)) w1)"

definition evaluate_rules_detailed ::
    "'w checker \<Rightarrow> int \<Rightarrow> qualification_mode \<Rightarrow> int list \<Rightarrow> (int \<times> membership_result) option \<Rightarrow> 'w
       \<Rightarrow> (go_error + qualification_evaluation) \<times> 'w" where
  "evaluate_rules_detailed ck telegramID mode rules observed w =
     (case scan_rules ck telegramID observed rules 0 w of
        (Inl e, w1) \<Rightarrow> (Inl e, w1)
      | (Inr (results, reason), w1) \<Rightarrow>
     (case evaluate_qualification mode results of
        Inl e \<Rightarrow> (Inl (Wrap ''evaluate qualification'' e), w1)
      | Inr decision \<Rightarrow>
          (Inr \<lparr>qe_Decision = decision,
             qe_IndeterminateReason = (if decision \<noteq> IndeterminateDecision then 0 else reason)\<rparr>, w1)))"

definition evaluate_detailed :: "'w checker \<Rightarrow> int \<Rightarrow> ('w, qualification_evaluation) call" where
  "evaluate_detailed ck telegramID w =
     (if telegramID \<le> 0 then (Inl (Err ''Telegram ID must be positive''), w)
      else case ck_ActiveRules ck w of
        (Inl e, w1) \<Rightarrow> (Inl (Wrap ''load qualification rules'' e), w1)
      | (Inr (mode, rules), w1) \<Rightarrow> evaluate_rules_detailed ck telegramID mode rules None w1)"

definition evaluate_member :: "'w checker \<Rightarrow> int \<Rightarrow> ('w, qualification_decision) call" where
  "evaluate_member ck telegramID w =
     (case evaluate_detailed ck telegramID w of
        (Inl e, w1) \<Rightarrow> (Inl e, w1) | (Inr ev, w1) \<Rightarrow> (Inr (qe_Decision ev), w1))"

text \<open>\<open>EvaluateEvent\<close>: \<open>None\<close> when the chat is none of the rules' (\<open>handled\<close> is false).\<close>

definition evaluate_event ::
    "'w checker \<Rightarrow> int \<Rightarrow> int \<Rightarrow> membership_result \<Rightarrow> ('w, qualification_decision option) call" where
  "evaluate_event ck chatID telegramID result w =
     (if telegramID \<le> 0 \<or> chatID = 0 then (Inl (Err ''membership event identifiers are invalid''), w)
      else case ck_ActiveRules ck w of
        (Inl e, w1) \<Rightarrow> (Inl (Wrap ''load qualification rules'' e), w1)
      | (Inr (mode, rules), w1) \<Rightarrow>
          if \<not> list_ex (\<lambda>rule. rule = chatID) rules then (Inr None, w1)
          else case evaluate_rules_detailed ck telegramID mode rules (Some (chatID, result)) w1 of
            (Inl e, w2) \<Rightarrow> (Inl e, w2)
          | (Inr ev, w2) \<Rightarrow> (Inr (Some (qe_Decision ev)), w2))"

type_synonym 'w decision_writer = "int \<Rightarrow> qualification_decision \<Rightarrow> ('w, access_change) call"

definition handle_membership ::
    "'w checker \<Rightarrow> 'w decision_writer \<Rightarrow> int \<Rightarrow> int \<Rightarrow> membership_result \<Rightarrow> ('w, unit) call" where
  "handle_membership ck write chatID telegramID result w =
     (case evaluate_event ck chatID telegramID result w of
        (Inl e, w1) \<Rightarrow> (Inl (Wrap ''evaluate membership event'' e), w1)
      | (Inr None, w1) \<Rightarrow> (Inr (), w1)
      | (Inr (Some decision), w1) \<Rightarrow>
          if decision = IndeterminateDecision then (Inr (), w1)
          else case write telegramID decision w1 of
            (Inl e, w2) \<Rightarrow> (Inl (Wrap ''persist qualification decision'' e), w2)
          | (Inr change, w2) \<Rightarrow> (Inr (), w2))"

section \<open>The recheck of all users\<close>

record recheck_summary =
  rs_Checked :: int
  rs_Eligible :: int
  rs_Ineligible :: int
  rs_Indeterminate :: int
  rs_Revocations :: int
  rs_TelegramTemporary :: int
  rs_UnknownMembership :: int
  rs_UnclassifiedIndeterminate :: int

definition empty_summary :: recheck_summary where
  "empty_summary = \<lparr>rs_Checked = 0, rs_Eligible = 0, rs_Ineligible = 0, rs_Indeterminate = 0, rs_Revocations = 0,
     rs_TelegramTemporary = 0, rs_UnknownMembership = 0, rs_UnclassifiedIndeterminate = 0\<rparr>"

text \<open>An evaluator may be detailed; \<open>evaluateForRecheck\<close> asks which it is.\<close>

datatype 'w evaluator =
    Detailed "int \<Rightarrow> ('w, qualification_evaluation) call"
  | Plain "int \<Rightarrow> ('w, qualification_decision) call"

definition evaluate_for_recheck :: "'w evaluator \<Rightarrow> int \<Rightarrow> ('w, qualification_evaluation) call" where
  "evaluate_for_recheck ev telegramID w =
     (case ev of
        Detailed f \<Rightarrow>
          (case f telegramID w of
             (Inr e, w1) \<Rightarrow>
               if qe_IndeterminateReason e AND NOT (IndeterminateTelegramTemporary OR IndeterminateUnknownMembership) \<noteq> 0
               then (Inl (Err ''qualification evaluator returned an invalid indeterminate reason''), w1)
               else (Inr e, w1)
           | (Inl e, w1) \<Rightarrow> (Inl e, w1))
      | Plain f \<Rightarrow>
          (case f telegramID w of
             (Inl e, w1) \<Rightarrow> (Inl e, w1)
           | (Inr d, w1) \<Rightarrow> (Inr \<lparr>qe_Decision = d, qe_IndeterminateReason = 0\<rparr>, w1)))"

record 'w rechecker =
  rk_KnownUsersAfter :: "int \<Rightarrow> int \<Rightarrow> ('w, int list) call"
  rk_evaluator :: "'w evaluator"
  rk_ApplyQualification :: "'w decision_writer"
  rk_NotifySummary :: "recheck_summary \<Rightarrow> ('w, unit) call"
  rk_NotifyFailure :: "go_error \<Rightarrow> ('w, unit) call"
  rk_batchSize :: int

definition valid_batch_size :: "int \<Rightarrow> bool" where
  "valid_batch_size b \<longleftrightarrow> 10 \<le> b \<and> b \<le> 200"

text \<open>\<open>NewRechecker\<close>, with dependencies that are not nil\<close>

definition new_rechecker :: "'w rechecker \<Rightarrow> go_error + 'w rechecker" where
  "new_rechecker rk =
     (if valid_batch_size (rk_batchSize rk) then Inr rk
      else Inl (Err ''recheck batch size must be between 10 and 200''))"

definition validate_known_user_page :: "int list \<Rightarrow> int \<Rightarrow> int \<Rightarrow> go_error option" where
  "validate_known_user_page telegramIDs afterTelegramID limit =
     (if limit < int (length telegramIDs) then Some (Err ''known user page exceeds requested limit'')
      else if \<not> increasing_after afterTelegramID telegramIDs
      then Some (Err ''known user page is not strictly increasing'') else None)"

definition count_evaluation :: "qualification_evaluation \<Rightarrow> recheck_summary \<Rightarrow> recheck_summary" where
  "count_evaluation ev s =
     (let s1 = s\<lparr>rs_Checked := rs_Checked s + 1\<rparr>; reason = qe_IndeterminateReason ev in
      case qe_Decision ev of
        Eligible \<Rightarrow> s1\<lparr>rs_Eligible := rs_Eligible s + 1\<rparr>
      | Ineligible \<Rightarrow> s1\<lparr>rs_Ineligible := rs_Ineligible s + 1\<rparr>
      | IndeterminateDecision \<Rightarrow>
          s1\<lparr>rs_Indeterminate := rs_Indeterminate s + 1,
             rs_TelegramTemporary := rs_TelegramTemporary s +
               (if reason AND IndeterminateTelegramTemporary \<noteq> 0 then 1 else 0),
             rs_UnknownMembership := rs_UnknownMembership s +
               (if reason AND IndeterminateUnknownMembership \<noteq> 0 then 1 else 0),
             rs_UnclassifiedIndeterminate := rs_UnclassifiedIndeterminate s + (if reason = 0 then 1 else 0)\<rparr>
      | OtherDecision _ \<Rightarrow> s1)"

text \<open>One user: the error that ends the recheck, if there is one, and the summary so far.\<close>

definition check_user :: "'w rechecker \<Rightarrow> int \<Rightarrow> recheck_summary \<Rightarrow> 'w \<Rightarrow> (go_error option \<times> recheck_summary) \<times> 'w" where
  "check_user rk telegramID s w =
     (case evaluate_for_recheck (rk_evaluator rk) telegramID w of
        (Inl e, w1) \<Rightarrow> ((Some (Wrap ''evaluate Telegram user'' e), s), w1)
      | (Inr ev, w1) \<Rightarrow>
          let s1 = count_evaluation ev s in
          case qe_Decision ev of
            OtherDecision _ \<Rightarrow> ((Some (Err ''qualification evaluator returned an invalid decision''), s1), w1)
          | IndeterminateDecision \<Rightarrow> ((None, s1), w1)
          | decision \<Rightarrow>
              (case rk_ApplyQualification rk telegramID decision w1 of
                 (Inl e, w2) \<Rightarrow> ((Some (Wrap ''persist Telegram user qualification'' e), s1), w2)
               | (Inr change, w2) \<Rightarrow>
                   ((None, if revokeCredentialsImmediately change then s1\<lparr>rs_Revocations := rs_Revocations s1 + 1\<rparr> else s1), w2)))"

text \<open>The users of one page\<close>

fun check_users :: "'w rechecker \<Rightarrow> int list \<Rightarrow> recheck_summary \<Rightarrow> 'w \<Rightarrow> (go_error option \<times> recheck_summary) \<times> 'w" where
  "check_users rk [] s w = ((None, s), w)"
| "check_users rk (telegramID # ids) s w =
     (case check_user rk telegramID s w of
        ((Some e, s1), w1) \<Rightarrow> ((Some e, s1), w1)
      | ((None, s1), w1) \<Rightarrow> check_users rk ids s1 w1)"

text \<open>The loop over the pages. Whether it ends depends on the provider: \<open>None\<close> is "never".\<close>

partial_function (option) check_pages ::
    "'w rechecker \<Rightarrow> int \<Rightarrow> recheck_summary \<Rightarrow> 'w \<Rightarrow> ((go_error option \<times> recheck_summary) \<times> 'w) option" where
  "check_pages rk afterTelegramID s w =
     (case rk_KnownUsersAfter rk afterTelegramID (rk_batchSize rk) w of
        (Inl e, w1) \<Rightarrow> Some ((Some (Wrap ''list known users'' e), s), w1)
      | (Inr telegramIDs, w1) \<Rightarrow>
     (case validate_known_user_page telegramIDs afterTelegramID (rk_batchSize rk) of
        Some e \<Rightarrow> Some ((Some e, s), w1)
      | None \<Rightarrow>
     (case check_users rk telegramIDs s w1 of
        ((Some e, s1), w2) \<Rightarrow> Some ((Some e, s1), w2)
      | ((None, s1), w2) \<Rightarrow>
          if int (length telegramIDs) < rk_batchSize rk then Some ((None, s1), w2)
          else check_pages rk (last telegramIDs) s1 w2)))"

definition report_failure :: "(go_error \<Rightarrow> ('w, unit) call) \<Rightarrow> go_error \<Rightarrow> 'w \<Rightarrow> go_error \<times> 'w" where
  "report_failure notifyFailure cause w =
     (case notifyFailure cause w of
        (Inl e, w1) \<Rightarrow> (Join [cause, Wrap ''notify qualification recheck failure'' e], w1)
      | (Inr _, w1) \<Rightarrow> (cause, w1))"

text \<open>What comes after the pages: the summary is sent, or the failure is reported.\<close>

definition conclude_recheck ::
    "'w rechecker \<Rightarrow> (go_error option \<times> recheck_summary) \<times> 'w \<Rightarrow> (recheck_summary \<times> go_error option) \<times> 'w" where
  "conclude_recheck rk outcome =
     (case outcome of
        ((Some cause, s), w) \<Rightarrow> (let (e, w1) = report_failure (rk_NotifyFailure rk) cause w in ((s, Some e), w1))
      | ((None, s), w) \<Rightarrow>
          (case rk_NotifySummary rk s w of
             (Inl e, w1) \<Rightarrow> ((s, Some (Wrap ''notify qualification recheck summary'' e)), w1)
           | (Inr _, w1) \<Rightarrow> ((s, None), w1)))"

definition recheck_once :: "'w rechecker \<Rightarrow> 'w \<Rightarrow> ((recheck_summary \<times> go_error option) \<times> 'w) option" where
  "recheck_once rk w = map_option (conclude_recheck rk) (check_pages rk 0 empty_summary w)"

section \<open>A configured recheck\<close>

record recheck_settings =
  rc_Interval :: duration
  rc_RequestsPerSecond :: int
  rc_BatchSize :: int

definition validate_recheck_settings :: "recheck_settings \<Rightarrow> go_error option" where
  "validate_recheck_settings s =
     (if rc_Interval s < minute \<or> 7 * 24 * hour < rc_Interval s
      then Some (Err ''recheck interval must be between one minute and seven days'')
      else if rc_RequestsPerSecond s < 1 \<or> 20 < rc_RequestsPerSecond s
      then Some (Err ''recheck requests per second must be between 1 and 20'')
      else if rc_BatchSize s < 10 \<or> 200 < rc_BatchSize s
      then Some (Err ''recheck batch size must be between 10 and 200'') else None)"

record 'w recheck_coordinator =
  co_RecheckSettings :: "('w, recheck_settings) call"
  co_KnownUsersAfter :: "int \<Rightarrow> int \<Rightarrow> ('w, int list) call"
  co_ActiveRules :: "('w, qualification_mode \<times> int list) call"
  co_lookup :: "'w lookup_env"
  co_ApplyQualification :: "'w decision_writer"
  co_NotifySummary :: "recheck_summary \<Rightarrow> ('w, unit) call"
  co_NotifyFailure :: "go_error \<Rightarrow> ('w, unit) call"

text \<open>
  The checker and the rechecker of a cycle run on the world and on the cycle's own lookup; \<open>beside\<close>
  is a call that does not touch the lookup.
\<close>

definition beside :: "('w, 'a) call \<Rightarrow> (retrying_member_lookup \<times> 'w, 'a) call" where
  "beside = with_world"

definition cycle_checker :: "'w recheck_coordinator \<Rightarrow> (retrying_member_lookup \<times> 'w) checker" where
  "cycle_checker co = \<lparr>ck_ActiveRules = beside (co_ActiveRules co), ck_GetChatMember = get_member_retrying (co_lookup co)\<rparr>"

definition cycle_rechecker :: "'w recheck_coordinator \<Rightarrow> int \<Rightarrow> (retrying_member_lookup \<times> 'w) rechecker" where
  "cycle_rechecker co batchSize =
     \<lparr>rk_KnownUsersAfter = (\<lambda>a n. beside (co_KnownUsersAfter co a n)),
      rk_evaluator = Detailed (evaluate_detailed (cycle_checker co)),
      rk_ApplyQualification = (\<lambda>i d. beside (co_ApplyQualification co i d)),
      rk_NotifySummary = (\<lambda>s. beside (co_NotifySummary co s)), rk_NotifyFailure = (\<lambda>e. beside (co_NotifyFailure co e)),
      rk_batchSize = batchSize\<rparr>"

definition cycle_failure ::
    "'w recheck_coordinator \<Rightarrow> duration \<Rightarrow> go_error \<Rightarrow> 'w
       \<Rightarrow> ((recheck_summary \<times> duration \<times> go_error option) \<times> 'w) option" where
  "cycle_failure co interval cause w =
     (let (e, w1) = report_failure (co_NotifyFailure co) cause w in Some ((empty_summary, interval, Some e), w1))"

definition run_cycle ::
    "'w recheck_coordinator \<Rightarrow> 'w \<Rightarrow> ((recheck_summary \<times> duration \<times> go_error option) \<times> 'w) option" where
  "run_cycle co w =
     (case co_RecheckSettings co w of
        (Inl e, w1) \<Rightarrow> cycle_failure co 0 (Wrap ''load qualification recheck settings'' e) w1
      | (Inr settings, w1) \<Rightarrow>
     (case validate_recheck_settings settings of
        Some e \<Rightarrow> cycle_failure co 0 (Wrap ''validate qualification recheck settings'' e) w1
      | None \<Rightarrow>
     (case new_retrying_member_lookup (rc_RequestsPerSecond settings) of
        Inl e \<Rightarrow> cycle_failure co (rc_Interval settings) e w1
      | Inr lookup0 \<Rightarrow>
     (case new_rechecker (cycle_rechecker co (rc_BatchSize settings)) of
        Inl e \<Rightarrow> cycle_failure co (rc_Interval settings) e w1
      | Inr rk \<Rightarrow>
          map_option (\<lambda>((s, e), (l, w2)). ((s, rc_Interval settings, e), w2)) (recheck_once rk (lookup0, w1))))))"

section \<open>Notifying the administrators\<close>

text \<open>
  \<open>AdministratorNotifier.notify\<close> for a message that is sent with \<open>send\<close>: a failing delivery does
  not keep the others from getting theirs.
\<close>

fun deliver_all :: "(int \<Rightarrow> ('w, unit) call) \<Rightarrow> int list \<Rightarrow> 'w \<Rightarrow> go_error list \<times> 'w" where
  "deliver_all send [] w = ([], w)"
| "deliver_all send (i # ids) w =
     (let (e, w1) = (if i \<le> 0 then (Some (Err ''active administrator Telegram ID is invalid''), w)
            else case send i w of (Inl e, w1) \<Rightarrow> (Some (Wrap ''notify administrator'' e), w1) | (Inr _, w1) \<Rightarrow> (None, w1));
          (es, w2) = deliver_all send ids w1
      in (case e of None \<Rightarrow> es | Some x \<Rightarrow> x # es, w2))"

definition notify_administrators :: "('w, int list) call \<Rightarrow> (int \<Rightarrow> ('w, unit) call) \<Rightarrow> ('w, unit) call" where
  "notify_administrators recipients send w =
     (case recipients w of
        (Inl e, w1) \<Rightarrow> (Inl (Wrap ''list active administrators'' e), w1)
      | (Inr ids, w1) \<Rightarrow>
          (case deliver_all send ids w1 of
             (es, w2) \<Rightarrow> (case errors_join (map Some es) of None \<Rightarrow> (Inr (), w2) | Some e \<Rightarrow> (Inl e, w2))))"

section \<open>The stores\<close>

definition mode_of :: "string \<Rightarrow> qualification_mode" where
  "mode_of raw = (if raw = ''any'' then QualificationAny else if raw = ''all'' then QualificationAll
     else OtherQualificationMode raw)"

definition enabled_chats :: "vpn_db \<Rightarrow> int list" where
  "enabled_chats d = sort (map fst (filter (\<lambda>(i, row). ru_enabled row) (qualification_rules d)))"

definition active_rules_stored :: "(vpn_db \<times> faults, qualification_mode \<times> int list) call" where
  "active_rules_stored =
     and_then (wrapping ''query active qualification rules''
                (statement (\<lambda>d. (Inr (st_mode (qualification_settings d), enabled_chats d), d)))) (\<lambda>(raw, chats).
       if mode_of raw \<noteq> QualificationAny \<and> mode_of raw \<noteq> QualificationAll
       then fail_with (Err ''persisted qualification mode is invalid'')
       else if list_ex (\<lambda>c. c = 0) chats then fail_with (Err ''persisted qualification rule is invalid'')
       else ok (mode_of raw, chats))"

definition known_users_after_stored :: "int \<Rightarrow> int \<Rightarrow> (vpn_db \<times> faults, int list) call" where
  "known_users_after_stored afterTelegramID limit =
     (if afterTelegramID < 0 then fail_with (Err ''known user cursor cannot be negative'')
      else if limit < 10 \<or> 200 < limit then fail_with (Err ''known user page limit must be between 10 and 200'')
      else and_then (wrapping ''query known VPN users'' (statement (\<lambda>d.
             (Inr (take (nat limit) (filter (\<lambda>i. afterTelegramID < i) (sort (map fst (vpn_users d))))), d))))
           (\<lambda>ids. if increasing_after afterTelegramID ids then ok ids
                  else fail_with (Err ''persisted VPN users are not strictly ordered'')))"

definition active_vpn_user_ids :: "(vpn_db \<times> faults, int list) call" where
  "active_vpn_user_ids =
     and_then (wrapping ''query active VPN users'' (statement (\<lambda>d.
         (Inr (sort (map fst (filter (\<lambda>(i, row). vu_status row = Active \<and> vu_eligible row) (vpn_users d)))), d))))
       (\<lambda>ids. if increasing_after 0 ids then ok ids else fail_with (Err ''persisted active VPN users are invalid''))"

definition recheck_settings_stored :: "(vpn_db \<times> faults, recheck_settings) call" where
  "recheck_settings_stored =
     and_then (wrapping ''query qualification recheck settings'' (statement (\<lambda>d. (Inr (qualification_settings d), d)))) (\<lambda>row.
       let settings = \<lparr>rc_Interval = s64 (st_recheck_interval_minutes row * minute),
             rc_RequestsPerSecond = st_recheck_requests_per_second row, rc_BatchSize = st_recheck_batch_size row\<rparr>
       in case validate_recheck_settings settings of
            Some e \<Rightarrow> fail_with (Wrap ''persisted qualification recheck settings are invalid'' e)
          | None \<Rightarrow> ok settings)"

section \<open>Managing the rules\<close>

record managed_rule =
  mr_ChatID :: int
  mr_ChatType :: chat_type
  mr_Title :: string

definition chat_type_text :: "chat_type \<Rightarrow> string" where
  "chat_type_text t = (case t of ChatPrivate \<Rightarrow> ''private'' | ChatGroup \<Rightarrow> ''group''
     | ChatSupergroup \<Rightarrow> ''supergroup'' | ChatChannel \<Rightarrow> ''channel'' | OtherChat s \<Rightarrow> s)"

definition upsert_rule :: "managed_rule \<Rightarrow> go_time \<Rightarrow> (vpn_db, unit) call" where
  "upsert_rule rule verifiedAt d =
     (Inr (), d\<lparr>qualification_rules := AList.update (mr_ChatID rule)
        \<lparr>ru_chat_type = chat_type_text (mr_ChatType rule), ru_title = trim_space (mr_Title rule), ru_enabled = True,
         ru_bot_admin_verified_at = Some verifiedAt\<rparr> (qualification_rules d)\<rparr>)"

definition rule_ok :: "managed_rule \<Rightarrow> bool" where
  "rule_ok rule \<longleftrightarrow> mr_ChatID rule \<noteq> 0 \<and> (mr_ChatType rule = ChatSupergroup \<or> mr_ChatType rule = ChatChannel)"

definition upsert_verified :: "managed_rule \<Rightarrow> go_time \<Rightarrow> (vpn_db \<times> faults, unit) call" where
  "upsert_verified rule verifiedAt =
     (if \<not> rule_ok rule \<or> verifiedAt = 0 then fail_with (Err ''verified qualification rule is invalid'')
      else statement (upsert_rule rule verifiedAt))"

definition upsert_verified_by_actor :: "int \<Rightarrow> managed_rule \<Rightarrow> go_time \<Rightarrow> (vpn_db \<times> faults, unit) call" where
  "upsert_verified_by_actor actor rule verifiedAt =
     (if actor \<le> 0 \<or> verifiedAt = 0 \<or> \<not> rule_ok rule then fail_with (Err ''verified qualification rule is invalid'')
      else run_in_transaction (and_then (statement (upsert_rule rule verifiedAt)) (\<lambda>_.
        statement (\<lambda>d. (Inr (), record_audit actor ''qualification_rule.enable'' (mr_ChatID rule) d)))))"

definition disable_rule :: "int \<Rightarrow> (vpn_db, unit) call" where
  "disable_rule chatID d =
     (Inr (), d\<lparr>qualification_rules := map (\<lambda>(i, row). (i, if i = chatID then row\<lparr>ru_enabled := False\<rparr> else row))
        (qualification_rules d)\<rparr>)"

definition disable_by_actor :: "int \<Rightarrow> int \<Rightarrow> go_time \<Rightarrow> (vpn_db \<times> faults, unit) call" where
  "disable_by_actor actor chatID disabledAt =
     (if actor \<le> 0 \<or> chatID = 0 \<or> disabledAt = 0
      then fail_with (Err ''qualification rule disable request is invalid'')
      else run_in_transaction (and_then (statement (disable_rule chatID)) (\<lambda>_.
        statement (\<lambda>d. (Inr (), record_audit actor ''qualification_rule.disable'' chatID d)))))"

abbreviation "ErrBotAdministratorRequired \<equiv> Sentinel ''Bot administrator permission is required''"

text \<open>The writer of rules; the audited operations are there when the writer has them.\<close>

record 'w rule_manager =
  rm_botID :: int
  rm_GetChatMember :: "int \<Rightarrow> int \<Rightarrow> 'w \<Rightarrow> (telegram_error + chat_member) \<times> 'w"
  rm_UpsertVerified :: "managed_rule \<Rightarrow> go_time \<Rightarrow> ('w, unit) call"
  rm_audited :: "((int \<Rightarrow> managed_rule \<Rightarrow> go_time \<Rightarrow> ('w, unit) call) \<times> (int \<Rightarrow> int \<Rightarrow> go_time \<Rightarrow> ('w, unit) call)) option"
  rm_now :: "'w \<Rightarrow> go_time"
  rm_trigger :: "('w \<Rightarrow> 'w) option"

definition pull_trigger :: "'w rule_manager \<Rightarrow> 'w \<Rightarrow> 'w" where
  "pull_trigger rm w = (case rm_trigger rm of None \<Rightarrow> w | Some f \<Rightarrow> f w)"

definition enable_rule :: "'w rule_manager \<Rightarrow> int \<Rightarrow> managed_rule \<Rightarrow> ('w, unit) call" where
  "enable_rule rm actorTelegramID rule0 w =
     (if rm_botID rm \<le> 0 then (Inl (Err ''qualification rule manager dependencies are invalid''), w)
      else if \<not> rule_ok rule0 then (Inl (Err ''qualification rule is invalid''), w)
      else
        let rule = rule0\<lparr>mr_Title := trim_space (mr_Title rule0)\<rparr> in
        case rm_GetChatMember rm (mr_ChatID rule) (rm_botID rm) w of
          (Inl e, w1) \<Rightarrow> (Inl (Wrap ''verify Bot administrator permission'' (error_text e)), w1)
        | (Inr member, w1) \<Rightarrow>
            if cm_Status member \<noteq> ''administrator'' \<and> cm_Status member \<noteq> ''creator''
            then (Inl ErrBotAdministratorRequired, w1)
            else if rm_now rm w1 = 0 then (Inl (Err ''verification timestamp is required''), w1)
            else
              let write = (if 0 < actorTelegramID
                    then map_option (\<lambda>(upsert, _). upsert actorTelegramID rule (rm_now rm w1)) (rm_audited rm)
                    else Some (rm_UpsertVerified rm rule (rm_now rm w1)))
              in case write of
                   None \<Rightarrow> (Inl (Err ''audited qualification rule writer is required''), w1)
                 | Some f \<Rightarrow>
                     (case f w1 of
                        (Inl e, w2) \<Rightarrow> (Inl (Wrap ''save verified qualification rule'' e), w2)
                      | (Inr _, w2) \<Rightarrow> (Inr (), pull_trigger rm w2)))"

definition enable_rule_by_actor :: "'w rule_manager \<Rightarrow> int \<Rightarrow> managed_rule \<Rightarrow> ('w, unit) call" where
  "enable_rule_by_actor rm actorTelegramID rule w =
     (if actorTelegramID \<le> 0 then (Inl (Err ''qualification rule actor is invalid''), w)
      else enable_rule rm actorTelegramID rule w)"

definition disable_rule_by_actor :: "'w rule_manager \<Rightarrow> int \<Rightarrow> int \<Rightarrow> ('w, unit) call" where
  "disable_rule_by_actor rm actorTelegramID chatID w =
     (if actorTelegramID \<le> 0 \<or> chatID = 0 then (Inl (Err ''qualification rule disable request is invalid''), w)
      else case rm_audited rm of
        None \<Rightarrow> (Inl (Err ''audited qualification rule writer is required''), w)
      | Some (_, disable) \<Rightarrow>
          if rm_now rm w = 0 then (Inl (Err ''disable timestamp is required''), w)
          else case disable actorTelegramID chatID (rm_now rm w) w of
            (Inl e, w1) \<Rightarrow> (Inl (Wrap ''disable qualification rule'' e), w1)
          | (Inr _, w1) \<Rightarrow> (Inr (), pull_trigger rm w1))"

section \<open>The recheck ends\<close>


text \<open>One turn of the loop: what it answers, or where it goes on.\<close>

lemma check_pages_step:
  assumes "rk_KnownUsersAfter rk a (rk_batchSize rk) w = (Inr ids, w1)"
    and "validate_known_user_page ids a (rk_batchSize rk) = None"
  shows "check_pages rk a s w =
    (case check_users rk ids s w1 of
       ((Some e, s1), w2) \<Rightarrow> Some ((Some e, s1), w2)
     | ((None, s1), w2) \<Rightarrow>
         if int (length ids) < rk_batchSize rk then Some ((None, s1), w2)
         else check_pages rk (last ids) s1 w2)"
  by (subst check_pages.simps) (simp add: assms)

lemma valid_page_last:
  assumes "validate_known_user_page ids a n = None" "0 < n" "\<not> int (length ids) < n"
  shows "a < last ids \<and> last ids \<in> set ids"
proof -
  have "increasing_after a ids" "ids \<noteq> []"
    using assms by (auto simp: validate_known_user_page_def split: if_splits)
  then show ?thesis by (simp add: increasing_after_gt)
qed

lemma check_pages_returns:
  assumes ids: "\<And>a n w ids w1. rk_KnownUsersAfter rk a n w = (Inr ids, w1) \<Longrightarrow> \<forall>i \<in> set ids. int64 i"
    and batch: "0 < rk_batchSize rk"
  shows "\<exists>r. check_pages rk a s w = Some r"
proof (induction "nat (max_int64 + 1 - a)" arbitrary: a s w rule: less_induct)
  case less
  obtain r w1 where page: "rk_KnownUsersAfter rk a (rk_batchSize rk) w = (r, w1)" by fastforce
  show ?case
  proof (cases r)
    case (Inl e)
    with page show ?thesis by (subst check_pages.simps) simp
  next
    case (Inr telegramIDs)
    show ?thesis
    proof (cases "validate_known_user_page telegramIDs a (rk_batchSize rk)")
      case (Some e)
      with page Inr show ?thesis by (subst check_pages.simps) simp
    next
      case None
      note step = check_pages_step [OF page [unfolded Inr] None, of s]
      obtain x s1 w2 where users: "check_users rk telegramIDs s w1 = ((x, s1), w2)" by (metis prod.collapse)
      show ?thesis
      proof (cases "x = None \<and> \<not> int (length telegramIDs) < rk_batchSize rk")
        case True
        from valid_page_last [OF None batch] True ids [OF page [unfolded Inr]]
        have "nat (max_int64 + 1 - last telegramIDs) < nat (max_int64 + 1 - a)"
          by (auto simp: int64_def)
        from less [OF this] True users show ?thesis by (simp add: step)
      next
        case False
        with users show ?thesis by (cases x) (auto simp: step)
      qed
    qed
  qed
qed

text \<open>
  C25. The recheck of all users ends, whatever the database, the evaluator and the writer answer: a
  provider of users that repeats or reorders them cannot keep it in the loop over the pages,
  since a page that does not move forward is an error. The identifiers are \<open>int64\<close>, as the
  type of the provider says.
\<close>

theorem recheck_ends:
  assumes "new_rechecker rk = Inr rk"
    and "\<And>a n w ids w1. rk_KnownUsersAfter rk a n w = (Inr ids, w1) \<Longrightarrow> \<forall>i \<in> set ids. int64 i"
  shows "\<exists>outcome. recheck_once rk w = Some outcome"
proof -
  have "0 < rk_batchSize rk"
    using assms(1) by (auto simp: new_rechecker_def valid_batch_size_def split: if_splits)
  then have "\<exists>r. check_pages rk 0 empty_summary w = Some r"
    by (rule check_pages_returns [rotated]) (rule assms(2))
  then show ?thesis unfolding recheck_once_def by (auto simp del: split_paired_Ex)
qed

text \<open>A provider that always answers with the same ten users: the second page is refused.\<close>

definition stuck_rechecker :: "unit rechecker" where
  "stuck_rechecker = \<lparr>rk_KnownUsersAfter = (\<lambda>a n w. (Inr [1..10], w)),
     rk_evaluator = Plain (\<lambda>i w. (Inr Eligible, w)),
     rk_ApplyQualification = (\<lambda>i d w. (Inr \<lparr>revokeCredentialsImmediately = False\<rparr>, w)),
     rk_NotifySummary = (\<lambda>s w. (Inr (), w)), rk_NotifyFailure = (\<lambda>e w. (Inr (), w)), rk_batchSize = 10\<rparr>"

lemma recheck_ends_witness:
  "\<exists>outcome. recheck_once stuck_rechecker () = Some outcome"
proof (rule recheck_ends)
  show "new_rechecker stuck_rechecker = Inr stuck_rechecker"
    by (simp add: new_rechecker_def stuck_rechecker_def valid_batch_size_def)
  show "\<forall>i \<in> set ids. int64 i" if "rk_KnownUsersAfter stuck_rechecker a n w = (Inr ids, w1)" for a n w ids w1
    using that by (auto simp: stuck_rechecker_def int64_def)
qed

section \<open>One pass over the users\<close>

text \<open>
  The contract under which the pages do not matter: the provider answers from the users that are
  known, in order, and neither an evaluation nor a decision changes who is known.
\<close>

lemma increasing_drop:
  assumes "increasing_after a xs" "0 < n" "n \<le> length xs"
  shows "filter (\<lambda>x. last (take n xs) < x) xs = drop n xs"
proof -
  have parts: "increasing_after a (take n xs @ drop n xs)" "take n xs \<noteq> []" using assms by auto
  then have inc: "increasing_after a (take n xs)" "increasing_after (last (take n xs)) (drop n xs)"
    by (simp_all only: increasing_after_append if_False)
  have "filter (\<lambda>x. last (take n xs) < x) (take n xs) = []"
    using increasing_after_last [OF inc(1)] by (fastforce simp: filter_empty_conv)
  moreover have "filter (\<lambda>x. last (take n xs) < x) (drop n xs) = drop n xs"
    using increasing_after_gt [OF inc(2)] by (simp add: filter_id_conv)
  ultimately have "filter (\<lambda>x. last (take n xs) < x) (take n xs @ drop n xs) = drop n xs"
    by (simp only: filter_append append.left_neutral)
  then show ?thesis by simp
qed

lemma last_take_in: "0 < n \<Longrightarrow> n \<le> length xs \<Longrightarrow> last (take n xs) \<in> set xs"
  using last_in_set [of "take n xs"] in_set_takeD [of _ n xs] by fastforce

lemma increasing_filter: "increasing_after a xs \<Longrightarrow> a \<le> b \<Longrightarrow> increasing_after b (filter (\<lambda>x. b < x) xs)"
  by (auto simp: increasing_after_iff intro: sorted_wrt_filter)

lemma increasing_take: "increasing_after a xs \<Longrightarrow> increasing_after a (take n xs)"
  by (metis append_take_drop_id increasing_after_append)

locale steady_users =
  fixes rk :: "'w rechecker" and known :: "'w \<Rightarrow> int list" and steady :: "'w \<Rightarrow> bool"
  assumes page: "valid_batch_size (rk_batchSize rk) \<Longrightarrow> steady w \<Longrightarrow> 0 \<le> a \<Longrightarrow>
      rk_KnownUsersAfter rk a (rk_batchSize rk) w =
        (Inr (take (nat (rk_batchSize rk)) (filter (\<lambda>i. a < i) (known w))), w)"
    and increasing: "steady w \<Longrightarrow> increasing_after 0 (known w)"
    and evaluate: "steady w \<Longrightarrow> evaluate_for_recheck (rk_evaluator rk) i w = (r, w1) \<Longrightarrow> steady w1 \<and> known w1 = known w"
    and apply_decision: "steady w \<Longrightarrow> i \<in> set (known w) \<Longrightarrow> rk_ApplyQualification rk i d w = (r', w1) \<Longrightarrow>
      steady w1 \<and> known w1 = known w"
begin

lemma check_user_steady:
  assumes "steady w" "i \<in> set (known w)" "check_user rk i s w = (r, w1)"
  shows "steady w1 \<and> known w1 = known w"
proof -
  obtain e w2 where ev: "evaluate_for_recheck (rk_evaluator rk) i w = (e, w2)" by fastforce
  note st = evaluate [OF assms(1) ev]
  have "steady w3 \<and> known w3 = known w" if "rk_ApplyQualification rk i d w2 = (c, w3)" for d c w3
    using apply_decision [OF _ _ that] st assms(2) by simp
  with assms(3) ev st show ?thesis
    by (cases e) (auto simp: check_user_def Let_def split: qualification_decision.splits sum.splits prod.splits)
qed

lemma check_users_steady:
  "steady w \<Longrightarrow> set ids \<subseteq> set (known w) \<Longrightarrow> check_users rk ids s w = (r, w1) \<Longrightarrow> steady w1 \<and> known w1 = known w"
proof (induction ids arbitrary: s w)
  case (Cons i ids)
  obtain x s1 w2 where u: "check_user rk i s w = ((x, s1), w2)" by (metis prod.collapse)
  have "steady w2 \<and> known w2 = known w" using check_user_steady [OF Cons.prems(1) _ u] Cons.prems(2) by simp
  with Cons.prems(2,3) Cons.IH [of w2 s1] u show ?case by (cases x) auto
qed simp

lemma check_users_append:
  "check_users rk (ids @ ids') s w =
     (case check_users rk ids s w of
        ((Some e, s1), w1) \<Rightarrow> ((Some e, s1), w1) | ((None, s1), w1) \<Rightarrow> check_users rk ids' s1 w1)"
  by (induction ids arbitrary: s w) (simp_all split: prod.split option.split)

lemma page_valid:
  assumes "valid_batch_size n" "increasing_after a xs"
  shows "validate_known_user_page (take (nat n) xs) a n = None"
  using assms by (auto simp: validate_known_user_page_def valid_batch_size_def increasing_take)

lemma pages_are_one_pass:
  assumes batch: "valid_batch_size (rk_batchSize rk)"
  shows "steady w \<Longrightarrow> 0 \<le> a \<Longrightarrow>
    check_pages rk a s w = Some (check_users rk (filter (\<lambda>i. a < i) (known w)) s w)"
proof (induction "length (filter (\<lambda>i. a < i) (known w))" arbitrary: a s w rule: less_induct)
  case less
  let ?n = "nat (rk_batchSize rk)" and ?rest = "filter (\<lambda>i. a < i) (known w)"
  have inc: "increasing_after a ?rest"
    using increasing_filter [OF increasing [OF less.prems(1)] less.prems(2)] .
  note step = check_pages_step [OF page [OF batch less.prems] page_valid [OF batch inc], of s]
  obtain x s1 w2 where users: "check_users rk (take ?n ?rest) s w = ((x, s1), w2)" by (metis prod.collapse)
  have "set (take ?n ?rest) \<subseteq> set (known w)" by (auto dest: in_set_takeD)
  note st = check_users_steady [OF less.prems(1) this users]
  have all: "check_users rk ?rest s w = (case x of Some e \<Rightarrow> ((x, s1), w2) | None \<Rightarrow> check_users rk (drop ?n ?rest) s1 w2)"
    using check_users_append [of "take ?n ?rest" "drop ?n ?rest" s w] users by (simp split: option.splits)
  show ?case
  proof (cases "x = None \<and> ?n \<le> length ?rest")
    case True
    let ?m = "last (take ?n ?rest)"
    have n: "0 < ?n" using batch by (simp add: valid_batch_size_def)
    have "?m \<in> set ?rest" using last_take_in n True by blast
    then have m: "a < ?m" "0 \<le> ?m" using less.prems(2) by auto
    have "filter (\<lambda>i. ?m < i) (known w) = filter (\<lambda>i. ?m < i) ?rest"
      using m(1) by (auto simp del: filter_filter intro: filter_cong simp: filter_filter [of _ _ "known w"])
    then have later: "filter (\<lambda>i. ?m < i) (known w2) = drop ?n ?rest"
      using increasing_drop [OF inc n] True st by simp
    have "length (drop ?n ?rest) < length ?rest" using n True unfolding length_drop by linarith
    then have shorter: "length (filter (\<lambda>i. ?m < i) (known w2)) < length ?rest" by (simp only: later)
    have "check_pages rk ?m s1 w2 = Some (check_users rk (drop ?n ?rest) s1 w2)"
      by (rule less.hyps [OF shorter conjunct1 [OF st] m(2), unfolded later])
    moreover have "\<not> int (length (take ?n ?rest)) < rk_batchSize rk" using True batch by (simp add: valid_batch_size_def)
    ultimately show ?thesis using True by (simp only: step users all) simp
  next
    case False
    then consider e where "x = Some e" | "x = None" "int (length (take ?n ?rest)) < rk_batchSize rk" "drop ?n ?rest = []"
      using batch by (cases x) (auto simp: valid_batch_size_def)
    then show ?thesis by cases (simp_all only: step users all, simp_all)
  qed
qed

lemma recheck_is_one_pass:
  assumes "valid_batch_size (rk_batchSize rk)" "steady w"
  shows "recheck_once rk w = Some (conclude_recheck rk (check_users rk (known w) empty_summary w))"
proof -
  have "filter (\<lambda>i. 0 < i) (known w) = known w"
    using increasing_after_gt [OF increasing [OF assms(2)]] by (simp add: filter_id_conv)
  with pages_are_one_pass [OF assms, of 0 empty_summary] show ?thesis by (simp add: recheck_once_def)
qed

end

section \<open>The recheck on the database\<close>

text \<open>
  A coordinator on the stores, while the database answers: \<open>calm\<close> runs a store's operation on the
  tables, \<open>with_world\<close> a call to Telegram. The notices go to the administrators.
\<close>

definition calm :: "(vpn_db \<times> faults, 'a) call \<Rightarrow> (vpn_db \<times> 'x, 'a) call" where
  "calm m st = (case m (fst st, []) of (r, (d, fs)) \<Rightarrow> (r, (d, snd st)))"

datatype notice = SummaryNotice recheck_summary | FailureNotice

record 'x telegram_side =
  ts_lookup :: "'x lookup_env"
  ts_recipients :: "('x, int list) call"
  ts_send :: "notice \<Rightarrow> int \<Rightarrow> ('x, unit) call"

definition stored_coordinator :: "'x telegram_side \<Rightarrow> (vpn_db \<times> 'x) recheck_coordinator" where
  "stored_coordinator ts = \<lparr>co_RecheckSettings = calm recheck_settings_stored,
     co_KnownUsersAfter = (\<lambda>a n. calm (known_users_after_stored a n)), co_ActiveRules = calm active_rules_stored,
     co_lookup = \<lparr>lk_GetChatMember = (\<lambda>c u. with_world (lk_GetChatMember (ts_lookup ts) c u)),
       lk_wait = (\<lambda>t. with_world (lk_wait (ts_lookup ts) t)), lk_now = (\<lambda>st. lk_now (ts_lookup ts) (snd st)),
       lk_jitter = (\<lambda>t. with_world (lk_jitter (ts_lookup ts) t))\<rparr>,
     co_ApplyQualification = (\<lambda>i d. calm (apply_qualification_stored i d)),
     co_NotifySummary = (\<lambda>s. with_world (notify_administrators (ts_recipients ts) (ts_send ts (SummaryNotice s)))),
     co_NotifyFailure = (\<lambda>e. with_world (notify_administrators (ts_recipients ts) (ts_send ts FailureNotice)))\<rparr>"

definition known_ids :: "vpn_db \<Rightarrow> int list" where
  "known_ids d = sort (map fst (vpn_users d))"

text \<open>The primary key and the \<open>CHECK (telegram_id > 0)\<close> of \<open>vpn_users\<close>\<close>

definition user_keys_ok :: "vpn_db \<Rightarrow> bool" where
  "user_keys_ok d \<longleftrightarrow> distinct (map fst (vpn_users d)) \<and> (\<forall>i \<in> set (map fst (vpn_users d)). 0 < i)"

lemma known_ids_increasing: "user_keys_ok d \<Longrightarrow> increasing_after 0 (known_ids d)"
  by (auto simp: user_keys_ok_def known_ids_def increasing_after_iff strict_sorted_iff)

lemma set_known_ids [simp]: "set (known_ids d) = fst ` set (vpn_users d)"
  by (simp add: known_ids_def)

lemma update_user_keys: "update_user i f d = (r, d') \<Longrightarrow> map fst (vpn_users d') = map fst (vpn_users d)"
  by (auto simp: update_user_def update_keys split: option.splits if_splits dest!: map_of_SomeD)
     (force intro: rev_image_eqI)+

lemma apply_operation_keys:
  assumes "apply_qualification_operation i decision s = (Inr x, s')" "i \<in> fst ` set (vpn_users (fst s))"
  shows "map fst (vpn_users (fst s')) = map fst (vpn_users (fst s))"
proof -
  from assms(1) obtain s1 s2 s3 snap account change account1 where
      ensure: "statement (ensure_user i) s = (Inr (), s1)"
    and lock: "lock_access_snapshot i s1 = (Inr snap, s2)"
    and acc: "restore_access_account snap = Inr account"
    and app: "apply_qualification decision (Some account) = (Inr change, Some account1)"
    and per: "statement (persist_qualification (snapshot account1)) s2 = (Inr (), s3)"
    and queue: "fst s' = (if revokeCredentialsImmediately change
        then queue_action CoreActionRevoke (db_clock (fst s3)) (as_TelegramID (snapshot account1)) (fst s3)
        else fst s3)"
    unfolding apply_qualification_operation_def
    by (elim and_then_InrE)
      (auto simp: Let_def elim!: and_then_InrE dest!: statement_total
        split: sum.splits prod.splits option.splits if_splits)
  have "fst s1 = fst s"
    using statement_InrD [OF ensure] assms(2)
    by (auto simp: ensure_user_def map_of_eq_None_iff split: if_splits)
  moreover have "fst s2 = fst s1" using lock_access_snapshot_Inr [OF lock] by blast
  moreover have "map fst (vpn_users (fst s3)) = map fst (vpn_users (fst s2))"
    using update_user_keys [OF statement_InrD [OF per, unfolded persist_qualification_def]] .
  ultimately show ?thesis by (simp add: queue)
qed

lemma apply_stored_keys:
  assumes "apply_qualification_stored i decision (d, fs) = (r, (d', fs'))" "i \<in> fst ` set (vpn_users d)"
  shows "map fst (vpn_users d') = map fst (vpn_users d)"
proof -
  consider "d' = d" | "run_in_transaction (apply_qualification_operation i decision) (d, fs) = (r, (d', fs'))"
    using assms(1) by (auto simp: apply_qualification_stored_def split: if_splits)
  then show ?thesis
  proof cases
    case 2
    from transaction_outcome [OF 2] show ?thesis
      using apply_operation_keys [of i decision "(d, _)"] assms(2) by fastforce
  qed simp
qed

lemma calm_read:
  "(\<And>d fs r d' fs'. m (d, fs) = (r, (d', fs')) \<Longrightarrow> d' = d) \<Longrightarrow> calm m st = (r, st1) \<Longrightarrow> fst st1 = fst st"
  by (auto simp: calm_def split: prod.splits)

lemma active_rules_read: "active_rules_stored (d, fs) = (r, (d', fs')) \<Longrightarrow> d' = d"
  by (auto simp: active_rules_stored_def and_then_def wrapping_def ok_def fail_with_def statement_def Let_def
      split: prod.splits sum.splits fault.splits if_splits)

text \<open>The lookup reaches Telegram only.\<close>

lemma beside_tables:
  assumes "beside f st = (r, st1)" "\<And>r w. f (snd st) = (r, w) \<Longrightarrow> fst w = fst (snd st)"
  shows "fst (snd st1) = fst (snd st)"
  using assms by (auto simp: beside_def with_world_def Let_def split: prod.splits)

lemma rate_tables:
  "wait_for_rate (co_lookup (stored_coordinator ts)) st = (r, st1) \<Longrightarrow> fst (snd st1) = fst (snd st)"
  by (auto simp: wait_for_rate_def stored_coordinator_def with_world_def Let_def split: prod.splits if_splits)

lemma delay_tables:
  "membership_retry_delay (co_lookup (stored_coordinator ts)) err n w = (r, w1) \<Longrightarrow> fst w1 = fst w"
  by (auto simp: membership_retry_delay_def stored_coordinator_def with_world_def Let_def split: prod.splits option.splits)

lemma env_tables:
  "lk_GetChatMember (co_lookup (stored_coordinator ts)) c u w = (r, w1) \<Longrightarrow> fst w1 = fst w"
  "lk_wait (co_lookup (stored_coordinator ts)) t w = (r', w1) \<Longrightarrow> fst w1 = fst w"
  by (auto simp: stored_coordinator_def with_world_def split: prod.splits)

lemma attempts_tables:
  "member_attempts (co_lookup (stored_coordinator ts)) c u n st = (r, st1) \<Longrightarrow> fst (snd st1) = fst (snd st)"
proof (induction "maxMembershipAttempts - n" arbitrary: n st)
  case 0
  then show ?case by (subst (asm) member_attempts.simps) simp
next
  case (Suc k)
  let ?env = "co_lookup (stored_coordinator ts)"
  obtain e l1 w1 where rate: "wait_for_rate ?env st = (e, (l1, w1))" by (metis prod.collapse)
  obtain m w2 where get: "lk_GetChatMember ?env c u w1 = (m, w2)" by (metis surj_pair)
  note same = rate_tables [OF rate] env_tables(1) [OF get]
  show ?case
  proof (cases "e = None \<and> (\<exists>err. m = Inl err \<and> is_temporary err \<and> n \<noteq> maxMembershipAttempts - 1)")
    case False
    with Suc.prems rate get same show ?thesis
      by (subst (asm) member_attempts.simps) (auto split: if_splits option.splits sum.splits)
  next
    case True
    then obtain err where m: "e = None" "m = Inl err" "is_temporary err" "n \<noteq> maxMembershipAttempts - 1" by blast
    obtain delay w3 where del: "membership_retry_delay ?env err n w2 = (delay, w3)" by (metis surj_pair)
    obtain x w4 where wt: "lk_wait ?env delay w3 = (x, w4)" by (metis surj_pair)
    note same' = same delay_tables [OF del] env_tables(2) [OF wt]
    have step: "(case x of Some e \<Rightarrow> (Inl (OtherError e), (l1, w4))
        | None \<Rightarrow> member_attempts ?env c u (Suc n) (l1, w4)) = (r, st1)"
    proof -
      have "\<not> maxMembershipAttempts \<le> n" using Suc.hyps(2) by simp
      with Suc.prems show ?thesis
        by (subst (asm) member_attempts.simps)
           (simp add: rate [unfolded m(1)] get [unfolded m(2)] del wt m(3) m(4) [simplified])
    qed
    show ?thesis
    proof (cases x)
      case (Some a)
      with step same' show ?thesis by auto
    next
      case None
      with step have "member_attempts ?env c u (Suc n) (l1, w4) = (r, st1)" by simp
      from Suc.hyps(1) [OF _ this] Suc.hyps(2) same' show ?thesis by simp
    qed
  qed
qed

lemma scan_tables:
  "scan_rules (cycle_checker (stored_coordinator ts)) i obs rules reason st = (r, st1) \<Longrightarrow> fst (snd st1) = fst (snd st)"
proof (induction rules arbitrary: r st st1 reason)
  case (Cons c rules)
  obtain m st2 where get: "member_attempts (co_lookup (stored_coordinator ts)) c i 0 st = (m, st2)" by (metis surj_pair)
  have rest: "fst (snd st3) = fst (snd st')"
    if "scan_rules (cycle_checker (stored_coordinator ts)) i obs rules reason' st' = (r', st3)" for r' st' st3 reason'
    using Cons.IH [OF that] .
  show ?case
    using Cons.prems rest attempts_tables [OF get] get
    by (simp add: cycle_checker_def get_member_retrying_def Let_def)
       (auto simp: cycle_checker_def get_member_retrying_def
         split: if_splits sum.splits prod.splits membership_result.splits option.splits)
qed simp

lemma calm_rules_tables: "calm active_rules_stored st = (r, st1) \<Longrightarrow> fst st1 = fst st"
  by (rule calm_read) (rule active_rules_read)

lemma evaluate_tables:
  assumes "evaluate_detailed (cycle_checker (stored_coordinator ts)) i st = (r, st1)"
  shows "fst (snd st1) = fst (snd st)"
proof -
  have rules: "fst (snd st2) = fst (snd st)"
    if "ck_ActiveRules (cycle_checker (stored_coordinator ts)) st = (x, st2)" for x st2
    by (rule beside_tables [of "calm active_rules_stored" st x st2])
       (use that in \<open>simp add: cycle_checker_def stored_coordinator_def\<close>, erule calm_rules_tables)
  show ?thesis
    using assms
    by (auto simp: evaluate_detailed_def evaluate_rules_detailed_def
        split: if_splits sum.splits prod.splits dest!: rules scan_tables)
qed

lemma calm_known:
  assumes "user_keys_ok (fst w)" "valid_batch_size n" "0 \<le> a"
  shows "calm (known_users_after_stored a n) w = (Inr (take (nat n) (filter (\<lambda>i. a < i) (known_ids (fst w)))), w)"
proof -
  have "increasing_after a (take (nat n) (filter (\<lambda>i. a < i) (known_ids (fst w))))"
    using increasing_take [OF increasing_filter [OF known_ids_increasing [OF assms(1)] assms(3)]] .
  then show ?thesis
    using assms(2,3) by (simp add: calm_def known_users_after_stored_def valid_batch_size_def and_then_def known_ids_def
        wrapping_def Let_def)
qed

lemma calm_apply:
  assumes "calm (apply_qualification_stored i d) w = (r, w1)" "i \<in> set (known_ids (fst w))" "user_keys_ok (fst w)"
  shows "user_keys_ok (fst w1) \<and> known_ids (fst w1) = known_ids (fst w)"
proof -
  have "map fst (vpn_users (fst w1)) = map fst (vpn_users (fst w))"
    using assms(1,2) apply_stored_keys [of i d "fst w" "[]"] by (auto simp: calm_def split: prod.splits)
  with assms(3) show ?thesis unfolding user_keys_ok_def known_ids_def by simp
qed

text \<open>The stores keep the contract, for every Telegram side and every batch size.\<close>

interpretation stored: steady_users "cycle_rechecker (stored_coordinator ts) b" "\<lambda>st. known_ids (fst (snd st))"
    "\<lambda>st. user_keys_ok (fst (snd st))" for ts b
proof
  fix st :: "retrying_member_lookup \<times> vpn_db \<times> 'a" and a i d r r' st1
  let ?rk = "cycle_rechecker (stored_coordinator ts) b"
  show "increasing_after 0 (known_ids (fst (snd st)))" if "user_keys_ok (fst (snd st))"
    using known_ids_increasing [OF that] .
  show "rk_KnownUsersAfter ?rk a (rk_batchSize ?rk) st =
      (Inr (take (nat (rk_batchSize ?rk)) (filter (\<lambda>i. a < i) (known_ids (fst (snd st))))), st)"
    if "valid_batch_size (rk_batchSize ?rk)" "user_keys_ok (fst (snd st))" "0 \<le> a"
    using calm_known [OF that(2,1,3)]
    by (simp add: cycle_rechecker_def stored_coordinator_def beside_def with_world_def)
  show "user_keys_ok (fst (snd st1)) \<and> known_ids (fst (snd st1)) = known_ids (fst (snd st))"
    if "user_keys_ok (fst (snd st))" "evaluate_for_recheck (rk_evaluator ?rk) i st = (r, st1)"
  proof -
    have "fst (snd st1) = fst (snd st)"
      using that(2) by (auto simp: cycle_rechecker_def evaluate_for_recheck_def
          split: prod.splits sum.splits if_splits dest: evaluate_tables)
    with that(1) show ?thesis by simp
  qed
  show "user_keys_ok (fst (snd st1)) \<and> known_ids (fst (snd st1)) = known_ids (fst (snd st))"
    if "user_keys_ok (fst (snd st))" "i \<in> set (known_ids (fst (snd st)))" "rk_ApplyQualification ?rk i d st = (r', st1)"
  proof -
    have "calm (apply_qualification_stored i d) (snd st) = (r', snd st1)"
      using that(3) by (auto simp: cycle_rechecker_def stored_coordinator_def beside_def with_world_def Let_def split: prod.splits)
    from calm_apply [OF this that(2,1)] show ?thesis .
  qed
qed

text \<open>
  C24. The paging of the recheck does not show: with any permitted batch size, a recheck on the
  stores is the same as one pass over all known users in the order of their identifiers - the
  same evaluations and decisions, the same summary and the same end, on the tables as the
  decisions change them on the way.
\<close>

theorem recheck_in_one_pass:
  assumes "user_keys_ok d" "valid_batch_size b"
  shows "recheck_once (cycle_rechecker (stored_coordinator ts) b) (l, (d, x)) =
    Some (conclude_recheck (cycle_rechecker (stored_coordinator ts) b)
      (check_users (cycle_rechecker (stored_coordinator ts) b) (known_ids d) empty_summary (l, (d, x))))"
  using stored.recheck_is_one_pass [of ts b "(l, (d, x))"] assms by (simp add: cycle_rechecker_def)

text \<open>Twelve users, so that a batch of ten takes two pages; nobody is in a chat.\<close>

definition sample_side :: "unit telegram_side" where
  "sample_side = \<lparr>ts_lookup = \<lparr>lk_GetChatMember = (\<lambda>c u w. (Inr \<lparr>cm_User = \<lparr>us_ID = u, us_IsBot = False, us_Username = ''''\<rparr>,
       cm_Status = ''left'', cm_IsMember = None\<rparr>, w)), lk_wait = (\<lambda>t w. (None, w)), lk_now = (\<lambda>w. 1), lk_jitter = (\<lambda>t w. (0, w))\<rparr>,
     ts_recipients = (\<lambda>w. (Inr [], w)), ts_send = (\<lambda>n i w. (Inr (), w))\<rparr>"

definition twelve_users :: vpn_db where
  "twelve_users = \<lparr>vpn_users = map (\<lambda>i. (i, \<lparr>vu_eligible = True, vu_status = Unclaimed, vu_credential_generation = 0,
       vu_period_started_at = None, vu_last_vpn_activity_at = None\<rparr>)) [7, 3, 12, 1, 2, 4, 5, 6, 8, 9, 10, 11],
     credential_bundles = [], quota_windows = [],
     traffic_health = \<lparr>th_fail_closed = False, th_failure_started_at = None, th_failure_stage = None, th_last_notified_at = None\<rparr>,
     core_action_outbox = [], outbox_next_id = 1, traffic_ingestion_batches = [],
     qualification_settings = settings_defaults,
     qualification_rules = [(-100, \<lparr>ru_chat_type = ''channel'', ru_title = '''', ru_enabled = True, ru_bot_admin_verified_at = Some 1\<rparr>)],
     tls_settings = tls_defaults, core_settings_table = core_settings_defaults, audit_events = [], db_clock = 5\<rparr>"

lemma recheck_in_one_pass_witness:
  "recheck_once (cycle_rechecker (stored_coordinator sample_side) 10) (\<lparr>rt_interval = 1, rt_nextRequest = 0\<rparr>, (twelve_users, ())) =
    Some (conclude_recheck (cycle_rechecker (stored_coordinator sample_side) 10)
      (check_users (cycle_rechecker (stored_coordinator sample_side) 10) [1..12] empty_summary
        (\<lparr>rt_interval = 1, rt_nextRequest = 0\<rparr>, (twelve_users, ()))))"
proof -
  have "user_keys_ok twelve_users" by (simp add: user_keys_ok_def twelve_users_def)
  moreover have "known_ids twelve_users = [1..12]"
    by (simp add: known_ids_def twelve_users_def upto_rec1)
  moreover have "valid_batch_size 10" by (simp add: valid_batch_size_def)
  ultimately show ?thesis using recheck_in_one_pass [of twelve_users 10 sample_side] by simp
qed

end
