(* ===== verification/Bot_Settings.thy ===== *)
theory Bot_Settings
  imports Snapshot Telegram
begin

text \<open>
  The bot token and its rotation (\<open>internal/postgres/bot_settings_store.go\<close>,
  \<open>cmd/server/bot_token.go\<close>, the choice of the token at startup in \<open>cmd/server/main.go\<close>) and the
  backup retention (\<open>internal/postgres/backup_settings_store.go\<close>, \<open>internal/domain/backup_settings.go\<close>).
  Each store has a row of its own beside the VPN tables, which hold the audit events.
\<close>

section \<open>The stored token\<close>

record bot_row =
  br_username :: string
  br_token :: "(byte list \<times> byte list) option"
  br_updated_at :: go_time

type_synonym bot_db = "vpn_db \<times> bot_row"

abbreviation "ErrBotTokenNotConfigured \<equiv> Sentinel ''bot token is not configured''"
abbreviation "botTokenPurpose \<equiv> ''telegram/bot-token''"

text \<open>The constraint of \<open>011_bot_settings.sql\<close>: a stored token comes with a name.\<close>

definition bot_row_ok :: "bot_row \<Rightarrow> bool" where
  "bot_row_ok row \<longleftrightarrow> br_token row = None \<or> br_username row \<noteq> ''''"

definition put_bot_row :: "bot_row \<Rightarrow> (bot_db, unit) call" where
  "put_bot_row row d = (if bot_row_ok row then (Inr (), (fst d, row)) else (Inl constraint_violated, d))"

definition save_bot_operation ::
    "int \<Rightarrow> byte list \<times> byte list \<Rightarrow> string \<Rightarrow> go_time \<Rightarrow> (bot_db \<times> faults, unit) call" where
  "save_bot_operation actor sealed username now =
     and_then (wrapping ''update bot settings'' (statement
       (put_bot_row \<lparr>br_username = username, br_token = Some sealed, br_updated_at = now\<rparr>))) (\<lambda>_.
     wrapping ''audit bot token update'' (statement (\<lambda>d.
       (Inr (), (record_audit actor ''bot.token.update'' 0 (fst d), snd d)))))"

definition save_bot_token ::
    "value_sealer \<Rightarrow> int \<Rightarrow> string \<Rightarrow> string \<Rightarrow> go_time \<Rightarrow> (bot_db \<times> faults, unit) call" where
  "save_bot_token seal actor token botUsername now =
     (let token = trim_space token; botUsername = trim_space botUsername in
      if actor \<le> 0 \<or> token = '''' \<or> botUsername = '''' \<or> now = 0
      then fail_with (Err ''bot token update parameters are invalid'')
      else case seal botTokenPurpose token of
        Inl e \<Rightarrow> fail_with (Wrap ''seal bot token'' e)
      | Inr sealed \<Rightarrow> run_in_transaction (save_bot_operation actor sealed botUsername now))"

definition stored_bot_token :: "value_opener \<Rightarrow> (bot_db \<times> faults, string) call" where
  "stored_bot_token openValue =
     and_then (wrapping ''read bot settings'' (statement (\<lambda>d. (Inr (br_token (snd d)), d)))) (\<lambda>stored.
       case stored of
         None \<Rightarrow> fail_with ErrBotTokenNotConfigured
       | Some (nonce, ciphertext) \<Rightarrow>
           if nonce = [] \<or> ciphertext = [] then fail_with ErrBotTokenNotConfigured
           else case openValue botTokenPurpose (nonce, ciphertext) of
             Inl e \<Rightarrow> fail_with (Wrap ''open bot token'' e)
           | Inr token \<Rightarrow> if token = '''' then fail_with ErrBotTokenNotConfigured else ok token)"

text \<open>The text that stands for an absent name is a parameter.\<close>

definition bot_overview :: "string \<Rightarrow> (bot_db \<times> faults, string \<times> go_time) call" where
  "bot_overview unset =
     and_then (wrapping ''read bot settings overview'' (statement (\<lambda>d. (Inr (snd d), d)))) (\<lambda>row.
       ok (if br_username row = '''' then unset else br_username row, br_updated_at row))"

text \<open>Which token the server starts with: any failure to read the stored one means the bootstrap token.\<close>

definition startup_token :: "value_opener \<Rightarrow> string \<Rightarrow> bot_db \<times> faults \<Rightarrow> string \<times> (bot_db \<times> faults)" where
  "startup_token openValue bootstrap st =
     (case stored_bot_token openValue st of
        (Inl e, st1) \<Rightarrow> (bootstrap, st1)
      | (Inr stored, st1) \<Rightarrow> (if stored \<noteq> '''' then stored else bootstrap, st1))"

section \<open>The rotation\<close>

abbreviation "ErrBotVerificationFailed \<equiv> Sentinel ''bot token verification failed''"

text \<open>
  \<open>botTokenManager.Rotate\<close>: verify, save, swap. The state has the live client, the tables and the
  world that \<open>verify\<close> (a call of Telegram's \<open>getMe\<close>) acts on; a client is made from a token.
\<close>

record ('client, 'w) bot_manager =
  bm_factory :: "string \<Rightarrow> 'client"
  bm_verify :: "'client \<Rightarrow> ('w, tg_user) call"
  bm_seal :: value_sealer

type_synonym ('client, 'w) bot_state = "'client swap_aware_client \<times> (bot_db \<times> faults) \<times> 'w"

definition rotate_bot_token ::
    "('client, 'w) bot_manager \<Rightarrow> int \<Rightarrow> string \<Rightarrow> go_time \<Rightarrow> (('client, 'w) bot_state, unit) call" where
  "rotate_bot_token bm actor token now st =
     (let (client, db, w) = st in
      case bm_verify bm (bm_factory bm token) w of
        (Inl e, w1) \<Rightarrow> (Inl (Wrap ''verify'' ErrBotVerificationFailed), (client, db, w1))
      | (Inr identity, w1) \<Rightarrow>
          if us_ID identity \<noteq> us_ID (sw_identity client) \<or> \<not> us_IsBot identity \<or> us_Username identity = ''''
          then (Inl ErrBotIdentityChanged, (client, db, w1))
          else case save_bot_token (bm_seal bm) actor token (us_Username identity) now db of
            (Inl e, db1) \<Rightarrow> (Inl (Wrap ''persist bot token'' e), (client, db1, w1))
          | (Inr _, db1) \<Rightarrow>
              (let (r, (live1, w2)) = swap_client (\<lambda>t. Some (bm_factory bm t)) (\<lambda>c w. (Inr identity, w)) token (client, w1)
               in (r, (live1, db1, w2))))"

section \<open>Backup retention\<close>

definition validate_backup :: "int \<Rightarrow> go_error option" where
  "validate_backup days =
     (if days < 1 \<or> 3650 < days then Some (Err ''backup retention days must be between 1 and 3650'') else None)"

type_synonym backup_db = "vpn_db \<times> int"

definition get_backup :: "(backup_db \<times> faults, int) call" where
  "get_backup =
     and_then (wrapping ''read backup settings'' (statement (\<lambda>d. (Inr (snd d), d)))) (\<lambda>days.
       case validate_backup days of
         Some e \<Rightarrow> fail_with (Wrap ''validate backup settings'' e)
       | None \<Rightarrow> ok days)"

definition update_backup :: "int \<Rightarrow> int \<Rightarrow> go_time \<Rightarrow> (backup_db \<times> faults, unit) call" where
  "update_backup actor days now =
     (if actor \<le> 0 \<or> now = 0 then fail_with (Err ''backup settings update parameters are invalid'')
      else case validate_backup days of
        Some e \<Rightarrow> fail_with e
      | None \<Rightarrow> run_in_transaction (
          and_then (wrapping ''update backup settings'' (statement (\<lambda>d.
            if 1 \<le> days \<and> days \<le> 3650 then (Inr (), (fst d, days)) else (Inl constraint_violated, d)))) (\<lambda>_.
          wrapping ''audit backup settings update'' (statement (\<lambda>d.
            (Inr (), (record_audit actor ''backup.settings.update'' 0 (fst d), snd d)))))))"

section \<open>What a rotation leaves behind\<close>

lemma save_bot_token_outcome:
  assumes "save_bot_token seal actor token username now (d, fs) = (r, (d', fs'))"
  shows "d' = d \<and> r \<noteq> Inr () \<or>
    (\<exists>sealed. seal botTokenPurpose (trim_space token) = Inr sealed \<and> trim_space token \<noteq> '''' \<and> 0 < actor \<and>
       snd d' = \<lparr>br_username = trim_space username, br_token = Some sealed, br_updated_at = now\<rparr> \<and>
       audit_events (fst d') = audit_events (fst d) @ [(actor, ''bot.token.update'', 0)])"
proof (cases "\<exists>sealed. seal botTokenPurpose (trim_space token) = Inr sealed \<and>
    \<not> (actor \<le> 0 \<or> trim_space token = '''' \<or> trim_space username = '''' \<or> now = 0)")
  case False
  with assms show ?thesis by (auto simp: save_bot_token_def fail_with_def Let_def split: if_splits sum.splits)
next
  case True
  then obtain sealed where s: "seal botTokenPurpose (trim_space token) = Inr sealed" "0 < actor" "trim_space token \<noteq> ''''"
    "trim_space username \<noteq> ''''" by auto
  with True assms have "run_in_transaction (save_bot_operation actor sealed (trim_space username) now) (d, fs) = (r, (d', fs'))"
    by (auto simp: save_bot_token_def Let_def)
  from transaction_outcome [OF this] show ?thesis
    using s by (auto simp: save_bot_operation_def put_bot_row_def bot_row_ok_def record_audit_def
        dest!: statement_InrD elim!: and_then_InrE)
qed

section \<open>The bot stays the same\<close>

text \<open>
  The life of the server as far as the token goes: rotations while it runs, and restarts, which
  choose a token, ask Telegram whose it is and start only with a bot's valid identity.
\<close>

datatype bot_op = RotateToken int string go_time | RestartServer

definition start_bot ::
    "('client, 'w) bot_manager \<Rightarrow> value_opener \<Rightarrow> string \<Rightarrow> (bot_db \<times> faults) \<times> 'w
       \<Rightarrow> 'client swap_aware_client option \<times> (bot_db \<times> faults) \<times> 'w" where
  "start_bot bm openValue bootstrap st =
     (let (token, db1) = startup_token openValue bootstrap (fst st); c = bm_factory bm token in
      case bm_verify bm c (snd st) of
        (Inl e, w1) \<Rightarrow> (None, db1, w1)
      | (Inr identity, w1) \<Rightarrow>
          (case new_swap_aware_client (Some c) identity of Inl e \<Rightarrow> None | Inr client \<Rightarrow> Some client, db1, w1))"

fun bot_step where
  "bot_step bm openValue bootstrap (RotateToken actor token now) (client, db, w) =
     (case client of
        None \<Rightarrow> (None, db, w)
      | Some l \<Rightarrow> (let (r, (l1, db1, w1)) = rotate_bot_token bm actor token now (l, db, w) in (Some l1, db1, w1)))"
| "bot_step bm openValue bootstrap RestartServer (client, db, w) = start_bot bm openValue bootstrap (db, w)"

fun bot_run where
  "bot_run bm openValue bootstrap [] st = st"
| "bot_run bm openValue bootstrap (x # xs) st = bot_run bm openValue bootstrap xs (bot_step bm openValue bootstrap x st)"

text \<open>The live client and whatever token can be read from the row are of bot \<open>i\<close>.\<close>

definition of_bot :: "(string \<Rightarrow> 'client) \<Rightarrow> ('client \<Rightarrow> int) \<Rightarrow> value_opener \<Rightarrow> int
    \<Rightarrow> 'client swap_aware_client option \<times> (bot_db \<times> faults) \<times> 'w \<Rightarrow> bool" where
  "of_bot factory owner openValue i st \<longleftrightarrow>
     (case fst st of None \<Rightarrow> True | Some l \<Rightarrow> owner (sw_current l) = i \<and> us_ID (sw_identity l) = i) \<and>
     (case br_token (snd (fst (fst (snd st)))) of None \<Rightarrow> True
      | Some sealed \<Rightarrow> \<forall>token. openValue botTokenPurpose sealed = Inr token \<longrightarrow> owner (factory token) = i)"

lemma statement_reading:
  "statement (\<lambda>d. (Inr (f d), d)) (d, fs) = (r, (d', fs')) \<Longrightarrow> d' = d \<and> (r = Inr (f d) \<or> (\<exists>e. r = Inl e))"
  by (auto simp: statement_def split: prod.splits fault.splits)

lemma startup_token_cases:
  assumes "startup_token openValue bootstrap (d, fs) = (token, (d', fs'))"
  shows "d' = d \<and> (token = bootstrap \<or> (\<exists>sealed. br_token (snd d) = Some sealed \<and> openValue botTokenPurpose sealed = Inr token))"
proof -
  obtain r d2 fs1 where st2: "statement (\<lambda>d. (Inr (br_token (snd d)), d)) (d, fs) = (r, (d2, fs1))"
    by (cases "statement (\<lambda>d. (Inr (br_token (snd d)), d)) (d, fs)") (metis surj_pair)
  with statement_reading [OF st2] have st: "statement (\<lambda>d. (Inr (br_token (snd d)), d)) (d, fs) = (r, (d, fs1))" by simp
  show ?thesis
  proof (cases "r = Inr (br_token (snd d))")
    case False
    with statement_reading [OF st] obtain e where "r = Inl e" by blast
    with assms st show ?thesis
      by (simp add: startup_token_def stored_bot_token_def and_then_def wrapping_def)
  next
    case True
    show ?thesis
    proof (cases "br_token (snd d)")
      case None
      with assms st True show ?thesis
        by (simp add: startup_token_def stored_bot_token_def and_then_def wrapping_def fail_with_def)
    next
      case (Some sealed)
      with assms st True show ?thesis
        by (cases sealed; cases "openValue botTokenPurpose sealed")
          (auto simp: startup_token_def stored_bot_token_def and_then_def wrapping_def fail_with_def ok_def split: if_splits)
    qed
  qed
qed

lemma rotate_bot_token_keeps:
  assumes asks: "\<And>c w u w1. bm_verify bm c w = (Inr u, w1) \<Longrightarrow> us_ID u = owner c"
    and trimmed: "\<And>t w u w1. bm_verify bm (bm_factory bm t) w = (Inr u, w1) \<Longrightarrow> trim_space t = t"
    and cipher: "\<And>t sealed. bm_seal bm botTokenPurpose t = Inr sealed \<Longrightarrow> openValue botTokenPurpose sealed = Inr t"
    and inv: "of_bot (bm_factory bm) owner openValue i (Some l, (d, fs), w)"
    and run: "rotate_bot_token bm actor token now (l, (d, fs), w) = (r, (l1, (d1, fs1), w1))"
  shows "of_bot (bm_factory bm) owner openValue i (Some l1, (d1, fs1), w1)"
proof -
  obtain rv w2 where v: "bm_verify bm (bm_factory bm token) w = (rv, w2)" by (cases "bm_verify bm (bm_factory bm token) w")
  show ?thesis
  proof (cases "\<exists>u. rv = Inr u \<and> \<not> (us_ID u \<noteq> us_ID (sw_identity l) \<or> \<not> us_IsBot u \<or> us_Username u = '''')")
    case False
    with run v have "l1 = l" "d1 = d" by (auto simp: rotate_bot_token_def split: sum.splits if_splits)
    with inv show ?thesis by (simp add: of_bot_def)
  next
    case True
    then obtain u where u: "rv = Inr u" "us_ID u = us_ID (sw_identity l)" "us_IsBot u" "us_Username u \<noteq> ''''" by blast
    with v asks trimmed inv have own: "owner (bm_factory bm token) = i" "trim_space token = token"
      by (auto simp: of_bot_def)
    obtain rs d2 fs2 where s: "save_bot_token (bm_seal bm) actor token (us_Username u) now (d, fs) = (rs, (d2, fs2))"
      by (metis surj_pair)
    from run v u s have d1: "d1 = d2" and l1: "l1 = l \<or> sw_current l1 = bm_factory bm token \<and> us_ID (sw_identity l1) = us_ID (sw_identity l)"
      by (auto simp: rotate_bot_token_def swap_client_def split: sum.splits if_splits prod.splits)
    from save_bot_token_outcome [OF s] own cipher inv
    have "case br_token (snd d2) of None \<Rightarrow> True
      | Some sealed \<Rightarrow> \<forall>token. openValue botTokenPurpose sealed = Inr token \<longrightarrow> owner (bm_factory bm token) = i"
      by (auto simp: of_bot_def split: option.splits)
    with l1 d1 own inv show ?thesis by (auto simp: of_bot_def)
  qed
qed

lemma start_bot_keeps:
  assumes asks: "\<And>c w u w1. bm_verify bm c w = (Inr u, w1) \<Longrightarrow> us_ID u = owner c"
    and boot: "owner (bm_factory bm bootstrap) = i"
    and inv: "of_bot (bm_factory bm) owner openValue i (client, (d, fs), w)"
  shows "of_bot (bm_factory bm) owner openValue i (start_bot bm openValue bootstrap ((d, fs), w))"
proof -
  obtain token d1 fs1 where t: "startup_token openValue bootstrap (d, fs) = (token, (d1, fs1))" by (metis surj_pair)
  from startup_token_cases [OF t] boot inv have "d1 = d" "owner (bm_factory bm token) = i"
    by (auto simp: of_bot_def)
  moreover obtain rv w2 where v: "bm_verify bm (bm_factory bm token) w = (rv, w2)"
    by (cases "bm_verify bm (bm_factory bm token) w")
  ultimately show ?thesis using t inv asks [of "bm_factory bm token" w _ w2]
    by (cases rv) (auto simp: start_bot_def of_bot_def new_swap_aware_client_def Let_def split: sum.splits if_splits)
qed

text \<open>
  C35. Users always talk to the same bot. If Telegram answers for a client with the bot its token
  belongs to, accepts no token with blanks around it, and the cipher opens what it sealed, then
  after any sequence of rotations and restarts, with whatever tokens, lost statements and
  acknowledgements and failures to reach Telegram, the live client is one of the bot that the
  bootstrap token belongs to, and so is every token that a later start may read from the table.
\<close>

theorem bot_stays_the_same:
  assumes asks: "\<And>c w u w1. bm_verify bm c w = (Inr u, w1) \<Longrightarrow> us_ID u = owner c"
    and trimmed: "\<And>t w u w1. bm_verify bm (bm_factory bm t) w = (Inr u, w1) \<Longrightarrow> trim_space t = t"
    and cipher: "\<And>t sealed. bm_seal bm botTokenPurpose t = Inr sealed \<Longrightarrow> openValue botTokenPurpose sealed = Inr t"
    and first: "owner (bm_factory bm bootstrap) = i" "br_token (snd d) = None"
    and run: "bot_run bm openValue bootstrap xs (None, (d, fs), w) = (client, (d', fs'), w')"
  shows "(\<forall>l. client = Some l \<longrightarrow> owner (sw_current l) = i \<and> us_ID (sw_identity l) = i) \<and>
    (\<forall>sealed token. br_token (snd d') = Some sealed \<longrightarrow> openValue botTokenPurpose sealed = Inr token \<longrightarrow>
       owner (bm_factory bm token) = i)"
proof -
  have "of_bot (bm_factory bm) owner openValue i (bot_run bm openValue bootstrap xs st)"
    if "of_bot (bm_factory bm) owner openValue i st" for st
    using that
  proof (induction xs arbitrary: st)
    case Nil
    then show ?case by simp
  next
    case (Cons x xs)
    obtain live1 d1 fs1 w1 where st: "st = (live1, (d1, fs1), w1)" by (metis surj_pair)
    have "of_bot (bm_factory bm) owner openValue i (bot_step bm openValue bootstrap x st)"
    proof (cases x)
      case (RotateToken actor token now)
      show ?thesis
      proof (cases live1)
        case None
        with RotateToken Cons.prems st show ?thesis by simp
      next
        case (Some l)
        obtain r l1 d2 fs2 w2 where rot: "rotate_bot_token bm actor token now (l, (d1, fs1), w1) = (r, (l1, (d2, fs2), w2))"
          by (metis surj_pair)
        from Cons.prems st Some have "of_bot (bm_factory bm) owner openValue i (Some l, (d1, fs1), w1)" by simp
        from rotate_bot_token_keeps [where bm = bm and owner = owner and openValue = openValue,
            OF asks trimmed cipher this rot] st Some RotateToken rot
        show ?thesis by simp
      qed
    next
      case RestartServer
      with start_bot_keeps [where bm = bm and owner = owner, OF asks first(1)] Cons.prems st show ?thesis by simp
    qed
    with Cons.IH show ?case by simp
  qed
  from this [of "(None, (d, fs), w)"] run first(2) show ?thesis
    by (auto simp: of_bot_def split: option.splits)
qed

definition sample_bot_manager :: "(string, unit) bot_manager" where
  "sample_bot_manager = \<lparr>bm_factory = (\<lambda>t. t),
     bm_verify = (\<lambda>c w. (if c = ''7:a'' \<or> c = ''7:b''
        then Inr \<lparr>us_ID = 7, us_IsBot = True, us_Username = ''vpn_bot''\<rparr> else Inl (Err ''Unauthorized''), w)),
     bm_seal = (\<lambda>purpose t. if t = ''7:b'' then Inr ([1], [2]) else Inl (Err ''unavailable''))\<rparr>"

definition sample_bot_opener :: value_opener where
  "sample_bot_opener purpose sealed = (if sealed = ([1], [2]) then Inr ''7:b'' else Inl (Err ''message authentication failed''))"

text \<open>After a rotation the server restarts with the new token.\<close>

lemma bot_stays_the_same_witness:
  "let st = bot_run sample_bot_manager sample_bot_opener ''7:a'' [RestartServer, RotateToken 1 ''7:b'' hour, RestartServer]
       (None, ((sample_served_db, \<lparr>br_username = '''', br_token = None, br_updated_at = 0\<rparr>), []), ())
   in map_option sw_current (fst st) = Some ''7:b'' \<and> map_option (\<lambda>l. us_ID (sw_identity l)) (fst st) = Some 7"
proof -
  let ?st = "bot_run sample_bot_manager sample_bot_opener ''7:a'' [RestartServer, RotateToken 1 ''7:b'' hour, RestartServer]
       (None, ((sample_served_db, \<lparr>br_username = '''', br_token = None, br_updated_at = 0\<rparr>), []), ())"
  obtain client d' fs' w' where run: "?st = (client, (d', fs'), w')" by (metis surj_pair)
  have current: "map_option sw_current (fst ?st) = Some ''7:b''" by code_simp
  have "(\<forall>l. client = Some l \<longrightarrow> (\<lambda>c. 7) (sw_current l) = (7 :: int) \<and> us_ID (sw_identity l) = 7) \<and>
    (\<forall>sealed token. br_token (snd d') = Some sealed \<longrightarrow> sample_bot_opener botTokenPurpose sealed = Inr token \<longrightarrow>
       (\<lambda>c. 7) (bm_factory sample_bot_manager token) = (7 :: int))"
  proof (rule bot_stays_the_same [OF _ _ _ _ _ run])
    show "trim_space t = t" if "bm_verify sample_bot_manager (bm_factory sample_bot_manager t) w = (Inr u, w1)" for t w u w1
    proof -
      from that have "t = ''7:a'' \<or> t = ''7:b''" by (auto simp: sample_bot_manager_def split: if_splits)
      moreover have "trim_space ''7:a'' = ''7:a''" "trim_space ''7:b'' = ''7:b''" by code_simp+
      ultimately show ?thesis by blast
    qed
  qed (auto simp: sample_bot_manager_def sample_bot_opener_def split: if_splits)
  with current run show ?thesis unfolding Let_def by auto
qed

end
