(* ===== verification/Web_Routes.thy ===== *)
theory Web_Routes
  imports Web_Request Login Login_Limits Management_Settings Telegram_Commands Subscription Tls Notices Qualification Bot_Settings
begin

text \<open>
  The handlers of the web interface (\<open>internal/httpapi\<close>) and the route table of \<open>newHandler\<close> with
  every service configured, as the server wires it. The services are functions of a record, on a
  state \<open>'w\<close>.
\<close>

section \<open>Services and answers\<close>

datatype web_reply =
    HealthReply string
  | LoginReply string
  | IdentityReply int role bool
  | UsersReply "user_overview list"
  | AdministratorsReply "(int \<times> role \<times> bool) list"
  | AuditReply "audit_entry list"
  | ManagementReply management_settings "rule_overview list"
  | AffectedReply int
  | CoreReply core_overview
  | TLSReply tls_overview
  | OverviewReply user_statistics bool bool
  | BotReply string go_time
  | SearchStatusReply search_status
  | SearchReply search_snapshot
  | BackupReply int

type_synonym web_response = "web_reply http_response"

record 'w web_services =
  wa_Ping :: "('w, unit) call"
  wa_Exchange :: "int \<Rightarrow> string \<Rightarrow> ('w, string \<times> string) call"
  wa_Authenticate :: "string \<Rightarrow> ('w, administrator) call"
  wa_RevokeSession :: "string \<Rightarrow> ('w, unit) call"
  wa_trusted :: "ip_prefix list"
  wa_Begin :: "ip_addr option \<Rightarrow> int \<Rightarrow> 'w \<Rightarrow> login_attempt option \<times> 'w"
  wa_Complete :: "login_attempt \<Rightarrow> bool \<Rightarrow> 'w \<Rightarrow> 'w"
  wa_RecordLoginAttempt :: "int \<Rightarrow> ip_addr option \<Rightarrow> bool \<Rightarrow> go_time \<Rightarrow> ('w, unit) call"
  wa_Render :: "string \<Rightarrow> sub_format \<Rightarrow> ('w, string) call"
  wa_ListUsers :: "int \<Rightarrow> int \<Rightarrow> ('w, user_overview list) call"
  wa_Revoke :: "int \<Rightarrow> int \<Rightarrow> revocation_mode \<Rightarrow> go_time \<Rightarrow> ('w, unit) call"
  wa_RejectApproval :: "int \<Rightarrow> int \<Rightarrow> go_time \<Rightarrow> ('w, unit) call"
  wa_Approve :: "int \<Rightarrow> go_time \<Rightarrow> ('w, provisioned_access) call"
  wa_Rotate :: "int \<Rightarrow> go_time \<Rightarrow> bool \<Rightarrow> ('w, provisioned_access) call"
  wa_ListAdministrators :: "('w, administrator list) call"
  wa_SetRole :: "int \<Rightarrow> int \<Rightarrow> role \<Rightarrow> go_time \<Rightarrow> ('w, unit) call"
  wa_RemoveAdministrator :: "int \<Rightarrow> int \<Rightarrow> go_time \<Rightarrow> ('w, unit) call"
  wa_ListAudit :: "int \<Rightarrow> int \<Rightarrow> ('w, audit_entry list) call"
  wa_GetManagement :: "('w, management_settings \<times> rule_overview list) call"
  wa_PreviewInactivity :: "int \<Rightarrow> go_time \<Rightarrow> ('w, int) call"
  wa_UpdateManagement :: "int \<Rightarrow> management_settings \<Rightarrow> bool \<Rightarrow> go_time \<Rightarrow> ('w, unit) call"
  wa_EnableRule :: "int \<Rightarrow> managed_rule \<Rightarrow> ('w, unit) call"
  wa_DisableRule :: "int \<Rightarrow> int \<Rightarrow> ('w, unit) call"
  wa_GetCore :: "('w, core_overview) call"
  wa_UpdateCore :: "int \<Rightarrow> bool \<Rightarrow> core_settings \<Rightarrow> go_time \<Rightarrow> ('w, unit) call"
  wa_GetTLS :: "('w, tls_overview) call"
  wa_SaveTLS :: "int \<Rightarrow> tls_update \<Rightarrow> go_time \<Rightarrow> ('w, unit) call"
  wa_Statistics :: "('w, user_statistics) call"
  wa_TLSIssued :: "('w, bool) call"
  wa_CoreConfigured :: "('w, bool) call"
  wa_GetBot :: "('w, string \<times> go_time) call"
  wa_RotateBot :: "int \<Rightarrow> string \<Rightarrow> go_time \<Rightarrow> ('w, unit) call"
  wa_StartSearch :: "('w, unit) call"
  wa_SearchSnapshot :: "'w \<Rightarrow> search_snapshot"
  wa_GetBackup :: "('w, int) call"
  wa_UpdateBackup :: "int \<Rightarrow> int \<Rightarrow> go_time \<Rightarrow> ('w, unit) call"
  wa_now :: "'w \<Rightarrow> go_time"

text \<open>What the JSON bodies decode to.\<close>

record web_decoders =
  dc_Login :: "(int \<times> string) decoder"
  dc_Mode :: "revocation_mode decoder"
  dc_ResetPeriod :: "bool decoder"
  dc_Role :: "role decoder"
  dc_ThresholdDays :: "int decoder"
  dc_Management :: "(management_settings \<times> bool) decoder"
  dc_Rule :: "(chat_type \<times> string) decoder"
  dc_Core :: "(bool \<times> core_settings) decoder"
  dc_TLS :: "tls_update decoder"
  dc_BotToken :: "string decoder"
  dc_Backup :: "int decoder"

section \<open>Health, login and sessions\<close>

definition ready_handler :: "'w web_services \<Rightarrow> 'w \<Rightarrow> web_response \<times> 'w" where
  "ready_handler wa w =
     (case wa_Ping wa w of
        (Inl e, w1) \<Rightarrow> (write_json 503 (HealthReply ''unavailable''), w1)
      | (Inr _, w1) \<Rightarrow> (write_json 200 (HealthReply ''ready''), w1))"

definition auth_cookie :: "string \<Rightarrow> string \<Rightarrow> bool \<Rightarrow> set_cookie" where
  "auth_cookie name v httpOnly = \<lparr>ck_Name = name, ck_Value = v, ck_MaxAge = 7 * 24 * 60 * 60, ck_HttpOnly = httpOnly\<rparr>"

definition cleared_cookie :: "string \<Rightarrow> bool \<Rightarrow> set_cookie" where
  "cleared_cookie name httpOnly = \<lparr>ck_Name = name, ck_Value = '''', ck_MaxAge = -1, ck_HttpOnly = httpOnly\<rparr>"

text \<open>The body of a login request: a positive Telegram ID and a code, nothing after them.\<close>

definition login_input :: "web_decoders \<Rightarrow> http_request \<Rightarrow> web_response + int \<times> string" where
  "login_input dc rq =
     (if rq_MediaType rq \<noteq> Some ''application/json'' then Inl (write_error 415 ''content_type_invalid'')
      else case decode_body (dc_Login dc) (rq_Body rq) of
        None \<Rightarrow> Inl (write_error 400 ''request_invalid'')
      | Some (telegramID, code) \<Rightarrow>
          if telegramID \<le> 0 \<or> code = '''' then Inl (write_error 400 ''request_invalid'')
          else Inr (telegramID, code))"

text \<open>The login after the limiter admitted it.\<close>

definition login_admitted ::
    "'w web_services \<Rightarrow> ip_addr option \<Rightarrow> login_attempt \<Rightarrow> int \<Rightarrow> string \<Rightarrow> 'w \<Rightarrow> web_response \<times> 'w" where
  "login_admitted wa sourceIP attempt telegramID code w =
     (case wa_Exchange wa telegramID code w of
        (Inl e, w1) \<Rightarrow>
          let w2 = wa_Complete wa attempt False w1 in
          (case wa_RecordLoginAttempt wa telegramID sourceIP False (wa_now wa w2) w2 of
             (Inl e1, w3) \<Rightarrow> (write_error 503 ''login_audit_failed'', w3)
           | (Inr _, w3) \<Rightarrow> (write_error 401 ''login_invalid'', w3))
      | (Inr (sessionToken, csrfToken), w1) \<Rightarrow>
          (case wa_RecordLoginAttempt wa telegramID sourceIP True (wa_now wa w1) w1 of
             (Inl e, w2) \<Rightarrow>
               (write_error 503 ''login_audit_failed'',
                snd (wa_RevokeSession wa sessionToken (wa_Complete wa attempt False w2)))
           | (Inr _, w2) \<Rightarrow>
               ((write_json 200 (LoginReply csrfToken))
                  \<lparr>rs_Cookies := [auth_cookie ''vpn_admin_session'' sessionToken True,
                                  auth_cookie ''vpn_csrf_token'' csrfToken False]\<rparr>,
                wa_Complete wa attempt True w2)))"

definition login_handler :: "'w web_services \<Rightarrow> web_decoders \<Rightarrow> http_request \<Rightarrow> 'w \<Rightarrow> web_response \<times> 'w" where
  "login_handler wa dc rq w =
     (case login_input dc rq of
        Inl refused \<Rightarrow> (refused, w)
      | Inr (telegramID, code) \<Rightarrow>
          let sourceIP = resolve_source (wa_trusted wa) rq in
          (case wa_Begin wa sourceIP telegramID w of
             (None, w1) \<Rightarrow> ((write_error 429 ''login_rate_limited'')\<lparr>rs_RetryAfter := ''900''\<rparr>, w1)
           | (Some attempt, w1) \<Rightarrow> login_admitted wa sourceIP attempt telegramID code w1))"

definition identity_handler :: "'w web_services \<Rightarrow> http_request \<Rightarrow> 'w \<Rightarrow> web_response \<times> 'w" where
  "identity_handler wa rq w =
     (case authenticate_request (wa_Authenticate wa) rq w of
        (Inl refused, w1) \<Rightarrow> (refused, w1)
      | (Inr (token, a), w1) \<Rightarrow>
          (write_json 200 (IdentityReply (adm_TelegramID a) (adm_Role a) (adm_Root a)), w1))"

definition logout_handler :: "'w web_services \<Rightarrow> http_request \<Rightarrow> 'w \<Rightarrow> web_response \<times> 'w" where
  "logout_handler wa rq w =
     (case authenticate_request (wa_Authenticate wa) rq w of
        (Inl refused, w1) \<Rightarrow> (refused, w1)
      | (Inr (token, a), w1) \<Rightarrow>
          if \<not> valid_csrf rq then (write_error 403 ''csrf_invalid'', w1)
          else case wa_RevokeSession wa token w1 of
            (Inl e, w2) \<Rightarrow> (write_error 500 ''session_revoke_failed'', w2)
          | (Inr _, w2) \<Rightarrow>
              (write_no_content\<lparr>rs_Cookies := [cleared_cookie ''vpn_admin_session'' True,
                                               cleared_cookie ''vpn_csrf_token'' False]\<rparr>, w2))"

definition subscription_handler :: "'w web_services \<Rightarrow> http_request \<Rightarrow> 'w \<Rightarrow> web_response \<times> 'w" where
  "subscription_handler wa rq w =
     (case negotiate_format (rq_Query rq ''format'') (rq_Header rq ''User-Agent'') of
        Inl e \<Rightarrow> (write_error 400 ''subscription_format_invalid'', w)
      | Inr f \<Rightarrow>
          (case wa_Render wa (rq_PathValue rq ''token'') f w of
             (Inl e, w1) \<Rightarrow> (write_error 404 ''subscription_not_found'', w1)
           | (Inr body, w1) \<Rightarrow>
               (\<lparr>rs_Code = 200, rs_RetryAfter = '''', rs_Cookies = [],
                 rs_Body = TextBody (if f = FormatSingBox \<or> f = FormatClash then ''application/json''
                                     else ''text/plain; charset=utf-8'') body\<rparr>, w1)))"

section \<open>Handlers behind an authorization\<close>

text \<open>The shapes that the handlers share: authorize, decode, call a service, answer.\<close>

definition authorized_then ::
    "'w web_services \<Rightarrow> permission \<Rightarrow> bool \<Rightarrow> http_request \<Rightarrow> (administrator \<Rightarrow> 'w \<Rightarrow> web_response \<times> 'w)
       \<Rightarrow> 'w \<Rightarrow> web_response \<times> 'w" where
  "authorized_then wa perm csrf rq k w =
     (case authorize (wa_Authenticate wa) perm csrf rq w of
        (Inl refused, w1) \<Rightarrow> (refused, w1)
      | (Inr (token, administrator), w1) \<Rightarrow> k administrator w1)"

definition mutation_then ::
    "'w web_services \<Rightarrow> permission \<Rightarrow> http_request \<Rightarrow> (administrator \<Rightarrow> int \<Rightarrow> 'w \<Rightarrow> web_response \<times> 'w)
       \<Rightarrow> 'w \<Rightarrow> web_response \<times> 'w" where
  "mutation_then wa perm rq k w =
     (case authorize_mutation (wa_Authenticate wa) perm rq w of
        (Inl refused, w1) \<Rightarrow> (refused, w1)
      | (Inr (administrator, target), w1) \<Rightarrow> k administrator target w1)"

definition decoded_then ::
    "'i decoder \<Rightarrow> http_request \<Rightarrow> ('i \<Rightarrow> 'w \<Rightarrow> web_response \<times> 'w) \<Rightarrow> 'w \<Rightarrow> web_response \<times> 'w" where
  "decoded_then decode rq k w =
     (case decode_strict_json decode rq of Inl refused \<Rightarrow> (refused, w) | Inr input \<Rightarrow> k input w)"

definition answer_json :: "string \<Rightarrow> ('a \<Rightarrow> web_reply) \<Rightarrow> (go_error + 'a) \<times> 'w \<Rightarrow> web_response \<times> 'w" where
  "answer_json reason f r =
     (case r of (Inl e, w1) \<Rightarrow> (write_error 500 reason, w1) | (Inr x, w1) \<Rightarrow> (write_json 200 (f x), w1))"

definition answer_done :: "string \<Rightarrow> (go_error + 'a) \<times> 'w \<Rightarrow> web_response \<times> 'w" where
  "answer_done reason r =
     (case r of (Inl e, w1) \<Rightarrow> (write_error 409 reason, w1) | (Inr x, w1) \<Rightarrow> (write_no_content, w1))"

text \<open>\<open>management.go\<close>\<close>

definition get_users :: "'w web_services \<Rightarrow> http_request \<Rightarrow> 'w \<Rightarrow> web_response \<times> 'w" where
  "get_users wa rq = authorized_then wa ManageUsers False rq (\<lambda>administrator w.
     if adm_TelegramID administrator \<le> 0
     then (\<lparr>rs_Code = 200, rs_RetryAfter = '''', rs_Cookies = [], rs_Body = NoBody\<rparr>, w)
     else case parse_list_window rq of
       None \<Rightarrow> (write_error 400 ''request_invalid'', w)
     | Some (after, limit) \<Rightarrow> answer_json ''users_unavailable'' UsersReply (wa_ListUsers wa after limit w))"

definition post_revoke :: "'w web_services \<Rightarrow> web_decoders \<Rightarrow> http_request \<Rightarrow> 'w \<Rightarrow> web_response \<times> 'w" where
  "post_revoke wa dc rq = mutation_then wa ManageUsers rq (\<lambda>administrator target.
     decoded_then (dc_Mode dc) rq (\<lambda>mode w.
       answer_done ''user_operation_failed'' (wa_Revoke wa (adm_TelegramID administrator) target mode (wa_now wa w) w)))"

definition post_reject :: "'w web_services \<Rightarrow> http_request \<Rightarrow> 'w \<Rightarrow> web_response \<times> 'w" where
  "post_reject wa rq = mutation_then wa ManageApprovals rq (\<lambda>administrator target w.
     answer_done ''user_operation_failed'' (wa_RejectApproval wa (adm_TelegramID administrator) target (wa_now wa w) w))"

definition post_approve :: "'w web_services \<Rightarrow> http_request \<Rightarrow> 'w \<Rightarrow> web_response \<times> 'w" where
  "post_approve wa rq = mutation_then wa ManageApprovals rq (\<lambda>administrator target w.
     answer_done ''user_operation_failed'' (wa_Approve wa target (wa_now wa w) w))"

definition post_rotate :: "'w web_services \<Rightarrow> web_decoders \<Rightarrow> http_request \<Rightarrow> 'w \<Rightarrow> web_response \<times> 'w" where
  "post_rotate wa dc rq = mutation_then wa ManageUsers rq (\<lambda>administrator target.
     decoded_then (dc_ResetPeriod dc) rq (\<lambda>resetPeriod w.
       answer_done ''user_operation_failed'' (wa_Rotate wa target (wa_now wa w) resetPeriod w)))"

text \<open>\<open>administrator_management.go\<close>\<close>

definition get_administrators :: "'w web_services \<Rightarrow> http_request \<Rightarrow> 'w \<Rightarrow> web_response \<times> 'w" where
  "get_administrators wa rq = authorized_then wa ManageRoles False rq (\<lambda>administrator w.
     answer_json ''administrators_unavailable''
       (\<lambda>items. AdministratorsReply (map (\<lambda>a. (adm_TelegramID a, adm_Role a, adm_Root a)) items))
       (wa_ListAdministrators wa w))"

definition post_role :: "'w web_services \<Rightarrow> web_decoders \<Rightarrow> http_request \<Rightarrow> 'w \<Rightarrow> web_response \<times> 'w" where
  "post_role wa dc rq = mutation_then wa ManageRoles rq (\<lambda>actor target.
     decoded_then (dc_Role dc) rq (\<lambda>r w.
       if r \<noteq> RoleOwner \<and> r \<noteq> RoleAdministrator then (write_error 400 ''request_invalid'', w)
       else answer_done ''administrator_operation_failed''
              (wa_SetRole wa (adm_TelegramID actor) target r (wa_now wa w) w)))"

definition delete_administrator :: "'w web_services \<Rightarrow> http_request \<Rightarrow> 'w \<Rightarrow> web_response \<times> 'w" where
  "delete_administrator wa rq = mutation_then wa ManageRoles rq (\<lambda>actor target w.
     answer_done ''administrator_operation_failed''
       (wa_RemoveAdministrator wa (adm_TelegramID actor) target (wa_now wa w) w))"

text \<open>\<open>audit.go\<close>\<close>

definition get_audit :: "'w web_services \<Rightarrow> http_request \<Rightarrow> 'w \<Rightarrow> web_response \<times> 'w" where
  "get_audit wa rq = authorized_then wa ViewAudit False rq (\<lambda>administrator w.
     case parse_audit_window rq of
       None \<Rightarrow> (write_error 400 ''request_invalid'', w)
     | Some (before, limit) \<Rightarrow> answer_json ''audit_unavailable'' AuditReply (wa_ListAudit wa before limit w))"

text \<open>\<open>management_settings.go\<close>\<close>

definition get_management_settings :: "'w web_services \<Rightarrow> http_request \<Rightarrow> 'w \<Rightarrow> web_response \<times> 'w" where
  "get_management_settings wa rq = authorized_then wa ManageGlobalSettings False rq (\<lambda>administrator w.
     answer_json ''settings_unavailable'' (\<lambda>(settings, rules). ManagementReply settings rules) (wa_GetManagement wa w))"

definition post_inactivity_preview :: "'w web_services \<Rightarrow> web_decoders \<Rightarrow> http_request \<Rightarrow> 'w \<Rightarrow> web_response \<times> 'w" where
  "post_inactivity_preview wa dc rq = authorized_then wa ManageGlobalSettings True rq (\<lambda>administrator.
     decoded_then (dc_ThresholdDays dc) rq (\<lambda>days w.
       if days < 1 then (write_error 400 ''request_invalid'', w)
       else answer_json ''settings_unavailable'' AffectedReply (wa_PreviewInactivity wa days (wa_now wa w) w)))"

definition put_management_settings :: "'w web_services \<Rightarrow> web_decoders \<Rightarrow> http_request \<Rightarrow> 'w \<Rightarrow> web_response \<times> 'w" where
  "put_management_settings wa dc rq = authorized_then wa ManageGlobalSettings True rq (\<lambda>administrator.
     decoded_then (dc_Management dc) rq (\<lambda>(settings, confirmed) w.
       if validate_management settings \<noteq> None then (write_error 400 ''request_invalid'', w)
       else answer_done ''settings_operation_failed''
              (wa_UpdateManagement wa (adm_TelegramID administrator) settings confirmed (wa_now wa w) w)))"

text \<open>\<open>qualification_rules.go\<close>\<close>

definition put_rule :: "'w web_services \<Rightarrow> web_decoders \<Rightarrow> http_request \<Rightarrow> 'w \<Rightarrow> web_response \<times> 'w" where
  "put_rule wa dc rq = authorized_then wa ManageGlobalSettings True rq (\<lambda>administrator w.
     case parse_chat_id (rq_PathValue rq ''chat_id'') of
       None \<Rightarrow> (write_error 400 ''request_invalid'', w)
     | Some chatID \<Rightarrow>
         decoded_then (dc_Rule dc) rq (\<lambda>(chatType, title) w.
           if chatType \<noteq> ChatSupergroup \<and> chatType \<noteq> ChatChannel then (write_error 400 ''request_invalid'', w)
           else answer_done ''qualification_rule_operation_failed''
                  (wa_EnableRule wa (adm_TelegramID administrator)
                     \<lparr>mr_ChatID = chatID, mr_ChatType = chatType, mr_Title = title\<rparr> w)) w)"

definition delete_rule :: "'w web_services \<Rightarrow> http_request \<Rightarrow> 'w \<Rightarrow> web_response \<times> 'w" where
  "delete_rule wa rq = authorized_then wa ManageGlobalSettings True rq (\<lambda>administrator w.
     case parse_chat_id (rq_PathValue rq ''chat_id'') of
       None \<Rightarrow> (write_error 400 ''request_invalid'', w)
     | Some chatID \<Rightarrow>
         answer_done ''qualification_rule_operation_failed'' (wa_DisableRule wa (adm_TelegramID administrator) chatID w))"

text \<open>\<open>core_settings.go\<close>, \<open>tls_settings.go\<close>\<close>

definition get_core_settings :: "'w web_services \<Rightarrow> http_request \<Rightarrow> 'w \<Rightarrow> web_response \<times> 'w" where
  "get_core_settings wa rq = authorized_then wa ManageVPNSettings False rq (\<lambda>administrator w.
     answer_json ''core_settings_unavailable'' CoreReply (wa_GetCore wa w))"

definition put_core_settings :: "'w web_services \<Rightarrow> web_decoders \<Rightarrow> http_request \<Rightarrow> 'w \<Rightarrow> web_response \<times> 'w" where
  "put_core_settings wa dc rq = authorized_then wa ManageVPNSettings True rq (\<lambda>administrator.
     decoded_then (dc_Core dc) rq (\<lambda>(configured, settings) w.
       answer_done ''core_settings_operation_failed''
         (wa_UpdateCore wa (adm_TelegramID administrator) configured settings (wa_now wa w) w)))"

definition get_tls_settings :: "'w web_services \<Rightarrow> http_request \<Rightarrow> 'w \<Rightarrow> web_response \<times> 'w" where
  "get_tls_settings wa rq = authorized_then wa ManageVPNSettings False rq (\<lambda>administrator w.
     answer_json ''tls_settings_unavailable'' TLSReply (wa_GetTLS wa w))"

definition put_tls_settings :: "'w web_services \<Rightarrow> web_decoders \<Rightarrow> http_request \<Rightarrow> 'w \<Rightarrow> web_response \<times> 'w" where
  "put_tls_settings wa dc rq = authorized_then wa ManageVPNSettings True rq (\<lambda>administrator.
     decoded_then (dc_TLS dc) rq (\<lambda>update w.
       answer_done ''tls_settings_operation_failed''
         (wa_SaveTLS wa (adm_TelegramID administrator) update (wa_now wa w) w)))"

text \<open>\<open>dashboard.go\<close>\<close>

definition get_overview :: "'w web_services \<Rightarrow> http_request \<Rightarrow> 'w \<Rightarrow> web_response \<times> 'w" where
  "get_overview wa rq = authorized_then wa ManageUsers False rq (\<lambda>administrator w.
     case wa_Statistics wa w of
       (Inl e, w1) \<Rightarrow> (write_error 500 ''overview_unavailable'', w1)
     | (Inr totals, w1) \<Rightarrow>
         (case wa_TLSIssued wa w1 of
            (Inl e, w2) \<Rightarrow> (write_error 500 ''overview_unavailable'', w2)
          | (Inr tlsIssued, w2) \<Rightarrow>
              answer_json ''overview_unavailable'' (OverviewReply totals tlsIssued) (wa_CoreConfigured wa w2)))"

text \<open>\<open>bot_settings.go\<close>\<close>

definition get_bot_settings :: "'w web_services \<Rightarrow> http_request \<Rightarrow> 'w \<Rightarrow> web_response \<times> 'w" where
  "get_bot_settings wa rq = authorized_then wa ManageSecrets False rq (\<lambda>administrator w.
     answer_json ''bot_settings_unavailable'' (\<lambda>(username, updatedAt). BotReply username updatedAt) (wa_GetBot wa w))"

definition put_bot_settings :: "'w web_services \<Rightarrow> web_decoders \<Rightarrow> http_request \<Rightarrow> 'w \<Rightarrow> web_response \<times> 'w" where
  "put_bot_settings wa dc rq = authorized_then wa ManageSecrets True rq (\<lambda>administrator.
     decoded_then (dc_BotToken dc) rq (\<lambda>token w.
       if token = '''' then (write_error 400 ''request_invalid'', w)
       else case wa_RotateBot wa (adm_TelegramID administrator) token (wa_now wa w) w of
         (Inl e, w1) \<Rightarrow>
           (write_error 409
              (if errors_is e ''bot identity changed'' then ''bot_identity_changed''
               else if errors_is e ''bot token verification failed'' then ''bot_verification_failed''
               else ''bot_settings_operation_failed''), w1)
       | (Inr _, w1) \<Rightarrow> (write_no_content, w1)))"

text \<open>\<open>reality_search.go\<close>\<close>

definition post_reality_search :: "'w web_services \<Rightarrow> http_request \<Rightarrow> 'w \<Rightarrow> web_response \<times> 'w" where
  "post_reality_search wa rq = authorized_then wa ManageVPNSettings True rq (\<lambda>administrator w.
     case wa_StartSearch wa w of
       (Inl e, w1) \<Rightarrow>
         (if errors_is e ''reality search already running'' then write_error 409 ''reality_search_running''
          else write_error 500 ''reality_search_start_failed'', w1)
     | (Inr _, w1) \<Rightarrow> (write_json 202 (SearchStatusReply SearchRunning), w1))"

definition get_reality_search :: "'w web_services \<Rightarrow> http_request \<Rightarrow> 'w \<Rightarrow> web_response \<times> 'w" where
  "get_reality_search wa rq = authorized_then wa ManageVPNSettings False rq (\<lambda>administrator w.
     (write_json 200 (SearchReply (wa_SearchSnapshot wa w)), w))"

text \<open>\<open>backup_settings.go\<close>\<close>

definition get_backup_settings :: "'w web_services \<Rightarrow> http_request \<Rightarrow> 'w \<Rightarrow> web_response \<times> 'w" where
  "get_backup_settings wa rq = authorized_then wa ManageGlobalSettings False rq (\<lambda>administrator w.
     answer_json ''backup_settings_unavailable'' BackupReply (wa_GetBackup wa w))"

definition put_backup_settings :: "'w web_services \<Rightarrow> web_decoders \<Rightarrow> http_request \<Rightarrow> 'w \<Rightarrow> web_response \<times> 'w" where
  "put_backup_settings wa dc rq = authorized_then wa ManageGlobalSettings True rq (\<lambda>administrator.
     decoded_then (dc_Backup dc) rq (\<lambda>days w.
       if validate_backup days \<noteq> None then (write_error 400 ''request_invalid'', w)
       else answer_done ''backup_settings_operation_failed''
              (wa_UpdateBackup wa (adm_TelegramID administrator) days (wa_now wa w) w)))"

section \<open>The route table\<close>

datatype web_route =
    GetLive | GetReady | PostLogin | GetMe | PostLogout | GetSubscription
  | GetUsers | PostRevoke | PostReject | PostApprove | PostRotate
  | GetAdministrators | PostRole | DeleteAdministrator
  | GetAudit
  | GetManagement | PostInactivityPreview | PutManagement
  | PutRule | DeleteRule
  | GetCore | PutCore | GetTLS | PutTLS
  | GetOverview | GetBot | PutBot
  | PostRealitySearch | GetRealitySearch
  | GetBackup | PutBackup

fun handle_request :: "'w web_services \<Rightarrow> web_decoders \<Rightarrow> web_route \<Rightarrow> http_request \<Rightarrow> 'w \<Rightarrow> web_response \<times> 'w" where
  "handle_request wa dc GetLive rq = (\<lambda>w. (write_json 200 (HealthReply ''ok''), w))"
| "handle_request wa dc GetReady rq = ready_handler wa"
| "handle_request wa dc PostLogin rq = login_handler wa dc rq"
| "handle_request wa dc GetMe rq = identity_handler wa rq"
| "handle_request wa dc PostLogout rq = logout_handler wa rq"
| "handle_request wa dc GetSubscription rq = subscription_handler wa rq"
| "handle_request wa dc GetUsers rq = get_users wa rq"
| "handle_request wa dc PostRevoke rq = post_revoke wa dc rq"
| "handle_request wa dc PostReject rq = post_reject wa rq"
| "handle_request wa dc PostApprove rq = post_approve wa rq"
| "handle_request wa dc PostRotate rq = post_rotate wa dc rq"
| "handle_request wa dc GetAdministrators rq = get_administrators wa rq"
| "handle_request wa dc PostRole rq = post_role wa dc rq"
| "handle_request wa dc DeleteAdministrator rq = delete_administrator wa rq"
| "handle_request wa dc GetAudit rq = get_audit wa rq"
| "handle_request wa dc GetManagement rq = get_management_settings wa rq"
| "handle_request wa dc PostInactivityPreview rq = post_inactivity_preview wa dc rq"
| "handle_request wa dc PutManagement rq = put_management_settings wa dc rq"
| "handle_request wa dc PutRule rq = put_rule wa dc rq"
| "handle_request wa dc DeleteRule rq = delete_rule wa rq"
| "handle_request wa dc GetCore rq = get_core_settings wa rq"
| "handle_request wa dc PutCore rq = put_core_settings wa dc rq"
| "handle_request wa dc GetTLS rq = get_tls_settings wa rq"
| "handle_request wa dc PutTLS rq = put_tls_settings wa dc rq"
| "handle_request wa dc GetOverview rq = get_overview wa rq"
| "handle_request wa dc GetBot rq = get_bot_settings wa rq"
| "handle_request wa dc PutBot rq = put_bot_settings wa dc rq"
| "handle_request wa dc PostRealitySearch rq = post_reality_search wa rq"
| "handle_request wa dc GetRealitySearch rq = get_reality_search wa rq"
| "handle_request wa dc GetBackup rq = get_backup_settings wa rq"
| "handle_request wa dc PutBackup rq = put_backup_settings wa dc rq"

end
