(* ===== verification/Web_Access.thy ===== *)
theory Web_Access
  imports Web_Routes
begin

text \<open>
  Who may call which route of the web interface, proved of the handlers of \<open>Web_Routes\<close> over the
  sessions and administrators that the tables of \<open>Auth_Store\<close> hold, and what a login leaves behind.
\<close>

section \<open>The access matrix\<close>

text \<open>The permission a route asks for, if any, and whether it asks for a CSRF token.\<close>

fun route_permission :: "web_route \<Rightarrow> permission option" where
  "route_permission GetLive = None"
| "route_permission GetReady = None"
| "route_permission PostLogin = None"
| "route_permission GetMe = None"
| "route_permission PostLogout = None"
| "route_permission GetSubscription = None"
| "route_permission GetUsers = Some ManageUsers"
| "route_permission PostRevoke = Some ManageUsers"
| "route_permission PostReject = Some ManageApprovals"
| "route_permission PostApprove = Some ManageApprovals"
| "route_permission PostRotate = Some ManageUsers"
| "route_permission GetAdministrators = Some ManageRoles"
| "route_permission PostRole = Some ManageRoles"
| "route_permission DeleteAdministrator = Some ManageRoles"
| "route_permission GetAudit = Some ViewAudit"
| "route_permission GetManagement = Some ManageGlobalSettings"
| "route_permission PostInactivityPreview = Some ManageGlobalSettings"
| "route_permission PutManagement = Some ManageGlobalSettings"
| "route_permission PutRule = Some ManageGlobalSettings"
| "route_permission DeleteRule = Some ManageGlobalSettings"
| "route_permission GetCore = Some ManageVPNSettings"
| "route_permission PutCore = Some ManageVPNSettings"
| "route_permission GetTLS = Some ManageVPNSettings"
| "route_permission PutTLS = Some ManageVPNSettings"
| "route_permission GetOverview = Some ManageUsers"
| "route_permission GetBot = Some ManageSecrets"
| "route_permission PutBot = Some ManageSecrets"
| "route_permission PostRealitySearch = Some ManageVPNSettings"
| "route_permission GetRealitySearch = Some ManageVPNSettings"
| "route_permission GetBackup = Some ManageGlobalSettings"
| "route_permission PutBackup = Some ManageGlobalSettings"

definition route_changes :: "web_route \<Rightarrow> bool" where
  "route_changes r \<longleftrightarrow> r \<notin> {GetUsers, GetAdministrators, GetAudit, GetManagement, GetCore, GetTLS, GetOverview,
     GetBot, GetRealitySearch, GetBackup}"

text \<open>A protected route is an authorization followed by a handler that answers neither 401 nor 403.\<close>

definition refusal :: "web_response \<Rightarrow> bool" where
  "refusal resp \<longleftrightarrow> rs_Code resp = 401 \<or> rs_Code resp = 403"

lemma refusal_simps [simp]:
  "refusal (write_error c reason) \<longleftrightarrow> c = 401 \<or> c = 403"
  "refusal (write_json c x) \<longleftrightarrow> c = 401 \<or> c = 403"
  "\<not> refusal write_no_content"
  by (simp_all add: refusal_def)

lemma answers_no_refusal [simp]:
  "\<not> refusal (fst (answer_json reason f r))" "\<not> refusal (fst (answer_done reason r))"
  by (simp_all add: answer_json_def answer_done_def split: prod.splits sum.splits)

lemma decoded_no_refusal:
  "(\<And>i w. \<not> refusal (fst (k i w))) \<Longrightarrow> \<not> refusal (fst (decoded_then decode rq k w))"
  by (simp add: decoded_then_def decode_strict_json_def split: option.splits sum.splits prod.splits if_splits)

lemma mutation_then_authorized:
  "mutation_then wa perm rq k = authorized_then wa perm True rq (\<lambda>administrator w.
     case canonical_int (rq_PathValue rq ''telegram_id'') of
       None \<Rightarrow> (write_error 400 ''request_invalid'', w)
     | Some target \<Rightarrow> if target \<le> 0 then (write_error 400 ''request_invalid'', w) else k administrator target w)"
  by (rule ext)
    (auto simp: mutation_then_def authorize_mutation_def authorized_then_def split: prod.splits sum.splits option.splits)

definition guarded :: "'w web_services \<Rightarrow> permission \<Rightarrow> bool \<Rightarrow> http_request \<Rightarrow> ('w \<Rightarrow> web_response \<times> 'w) \<Rightarrow> bool" where
  "guarded wa perm csrf rq h \<longleftrightarrow>
     (\<exists>k. h = authorized_then wa perm csrf rq k \<and> (\<forall>a w. \<not> refusal (fst (k a w))))"

lemma guardedI:
  "(\<And>a w. \<not> refusal (fst (k a w))) \<Longrightarrow> guarded wa perm csrf rq (authorized_then wa perm csrf rq k)"
  by (auto simp: guarded_def)

lemma guarded_mutationI:
  "(\<And>a target w. \<not> refusal (fst (k a target w))) \<Longrightarrow> guarded wa perm True rq (mutation_then wa perm rq k)"
  unfolding mutation_then_authorized by (rule guardedI) (simp split: option.splits)

lemmas handler_defs =
  get_users_def post_revoke_def post_reject_def post_approve_def post_rotate_def get_administrators_def post_role_def
  delete_administrator_def get_audit_def get_management_settings_def post_inactivity_preview_def
  put_management_settings_def delete_rule_def get_core_settings_def put_core_settings_def
  get_tls_settings_def put_tls_settings_def get_overview_def get_bot_settings_def put_bot_settings_def
  post_reality_search_def get_reality_search_def get_backup_settings_def put_backup_settings_def

lemma put_rule_guarded: "guarded wa ManageGlobalSettings True rq (put_rule wa dc rq)"
  unfolding put_rule_def
  by (rule guardedI, split option.split, intro conjI impI allI, simp, rule decoded_no_refusal)
    (simp split: prod.splits)

lemma protected_guarded:
  "route_permission r = Some perm \<Longrightarrow> guarded wa perm (route_changes r) rq (handle_request wa dc r rq)"
  by (cases r)
    (auto simp: put_rule_guarded route_changes_def handler_defs refusal_def [of "\<lparr>rs_Code = c, rs_RetryAfter = a, rs_Cookies = b, rs_Body = e\<rparr>" for a b c e]
      intro!: guardedI guarded_mutationI decoded_no_refusal split: prod.splits sum.splits option.splits if_splits)

section \<open>Sessions and administrators from the tables\<close>

text \<open>The session service on the tables, beside whatever else the services act on.\<close>

definition with_stored_sessions ::
    "(string \<Rightarrow> byte list) \<Rightarrow> go_time \<Rightarrow> ((auth_db \<times> faults) \<times> 'x) web_services \<Rightarrow> ((auth_db \<times> faults) \<times> 'x) web_services" where
  "with_stored_sessions dig now wa =
     wa\<lparr>wa_Authenticate := \<lambda>token. with_tables (authenticate authenticate_and_touch dig now token),
        wa_RevokeSession := \<lambda>token. with_tables (revoke_session delete_session dig token)\<rparr>"

text \<open>The session that a token stands for, as far as it is in force.\<close>

definition session_in_force :: "(string \<Rightarrow> byte list) \<Rightarrow> go_time \<Rightarrow> auth_db \<Rightarrow> string \<Rightarrow> (int \<times> administrator_row) option" where
  "session_in_force dig now d token =
     (if \<not> valid_session_token token then None
      else case admin_sessions d (dig token) of
        None \<Rightarrow> None
      | Some session \<Rightarrow>
          (case map_of (administrators d) (sr_telegram_id session) of
             None \<Rightarrow> None
           | Some row \<Rightarrow>
               if sr_created_at session \<le> now \<and> now < sr_absolute_expires_at session \<and>
                  now - sessionIdleTimeout < sr_last_seen_at session \<and>
                  0 < sr_telegram_id session \<and> ar_active row \<and> valid_role (ar_role row)
               then Some (sr_telegram_id session, row) else None))"

definition may_call :: "(string \<Rightarrow> byte list) \<Rightarrow> go_time \<Rightarrow> auth_db \<Rightarrow> permission \<Rightarrow> bool \<Rightarrow> http_request \<Rightarrow> bool" where
  "may_call dig now d perm changes rq \<longleftrightarrow>
     (case rq_Cookie rq ''vpn_admin_session'' of
        None \<Rightarrow> False
      | Some token \<Rightarrow>
          (case session_in_force dig now d token of
             None \<Rightarrow> False
           | Some (i, row) \<Rightarrow> role_allows (ar_role row) perm)) \<and>
     (changes \<longrightarrow> valid_csrf rq)"

text \<open>At most the time a session was last seen differs.\<close>

definition only_touched :: "go_time \<Rightarrow> auth_db \<Rightarrow> auth_db \<Rightarrow> bool" where
  "only_touched now d d' \<longleftrightarrow> d' = d \<or>
     (\<exists>g session. admin_sessions d g = Some session \<and>
        d' = d\<lparr>admin_sessions := (admin_sessions d)(g \<mapsto> session\<lparr>sr_last_seen_at := now\<rparr>)\<rparr>)"

lemma only_touched_refl [simp]: "only_touched now d d"
  by (simp add: only_touched_def)

lemma authenticate_stored:
  assumes "authenticate authenticate_and_touch dig now token (d, fs) = (r, (d', fs'))"
  shows "only_touched now d d'"
    and "r = Inr a \<Longrightarrow> \<exists>row. session_in_force dig now d token = Some (adm_TelegramID a, row) \<and>
           a = scan_administrator (adm_TelegramID a) row"
    and "fs = [] \<Longrightarrow> session_in_force dig now d token = Some (i, row) \<Longrightarrow> r = Inr (scan_administrator i row)"
  using assms
  by (auto simp: authenticate_def authenticate_and_touch_def statement_def next_fault_def only_touched_def
      session_in_force_def scan_administrator_def split: if_splits option.splits statement_splits list.splits)

lemma invalid_empty_token: "\<not> valid_session_token ''''"
  by code_simp

lemma authorize_stored:
  assumes "authorize (\<lambda>token. with_tables (authenticate authenticate_and_touch dig now token)) perm csrf rq ((d, fs), x) =
      (r, ((d', fs'), x'))"
  shows "x' = x" and "only_touched now d d'"
    and "r = Inr (token, a) \<Longrightarrow> may_call dig now d perm csrf rq"
    and "r = Inl resp \<Longrightarrow> refusal resp"
    and "fs = [] \<Longrightarrow> may_call dig now d perm csrf rq \<Longrightarrow> \<exists>token a. r = Inr (token, a)"
proof -
  show "x' = x" using assms
    by (auto simp: authorize_def authenticate_request_def with_tables_def split: option.splits if_splits sum.splits prod.splits)
  show "only_touched now d d'" using assms
    by (auto simp: authorize_def authenticate_request_def with_tables_def
        split: option.splits if_splits sum.splits prod.splits dest: authenticate_stored(1))
  show "may_call dig now d perm csrf rq" if "r = Inr (token, a)"
    using assms that
    by (auto simp: authorize_def authenticate_request_def with_tables_def may_call_def scan_administrator_def
        split: option.splits if_splits sum.splits prod.splits dest: authenticate_stored(2) [OF _ refl])
  show "refusal resp" if "r = Inl resp"
    using assms that
    by (auto simp: authorize_def authenticate_request_def split: option.splits if_splits sum.splits prod.splits)
  show "\<exists>token a. r = Inr (token, a)" if "fs = []" "may_call dig now d perm csrf rq"
  proof -
    from that(2) obtain token i row where c: "rq_Cookie rq ''vpn_admin_session'' = Some token"
      "session_in_force dig now d token = Some (i, row)" "role_allows (ar_role row) perm" "csrf \<longrightarrow> valid_csrf rq"
      by (auto simp: may_call_def split: option.splits)
    obtain r0 d0 fs0 where auth: "authenticate authenticate_and_touch dig now token (d, fs) = (r0, (d0, fs0))"
      by (cases "authenticate authenticate_and_touch dig now token (d, fs)") auto
    from authenticate_stored(3) [OF auth that(1) c(2)] have "r0 = Inr (scan_administrator i row)" .
    moreover from c(2) have "token \<noteq> ''''" "ar_active row"
      using invalid_empty_token by (auto simp: session_in_force_def split: if_splits option.splits)
    ultimately show ?thesis using assms c auth
      by (auto simp: authorize_def authenticate_request_def with_tables_def scan_administrator_def)
  qed
qed

lemma access_controlled:
  assumes "route_permission r = Some perm"
    and "handle_request (with_stored_sessions dig now wa) dc r rq ((d, fs), x) = (resp, ((d', fs'), x'))"
  shows "(\<not> refusal resp \<longrightarrow> may_call dig now d perm (route_changes r) rq) \<and>
    (refusal resp \<longrightarrow> x' = x \<and> only_touched now d d') \<and>
    (fs = [] \<longrightarrow> may_call dig now d perm (route_changes r) rq \<longrightarrow> \<not> refusal resp)"
proof -
  let ?wa = "with_stored_sessions dig now wa"
  from protected_guarded [OF assms(1), of ?wa rq dc] obtain k where
    h: "handle_request ?wa dc r rq = authorized_then ?wa perm (route_changes r) rq k"
    and k: "\<And>a w. \<not> refusal (fst (k a w))"
    by (auto simp: guarded_def)
  obtain res :: "web_response + string \<times> administrator" and d1 fs1 x1 where auth:
    "authorize (wa_Authenticate ?wa) perm (route_changes r) rq ((d, fs), x) = (res, ((d1, fs1), x1))"
    by (metis surj_pair)
  note stored = authorize_stored [OF auth [unfolded with_stored_sessions_def, simplified]]
  show ?thesis
  proof (cases res)
    case (Inl refused)
    with h auth assms(2) have "resp = refused" "d' = d1" "x' = x1" by (simp_all add: authorized_then_def)
    with Inl stored show ?thesis by blast
  next
    case (Inr ta)
    obtain token a where ta: "ta = (token, a)" by (cases ta)
    with Inr h auth assms(2) have "k a ((d1, fs1), x1) = (resp, ((d', fs'), x'))"
      by (simp add: authorized_then_def)
    with k [of a "((d1, fs1), x1)"] have "\<not> refusal resp" by simp
    with stored(3) Inr ta show ?thesis by blast
  qed
qed

text \<open>
  Access control of the web interface. On the stored sessions, a protected route is carried
  out (answered with anything but 401 or 403) only if the session cookie stands for a session
  in force of an active administrator whose role, read from the table at that moment, has the
  permission of the route, and, on every route that changes something, header and cookie carry
  the same well-formed CSRF token. A refused request changes nothing but the time the session
  was last seen; and on a connection without faults everyone who may call a route is let in.
\<close>

theorem web_access_controlled:
  assumes "route_permission r = Some perm"
    and "handle_request (with_stored_sessions dig now wa) dc r rq ((d, fs), x) = (resp, ((d', fs'), x'))"
  shows "(\<not> refusal resp \<longrightarrow> may_call dig now d perm (route_changes r) rq) \<and>
    (refusal resp \<longrightarrow> x' = x \<and> only_touched now d d') \<and>
    (fs = [] \<longrightarrow> may_call dig now d perm (route_changes r) rq \<longrightarrow> \<not> refusal resp)"
  by (rule access_controlled [OF assms])

section \<open>Logging in\<close>

text \<open>
  The services of a login on the tables: the code and session tables with the random source, the
  limiter, the audit table. The clock does not move during a request.
\<close>

type_synonym web_state = "(auth_db \<times> faults) \<times> byte list \<times> login_rate_limiter \<times> (vpn_db \<times> faults)"

definition stored_exchange ::
    "(string \<Rightarrow> byte list) \<Rightarrow> go_time \<Rightarrow> int \<Rightarrow> string \<Rightarrow> (web_state, string \<times> string) call" where
  "stored_exchange dig now i code w =
     (let (s, src, rest) = w; (r, (s1, src1)) = login dig now i code (s, src) in (r, (s1, src1, rest)))"

definition stored_begin :: "go_time \<Rightarrow> ip_addr option \<Rightarrow> int \<Rightarrow> web_state \<Rightarrow> login_attempt option \<times> web_state" where
  "stored_begin now ip i w =
     (let (s, src, lim, v) = w; (attempt, lim1) = begin_attempt ip i now lim in (attempt, (s, src, lim1, v)))"

definition stored_complete :: "login_attempt \<Rightarrow> bool \<Rightarrow> web_state \<Rightarrow> web_state" where
  "stored_complete attempt succeeded w =
     (let (s, src, lim, v) = w in (s, src, complete_attempt attempt succeeded lim, v))"

definition stored_login_audit :: "int \<Rightarrow> ip_addr option \<Rightarrow> bool \<Rightarrow> go_time \<Rightarrow> (web_state, unit) call" where
  "stored_login_audit i ip succeeded at w =
     (let (s, src, lim, v) = w; (r, v1) = record_login_attempt i ip succeeded at v in (r, (s, src, lim, v1)))"

definition stored_web ::
    "(string \<Rightarrow> byte list) \<Rightarrow> go_time \<Rightarrow> ip_prefix list \<Rightarrow> web_state web_services \<Rightarrow> web_state web_services" where
  "stored_web dig now trusted wa = (with_stored_sessions dig now wa)
     \<lparr>wa_Exchange := stored_exchange dig now, wa_trusted := trusted, wa_Begin := stored_begin now,
      wa_Complete := stored_complete, wa_RecordLoginAttempt := stored_login_audit, wa_now := \<lambda>w. now\<rparr>"

lemma stored_web_simps [simp]:
  "wa_Exchange (stored_web dig now trusted wa) = stored_exchange dig now"
  "wa_trusted (stored_web dig now trusted wa) = trusted"
  "wa_Begin (stored_web dig now trusted wa) = stored_begin now"
  "wa_Complete (stored_web dig now trusted wa) = stored_complete"
  "wa_RecordLoginAttempt (stored_web dig now trusted wa) = stored_login_audit"
  "wa_RevokeSession (stored_web dig now trusted wa) = (\<lambda>token. with_tables (revoke_session delete_session dig token))"
  "wa_now (stored_web dig now trusted wa) = (\<lambda>w. now)"
  by (simp_all add: stored_web_def with_stored_sessions_def)

lemma record_login_attempt_Inr:
  "record_login_attempt i ip succeeded at (v, fv) = (Inr u, (v', fv')) \<Longrightarrow>
     audit_events v' = audit_events v @
       [(0, if succeeded then ''auth.login.success'' else ''auth.login.failure'', i)]"
  by (auto simp: record_login_attempt_def wrapping_def fail_with_def record_audit_def split: if_splits sum.splits prod.splits
      dest!: statement_InrD)

text \<open>What an admitted login leaves behind, in its three outcomes.\<close>

lemma login_admitted_outcome:
  assumes "login dig now i code ((d, fs), src) = (r, ((d1, fs1), src1))"
    and "login_admitted (stored_web dig now trusted wa) ip attempt i code ((d, fs), src, lim, (v, fv)) =
      (resp, ((d', fs'), src', lim', (v', fv')))"
  shows "src' = src1 \<and> (case r of
      Inl e \<Rightarrow> (d', fs') = (d1, fs1) \<and> lim' = complete_attempt attempt False lim \<and> rs_Cookies resp = [] \<and>
        (rs_Code resp = 401 \<and> audit_events v' = audit_events v @ [(0, ''auth.login.failure'', i)] \<or> rs_Code resp = 503)
    | Inr (token, csrf) \<Rightarrow>
        (d', fs') = (d1, fs1) \<and> lim' = complete_attempt attempt True lim \<and> rs_Code resp = 200 \<and>
          rs_Cookies resp = [auth_cookie ''vpn_admin_session'' token True, auth_cookie ''vpn_csrf_token'' csrf False] \<and>
          audit_events v' = audit_events v @ [(0, ''auth.login.success'', i)] \<or>
        ((d', fs') = snd (revoke_session delete_session dig token (d1, fs1)) \<and>
          lim' = complete_attempt attempt False lim \<and> rs_Code resp = 503 \<and> rs_Cookies resp = []))"
proof -
  obtain ra v1 fv1 where audit: "record_login_attempt i ip (is_ok r) now (v, fv) = (ra, (v1, fv1))"
    by (cases "record_login_attempt i ip (is_ok r) now (v, fv)") auto
  show ?thesis
  proof (cases r)
    case (Inl e)
    with assms audit show ?thesis
      by (cases ra) (auto simp: login_admitted_def stored_exchange_def stored_complete_def stored_login_audit_def Let_def
          dest: record_login_attempt_Inr)
  next
    case (Inr tokens)
    obtain token csrf where t: "tokens = (token, csrf)" by (cases tokens)
    obtain rr d2 fs2 where rev: "revoke_session delete_session dig token (d1, fs1) = (rr, (d2, fs2))"
      by (cases "revoke_session delete_session dig token (d1, fs1)") auto
    show ?thesis
    proof (cases ra)
      case (Inl e)
      with Inr t assms audit rev show ?thesis
        by (auto simp: login_admitted_def stored_exchange_def stored_complete_def stored_login_audit_def
            with_tables_def Let_def)
    next
      case (Inr u)
      with \<open>r = Inr tokens\<close> t assms audit show ?thesis
        by (auto simp: login_admitted_def stored_exchange_def stored_complete_def stored_login_audit_def Let_def
            dest: record_login_attempt_Inr)
    qed
  qed
qed

lemma login_token_valid:
  "login dig now i code ((d, fs), src) = (Inr (token, csrf), st) \<Longrightarrow> valid_session_token token"
  by (auto simp: login_def exchange_def create_session_def read_full_def valid_session_token_def canonical_b64_iff Let_def
      split: prod.splits sum.splits if_splits intro!: exI [of _ "take 32 bs" for bs])

lemma revoked_when_no_fault:
  assumes "valid_session_token token" "fst (next_fault fs) = Fine"
    and "(d', fs') = snd (revoke_session delete_session dig token (d, fs))"
  shows "admin_sessions d' (dig token) = None"
  using assms
  by (auto simp: revoke_session_def delete_session_def statement_def split: prod.splits)

text \<open>
  The limiter admitted the login of \<open>i\<close> with \<open>code\<close> that the request asks for and counts it as it
  ended; \<open>r\<close> is what the login answered, with the tables it left.
\<close>

definition login_ran ::
    "(string \<Rightarrow> byte list) \<Rightarrow> go_time \<Rightarrow> ip_prefix list \<Rightarrow> web_decoders \<Rightarrow> http_request \<Rightarrow> web_state
       \<Rightarrow> int \<Rightarrow> string \<Rightarrow> go_error + string \<times> string \<Rightarrow> (auth_db \<times> faults) \<times> byte list \<Rightarrow> bool \<Rightarrow> login_rate_limiter \<Rightarrow> bool" where
  "login_ran dig now trusted dc rq w i code r st succeeded lim' \<longleftrightarrow>
     (let (s, src, lim, v) = w in
      login_input dc rq = Inr (i, code) \<and> login dig now i code (s, src) = (r, st) \<and>
      (\<exists>attempt lim1. begin_attempt (resolve_source trusted rq) i now lim = (Some attempt, lim1) \<and>
         lim' = complete_attempt attempt succeeded lim1))"

text \<open>
  C33. No session without an audited, rate-limited login. Cookies are set exactly when the answer
  is 200; then the body held a code that the login accepted, the limiter had admitted the attempt
  for the resolved source address and counts it as a success, the cookies carry the tokens of that
  login and the audit table has its success. A 401 is a refused code with its failure audited and
  counted. With 503 the attempt counts as a failure, and a session that the login had opened is
  revoked again unless that statement is lost. Any other answer leaves sessions, codes, the
  random source and the audit table alone.
\<close>

theorem web_login_outcome:
  assumes "handle_request (stored_web dig now trusted wa) dc PostLogin rq ((d, fs), src, lim, (v, fv)) =
    (resp, ((d', fs'), src', lim', (v', fv')))"
  shows "(rs_Cookies resp \<noteq> [] \<longleftrightarrow> rs_Code resp = 200) \<and>
    (rs_Code resp = 200 \<longrightarrow> (\<exists>i code token csrf.
       login_ran dig now trusted dc rq ((d, fs), src, lim, (v, fv)) i code (Inr (token, csrf)) ((d', fs'), src') True lim' \<and>
       rs_Cookies resp = [auth_cookie ''vpn_admin_session'' token True, auth_cookie ''vpn_csrf_token'' csrf False] \<and>
       audit_events v' = audit_events v @ [(0, ''auth.login.success'', i)])) \<and>
    (rs_Code resp = 401 \<longrightarrow> (\<exists>i code e.
       login_ran dig now trusted dc rq ((d, fs), src, lim, (v, fv)) i code (Inl e) ((d', fs'), src') False lim' \<and>
       audit_events v' = audit_events v @ [(0, ''auth.login.failure'', i)])) \<and>
    (rs_Code resp = 503 \<longrightarrow> (\<exists>i code r d1 fs1.
       login_ran dig now trusted dc rq ((d, fs), src, lim, (v, fv)) i code r ((d1, fs1), src') False lim' \<and>
       (case r of Inl e \<Rightarrow> d' = d1
        | Inr (token, csrf) \<Rightarrow> fst (next_fault fs1) = Fine \<longrightarrow> admin_sessions d' (dig token) = None))) \<and>
    (rs_Code resp \<notin> {200, 401, 503} \<longrightarrow> (d', fs') = (d, fs) \<and> src' = src \<and> (v', fv') = (v, fv))"
proof (cases "login_input dc rq")
  case (Inl refused)
  then have "rs_Code refused \<in> {400, 415}" "rs_Cookies refused = []"
    by (auto simp: login_input_def split: if_splits option.splits prod.splits)
  with Inl assms(1) show ?thesis by (auto simp: login_handler_def)
next
  case (Inr input)
  obtain i code where input: "input = (i, code)" by (cases input)
  obtain attempt lim1 where b: "begin_attempt (resolve_source trusted rq) i now lim = (attempt, lim1)"
    by (cases "begin_attempt (resolve_source trusted rq) i now lim")
  show ?thesis
  proof (cases attempt)
    case None
    with Inr input b assms(1) show ?thesis
      by (auto simp: login_handler_def stored_begin_def Let_def)
  next
    case (Some a)
    obtain r d1 fs1 src1 where l: "login dig now i code ((d, fs), src) = (r, ((d1, fs1), src1))"
      by (cases "login dig now i code ((d, fs), src)") auto
    from Inr input b Some assms(1) have
      "login_admitted (stored_web dig now trusted wa) (resolve_source trusted rq) a i code ((d, fs), src, lim1, (v, fv)) =
         (resp, ((d', fs'), src', lim', (v', fv')))"
      by (simp add: login_handler_def stored_begin_def Let_def)
    note out = login_admitted_outcome [OF l this]
    have known: "login_input dc rq = Inr (i, code)"
      "begin_attempt (resolve_source trusted rq) i now lim = (Some a, lim1)"
      "login dig now i code ((d, fs), src) = (r, ((d1, fs1), src'))"
      using Inr input b Some l out by simp_all
    show ?thesis
    proof (cases r)
      case (Inl e)
      with out known show ?thesis by (auto simp: login_ran_def)
    next
      case (Inr tokens)
      obtain token csrf where t: "tokens = (token, csrf)" by (cases tokens)
      from known(3) Inr t have "valid_session_token token" by (simp add: login_token_valid)
      note revoked = revoked_when_no_fault [OF this]
      from out Inr t known show ?thesis
        by (auto simp: login_ran_def intro: revoked)
    qed
  qed
qed

section \<open>Concrete requests\<close>

text \<open>Services that all fail, and requests of administrator 7.\<close>

definition failing_services :: "'w web_services" where
  "failing_services =
     (let failure = (Err ''unavailable'') in
      \<lparr>wa_Ping = fail_with failure, wa_Exchange = (\<lambda>i c. fail_with failure), wa_Authenticate = (\<lambda>t. fail_with failure),
       wa_RevokeSession = (\<lambda>t. fail_with failure), wa_trusted = [], wa_Begin = (\<lambda>ip i w. (None, w)),
       wa_Complete = (\<lambda>a b w. w), wa_RecordLoginAttempt = (\<lambda>i ip b t. fail_with failure),
       wa_Render = (\<lambda>t f. fail_with failure), wa_ListUsers = (\<lambda>a l. fail_with failure),
       wa_Revoke = (\<lambda>a i m t. fail_with failure), wa_RejectApproval = (\<lambda>a i t. fail_with failure),
       wa_Approve = (\<lambda>i t. fail_with failure), wa_Rotate = (\<lambda>i t b. fail_with failure),
       wa_ListAdministrators = fail_with failure, wa_SetRole = (\<lambda>a i r t. fail_with failure),
       wa_RemoveAdministrator = (\<lambda>a i t. fail_with failure), wa_ListAudit = (\<lambda>b l. fail_with failure),
       wa_GetManagement = fail_with failure, wa_PreviewInactivity = (\<lambda>n t. fail_with failure),
       wa_UpdateManagement = (\<lambda>a s b t. fail_with failure), wa_EnableRule = (\<lambda>a r. fail_with failure),
       wa_DisableRule = (\<lambda>a c. fail_with failure), wa_GetCore = fail_with failure,
       wa_UpdateCore = (\<lambda>a b s t. fail_with failure), wa_GetTLS = fail_with failure,
       wa_SaveTLS = (\<lambda>a u t. fail_with failure), wa_Statistics = fail_with failure,
       wa_TLSIssued = fail_with failure, wa_CoreConfigured = fail_with failure, wa_GetBot = fail_with failure,
       wa_RotateBot = (\<lambda>a t n. fail_with failure), wa_StartSearch = fail_with failure,
       wa_SearchSnapshot = (\<lambda>w. \<lparr>sn_Status = SearchIdle, sn_StartedAt = 0, sn_Targets = [], sn_Error = ''''\<rparr>),
       wa_GetBackup = fail_with failure, wa_UpdateBackup = (\<lambda>a n t. fail_with failure), wa_now = (\<lambda>w. 0)\<rparr>)"

definition sample_decoders :: web_decoders where
  "sample_decoders = \<lparr>dc_Login = (\<lambda>s. if s = ''login'' then Some ((7, ''ABCDEFGH''), '''') else None),
     dc_Mode = (\<lambda>s. None), dc_ResetPeriod = (\<lambda>s. None), dc_Role = (\<lambda>s. None), dc_ThresholdDays = (\<lambda>s. None),
     dc_Management = (\<lambda>s. None), dc_Rule = (\<lambda>s. None), dc_Core = (\<lambda>s. None), dc_TLS = (\<lambda>s. None),
     dc_BotToken = (\<lambda>s. None), dc_Backup = (\<lambda>s. None)\<rparr>"

definition sample_token :: string where
  "sample_token = replicate 43 CHR ''A''"

definition sample_request :: http_request where
  "sample_request = \<lparr>rq_RemoteAddr = ''10.0.0.1:80'', rq_Header = (\<lambda>h. if h = ''X-CSRF-Token'' then sample_token else ''''),
     rq_Cookie = (\<lambda>c. Some sample_token), rq_Query = (\<lambda>q. ''''),
     rq_PathValue = (\<lambda>p. ''9''), rq_MediaType = Some ''application/json'', rq_Body = ''login''\<rparr>"

definition sample_session_db :: auth_db where
  "sample_session_db = sample_db\<lparr>admin_sessions := [sample_digest sample_token \<mapsto>
     \<lparr>sr_telegram_id = 7, sr_created_at = 5, sr_last_seen_at = 5, sr_absolute_expires_at = 5 + sessionAbsoluteLifetime\<rparr>]\<rparr>"

text \<open>Administrator 7 may approve, but not change roles.\<close>

lemma web_access_controlled_witness:
  "let wa = with_stored_sessions sample_digest hour failing_services; st = ((sample_session_db, []), ()) in
     \<not> refusal (fst (handle_request wa sample_decoders PostApprove sample_request st)) \<and>
     refusal (fst (handle_request wa sample_decoders DeleteAdministrator sample_request st))"
proof -
  let ?h = "\<lambda>r. handle_request (with_stored_sessions sample_digest hour failing_services) sample_decoders r sample_request
     ((sample_session_db, []), ())"
  have yes: "may_call sample_digest hour sample_session_db ManageApprovals (route_changes PostApprove) sample_request"
    by code_simp
  have no: "\<not> may_call sample_digest hour sample_session_db ManageRoles (route_changes DeleteAdministrator) sample_request"
    by code_simp
  obtain resp1 d1 fs1 x1 where h1: "?h PostApprove = (resp1, ((d1, fs1), x1))" by (metis surj_pair)
  obtain resp2 d2 fs2 x2 where h2: "?h DeleteAdministrator = (resp2, ((d2, fs2), x2))" by (metis surj_pair)
  have f: "fst (?h PostApprove) = resp1" "fst (?h DeleteAdministrator) = resp2"
    unfolding h1 h2 by (rule fst_conv)+
  from web_access_controlled [OF _ h1] yes have "\<not> refusal resp1" by simp
  moreover from web_access_controlled [OF _ h2] no have "refusal resp2" by simp
  ultimately show ?thesis unfolding Let_def f by blast
qed

definition sample_limiter :: login_rate_limiter where
  "sample_limiter = \<lparr>ll_limits = default_login_rate_limits, ll_nextID = 0, ll_global = [],
     ll_byIP = (\<lambda>k. None), ll_byAccount = (\<lambda>k. None)\<rparr>"

lemma web_login_outcome_witness:
  "\<exists>resp d' fs' src' lim' v' fv'. handle_request (stored_web sample_digest second [] failing_services) sample_decoders PostLogin
       sample_request ((sample_db, []), sample_source, sample_limiter, (sample_idle_db, [])) =
         (resp, ((d', fs'), src', lim', (v', fv'))) \<and>
     rs_Code resp = 200 \<and> rs_Cookies resp \<noteq> [] \<and>
     (\<exists>i. audit_events v' = audit_events sample_idle_db @ [(0, ''auth.login.success'', i)])"
proof -
  let ?h = "handle_request (stored_web sample_digest second [] failing_services) sample_decoders PostLogin
       sample_request ((sample_db, []), sample_source, sample_limiter, (sample_idle_db, []))"
  obtain resp d' fs' src' lim' v' fv' where h: "?h = (resp, ((d', fs'), src', lim', (v', fv')))" by (metis surj_pair)
  have "rs_Code (fst ?h) = 200" by code_simp
  with h have "rs_Code resp = 200" by simp
  with web_login_outcome [OF h] h show ?thesis by blast
qed

end
