(* ===== verification/Web_Wiring.thy ===== *)
theory Web_Wiring
  imports Web_Routes
begin

text \<open>
  Which routes the server really has. \<open>newHandler\<close> (\<open>internal/httpapi/handler.go\<close>) takes its services
  as a list of values of any type and puts each in the slot of the first interface of a type switch
  that the value's dynamic type implements; a route is registered when its slots are filled.
  \<open>buildApplicationWithOptions\<close> (\<open>cmd/server/application.go\<close>) and \<open>run\<close> (\<open>cmd/server/main.go\<close>) say
  which values the list has.
\<close>

section \<open>Interfaces and the type switch\<close>

text \<open>
  The methods that the interfaces ask for. Methods of one name with different signatures, such as
  the three \<open>List\<close> and \<open>Rotate\<close> and the two \<open>GetOverview\<close>, are different.
\<close>

datatype go_method =
    MRender | MListUsers | MRevokeUser | MRejectApproval | MApprove | MRotateAccess
  | MListAdministrators | MSetRole | MRemove | MListAudit
  | MGet | MPreviewInactivity | MUpdate | MEnableByActor | MDisableByActor | MGetCore | MUpdateCore
  | MTLSOverview | MSave | MStatistics | MTLSIssued | MCoreConfigured | MBotOverview | MRotateToken
  | MStart | MSnapshot | MGetBackupSettings | MUpdateBackupSettings
  | MOther string

datatype service_slot =
    SubscriptionSlot | UserSlot | ProvisioningSlot | AdministratorSlot | AuditSlot | ManagementSlot
  | RuleSlot | CoreSlot | TLSSlot | DashboardSlot | BotSlot | RealitySlot | BackupSlot

text \<open>The cases of the switch in their order, after the one for the login protection.\<close>

definition switch_cases :: "(service_slot \<times> go_method list) list" where
  "switch_cases =
     [(SubscriptionSlot, [MRender]),
      (UserSlot, [MListUsers, MRevokeUser, MRejectApproval]),
      (ProvisioningSlot, [MApprove, MRotateAccess]),
      (AdministratorSlot, [MListAdministrators, MSetRole, MRemove]),
      (AuditSlot, [MListAudit]),
      (ManagementSlot, [MGet, MPreviewInactivity, MUpdate]),
      (RuleSlot, [MEnableByActor, MDisableByActor]),
      (CoreSlot, [MGetCore, MUpdateCore]),
      (TLSSlot, [MTLSOverview, MSave]),
      (DashboardSlot, [MStatistics, MTLSIssued, MCoreConfigured]),
      (BotSlot, [MBotOverview, MRotateToken]),
      (RealitySlot, [MStart, MSnapshot]),
      (BackupSlot, [MGetBackupSettings, MUpdateBackupSettings])]"

text \<open>A value is its method set; a nil value has none and matches no case.\<close>

definition implements :: "go_method list \<Rightarrow> go_method list \<Rightarrow> bool" where
  "implements methods interface \<longleftrightarrow> list_all (\<lambda>m. m \<in> set methods) interface"

definition slot_of_option :: "go_method list \<Rightarrow> service_slot option" where
  "slot_of_option methods = map_option fst (List.find (\<lambda>(slot, interface). implements methods interface) switch_cases)"

definition filled_slots :: "go_method list list \<Rightarrow> service_slot list" where
  "filled_slots options = List.map_filter slot_of_option options"

section \<open>Registered routes\<close>

text \<open>The slots a route needs, apart from the login exchanger and the session manager.\<close>

fun route_slots :: "web_route \<Rightarrow> service_slot list" where
  "route_slots GetLive = []"
| "route_slots GetReady = []"
| "route_slots PostLogin = []"
| "route_slots GetMe = []"
| "route_slots PostLogout = []"
| "route_slots GetSubscription = [SubscriptionSlot]"
| "route_slots GetUsers = [UserSlot, ProvisioningSlot]"
| "route_slots PostRevoke = [UserSlot, ProvisioningSlot]"
| "route_slots PostReject = [UserSlot, ProvisioningSlot]"
| "route_slots PostApprove = [UserSlot, ProvisioningSlot]"
| "route_slots PostRotate = [UserSlot, ProvisioningSlot]"
| "route_slots GetAdministrators = [AdministratorSlot]"
| "route_slots PostRole = [AdministratorSlot]"
| "route_slots DeleteAdministrator = [AdministratorSlot]"
| "route_slots GetAudit = [AuditSlot]"
| "route_slots GetManagement = [ManagementSlot]"
| "route_slots PostInactivityPreview = [ManagementSlot]"
| "route_slots PutManagement = [ManagementSlot]"
| "route_slots PutRule = [RuleSlot]"
| "route_slots DeleteRule = [RuleSlot]"
| "route_slots GetCore = [CoreSlot]"
| "route_slots PutCore = [CoreSlot]"
| "route_slots GetTLS = [TLSSlot]"
| "route_slots PutTLS = [TLSSlot]"
| "route_slots GetOverview = [DashboardSlot]"
| "route_slots GetBot = [BotSlot]"
| "route_slots PutBot = [BotSlot]"
| "route_slots PostRealitySearch = [RealitySlot]"
| "route_slots GetRealitySearch = [RealitySlot]"
| "route_slots GetBackup = [BackupSlot]"
| "route_slots PutBackup = [BackupSlot]"

definition route_registered :: "go_method list list \<Rightarrow> web_route \<Rightarrow> bool" where
  "route_registered options r \<longleftrightarrow> set (route_slots r) \<subseteq> set (filled_slots options)"

text \<open>What the multiplexer does with a request: an unregistered route is not found.\<close>

definition not_found :: web_response where
  "not_found = \<lparr>rs_Code = 404, rs_RetryAfter = '''', rs_Cookies = [],
     rs_Body = TextBody ''text/plain; charset=utf-8'' ''404 page not found''\<rparr>"

definition serve_request ::
    "go_method list list \<Rightarrow> 'w web_services \<Rightarrow> web_decoders \<Rightarrow> web_route \<Rightarrow> http_request \<Rightarrow> 'w \<Rightarrow> web_response \<times> 'w" where
  "serve_request options wa dc r rq w =
     (if route_registered options r then handle_request wa dc r rq w else (not_found, w))"

section \<open>The server's options\<close>

text \<open>
  The method sets of the values that the server passes, as far as the interfaces ask for them.
  \<open>applicationManagementSettings\<close> embeds six of the interfaces in one struct and has the methods of
  all of them; it is passed six times, once for each interface it was asserted to.
\<close>

definition application_management_settings :: "go_method list" where
  "application_management_settings =
     [MGet, MPreviewInactivity, MUpdate, MEnableByActor, MDisableByActor, MGetCore, MUpdateCore,
      MTLSOverview, MSave, MStart, MSnapshot, MGetBackupSettings, MUpdateBackupSettings]"

definition subscription_service_methods :: "go_method list" where
  "subscription_service_methods = [MRender, MOther ''WithTLSReadiness'']"

definition user_management_store_methods :: "go_method list" where
  "user_management_store_methods = [MListUsers, MOther ''FindUser'', MStatistics, MRevokeUser, MRejectApproval]"

definition provisioning_store_methods :: "go_method list" where
  "provisioning_store_methods = [MOther ''Claim'', MApprove, MRotateAccess]"

definition administrator_store_methods :: "go_method list" where
  "administrator_store_methods = [MListAdministrators, MSetRole, MRemove]"

definition audit_store_methods :: "go_method list" where
  "audit_store_methods = [MListAudit, MOther ''RecordLoginAttempt'', MOther ''RecordPlannedRestartNotification'',
     MOther ''RecordCoreFailureNotification'', MOther ''RecordTrafficFailureNotification'',
     MOther ''RecordTrafficRecoveryNotification'', MOther ''RecordRealityHealthNotification'']"

definition dashboard_adapter_methods :: "go_method list" where
  "dashboard_adapter_methods = [MStatistics, MTLSIssued, MCoreConfigured]"

definition bot_token_manager_methods :: "go_method list" where
  "bot_token_manager_methods = [MRotateToken, MBotOverview]"

definition application_options :: "go_method list list" where
  "application_options =
     [subscription_service_methods, user_management_store_methods, provisioning_store_methods,
      administrator_store_methods, audit_store_methods] @
     replicate 6 application_management_settings @
     [dashboard_adapter_methods, bot_token_manager_methods]"

section \<open>Five settings pages are missing\<close>

definition missing_routes :: "web_route set" where
  "missing_routes = {PutRule, DeleteRule, GetCore, PutCore, GetTLS, PutTLS, PostRealitySearch, GetRealitySearch,
     GetBackup, PutBackup}"

lemma application_slots:
  "set (filled_slots application_options) =
     {SubscriptionSlot, UserSlot, ProvisioningSlot, AdministratorSlot, AuditSlot, ManagementSlot, DashboardSlot, BotSlot}"
  by code_simp

lemma serve_application:
  "serve_request application_options wa dc r rq w =
     (if r \<in> missing_routes then (not_found, w) else handle_request wa dc r rq w)"
proof -
  have "route_registered application_options r \<longleftrightarrow> r \<notin> missing_routes"
    by (cases r) (simp_all add: route_registered_def application_slots missing_routes_def)
  then show ?thesis by (simp add: serve_request_def)
qed

text \<open>
  C34. The server misses half of its settings pages. Each of the six values that carry the settings
  interfaces is the same struct, which implements the first of them, so the type switch puts all
  six in the slot of the management settings: of the whole route table, the routes of the
  qualification rules, of the core and TLS settings, of the REALITY search and of the backup
  settings are not registered, and a request for one of them is answered with 404 and changes
  nothing, whoever sends it. All the other routes are served by their handlers.
\<close>

theorem settings_routes_missing:
  "serve_request application_options wa dc r rq w =
     (if r \<in> missing_routes then (not_found, w) else handle_request wa dc r rq w)"
  by (rule serve_application)

text \<open>It is the one struct that does it: given one by one, the services fill every slot.\<close>

lemma separate_values_register_all:
  "route_registered (map snd switch_cases) r"
proof -
  have "set (filled_slots (map snd switch_cases)) = set (map fst switch_cases)" by code_simp
  then show ?thesis by (cases r) (simp_all add: route_registered_def switch_cases_def)
qed

end
