(* ===== verification/Web_System.thy ===== *)
theory Web_System
  imports Web_Access Web_Wiring Administrator_Store
begin

text \<open>
  The web interface on the tables: the services that \<open>run\<close> (\<open>cmd/server/main.go\<close>) and
  \<open>buildApplicationWithOptions\<close> (\<open>cmd/server/application.go\<close>) hand to the handlers, each on the
  stored state. What a request can change, who can make it do so, and what every request keeps.
\<close>

section \<open>The server's services\<close>

text \<open>
  \<open>on_vpn\<close> runs an operation on the VPN tables, \<open>on_vpn_random\<close> one that draws from the random
  source too. The trigger of the recheck scheduler acts on a state of its own (\<open>Recheck_Scheduler\<close>).
\<close>

definition on_vpn :: "(vpn_db \<times> faults, 'a) call \<Rightarrow> (web_state, 'a) call" where
  "on_vpn f w = (let (s, src, lim, v) = w; (r, v1) = f v in (r, (s, src, lim, v1)))"

definition on_vpn_random :: "((vpn_db \<times> faults) \<times> byte list, 'a) call \<Rightarrow> (web_state, 'a) call" where
  "on_vpn_random f w = (let (s, src, lim, v) = w; (r, (v1, src1)) = f (v, src) in (r, (s, src1, lim, v1)))"

definition stored_update_management ::
    "int \<Rightarrow> management_settings \<Rightarrow> bool \<Rightarrow> go_time \<Rightarrow> (vpn_db \<times> faults, unit) call" where
  "stored_update_management actor settings confirm now v =
     (let (r, (v1, u)) = update_management (\<lambda>u. u) actor settings confirm now (v, ()) in (r, v1))"

text \<open>\<open>dashboardAdapter\<close>\<close>

definition core_configured :: "(vpn_db \<times> faults, bool) call" where
  "core_configured = and_then get_core (\<lambda>overview. ok (co_Configured overview))"

definition ping :: "(vpn_db \<times> faults, unit) call" where
  "ping = statement (\<lambda>d. (Inr (), d))"

text \<open>What the server is started with, and the clock of one request.\<close>

record server_env =
  en_dig :: "string \<Rightarrow> byte list"
  en_trusted :: "ip_prefix list"
  en_seal :: sealer
  en_openBundle :: bundle_opener
  en_tokenDigest :: "string \<Rightarrow> go_error + byte list"
  en_openValue :: value_opener
  en_linkText :: "share_link \<Rightarrow> string"
  en_standard :: "string \<Rightarrow> string"
  en_encode :: "json \<Rightarrow> string"
  en_product :: base_point

definition stored_subscription :: "server_env \<Rightarrow> (vpn_db \<times> faults) subscription_service" where
  "stored_subscription en =
     \<lparr>su_FindActiveBySubscriptionToken = find_active_by_subscription_token (en_openBundle en) (en_tokenDigest en),
      su_Load = load_core_settings (en_openValue en), su_readiness = Some tls_issued,
      su_linkText = en_linkText en, su_standard = en_standard en, su_encode = en_encode en,
      su_product = en_product en\<rparr>"

text \<open>
  The services on the tables, over \<open>rest\<close>: the bot token manager, whose row is not in this
  state, and the services of the routes that the server does not register.
\<close>

definition application_services :: "server_env \<Rightarrow> go_time \<Rightarrow> web_state web_services \<Rightarrow> web_state web_services" where
  "application_services en now rest = (stored_web (en_dig en) now (en_trusted en) rest)
     \<lparr>wa_Ping := on_vpn ping,
      wa_Render := \<lambda>token f. on_vpn (render_subscription (stored_subscription en) token f),
      wa_ListUsers := \<lambda>after limit. on_vpn (list_users after limit),
      wa_Revoke := \<lambda>actor target mode at. on_vpn (managed_revoke actor target mode at),
      wa_RejectApproval := \<lambda>actor target at. on_vpn (managed_reject actor target at),
      wa_Approve := \<lambda>target at. on_vpn_random (store_approve issue_bundle (en_seal en) target at),
      wa_Rotate := \<lambda>target at reset. on_vpn_random (store_rotate issue_bundle (en_seal en) target at reset),
      wa_ListAdministrators := with_tables list_administrators,
      wa_SetRole := \<lambda>actor target r at. with_tables (set_role actor target r at),
      wa_RemoveAdministrator := \<lambda>actor target at. with_tables (remove_administrator actor target at),
      wa_ListAudit := \<lambda>before limit. on_vpn (list_audit before limit),
      wa_GetManagement := on_vpn get_management,
      wa_PreviewInactivity := \<lambda>days at. on_vpn (preview_inactivity days at),
      wa_UpdateManagement := \<lambda>actor settings confirm at. on_vpn (stored_update_management actor settings confirm at),
      wa_Statistics := on_vpn statistics,
      wa_TLSIssued := on_vpn tls_issued,
      wa_CoreConfigured := on_vpn core_configured\<rparr>"

lemma application_with_sessions:
  "application_services en now rest = with_stored_sessions (en_dig en) now (application_services en now rest)"
  by (simp add: application_services_def stored_web_def with_stored_sessions_def)

text \<open>One request to the server at a time.\<close>

definition server_request ::
    "server_env \<Rightarrow> go_time \<Rightarrow> web_state web_services \<Rightarrow> web_decoders \<Rightarrow> web_route \<Rightarrow> http_request \<Rightarrow> web_state
       \<Rightarrow> web_response \<times> web_state" where
  "server_request en now rest dc r rq = serve_request application_options (application_services en now rest) dc r rq"

section \<open>What every handler keeps\<close>

definition obeys :: "('w \<Rightarrow> 'w \<Rightarrow> bool) \<Rightarrow> ('w \<Rightarrow> 'r \<times> 'w) \<Rightarrow> bool" where
  "obeys R f \<longleftrightarrow> (\<forall>w. R w (snd (f w)))"

lemma obeysD: "obeys R f \<Longrightarrow> f w = (r, w') \<Longrightarrow> R w w'"
  by (metis obeys_def snd_conv)

text \<open>The services behind the routes of the administrators and of the access of users, and the others.\<close>

definition role_services_keep :: "('w \<Rightarrow> 'w \<Rightarrow> bool) \<Rightarrow> 'w web_services \<Rightarrow> bool" where
  "role_services_keep R wa \<longleftrightarrow>
     (\<forall>a i r t. obeys R (wa_SetRole wa a i r t)) \<and> (\<forall>a i t. obeys R (wa_RemoveAdministrator wa a i t))"

definition access_services_keep :: "('w \<Rightarrow> 'w \<Rightarrow> bool) \<Rightarrow> 'w web_services \<Rightarrow> bool" where
  "access_services_keep R wa \<longleftrightarrow>
     (\<forall>a i m t. obeys R (wa_Revoke wa a i m t)) \<and> (\<forall>a i t. obeys R (wa_RejectApproval wa a i t)) \<and>
     (\<forall>i t. obeys R (wa_Approve wa i t)) \<and> (\<forall>i t b. obeys R (wa_Rotate wa i t b)) \<and>
     (\<forall>a s c t. obeys R (wa_UpdateManagement wa a s c t))"

definition other_services_keep :: "('w \<Rightarrow> 'w \<Rightarrow> bool) \<Rightarrow> 'w web_services \<Rightarrow> bool" where
  "other_services_keep R wa \<longleftrightarrow>
     obeys R (wa_Ping wa) \<and> (\<forall>i c. obeys R (wa_Exchange wa i c)) \<and> (\<forall>t. obeys R (wa_Authenticate wa t)) \<and>
     (\<forall>t. obeys R (wa_RevokeSession wa t)) \<and> (\<forall>ip i. obeys R (wa_Begin wa ip i)) \<and>
     (\<forall>a b w. R w (wa_Complete wa a b w)) \<and> (\<forall>i ip b t. obeys R (wa_RecordLoginAttempt wa i ip b t)) \<and>
     (\<forall>t f. obeys R (wa_Render wa t f)) \<and> (\<forall>a l. obeys R (wa_ListUsers wa a l)) \<and>
     obeys R (wa_ListAdministrators wa) \<and> (\<forall>b l. obeys R (wa_ListAudit wa b l)) \<and> obeys R (wa_GetManagement wa) \<and>
     (\<forall>d t. obeys R (wa_PreviewInactivity wa d t)) \<and> obeys R (wa_Statistics wa) \<and> obeys R (wa_TLSIssued wa) \<and>
     obeys R (wa_CoreConfigured wa)"

definition role_routes :: "web_route set" where
  "role_routes = {PostRole, DeleteAdministrator}"

definition access_routes :: "web_route set" where
  "access_routes = {PostRevoke, PostReject, PostApprove, PostRotate, PutManagement}"

definition bot_routes :: "web_route set" where
  "bot_routes = {GetBot, PutBot}"

lemma snd_answer [simp]: "snd (answer_json s g x) = snd x" "snd (answer_done s x) = snd x"
  by (auto simp: answer_json_def answer_done_def split: prod.splits sum.splits)

lemma obeys_value [simp]: "obeys R f \<Longrightarrow> R w (snd (f w))"
  by (simp add: obeys_def)

locale web_relation =
  fixes R :: "'w \<Rightarrow> 'w \<Rightarrow> bool"
  assumes kept_refl: "R w w"
    and kept_trans: "R w w1 \<Longrightarrow> R w1 w2 \<Longrightarrow> R w w2"
begin

lemma authenticate_request_keeps:
  "authenticate_request A rq w = (r, w1) \<Longrightarrow> \<forall>t. obeys R (A t) \<Longrightarrow> R w w1"
  by (auto simp: authenticate_request_def kept_refl split: option.splits prod.splits sum.splits if_splits dest: obeysD)

lemma authorize_keeps:
  "authorize A perm csrf rq w = (r, w1) \<Longrightarrow> \<forall>t. obeys R (A t) \<Longrightarrow> R w w1"
  by (auto simp: authorize_def split: prod.splits sum.splits if_splits dest: authenticate_request_keeps)

lemma authorize_mutation_keeps:
  "authorize_mutation A perm rq w = (r, w1) \<Longrightarrow> \<forall>t. obeys R (A t) \<Longrightarrow> R w w1"
  by (auto simp: authorize_mutation_def split: prod.splits sum.splits option.splits if_splits dest: authorize_keeps)

lemma authorized_keeps:
  assumes "\<forall>t. obeys R (wa_Authenticate wa t)" and "\<And>a w. R w (snd (k a w))"
  shows "R w (snd (authorized_then wa perm csrf rq k w))"
  using assms
  by (auto simp: authorized_then_def split: prod.splits sum.splits intro: kept_trans dest!: authorize_keeps)

lemma mutation_keeps:
  assumes "\<forall>t. obeys R (wa_Authenticate wa t)" and "\<And>a i w. R w (snd (k a i w))"
  shows "R w (snd (mutation_then wa perm rq k w))"
  using assms
  by (auto simp: mutation_then_def split: prod.splits sum.splits intro: kept_trans dest!: authorize_mutation_keeps)

lemma decoded_keeps:
  "(\<And>x w. R w (snd (k x w))) \<Longrightarrow> R w (snd (decoded_then decode rq k w))"
  by (simp add: decoded_then_def kept_refl split: sum.splits)

lemma login_keeps:
  assumes "other_services_keep R wa"
  shows "R w (snd (login_handler wa dc rq w))"
proof -
  have steps: "\<And>i c w r w1. wa_Exchange wa i c w = (r, w1) \<Longrightarrow> R w w1"
    "\<And>ip i w r w1. wa_Begin wa ip i w = (r, w1) \<Longrightarrow> R w w1"
    "\<And>i ip b t w r w1. wa_RecordLoginAttempt wa i ip b t w = (r, w1) \<Longrightarrow> R w w1"
    "\<And>a b w. R w (wa_Complete wa a b w)" "\<And>t w. R w (snd (wa_RevokeSession wa t w))"
    using assms unfolding other_services_keep_def by (meson obeysD obeys_value)+
  have admitted: "R w (snd (login_admitted wa ip attempt i code w))" for w ip attempt i code
    unfolding login_admitted_def Let_def
    by (auto split: prod.splits sum.splits dest!: steps(1,3) dest: kept_trans [OF steps(4)]
        intro: steps(4,5) kept_trans [OF _ kept_trans [OF steps(4) steps(5)]] kept_trans)
  show ?thesis
    unfolding login_handler_def Let_def
    by (auto simp: kept_refl split: sum.splits prod.splits option.splits dest!: steps(2) intro: admitted kept_trans)
qed

text \<open>Route by route: a handler keeps what the services it calls keep.\<close>

lemma session_routes_keep:
  assumes "other_services_keep R wa"
  shows "R w (snd (identity_handler wa rq w))" "R w (snd (logout_handler wa rq w))"
    "R w (snd (ready_handler wa w))" "R w (snd (subscription_handler wa rq w))"
proof -
  have auth: "\<forall>t. obeys R (wa_Authenticate wa t)" and calls: "\<And>t w r w1. wa_RevokeSession wa t w = (r, w1) \<Longrightarrow> R w w1"
    "\<And>w r w1. wa_Ping wa w = (r, w1) \<Longrightarrow> R w w1" "\<And>t f w r w1. wa_Render wa t f w = (r, w1) \<Longrightarrow> R w w1"
    using assms unfolding other_services_keep_def by (meson obeysD)+
  show "R w (snd (identity_handler wa rq w))"
    using auth by (auto simp: identity_handler_def split: prod.splits sum.splits dest: authenticate_request_keeps)
  show "R w (snd (logout_handler wa rq w))"
    using auth by (auto simp: logout_handler_def split: prod.splits sum.splits
        dest!: authenticate_request_keeps calls(1) intro: kept_trans)
  show "R w (snd (ready_handler wa w))"
    by (auto simp: ready_handler_def split: prod.splits sum.splits dest: calls(2))
  show "R w (snd (subscription_handler wa rq w))"
    by (auto simp: subscription_handler_def kept_refl split: prod.splits sum.splits dest: calls(3))
qed

lemma overview_keeps:
  assumes "other_services_keep R wa"
  shows "R w (snd (get_overview wa rq w))"
proof -
  have auth: "\<forall>t. obeys R (wa_Authenticate wa t)" and calls: "\<And>w r w1. wa_Statistics wa w = (r, w1) \<Longrightarrow> R w w1"
    "\<And>w r w1. wa_TLSIssued wa w = (r, w1) \<Longrightarrow> R w w1" "\<And>w. R w (snd (wa_CoreConfigured wa w))"
    using assms unfolding other_services_keep_def by (meson obeysD obeys_value)+
  show ?thesis
    unfolding get_overview_def
    by (rule authorized_keeps [OF auth])
      (auto split: prod.splits sum.splits dest!: calls(1,2) intro: calls(3) kept_trans)
qed

lemma reads_keep:
  assumes "other_services_keep R wa"
  shows "R w (snd (get_users wa rq w))" "R w (snd (get_administrators wa rq w))" "R w (snd (get_audit wa rq w))"
    "R w (snd (get_management_settings wa rq w))" "R w (snd (post_inactivity_preview wa dc rq w))"
  using assms
  by (auto simp: get_users_def get_administrators_def get_audit_def get_management_settings_def
      post_inactivity_preview_def other_services_keep_def kept_refl
      intro!: authorized_keeps decoded_keeps split: option.splits)

lemma role_changes_keep:
  assumes "other_services_keep R wa" and "role_services_keep R wa"
  shows "R w (snd (post_role wa dc rq w))" "R w (snd (delete_administrator wa rq w))"
  using assms
  by (auto simp: post_role_def delete_administrator_def other_services_keep_def role_services_keep_def kept_refl
      intro!: mutation_keeps decoded_keeps)

lemma access_changes_keep:
  assumes "other_services_keep R wa" and "access_services_keep R wa"
  shows "R w (snd (post_revoke wa dc rq w))" "R w (snd (post_reject wa rq w))" "R w (snd (post_approve wa rq w))"
    "R w (snd (post_rotate wa dc rq w))" "R w (snd (put_management_settings wa dc rq w))"
  using assms
  by (auto simp: post_revoke_def post_reject_def post_approve_def post_rotate_def put_management_settings_def
      other_services_keep_def access_services_keep_def kept_refl
      intro!: mutation_keeps authorized_keeps decoded_keeps split: prod.splits)

lemma handle_keeps:
  assumes "r \<notin> missing_routes" "r \<notin> bot_routes" and "other_services_keep R wa"
    and "r \<in> role_routes \<Longrightarrow> role_services_keep R wa" and "r \<in> access_routes \<Longrightarrow> access_services_keep R wa"
  shows "R w (snd (handle_request wa dc r rq w))"
  using assms session_routes_keep [OF assms(3)] overview_keeps [OF assms(3)] reads_keep [OF assms(3)]
    role_changes_keep [OF assms(3)] access_changes_keep [OF assms(3)] login_keeps [OF assms(3)]
  by (cases r) (simp_all add: missing_routes_def bot_routes_def role_routes_def access_routes_def kept_refl)

end

section \<open>Calls that only read\<close>

definition reading :: "('d \<times> faults, 'a) call \<Rightarrow> bool" where
  "reading f \<longleftrightarrow> (\<forall>s. fst (snd (f s)) = fst s)"

lemma reading_unchanged [intro!]: "reading (ok x)" "reading (fail_with e)"
  by (simp_all add: reading_def)

lemma readingD: "reading f \<Longrightarrow> f s = (r, s') \<Longrightarrow> fst s' = fst s"
  unfolding reading_def by (metis snd_conv)

lemma reading_statement [intro!]:
  assumes "\<And>d. snd (f d) = d"
  shows "reading (statement f)"
proof -
  have "d' = d" if "f d = (r, d')" for d r d'
    using assms [of d] that by simp
  then show ?thesis
    by (auto simp: reading_def statement_def split: prod.splits fault.splits sum.splits)
qed

lemma reading_wrapping [intro!]: "reading f \<Longrightarrow> reading (wrapping msg f)"
  unfolding reading_def [of "wrapping msg f"] wrapping_def
  by (auto split: prod.splits sum.splits dest: readingD)

lemma reading_and_then [intro!]:
  "reading m \<Longrightarrow> (\<And>x. reading (k x)) \<Longrightarrow> reading (and_then m k)"
proof -
  assume m: "reading m" and k: "\<And>x. reading (k x)"
  have "fst s' = fst s" if "and_then m k s = (r, s')" for s r s'
    using that by (rule and_thenE) (metis readingD [OF m] readingD [OF k])+
  then show ?thesis unfolding reading_def [of "and_then m k"] by (metis surj_pair snd_conv)
qed

lemma open_credential_row_reading: "(\<And>d. snd (row d) = d) \<Longrightarrow> reading (open_credential_row openBundle row)"
proof -
  assume "\<And>d. snd (row d) = d"
  then have "reading (statement row)" by (rule reading_statement)
  note kept = readingD [OF this]
  show ?thesis
    unfolding reading_def open_credential_row_def
    by (auto split: prod.splits sum.splits dest: kept)
qed

lemma find_active_reading: "reading (find_active_by_subscription_token openBundle tokenDigest token)"
  unfolding find_active_by_subscription_token_def
  by (cases "tokenDigest token")
    (auto intro!: open_credential_row_reading simp: select_bundle_def split: list.splits)

lemma application_reads:
  "reading ping" "reading (list_users after limit)" "reading (list_audit before limit)" "reading get_management"
  "reading (preview_inactivity days at)" "reading statistics" "reading tls_issued" "reading core_configured"
  "reading list_administrators"
  unfolding ping_def list_users_def list_audit_def get_management_def preview_inactivity_def statistics_def
    tls_issued_def core_configured_def get_core_def list_administrators_def Let_def
  by (safe | simp split: option.splits prod.splits | rule conjI impI)+

lemma load_core_settings_reading: "reading (load_core_settings openValue)"
  unfolding load_core_settings_def
  by (safe | simp split: sum.splits | rule conjI impI allI)+

lemma certificate_ready_reading: "reading (certificate_ready (stored_subscription en))"
  unfolding reading_def certificate_ready_def stored_subscription_def
  by (auto split: prod.splits sum.splits bool.splits dest: readingD [OF application_reads(7)])

lemma reading_pure: "reading (\<lambda>w. (x, w))"
  by (simp add: reading_def)

lemma render_reading: "reading (render_subscription (stored_subscription en) token f)"
proof -
  have sub: "su_FindActiveBySubscriptionToken (stored_subscription en) =
      find_active_by_subscription_token (en_openBundle en) (en_tokenDigest en)"
    "su_Load (stored_subscription en) = load_core_settings (en_openValue en)"
    by (simp_all add: stored_subscription_def)
  show ?thesis
    unfolding render_subscription_def sub
    by (cases f) (auto intro!: certificate_ready_reading find_active_reading load_core_settings_reading reading_pure)
qed

section \<open>The relations between the states before and after a request\<close>

abbreviation auth_tables :: "web_state \<Rightarrow> auth_db" where "auth_tables w \<equiv> fst (fst w)"

abbreviation vpn_tables :: "web_state \<Rightarrow> vpn_db" where "vpn_tables w \<equiv> fst (snd (snd (snd w)))"

definition same_administrators :: "web_state \<Rightarrow> web_state \<Rightarrow> bool" where
  "same_administrators w w' \<longleftrightarrow> administrators (auth_tables w') = administrators (auth_tables w)"

text \<open>The VPN tables differ at most in the audit events.\<close>

definition same_access :: "web_state \<Rightarrow> web_state \<Rightarrow> bool" where
  "same_access w w' \<longleftrightarrow> (\<exists>es. vpn_tables w' = (vpn_tables w)\<lparr>audit_events := es\<rparr>)"

definition stays_sound :: "web_state \<Rightarrow> web_state \<Rightarrow> bool" where
  "stays_sound w w' \<longleftrightarrow> (roles_inv (auth_tables w) \<longrightarrow> roles_inv (auth_tables w')) \<and>
     announced (vpn_tables w) (vpn_tables w') \<and> keeps_open (vpn_tables w) (vpn_tables w')"

interpretation same_administrators: web_relation same_administrators
  by unfold_locales (simp_all add: same_administrators_def)

interpretation same_access: web_relation same_access
proof unfold_locales
  show "same_access w w" for w unfolding same_access_def by (metis vpn_db.surjective vpn_db.update_convs(12))
  show "same_access w w2" if "same_access w w1" "same_access w1 w2" for w w1 w2
    using that by (auto simp: same_access_def)
qed

interpretation stays_sound: web_relation stays_sound
  by unfold_locales (auto simp: stays_sound_def intro: announced_trans keeps_open_trans)

definition harmless :: "web_state \<Rightarrow> web_state \<Rightarrow> bool" where
  "harmless w w' \<longleftrightarrow> same_administrators w w' \<and> same_access w w'"

lemma harmless_sound: "harmless w w' \<Longrightarrow> stays_sound w w'"
  by (auto simp: harmless_def same_administrators_def same_access_def stays_sound_def roles_inv_def announced_def
      serves_alt admitting_def intro!: keeps_open_tables)

lemma other_services_mono:
  "other_services_keep R wa \<Longrightarrow> (\<And>w w'. R w w' \<Longrightarrow> S w w') \<Longrightarrow> other_services_keep S wa"
  unfolding other_services_keep_def obeys_def by auto

section \<open>What each service changes\<close>

lemma obeys_on_vpn:
  assumes "\<And>w r v'. f (snd (snd (snd w))) = (r, v') \<Longrightarrow> R w (fst w, fst (snd w), fst (snd (snd w)), v')"
  shows "obeys R (on_vpn f)"
  using assms by (fastforce simp: obeys_def on_vpn_def split: prod.splits)

lemma obeys_with_tables:
  assumes "\<And>w r s. f (fst w) = (r, s) \<Longrightarrow> R w (s, snd w)"
  shows "obeys R (with_tables f)"
  using assms by (fastforce simp: obeys_def with_tables_def split: prod.splits)

lemma vpn_reading_harmless: "reading f \<Longrightarrow> obeys harmless (on_vpn f)"
  using same_access.kept_refl
  by (intro obeys_on_vpn) (auto simp: harmless_def same_administrators_def same_access_def dest: readingD)

lemma auth_quiet_harmless:
  assumes "\<And>d fs r d' fs'. f (d, fs) = (r, (d', fs')) \<Longrightarrow> administrators d' = administrators d"
  shows "obeys harmless (with_tables f)"
proof (rule obeys_with_tables)
  fix w :: web_state and r s
  assume "f (fst w) = (r, s)"
  then have "administrators (fst s) = administrators (fst (fst w))"
    using assms by (metis prod.collapse)
  then show "harmless w (s, snd w)"
    using same_access.kept_refl [of w] by (simp add: harmless_def same_administrators_def same_access_def)
qed

lemma consume_administrators:
  "consume_code consume_stored_code dig now i code s = (r, s') \<Longrightarrow> administrators (fst s') = administrators (fst s)"
  by (cases s) (auto simp: consume_code_def consume_stored_code_def statement_def split: statement_splits)

lemma insert_administrators:
  "insert_session session s = (r, s') \<Longrightarrow> administrators (fst s') = administrators (fst s)"
  by (cases s) (auto simp: insert_session_def statement_def split: statement_splits)

lemma login_administrators:
  "login dig now i code (s, src) = (r, (s', src')) \<Longrightarrow> administrators (fst s') = administrators (fst s)"
  by (auto simp: login_def exchange_def codes_service_def create_session_def Let_def
      split: prod.splits sum.splits if_splits dest!: consume_administrators insert_administrators)

lemma revoke_administrators:
  "revoke_session delete_session dig token (d, fs) = (r, (d', fs')) \<Longrightarrow> administrators d' = administrators d"
  by (auto simp: revoke_session_def delete_session_def statement_def split: statement_splits)

lemma authenticate_administrators:
  "authenticate authenticate_and_touch dig now token (d, fs) = (r, (d', fs')) \<Longrightarrow> administrators d' = administrators d"
  by (auto simp: only_touched_def dest!: authenticate_stored(1))

lemma exchange_harmless: "obeys harmless (stored_exchange dig now i code)"
  using same_access.kept_refl
  by (auto simp: obeys_def stored_exchange_def harmless_def same_administrators_def same_access_def Let_def
      split: prod.splits dest!: login_administrators)

lemma login_audit_harmless: "obeys harmless (stored_login_audit i ip succeeded at)"
proof -
  have "\<exists>es. fst s' = (fst s)\<lparr>audit_events := es\<rparr>"
    if "record_login_attempt i ip succeeded at s = (r, s')" for s s' :: "vpn_db \<times> faults" and r
  proof -
    have audited: "fst s' = fst s \<or> fst s' = record_audit 0 action i (fst s)"
      if "statement (\<lambda>d. (Inr (), record_audit 0 action i d)) s = (r, s')" for action r
      using statement_either [OF that] by auto
    have "fst s' = fst s \<or> (\<exists>action. fst s' = record_audit 0 action i (fst s))"
      using that by (auto simp: record_login_attempt_def elim!: wrappingE dest: audited split: if_splits)
    moreover have "fst s = (fst s)\<lparr>audit_events := audit_events (fst s)\<rparr>" by simp
    ultimately show ?thesis unfolding record_audit_def by metis
  qed
  then show ?thesis
    by (auto simp: obeys_def stored_login_audit_def harmless_def same_administrators_def same_access_def Let_def
        split: prod.splits)
qed

lemma limiter_harmless: "obeys harmless (stored_begin now ip i)" "harmless w (stored_complete attempt succeeded w)"
  using same_access.kept_refl
  by (auto simp: obeys_def stored_begin_def stored_complete_def harmless_def same_administrators_def same_access_def Let_def
      split: prod.splits)

lemma application_others: "other_services_keep harmless (application_services en now rest)"
  unfolding other_services_keep_def application_services_def
  by (auto simp: stored_web_def with_stored_sessions_def exchange_harmless login_audit_harmless limiter_harmless
      intro!: vpn_reading_harmless auth_quiet_harmless application_reads render_reading
      dest: revoke_administrators authenticate_administrators readingD [OF application_reads(9)])

lemma obeys_random:
  assumes "\<And>w r v' src'. f (snd (snd (snd w)), fst (snd w)) = (r, (v', src')) \<Longrightarrow> R w (fst w, src', fst (snd (snd w)), v')"
  shows "obeys R (on_vpn_random f)"
  using assms by (fastforce simp: obeys_def on_vpn_random_def split: prod.splits)

text \<open>The services of the administrators leave the VPN tables alone, and those of the access the administrators.\<close>

lemma application_roles:
  "role_services_keep same_access (application_services en now rest)"
  "role_services_keep stays_sound (application_services en now rest)"
proof -
  show "role_services_keep same_access (application_services en now rest)"
    using same_access.kept_refl
    by (auto simp: role_services_keep_def application_services_def same_access_def intro!: obeys_with_tables)
  have inv: "roles_inv (fst s')" if "role_step x s = (r, s')" "roles_inv (fst s)" for x r s s'
    using role_step_inv [of x "fst s" "snd s" r "fst s'" "snd s'"] that by simp
  have "roles_inv (fst s')" if "set_role a i q t s = (r, s')" "roles_inv (fst s)" for a i q t s r s'
    using inv [of "OpSetRole a i q t" s r s'] that by simp
  moreover have "roles_inv (fst s')" if "remove_administrator a i t s = (r, s')" "roles_inv (fst s)" for a i t s r s'
    using inv [of "OpRemove a i t" s r s'] that by simp
  ultimately show "role_services_keep stays_sound (application_services en now rest)"
    by (auto simp: role_services_keep_def application_services_def stays_sound_def intro!: obeys_with_tables)
qed

lemma application_access:
  "access_services_keep same_administrators (application_services en now rest)"
  "access_services_keep stays_sound (application_services en now rest)"
proof -
  show "access_services_keep same_administrators (application_services en now rest)"
    by (auto simp: access_services_keep_def application_services_def same_administrators_def
        intro!: obeys_on_vpn obeys_random)
  have managed: "announced (fst s) (fst s') \<and> keeps_open (fst s) (fst s')"
    if "stored_update_management a m c t s = (r, s')" for a m c t s r s'
    using that manage_announced [of s "\<lambda>u. u" a m c t "()"]
    by (auto simp: stored_update_management_def split: prod.splits)
  have sound: "stays_sound w (fst w, src', fst (snd (snd w)), v')"
    if "announced (vpn_tables w) (fst v') \<and> keeps_open (vpn_tables w) (fst v')" for w src' v'
    using that by (simp add: stays_sound_def)
  have stores: "managed_revoke a i m t s = (r, s') \<Longrightarrow> announced (fst s) (fst s') \<and> keeps_open (fst s) (fst s')"
    "managed_reject a i t s = (r, s') \<Longrightarrow> announced (fst s) (fst s') \<and> keeps_open (fst s) (fst s')"
    for a i m t s r s'
    using managed_revoke_announced [of s a i m t] managed_reject_announced [of s a i t] by simp_all
  have random: "store_approve issue_bundle seal i t (s, src) = (r2, (s', src')) \<Longrightarrow>
      announced (fst s) (fst s') \<and> keeps_open (fst s) (fst s')"
    "store_rotate issue_bundle seal i t b (s, src) = (r2, (s', src')) \<Longrightarrow>
      announced (fst s) (fst s') \<and> keeps_open (fst s) (fst s')" for seal i t b s r2 s' src src'
    using provision_announced(2) [of "(s, src)" issue_bundle seal i t]
      provision_announced(3) [of "(s, src)" issue_bundle seal i t b] by simp_all
  show "access_services_keep stays_sound (application_services en now rest)"
    unfolding access_services_keep_def application_services_def
    by (simp, intro conjI allI obeys_on_vpn obeys_random)
      (rule sound, erule stores random managed)+
qed

section \<open>Any sequence of requests\<close>

text \<open>Requests one after another, each with the time the server's clock shows.\<close>

fun server_run ::
    "server_env \<Rightarrow> web_state web_services \<Rightarrow> web_decoders \<Rightarrow> (go_time \<times> web_route \<times> http_request) list \<Rightarrow> web_state \<Rightarrow> web_state" where
  "server_run en rest dc [] w = w"
| "server_run en rest dc ((now, r, rq) # requests) w =
     server_run en rest dc requests (snd (server_request en now rest dc r rq w))"

lemma server_request_sound:
  assumes "r \<notin> bot_routes"
  shows "stays_sound w (snd (server_request en now rest dc r rq w))"
proof (cases "r \<in> missing_routes")
  case True
  then show ?thesis by (simp add: server_request_def serve_application stays_sound.kept_refl)
next
  case False
  from stays_sound.handle_keeps [OF this assms other_services_mono [OF application_others harmless_sound]
      application_roles(2) application_access(2)]
  show ?thesis using False by (simp add: server_request_def serve_application)
qed

lemma route_permissions:
  "r \<in> role_routes \<Longrightarrow> route_permission r = Some ManageRoles \<and> route_changes r"
  "r \<in> access_routes \<Longrightarrow> route_permission r \<noteq> None \<and> route_changes r"
  by (auto simp: role_routes_def access_routes_def route_changes_def)

text \<open>A request that may not be made leaves administrators and access alone.\<close>

lemma refused_harmless:
  assumes "r \<notin> missing_routes" and perm: "route_permission r = Some perm"
    and no: "\<not> may_call (en_dig en) now (auth_tables w) perm (route_changes r) rq"
  shows "harmless w (snd (server_request en now rest dc r rq w))"
proof -
  obtain d fs x where w: "w = ((d, fs), x)" by (metis surj_pair)
  obtain resp d' fs' x' where h: "handle_request (with_stored_sessions (en_dig en) now (application_services en now rest))
      dc r rq ((d, fs), x) = (resp, ((d', fs'), x'))" by (metis surj_pair)
  from access_controlled [OF perm h] no w have "x' = x" "only_touched now d d'" by auto
  then have "harmless w ((d', fs'), x')"
    using w same_access.kept_refl [of w]
    by (auto simp: harmless_def same_administrators_def same_access_def only_touched_def)
  then show ?thesis
    using assms(1) h w application_with_sessions [of en now rest] by (simp add: server_request_def serve_application)
qed

lemma server_request_administrators:
  assumes "r \<notin> bot_routes" and "\<not> same_administrators w (snd (server_request en now rest dc r rq w))"
  shows "r \<in> role_routes \<and> may_call (en_dig en) now (auth_tables w) ManageRoles True rq"
proof -
  have r: "r \<notin> missing_routes"
    using assms(2) by (auto simp: server_request_def serve_application same_administrators.kept_refl split: if_splits)
  have "r \<in> role_routes"
  proof (rule ccontr)
    assume "r \<notin> role_routes"
    then have "same_administrators w (snd (handle_request (application_services en now rest) dc r rq w))"
      using other_services_mono [OF application_others, of same_administrators en now rest]
      by (intro same_administrators.handle_keeps [OF r assms(1)] application_access(1)) (auto simp: harmless_def)
    with assms(2) r show False by (simp add: server_request_def serve_application)
  qed
  with refused_harmless [OF r, of ManageRoles en now w rq rest dc] assms(2) route_permissions(1) [of r] show ?thesis
    by (auto simp: harmless_def)
qed

lemma server_request_access:
  assumes "r \<notin> bot_routes" and "\<not> same_access w (snd (server_request en now rest dc r rq w))"
  shows "r \<in> access_routes \<and> (\<exists>perm. route_permission r = Some perm \<and> may_call (en_dig en) now (auth_tables w) perm True rq)"
proof -
  have r: "r \<notin> missing_routes"
    using assms(2) by (auto simp: server_request_def serve_application same_access.kept_refl split: if_splits)
  have "r \<in> access_routes"
  proof (rule ccontr)
    assume "r \<notin> access_routes"
    then have "same_access w (snd (handle_request (application_services en now rest) dc r rq w))"
      using other_services_mono [OF application_others, of same_access en now rest]
      by (intro same_access.handle_keeps [OF r assms(1)] application_roles(1)) (auto simp: harmless_def)
    with assms(2) r show False by (simp add: server_request_def serve_application)
  qed
  with refused_harmless [OF r, of _ en now w rq rest dc] assms(2) route_permissions(2) [of r] show ?thesis
    by (auto simp: harmless_def)
qed

text \<open>A run that breaks a relation has a request that breaks it.\<close>

lemma breaking_request:
  assumes "web_relation R" and "\<not> R w (server_run en rest dc requests w)"
  shows "\<exists>before now r rq after. requests = before @ (now, r, rq) # after \<and>
    (let w1 = server_run en rest dc before w in \<not> R w1 (snd (server_request en now rest dc r rq w1)))"
  using assms(2)
proof (induction requests arbitrary: w)
  case Nil
  with web_relation.kept_refl [OF assms(1)] show ?case by simp
next
  case (Cons x requests)
  obtain now r rq where x: "x = (now, r, rq)" by (cases x)
  let ?w = "snd (server_request en now rest dc r rq w)"
  show ?case
  proof (cases "R w ?w")
    case False
    with x have "x # requests = [] @ (now, r, rq) # requests \<and>
        (let w1 = server_run en rest dc [] w in \<not> R w1 (snd (server_request en now rest dc r rq w1)))" by simp
    then show ?thesis by blast
  next
    case True
    have "\<not> R w (server_run en rest dc requests ?w)" using Cons.prems x by simp
    with web_relation.kept_trans [OF assms(1) True] have "\<not> R ?w (server_run en rest dc requests ?w)"
      by blast
    from Cons.IH [OF this] obtain before now' r' rq' after where
        split: "requests = before @ (now', r', rq') # after"
        "let w1 = server_run en rest dc before ?w in \<not> R w1 (snd (server_request en now' rest dc r' rq' w1))"
      by blast
    then have "x # requests = (x # before) @ (now', r', rq') # after \<and>
        (let w1 = server_run en rest dc (x # before) w in \<not> R w1 (snd (server_request en now' rest dc r' rq' w1)))"
      using x by simp
    then show ?thesis by blast
  qed
qed

text \<open>A request of the run, at the state that the requests before it left, was one that \<open>P\<close> allows.\<close>

definition some_request ::
    "server_env \<Rightarrow> web_state web_services \<Rightarrow> web_decoders \<Rightarrow> (go_time \<times> web_route \<times> http_request) list \<Rightarrow> web_state
       \<Rightarrow> (go_time \<Rightarrow> web_route \<Rightarrow> http_request \<Rightarrow> auth_db \<Rightarrow> bool) \<Rightarrow> bool" where
  "some_request en rest dc requests w P \<longleftrightarrow> (\<exists>before now r rq after. requests = before @ (now, r, rq) # after \<and>
     P now r rq (auth_tables (server_run en rest dc before w)))"

definition without_bot :: "(go_time \<times> web_route \<times> http_request) list \<Rightarrow> bool" where
  "without_bot requests \<longleftrightarrow> list_all (\<lambda>(now, r, rq). r \<notin> bot_routes) requests"

lemma some_breaking_request:
  assumes R: "web_relation R" and w: "\<not> R w (server_run en rest dc requests w)" and "without_bot requests"
    and P: "\<And>now r rq w1. r \<notin> bot_routes \<Longrightarrow> \<not> R w1 (snd (server_request en now rest dc r rq w1)) \<Longrightarrow>
      P now r rq (auth_tables w1)"
  shows "some_request en rest dc requests w P"
proof -
  from breaking_request [OF R w] obtain before now r rq after where
      split: "requests = before @ (now, r, rq) # after"
    and breaks: "\<not> R (server_run en rest dc before w) (snd (server_request en now rest dc r rq (server_run en rest dc before w)))"
    unfolding Let_def by blast
  from split assms(3) have "r \<notin> bot_routes" by (simp add: without_bot_def)
  from P [OF this breaks] split show ?thesis unfolding some_request_def by blast
qed

lemma server_run_sound:
  assumes "without_bot requests"
  shows "stays_sound w (server_run en rest dc requests w)"
proof (rule ccontr)
  assume "\<not> ?thesis"
  from some_breaking_request [OF stays_sound.web_relation_axioms this assms, where P = "\<lambda>now r rq d. False"]
  show False by (simp add: server_request_sound some_request_def)
qed

text \<open>
  C9. The web interface as a whole, on the stored tables: over any sequence of requests from
  anyone to the routes that the server registers (the bot token's apart), whatever statements,
  commits and acknowledgements are lost, the administrators stay safe (unique, every root row an
  active owner, an active owner left), and every user whom the core should serve differently
  has the core action open for it. Administrators differ at the end only if one of the
  requests to change a role or remove an administrator came, at its moment, with a session in
  force of an administrator whose role may manage roles, and with its CSRF token; and anything
  in the VPN tables but the audit events differs only if one of the requests to revoke, reject,
  approve, rotate or change the settings came with a session in force and the permission of
  that route.
\<close>

theorem web_runs_controlled:
  assumes "without_bot requests" and "w' = server_run en rest dc requests w"
  shows "(roles_inv (auth_tables w) \<longrightarrow> roles_inv (auth_tables w')) \<and>
    (\<forall>i. serves (vpn_tables w') i \<noteq> serves (vpn_tables w) i \<longrightarrow>
       (case serves (vpn_tables w') i of
          None \<Rightarrow> has_open (vpn_tables w') CoreActionRevoke i
        | Some bundle \<Rightarrow> has_open (vpn_tables w') CoreActionReconcile i)) \<and>
    (administrators (auth_tables w') \<noteq> administrators (auth_tables w) \<longrightarrow>
       some_request en rest dc requests w (\<lambda>now r rq d.
         r \<in> {PostRole, DeleteAdministrator} \<and> may_call (en_dig en) now d ManageRoles True rq)) \<and>
    (vpn_tables w' \<noteq> (vpn_tables w)\<lparr>audit_events := audit_events (vpn_tables w')\<rparr> \<longrightarrow>
       some_request en rest dc requests w (\<lambda>now r rq d.
         r \<in> {PostRevoke, PostReject, PostApprove, PostRotate, PutManagement} \<and>
         (\<exists>perm. route_permission r = Some perm \<and> may_call (en_dig en) now d perm True rq)))"
proof (intro conjI impI)
  from server_run_sound [OF assms(1), of w en rest dc] assms(2) have sound: "stays_sound w w'" by simp
  then show "roles_inv (auth_tables w')" if "roles_inv (auth_tables w)"
    using that by (simp add: stays_sound_def)
  from sound show "\<forall>i. serves (vpn_tables w') i \<noteq> serves (vpn_tables w) i \<longrightarrow>
       (case serves (vpn_tables w') i of
          None \<Rightarrow> has_open (vpn_tables w') CoreActionRevoke i
        | Some bundle \<Rightarrow> has_open (vpn_tables w') CoreActionReconcile i)"
    by (simp add: stays_sound_def announced_def)
next
  assume "administrators (auth_tables w') \<noteq> administrators (auth_tables w)"
  then have "\<not> same_administrators w (server_run en rest dc requests w)"
    using assms(2) by (simp add: same_administrators_def)
  from same_administrators.web_relation_axioms this assms(1)
  show "some_request en rest dc requests w (\<lambda>now r rq d.
         r \<in> {PostRole, DeleteAdministrator} \<and> may_call (en_dig en) now d ManageRoles True rq)"
    unfolding role_routes_def [symmetric] by (rule some_breaking_request) (rule server_request_administrators)
next
  assume "vpn_tables w' \<noteq> (vpn_tables w)\<lparr>audit_events := audit_events (vpn_tables w')\<rparr>"
  then have "\<not> same_access w (server_run en rest dc requests w)"
    using assms(2) by (auto simp: same_access_def)
  from same_access.web_relation_axioms this assms(1)
  show "some_request en rest dc requests w (\<lambda>now r rq d.
         r \<in> {PostRevoke, PostReject, PostApprove, PostRotate, PutManagement} \<and>
         (\<exists>perm. route_permission r = Some perm \<and> may_call (en_dig en) now d perm True rq))"
    unfolding access_routes_def [symmetric] by (rule some_breaking_request) (rule server_request_access)
qed

section \<open>A concrete run\<close>

definition sample_server :: server_env where
  "sample_server = \<lparr>en_dig = sample_digest, en_trusted = [], en_seal = (\<lambda>i g b. Inl (Err ''sealed'')),
     en_openBundle = (\<lambda>i g n c. Inl (Err ''opened'')), en_tokenDigest = (\<lambda>t. Inl (Err ''token'')),
     en_openValue = (\<lambda>p s. Inl (Err ''opened'')), en_linkText = (\<lambda>l. ''''), en_standard = (\<lambda>s. s),
     en_encode = (\<lambda>j. ''''), en_product = (\<lambda>k. k)\<rparr>"

text \<open>Administrator 7, who may not manage roles, asks to remove administrator 9: nothing changes.\<close>

lemma web_runs_controlled_witness:
  "let w = ((sample_session_db, []), [], sample_limiter, (sample_vpn_db, []));
       w' = server_run sample_server failing_services sample_decoders [(hour, DeleteAdministrator, sample_request)] w
   in roles_inv (auth_tables w') \<and> administrators (auth_tables w') = administrators (auth_tables w)"
proof -
  define w :: web_state where "w = ((sample_session_db, []), [], sample_limiter, (sample_vpn_db, []))"
  define w' where "w' = server_run sample_server failing_services sample_decoders
    [(hour, DeleteAdministrator, sample_request)] w"
  have "without_bot [(hour, DeleteAdministrator, sample_request)]" by (simp add: without_bot_def bot_routes_def)
  note controlled = web_runs_controlled [OF this w'_def]
  have "roles_inv (auth_tables w)" unfolding w_def by code_simp
  with controlled have "roles_inv (auth_tables w')" by blast
  moreover have "\<not> may_call sample_digest hour sample_session_db ManageRoles True sample_request" by code_simp
  then have "\<not> some_request sample_server failing_services sample_decoders [(hour, DeleteAdministrator, sample_request)] w
      (\<lambda>now r rq d. r \<in> {PostRole, DeleteAdministrator} \<and> may_call (en_dig sample_server) now d ManageRoles True rq)"
    by (auto simp: some_request_def sample_server_def w_def Cons_eq_append_conv)
  with controlled have "administrators (auth_tables w') = administrators (auth_tables w)" by blast
  ultimately show ?thesis unfolding w_def [symmetric] w'_def [symmetric] Let_def by (simp add: w'_def)
qed

end
