(* ===== verification/Quota_Sweep.thy ===== *)
theory Quota_Sweep
  imports Vpn_System
begin

text \<open>
  The sweep of due quota periods as a loop (\<open>internal/quotasweep/scheduler.go\<close>): once a minute it
  advances at most a thousand due windows. The theorem says that it keeps up.
\<close>

section \<open>The loop\<close>

abbreviation sweepInterval :: duration where "sweepInterval \<equiv> minute"
abbreviation sweepBatch :: int where "sweepBatch \<equiv> 1000"

text \<open>
  \<open>Run\<close>: the result of a sweep is dropped; the loop ends when the wait does, quietly if the context
  was cancelled. \<open>None\<close>: still running after that many rounds.
\<close>

fun run_sweeper ::
    "nat \<Rightarrow> (go_time \<Rightarrow> int \<Rightarrow> ('w, int \<times> int) call) \<Rightarrow> ('w \<Rightarrow> go_time) \<Rightarrow> ('w \<Rightarrow> bool)
       \<Rightarrow> (duration \<Rightarrow> ('w, unit) call) \<Rightarrow> 'w \<Rightarrow> (go_error + unit) option \<times> 'w" where
  "run_sweeper 0 sweep now cancelled wait w = (None, w)"
| "run_sweeper (Suc n) sweep now cancelled wait w =
     (case wait sweepInterval (snd (sweep (now w) sweepBatch w)) of
        (Inl e, w2) \<Rightarrow> (Some (if errors_is e ''context canceled'' \<or> cancelled w2 then Inr () else Inl e), w2)
      | (Inr _, w2) \<Rightarrow> run_sweeper n sweep now cancelled wait w2)"

section \<open>One sweep\<close>

definition overdue :: "go_time \<Rightarrow> vpn_db \<Rightarrow> (int \<times> quota_row) list" where
  "overdue t d = filter (\<lambda>(i, q). qr_period_started_at q + period_length q \<le> t) (quota_windows d)"

definition uniform_periods :: "duration \<Rightarrow> vpn_db \<Rightarrow> bool" where
  "uniform_periods p d \<longleftrightarrow> 0 < p \<and> distinct (map fst (quota_windows d)) \<and>
     (\<forall>(i, q) \<in> set (quota_windows d). period_length q = p)"

lemma advance_quota_row_ends:
  "0 < period_length q \<Longrightarrow> now < qr_period_started_at (advance_quota_row now q) + period_length q"
proof -
  assume p: "0 < period_length q"
  have "(now - qr_period_started_at q) div period_length q * period_length q =
      (now - qr_period_started_at q) - (now - qr_period_started_at q) mod period_length q"
    by (simp add: minus_mod_eq_div_mult)
  moreover have "(now - qr_period_started_at q) mod period_length q < period_length q" using p by simp
  ultimately show ?thesis by (simp add: advance_quota_row_def)
qed

lemma advance_quota_row_period [simp]: "period_length (advance_quota_row now q) = period_length q"
  by (simp add: advance_quota_row_def period_length_def)

text \<open>In a sorted list what lies below a bound comes first.\<close>

lemma filter_take_sorted:
  assumes "sorted (map f xs)" and "\<And>x y. f x \<le> f y \<Longrightarrow> Q y \<Longrightarrow> Q x"
  shows "length (filter Q (take n xs)) = min n (length (filter Q xs))"
proof -
  have ys: "filter Q xs = takeWhile Q xs \<and> filter Q (dropWhile Q xs) = []"
    using assms(1)
  proof (induction xs)
    case (Cons x xs)
    show ?case
    proof (cases "Q x")
      case False
      with Cons.prems assms(2) have "\<forall>y \<in> set xs. \<not> Q y" by auto
      with False show ?thesis by (simp add: filter_empty_conv)
    qed (use Cons in simp)
  qed simp
  have "filter Q (take n xs) = filter Q (take n (takeWhile Q xs @ dropWhile Q xs))" by simp
  also have "\<dots> = filter Q (take n (takeWhile Q xs)) @ filter Q (take (n - length (takeWhile Q xs)) (dropWhile Q xs))"
    by (simp only: take_append filter_append)
  also have "filter Q (take (n - length (takeWhile Q xs)) (dropWhile Q xs)) = []"
    using ys by (auto simp: filter_empty_conv dest: in_set_takeD)
  also have "filter Q (take n (takeWhile Q xs)) = take n (takeWhile Q xs)"
    by (auto simp: filter_id_conv dest: in_set_takeD set_takeWhileD)
  finally show ?thesis using ys by (simp add: min.commute)
qed

lemma sweep_statement_windows:
  "sweep_statement now limit d = (Inr x, d') \<Longrightarrow>
     quota_windows d' = map (\<lambda>(i, q). (i, if i \<in> fst ` set (due_windows now limit d) then advance_quota_row now q else q))
       (quota_windows d)"
  by (auto simp: sweep_statement_def Let_def)

lemma sweep_uniform:
  assumes "sweep_statement now limit d = (Inr x, d')" "uniform_periods p d"
  shows "uniform_periods p d'"
proof -
  have "map fst (quota_windows d') = map fst (quota_windows d)"
    by (simp add: sweep_statement_windows [OF assms(1)] case_prod_unfold comp_def)
  moreover have "period_length q = p" if "(i, q) \<in> set (quota_windows d')" for i q
    using that assms(2) by (auto simp: uniform_periods_def sweep_statement_windows [OF assms(1)])
  ultimately show ?thesis using assms(2) unfolding uniform_periods_def by auto
qed

text \<open>A sweep at \<open>now\<close> takes up to \<open>limit\<close> of the windows that were due at an earlier \<open>t\<close>.\<close>

lemma sweep_overdue:
  assumes sw: "sweep_statement now limit d = (Inr x, d')" and u: "uniform_periods p d" and t: "t \<le> now"
  shows "length (overdue t d') = length (overdue t d) - limit"
proof -
  let ?due = "due_windows now limit d"
  let ?Q = "\<lambda>(i, q). qr_period_started_at q + period_length q \<le> t"
  let ?sorted = "sort_key (\<lambda>(i, q). (qr_period_started_at q, i))
       (filter (\<lambda>(i, q). qr_period_started_at q + period_length q \<le> now) (quota_windows d))"
  from u have p: "0 < p" and dist: "distinct (map fst (quota_windows d))"
    and per: "\<And>i q. (i, q) \<in> set (quota_windows d) \<Longrightarrow> period_length q = p"
    by (auto simp: uniform_periods_def)
  have due: "set ?due \<subseteq> set (quota_windows d)"
    using in_set_takeD by (fastforce simp: due_windows_def)
  have mem: "i \<in> fst ` set ?due \<longleftrightarrow> (i, q) \<in> set ?due" if "(i, q) \<in> set (quota_windows d)" for i q
    using due that dist by (force dest: eq_key_imp_eq_value)
  have "overdue t d' = filter (\<lambda>e. ?Q e \<and> e \<notin> set ?due) (quota_windows d)"
  proof -
    have "filter ?Q (map (\<lambda>(i, q). (i, if i \<in> fst ` set ?due then advance_quota_row now q else q)) ws) =
        filter (\<lambda>e. ?Q e \<and> e \<notin> set ?due) ws" if "set ws \<subseteq> set (quota_windows d)" for ws
      using that
    proof (induction ws)
      case (Cons e ws)
      obtain i q where e: "e = (i, q)" by (cases e)
      with Cons.prems have "(i, q) \<in> set (quota_windows d)" by simp
      with mem per p t advance_quota_row_ends [of q now] Cons e show ?case by auto
    qed simp
    then show ?thesis by (simp add: overdue_def sweep_statement_windows [OF sw])
  qed
  then have "length (overdue t d') + length (filter (\<lambda>e. ?Q e \<and> e \<in> set ?due) (quota_windows d)) = length (overdue t d)"
    using sum_length_filter_compl [of "\<lambda>e. e \<in> set ?due" "overdue t d"]
    by (simp add: overdue_def conj_commute add.commute)
  moreover have "length (filter (\<lambda>e. ?Q e \<and> e \<in> set ?due) (quota_windows d)) = length (filter ?Q ?due)"
  proof -
    have "distinct ?due" "distinct (quota_windows d)" using dist by (simp_all add: due_windows_def distinct_map)
    then have "length (filter (\<lambda>e. ?Q e \<and> e \<in> set ?due) (quota_windows d)) = card (set ?due \<inter> {e. ?Q e})"
      "length (filter ?Q ?due) = card (set ?due \<inter> {e. ?Q e})"
      using due by (auto simp: distinct_card [symmetric] intro!: arg_cong [where f = card])
    then show ?thesis by simp
  qed
  moreover have "length (filter ?Q ?due) = min limit (length (filter ?Q ?sorted))"
  proof -
    have "length (filter (\<lambda>(i, q). qr_period_started_at q \<le> t - p) (take limit ?sorted)) =
        min limit (length (filter (\<lambda>(i, q). qr_period_started_at q \<le> t - p) ?sorted))"
      by (rule filter_take_sorted [where f = "\<lambda>(i, q). (qr_period_started_at q, i)"]) (auto simp: sorted_sort_key)
    moreover have "filter ?Q ws = filter (\<lambda>(i, q). qr_period_started_at q \<le> t - p) ws"
      if "set ws \<subseteq> set (quota_windows d)" for ws
      using that per by (intro filter_cong) fastforce+
    ultimately show ?thesis using due by (simp add: due_windows_def)
  qed
  moreover have "length (filter ?Q ?sorted) = length (overdue t d)"
  proof -
    have "mset (filter ?Q ?sorted) =
        mset (filter ?Q (filter (\<lambda>(i, q). qr_period_started_at q + period_length q \<le> now) (quota_windows d)))"
      by (simp only: mset_filter mset_sort)
    moreover have "filter ?Q (filter (\<lambda>(i, q). qr_period_started_at q + period_length q \<le> now) (quota_windows d)) = overdue t d"
      unfolding overdue_def filter_filter using t by (intro filter_cong refl) auto
    ultimately have "size (mset (filter ?Q ?sorted)) = size (mset (overdue t d))" by (simp only:)
    then show ?thesis by (simp only: size_mset)
  qed
  ultimately show ?thesis by linarith
qed

section \<open>The sweep keeps up\<close>

text \<open>
  The loop on the stored windows: the clock and the wait act on a state of their own.
\<close>

definition swept_store :: "go_time \<Rightarrow> int \<Rightarrow> ((vpn_db \<times> faults) \<times> 'x, int \<times> int) call" where
  "swept_store now limit = with_tables (advance_due_quota_periods now limit)"

lemma sweep_fault_free:
  assumes "now \<noteq> 0"
  shows "\<exists>r d'. swept_store now sweepBatch ((d, []), x) = (r, ((d', []), x)) \<and>
    (\<exists>y. sweep_statement now 1000 d = (Inr y, d'))"
  using assms
  by (simp add: swept_store_def with_tables_def advance_due_quota_periods_def run_in_transaction_def wrapping_def
      statement_def next_fault_def sweep_statement_def Let_def)

text \<open>
  C36. The quota sweep keeps up. Let all quota windows have the same period, as the schema makes
  them. While the database answers, the clock does not go behind \<open>t\<close> and the wait is not cut
  short, every minute a thousand of the windows that were due at \<open>t\<close> are advanced, oldest first,
  however many others become due meanwhile: after \<open>n\<close> rounds at most \<open>N - 1000 n\<close> of the \<open>N\<close> windows
  due at \<open>t\<close> are left, so with \<open>N\<close> up to \<open>1000 n\<close> none is.
\<close>

theorem quota_sweep_keeps_up:
  assumes "uniform_periods p d" and "\<And>x. t \<le> clock x \<and> clock x \<noteq> 0"
    and "\<And>x. \<exists>x1. wait sweepInterval x = (Inr (), x1)"
    and "run_sweeper n swept_store (\<lambda>w. clock (snd w)) cancelled (\<lambda>d. with_world (wait d)) ((d, []), x) =
      (res, ((d', fs'), x'))"
  shows "res = None \<and> fs' = [] \<and> length (overdue t d') = length (overdue t d) - 1000 * n"
  using assms(1,4)
proof (induction n arbitrary: d x)
  case 0
  then show ?case by simp
next
  case (Suc n)
  from sweep_fault_free [of "clock x" d x] assms(2) obtain r d1 y where
    sw: "swept_store (clock x) sweepBatch ((d, []), x) = (r, ((d1, []), x))"
    and st: "sweep_statement (clock x) 1000 d = (Inr y, d1)" by blast
  obtain x1 where "wait sweepInterval x = (Inr (), x1)" using assms(3) by blast
  then have "with_world (wait sweepInterval) ((d1, [] :: faults), x) = (Inr (), ((d1, []), x1))"
    by (simp add: with_world_def)
  with Suc.prems(2) sw have rest: "run_sweeper n swept_store (\<lambda>w. clock (snd w)) cancelled (\<lambda>d. with_world (wait d)) ((d1, []), x1) =
      (res, ((d', fs'), x'))"
    by simp
  from Suc.IH [OF sweep_uniform [OF st Suc.prems(1)] rest] sweep_overdue [OF st Suc.prems(1)] assms(2)
  show ?case by simp
qed

lemma quota_sweep_keeps_up_witness:
  "length (overdue (2 * hour) sample_vpn_db) = 1 \<and>
   overdue (2 * hour) (fst (fst (snd (run_sweeper 1 swept_store (\<lambda>w. 3 * hour) (\<lambda>w. False)
     (\<lambda>d. with_world (\<lambda>x. (Inr (), x))) ((sample_vpn_db, []), ()))))) = []"
proof -
  have one: "length (overdue (2 * hour) sample_vpn_db) = 1" by code_simp
  have period: "uniform_periods hour sample_vpn_db" by code_simp
  obtain res d' fs' x' where run: "run_sweeper 1 swept_store (\<lambda>w. 3 * hour) (\<lambda>w. False)
     (\<lambda>d. with_world (\<lambda>x. (Inr (), x))) ((sample_vpn_db, []), ()) = (res, ((d', fs'), x'))" by (metis surj_pair)
  from quota_sweep_keeps_up [OF period _ _ run] one have "length (overdue (2 * hour) d') = 0" by simp
  with one show ?thesis unfolding run by simp
qed

end
