(* ===== verification/Atomic_Files.thy ===== *)
theory Atomic_Files
  imports File_Deployment Encoding Addresses
begin

text \<open>
  Files that are written beside their place and moved into it: the certificate files
  (\<open>internal/acme/file_installer.go\<close>) and, in \<open>Backups\<close>, the backup archives. A disk is a table of
  files by path; a system call that fails has done nothing.
\<close>

section \<open>The disk\<close>

record disk_file =
  df_regular :: bool
  df_mode :: nat
  df_written :: go_time
  df_content :: "byte list"

type_synonym disk = "(string list \<times> disk_file) list"

type_synonym disk_state = "disk \<times> faults"

text \<open>\<open>os.CreateTemp\<close> with text before and after the star of its pattern.\<close>

definition temporary_name :: "string \<Rightarrow> string \<Rightarrow> disk \<Rightarrow> string" where
  "temporary_name pre suf d = unused_name pre (map fst d) @ suf"

definition open_temporary :: "string list \<Rightarrow> string \<Rightarrow> string \<Rightarrow> go_time \<Rightarrow> (disk, string list) call" where
  "open_temporary directory pre suf now d =
     (let p = directory @ [temporary_name pre suf d]
      in (Inr p, (p, \<lparr>df_regular = True, df_mode = 384, df_written = now, df_content = []\<rparr>) # d))"

definition on_file :: "string list \<Rightarrow> (disk_file \<Rightarrow> disk_file) \<Rightarrow> (disk, unit) call" where
  "on_file p f d =
     (case map_of d p of
        None \<Rightarrow> (Inl ErrNotExist, d)
      | Some x \<Rightarrow> (Inr (), (p, f x) # without p d))"

definition move_file :: "string list \<Rightarrow> string list \<Rightarrow> (disk, unit) call" where
  "move_file old new d =
     (case map_of d old of
        None \<Rightarrow> (Inl ErrNotExist, d)
      | Some x \<Rightarrow> (Inr (), (new, x) # without new (without old d)))"

definition unlink_file :: "string list \<Rightarrow> (disk, unit) call" where
  "unlink_file p d = (case map_of d p of None \<Rightarrow> (Inl ErrNotExist, d) | Some _ \<Rightarrow> (Inr (), without p d))"

text \<open>The error of a call, told in other words.\<close>

definition retelling :: "(go_error \<Rightarrow> go_error) \<Rightarrow> ('s, 'a) call \<Rightarrow> ('s, 'a) call" where
  "retelling f m s = (case m s of (Inl e, s1) \<Rightarrow> (Inl (f e), s1) | (Inr x, s1) \<Rightarrow> (Inr x, s1))"

section \<open>Writing atomically\<close>

text \<open>
  What both writers do: a temporary file in the directory of the target gets its mode and its
  content, is synced, closed and renamed; \<open>after\<close> follows. Whatever happens the temporary name is
  removed at the end. \<open>tell\<close> makes the error of each step.
\<close>

definition fill_and_move ::
    "(string \<Rightarrow> go_error \<Rightarrow> go_error) \<Rightarrow> string list \<Rightarrow> string list \<Rightarrow> nat \<Rightarrow> byte list \<Rightarrow> go_time
       \<Rightarrow> (disk_state, unit) call \<Rightarrow> (disk_state, unit) call" where
  "fill_and_move tell temporary target mode content now after =
     and_then (retelling (tell ''secure'') (syscall (on_file temporary (\<lambda>x. x\<lparr>df_mode := mode\<rparr>)))) (\<lambda>_.
     and_then (retelling (tell ''write'')
       (syscall (on_file temporary (\<lambda>x. x\<lparr>df_content := content, df_written := now\<rparr>)))) (\<lambda>_.
     and_then (retelling (tell ''sync'') (syscall (ok ()))) (\<lambda>_.
     and_then (retelling (tell ''close'') (syscall (ok ()))) (\<lambda>_.
     and_then (retelling (tell ''rename'') (syscall (move_file temporary target))) (\<lambda>_. after)))))"

definition write_beside ::
    "(string \<Rightarrow> go_error \<Rightarrow> go_error) \<Rightarrow> string \<Rightarrow> string \<Rightarrow> string list \<Rightarrow> nat \<Rightarrow> byte list \<Rightarrow> go_time
       \<Rightarrow> (disk_state, unit) call \<Rightarrow> (disk_state, unit) call" where
  "write_beside tell pre suf target mode content now after st =
     (case retelling (tell ''create'') (syscall (open_temporary (butlast target) pre suf now)) st of
        (Inl e, st1) \<Rightarrow> (Inl e, st1)
      | (Inr temporary, st1) \<Rightarrow>
          (let (r, st2) = fill_and_move tell temporary target mode content now after st1
           in (r, ignoring (syscall (unlink_file temporary)) st2)))"

section \<open>The certificate files\<close>

text \<open>The root directory has no name to make a pattern of.\<close>

definition write_file_atomically :: "string list \<Rightarrow> byte list \<Rightarrow> nat \<Rightarrow> go_time \<Rightarrow> (disk_state, unit) call" where
  "write_file_atomically target contents mode now =
     (if target = [] then fail_with (Err ''pattern contains path separator'')
      else write_beside (\<lambda>step e. e) (last target @ ''.tmp-'') '''' target mode contents now (ok ()))"

text \<open>\<open>strings\<close> and \<open>bytes\<close> on PEM text; \<open>looksLikePEM\<close>.\<close>

definition holds_text :: "string \<Rightarrow> string \<Rightarrow> bool" where
  "holds_text part s \<longleftrightarrow> list_ex (\<lambda>n. prefix part (drop n s)) [0..<Suc (length s)]"

definition looks_like_pem :: "string \<Rightarrow> string \<Rightarrow> bool" where
  "looks_like_pem material blockType \<longleftrightarrow>
     holds_text (''-----BEGIN '' @ blockType) material \<and> holds_text (''-----END '' @ blockType) material \<and>
     \<not> blank material"

record file_installer =
  fn_certPath :: "string list"
  fn_keyPath :: "string list"

definition safe_file_target :: "string \<Rightarrow> bool" where
  "safe_file_target path \<longleftrightarrow> path \<noteq> '''' \<and> is_abs path \<and> path_text (cleaned path) = path"

definition new_file_installer :: "string \<Rightarrow> string \<Rightarrow> go_error + file_installer" where
  "new_file_installer certPath keyPath =
     (if \<not> safe_file_target certPath \<or> \<not> safe_file_target keyPath
      then Inl (Err ''certificate paths must be absolute and clean'')
      else if cleaned certPath = cleaned keyPath then Inl (Err ''certificate and key paths must differ'')
      else Inr \<lparr>fn_certPath = cleaned certPath, fn_keyPath = cleaned keyPath\<rparr>)"

definition text_bytes :: "string \<Rightarrow> byte list" where
  "text_bytes s = map of_char s"

definition install_certificate_files ::
    "file_installer \<Rightarrow> string \<Rightarrow> string \<Rightarrow> go_time \<Rightarrow> (disk_state, unit) call" where
  "install_certificate_files fn certificatePEM privateKeyPEM now =
     (if \<not> looks_like_pem certificatePEM ''CERTIFICATE'' \<or> \<not> looks_like_pem privateKeyPEM ''PRIVATE KEY''
      then fail_with (Err ''certificate material is invalid'')
      else
        and_then (wrapping ''install certificate chain''
          (write_file_atomically (fn_certPath fn) (text_bytes certificatePEM) 420 now)) (\<lambda>_.
        wrapping ''install private key''
          (write_file_atomically (fn_keyPath fn) (text_bytes privateKeyPEM) 384 now)))"

section \<open>What a write does to the disk\<close>

lemmas map_of_without_simp [simp] = map_of_without

lemma temporary_fresh:
  "map_of d (directory @ [temporary_name pre suf d]) = None"
proof -
  have "x \<in> set used \<Longrightarrow> length (concat x) \<le> length (concat (concat used))" for x :: "string list" and used
    by (induction used) auto
  moreover have "length (concat (concat (map fst d))) < length (concat (directory @ [temporary_name pre suf d]))"
    by (simp add: temporary_name_def unused_name_def)
  ultimately have "directory @ [temporary_name pre suf d] \<notin> set (map fst d)" by (metis not_less)
  then show ?thesis by (simp add: map_of_eq_None_iff)
qed

lemma retelling_cases:
  assumes "retelling f m s = (r, s1)"
  obtains e where "m s = (Inl e, s1)" "r = Inl (f e)" | x where "m s = (Inr x, s1)" "r = Inr x"
  using assms by (auto simp: retelling_def split: prod.splits sum.splits)

definition new_file :: "nat \<Rightarrow> go_time \<Rightarrow> byte list \<Rightarrow> disk_file" where
  "new_file mode now content = \<lparr>df_regular = True, df_mode = mode, df_written = now, df_content = content\<rparr>"

text \<open>Besides the temporary file only the target can differ, and then has the new content in full.\<close>

definition written :: "string list \<Rightarrow> string list \<Rightarrow> disk_file \<Rightarrow> disk \<Rightarrow> disk \<Rightarrow> bool" where
  "written temporary target file d d' \<longleftrightarrow>
     (\<forall>p. p \<noteq> temporary \<longrightarrow> p \<noteq> target \<longrightarrow> map_of d' p = map_of d p) \<and>
     (map_of d' target = map_of d target \<or> map_of d' target = Some file)"

lemma file_step:
  assumes "retelling f (syscall (on_file p g)) s = (r, s')" and "map_of (fst s) p = Some x"
  shows "(r = Inr () \<and> fst s' = (p, g x) # without p (fst s)) \<or> ((\<exists>e. r = Inl e) \<and> fst s' = fst s)"
  using assms by (auto elim!: retelling_cases dest!: syscall_outcome simp: on_file_def)

lemma quiet_step:
  assumes "retelling f (syscall (ok ())) s = (r, s')"
  shows "fst s' = fst s"
  using assms by (auto elim!: retelling_cases dest!: syscall_outcome)

lemma move_step:
  assumes "retelling f (syscall (move_file p q)) s = (r, s')" and "map_of (fst s) p = Some x"
  shows "(r = Inr () \<and> fst s' = (q, x) # without q (without p (fst s))) \<or> ((\<exists>e. r = Inl e) \<and> fst s' = fst s)"
  using assms by (auto elim!: retelling_cases dest!: syscall_outcome simp: move_file_def)

lemma fill_and_move_written:
  assumes "fill_and_move tell temporary target mode content now after s = (r, s')"
    and "map_of (fst s) temporary = Some x" "df_regular x" "temporary \<noteq> target"
    and after: "\<And>s r s'. after s = (r, s') \<Longrightarrow> fst s' = fst s"
  shows "written temporary target (new_file mode now content) (fst s) (fst s') \<and>
    (is_ok r \<longrightarrow> map_of (fst s') target = Some (new_file mode now content)) \<and>
    ((\<forall>s. is_ok (fst (after s))) \<longrightarrow> \<not> is_ok r \<longrightarrow> map_of (fst s') target = map_of (fst s) target)"
proof -
  obtain r1 s1 where 1: "retelling (tell ''secure'') (syscall (on_file temporary (\<lambda>x. x\<lparr>df_mode := mode\<rparr>))) s = (r1, s1)"
    by (metis surj_pair)
  from file_step [OF 1 assms(2)] consider "r = r1" "\<not> is_ok r" "fst s' = fst s"
    | "r1 = Inr ()" "fst s1 = (temporary, x\<lparr>df_mode := mode\<rparr>) # without temporary (fst s)"
    using assms(1) 1 by (auto simp: fill_and_move_def and_then_def)
  then show ?thesis
  proof cases
    case 1
    then show ?thesis by (simp add: written_def)
  next
    case s1: 2
    obtain r2 s2 where 2: "retelling (tell ''write'') (syscall (on_file temporary
        (\<lambda>x. x\<lparr>df_content := content, df_written := now\<rparr>))) s1 = (r2, s2)" by (metis surj_pair)
    obtain r3 s3 where 3: "retelling (tell ''sync'') (syscall (ok ())) s2 = (r3, s3)" by (metis surj_pair)
    obtain r4 s4 where 4: "retelling (tell ''close'') (syscall (ok ())) s3 = (r4, s4)" by (metis surj_pair)
    obtain r5 s5 where 5: "retelling (tell ''rename'') (syscall (move_file temporary target)) s4 = (r5, s5)" by (metis surj_pair)
    have m1: "map_of (fst s1) temporary = Some (x\<lparr>df_mode := mode\<rparr>)" using s1(2) by simp
    have w1: "written temporary target (new_file mode now content) (fst s) (fst s1)"
      using s1(2) assms(4) by (simp add: written_def)
    from file_step [OF 2 m1] have s2: "(\<not> is_ok r2 \<and> fst s2 = fst s1) \<or>
        (r2 = Inr () \<and> fst s2 = (temporary, new_file mode now content) # without temporary (fst s1))"
      using assms(3) by (auto simp: new_file_def)
    show ?thesis
    proof (cases "is_ok r2 \<and> is_ok r3 \<and> is_ok r4 \<and> is_ok r5")
      case True
      with s2 have f2: "fst s2 = (temporary, new_file mode now content) # without temporary (fst s1)" by auto
      have "fst s4 = fst s2" using quiet_step [OF 3] quiet_step [OF 4] by simp
      with f2 have m4: "map_of (fst s4) temporary = Some (new_file mode now content)" by simp
      from move_step [OF 5 m4] True have "fst s5 = (target, new_file mode now content) # without target (without temporary (fst s4))"
        by auto
      moreover have "fst s' = fst s5"
        using assms(1) 1 2 3 4 5 s1(1) True after
        by (auto simp: fill_and_move_def and_then_def is_ok_iff)
      moreover have "is_ok r" if "\<forall>s. is_ok (fst (after s))"
        using assms(1) 1 2 3 4 5 s1(1) True that [rule_format, of s5]
        by (auto simp: fill_and_move_def and_then_def is_ok_iff)
      ultimately show ?thesis using \<open>fst s4 = fst s2\<close> f2 s1(2) assms(4) by (auto simp: written_def)
    next
      case False
      then have "\<not> is_ok r \<and> (fst s' = fst s1 \<or> fst s' = fst s2)"
        using assms(1) 1 2 3 4 5 s1(1) s2 quiet_step [OF 3] quiet_step [OF 4]
        by (auto simp: fill_and_move_def and_then_def is_ok_iff split: sum.splits
            elim!: retelling_cases dest!: syscall_outcome simp: move_file_def)
      with w1 s1(2) s2 assms(4) show ?thesis by (auto simp: written_def)
    qed
  qed
qed

lemma write_beside_written:
  assumes run: "write_beside tell pre suf target mode content now after s = (r, s')"
    and fresh: "butlast target @ [temporary_name pre suf (fst s)] \<noteq> target"
    and after: "\<And>s r s'. after s = (r, s') \<Longrightarrow> fst s' = fst s"
  shows "\<exists>temporary. map_of (fst s) temporary = None \<and>
      temporary = butlast target @ [temporary_name pre suf (fst s)] \<and>
      written temporary target (new_file mode now content) (fst s) (fst s')"
    and "is_ok r \<Longrightarrow> map_of (fst s') target = Some (new_file mode now content)"
    and "\<forall>s. is_ok (fst (after s)) \<Longrightarrow> \<not> is_ok r \<Longrightarrow> map_of (fst s') target = map_of (fst s) target"
proof -
  let ?temporary = "butlast target @ [temporary_name pre suf (fst s)]"
  obtain r1 s1 where 1: "retelling (tell ''create'') (syscall (open_temporary (butlast target) pre suf now)) s = (r1, s1)"
    by (metis surj_pair)
  have "(written ?temporary target (new_file mode now content) (fst s) (fst s')) \<and>
    (is_ok r \<longrightarrow> map_of (fst s') target = Some (new_file mode now content)) \<and>
    ((\<forall>s. is_ok (fst (after s))) \<longrightarrow> \<not> is_ok r \<longrightarrow> map_of (fst s') target = map_of (fst s) target)"
  proof (cases r1)
    case (Inl e)
    with 1 run have "r = Inl e" "s' = s1" by (simp_all add: write_beside_def)
    moreover have "fst s1 = fst s" using 1 Inl
      by (auto elim!: retelling_cases dest!: syscall_outcome simp: open_temporary_def Let_def)
    ultimately show ?thesis by (simp add: written_def)
  next
    case (Inr temporary)
    with 1 have t: "temporary = ?temporary"
      "fst s1 = (?temporary, \<lparr>df_regular = True, df_mode = 384, df_written = now, df_content = []\<rparr>) # fst s"
      by (auto elim!: retelling_cases dest!: syscall_Inr simp: open_temporary_def Let_def)
    obtain r2 s2 where 2: "fill_and_move tell temporary target mode content now after s1 = (r2, s2)" by (metis surj_pair)
    from fill_and_move_written [OF 2 _ _ _ after] fresh t have
      w: "written ?temporary target (new_file mode now content) (fst s1) (fst s2)"
        "is_ok r2 \<longrightarrow> map_of (fst s2) target = Some (new_file mode now content)"
        "(\<forall>s. is_ok (fst (after s))) \<longrightarrow> \<not> is_ok r2 \<longrightarrow> map_of (fst s2) target = map_of (fst s1) target"
      by auto
    obtain r3 s3 where 3: "syscall (unlink_file temporary) s2 = (r3, s3)" by (metis surj_pair)
    from run 1 Inr 2 3 have r: "r = r2" "s' = s3" by (simp_all add: write_beside_def ignoring_def Let_def)
    have "fst s3 = fst s2 \<or> fst s3 = without temporary (fst s2)"
      using syscall_outcome [OF 3] by (auto simp: unlink_file_def split: option.splits)
    then have "\<forall>p. p \<noteq> temporary \<longrightarrow> map_of (fst s3) p = map_of (fst s2) p" by auto
    with w r t fresh show ?thesis by (auto simp: written_def)
  qed
  then show "\<exists>temporary. map_of (fst s) temporary = None \<and> temporary = butlast target @ [temporary_name pre suf (fst s)] \<and>
      written temporary target (new_file mode now content) (fst s) (fst s')"
    and "is_ok r \<Longrightarrow> map_of (fst s') target = Some (new_file mode now content)"
    and "\<forall>s. is_ok (fst (after s)) \<Longrightarrow> \<not> is_ok r \<Longrightarrow> map_of (fst s') target = map_of (fst s) target"
    using temporary_fresh by auto
qed

section \<open>Installing a certificate\<close>

lemma write_atomically_written:
  assumes "write_file_atomically target contents mode now (d, fs) = (r, (d', fs'))" and "target \<noteq> []"
  shows "\<forall>p. map_of d p \<noteq> None \<or> \<not> prefix (last target @ ''.tmp-'') (last p) \<longrightarrow> p \<noteq> target \<longrightarrow> map_of d' p = map_of d p"
    and "map_of d' target = (if is_ok r then Some (new_file mode now contents) else map_of d target)"
proof -
  have run: "write_beside (\<lambda>step e. e) (last target @ ''.tmp-'') '''' target mode contents now (ok ()) (d, fs) = (r, (d', fs'))"
    using assms by (simp add: write_file_atomically_def)
  let ?temporary = "butlast target @ [temporary_name (last target @ ''.tmp-'') '''' d]"
  have "temporary_name (last target @ ''.tmp-'') '''' d \<noteq> last target"
    by (simp add: temporary_name_def unused_name_def)
  then have fresh: "butlast target @ [temporary_name (last target @ ''.tmp-'') '''' (fst (d, fs))] \<noteq> target"
    by (metis fst_conv last_snoc)
  have pre: "prefix (last target @ ''.tmp-'') (last ?temporary)" by (simp add: temporary_name_def unused_name_def)
  have "map_of d ?temporary = None \<and> written ?temporary target (new_file mode now contents) d d'"
    using write_beside_written(1) [OF run fresh] by simp
  then have "map_of d ?temporary = None" "\<forall>p. p \<noteq> ?temporary \<longrightarrow> p \<noteq> target \<longrightarrow> map_of d' p = map_of d p"
    unfolding written_def by blast+
  with pre show "\<forall>p. map_of d p \<noteq> None \<or> \<not> prefix (last target @ ''.tmp-'') (last p) \<longrightarrow> p \<noteq> target \<longrightarrow> map_of d' p = map_of d p"
    by metis
  have "is_ok r \<Longrightarrow> map_of d' target = Some (new_file mode now contents)"
    using write_beside_written(2) [OF run fresh] by simp
  moreover have "\<not> is_ok r \<Longrightarrow> map_of d' target = map_of d target"
    using write_beside_written(3) [OF run fresh] by simp
  ultimately show "map_of d' target = (if is_ok r then Some (new_file mode now contents) else map_of d target)"
    by simp
qed

text \<open>
  C40. What an installation of a certificate leaves behind, whatever system call fails: a success puts
  both files in place in full, with their modes; an invalid material or a failure of the chain
  leaves both as they were; but a failure of the key leaves the new chain beside the old key, which
  do not match, and nothing puts the old chain back. No other file that was there changes.
\<close>

theorem certificate_files_outcome:
  assumes "new_file_installer certPath keyPath = Inr fn" and "fn_certPath fn \<noteq> []" "fn_keyPath fn \<noteq> []"
    and named: "\<not> prefix (last (fn_certPath fn) @ ''.tmp-'') (last (fn_keyPath fn))"
    and run: "install_certificate_files fn certificate key now (d, fs) = (r, (d', fs'))"
  shows "(case r of
      Inr _ \<Rightarrow> map_of d' (fn_certPath fn) = Some (new_file 420 now (text_bytes certificate)) \<and>
        map_of d' (fn_keyPath fn) = Some (new_file 384 now (text_bytes key))
    | Inl e \<Rightarrow> map_of d' (fn_keyPath fn) = map_of d (fn_keyPath fn) \<and>
        map_of d' (fn_certPath fn) = (if \<exists>cause. e = Wrap ''install private key'' cause
          then Some (new_file 420 now (text_bytes certificate)) else map_of d (fn_certPath fn))) \<and>
    (\<forall>p. map_of d p \<noteq> None \<longrightarrow> p \<notin> {fn_certPath fn, fn_keyPath fn} \<longrightarrow> map_of d' p = map_of d p)"
proof -
  have paths: "fn_certPath fn \<noteq> fn_keyPath fn"
    using assms(1) by (auto simp: new_file_installer_def split: if_splits)
  show ?thesis
  proof (cases "looks_like_pem certificate ''CERTIFICATE'' \<and> looks_like_pem key ''PRIVATE KEY''")
    case False
    then have "install_certificate_files fn certificate key now (d, fs) = (Inl (Err ''certificate material is invalid''), (d, fs))"
      by (auto simp: install_certificate_files_def)
    with run show ?thesis by auto
  next
    case True
    obtain r1 d1 fs1 where 1: "write_file_atomically (fn_certPath fn) (text_bytes certificate) 420 now (d, fs) = (r1, (d1, fs1))"
      by (metis surj_pair)
    note w1 = write_atomically_written [OF 1 assms(2)]
    show ?thesis
    proof (cases r1)
      case (Inl e)
      with True 1 run have "r = Inl (Wrap ''install certificate chain'' e)" "d' = d1"
        by (simp_all add: install_certificate_files_def and_then_def wrapping_def)
      with w1 Inl named paths show ?thesis by auto
    next
      case (Inr u)
      obtain r2 d2 fs2 where 2: "write_file_atomically (fn_keyPath fn) (text_bytes key) 384 now (d1, fs1) = (r2, (d2, fs2))"
        by (metis surj_pair)
      note w2 = write_atomically_written [OF 2 assms(3)]
      from True 1 2 Inr run have r: "(r, (d', fs')) =
          (case r2 of Inl e \<Rightarrow> (Inl (Wrap ''install private key'' e), (d2, fs2)) | Inr x \<Rightarrow> (Inr x, (d2, fs2)))"
        by (simp add: install_certificate_files_def and_then_def wrapping_def)
      have chain: "map_of d1 (fn_certPath fn) = Some (new_file 420 now (text_bytes certificate))"
        "map_of d1 (fn_keyPath fn) = map_of d (fn_keyPath fn)"
        "\<forall>p. map_of d p \<noteq> None \<longrightarrow> p \<noteq> fn_certPath fn \<longrightarrow> map_of d1 p = map_of d p"
        using w1 Inr named paths by auto
      then have "map_of d2 (fn_certPath fn) = map_of d1 (fn_certPath fn)" using w2(1) paths by auto
      moreover have "\<forall>p. map_of d p \<noteq> None \<longrightarrow> p \<notin> {fn_certPath fn, fn_keyPath fn} \<longrightarrow> map_of d2 p = map_of d p"
        using chain(3) w2(1) by auto
      ultimately show ?thesis using r w2(2) chain by (cases r2) auto
    qed
  qed
qed

text \<open>The key's temporary file cannot be created: the new chain is in place, the key is the old one.\<close>

definition sample_pem :: "string \<Rightarrow> string" where
  "sample_pem kind = ''-----BEGIN '' @ kind @ ''-----END '' @ kind"

definition sample_disk :: disk where
  "sample_disk = [([''run'', ''tls'', ''fullchain.pem''], new_file 420 0 [1]), ([''run'', ''tls'', ''privkey.pem''], new_file 384 0 [2])]"

definition sample_installer :: file_installer where
  "sample_installer = \<lparr>fn_certPath = [''run'', ''tls'', ''fullchain.pem''], fn_keyPath = [''run'', ''tls'', ''privkey.pem'']\<rparr>"

definition sample_disk_faults :: faults where
  "sample_disk_faults = replicate 7 Fine @ [Lost ''no space left on device'']"

lemma certificate_files_outcome_witness:
  "let d' = fst (snd (install_certificate_files sample_installer (sample_pem ''CERTIFICATE'') (sample_pem ''PRIVATE KEY'') second
         (sample_disk, sample_disk_faults)))
   in map_of d' (fn_certPath sample_installer) = Some (new_file 420 second (text_bytes (sample_pem ''CERTIFICATE''))) \<and>
      map_of d' (fn_keyPath sample_installer) = Some (new_file 384 0 [2])"
proof -
  let ?run = "install_certificate_files sample_installer (sample_pem ''CERTIFICATE'') (sample_pem ''PRIVATE KEY'') second
         (sample_disk, sample_disk_faults)"
  have made: "new_file_installer ''/run/tls/fullchain.pem'' ''/run/tls/privkey.pem'' = Inr sample_installer" by code_simp
  have paths: "fn_certPath sample_installer \<noteq> []" "fn_keyPath sample_installer \<noteq> []"
    "\<not> prefix (last (fn_certPath sample_installer) @ ''.tmp-'') (last (fn_keyPath sample_installer))" by code_simp+
  have r: "fst ?run = Inl (Wrap ''install private key'' (Err ''no space left on device''))" by code_simp
  then obtain d' fs' where run: "?run = (Inl (Wrap ''install private key'' (Err ''no space left on device'')), (d', fs'))"
    by (metis prod.collapse)
  have "map_of sample_disk (fn_keyPath sample_installer) = Some (new_file 384 0 [2])" by code_simp
  with certificate_files_outcome [OF made paths run] show ?thesis unfolding run by simp
qed

end
