(* ===== verification/Backups.thy ===== *)
theory Backups
  imports Atomic_Files Bot_Settings "HOL-Library.List_Lexorder" "HOL-Library.Char_ord"
begin

text \<open>
  Backups and their restoration (\<open>cmd/backup/main.go\<close>, \<open>cmd/restore/main.go\<close>,
  \<open>internal/backup/archive.go\<close>). The output of \<open>pg_dump\<close>, the cipher and the clock are parameters; what
  the restoration hands to \<open>pg_restore\<close> is its result.
\<close>

section \<open>Archives\<close>

text \<open>AES-GCM with its nonces of 12 bytes and tags of 16; the header is always the additional data.\<close>

record aead =
  ae_Seal :: "byte list \<Rightarrow> byte list \<Rightarrow> byte list"
  ae_Open :: "byte list \<Rightarrow> byte list \<Rightarrow> byte list option"

abbreviation nonceSize :: nat where "nonceSize \<equiv> 12"
abbreviation tagSize :: nat where "tagSize \<equiv> 16"

definition archiveHeader :: "byte list" where
  "archiveHeader = text_bytes ''S12RYT-BACKUP'' @ [0, 1]"

definition seal_archive :: "aead \<Rightarrow> byte list \<Rightarrow> (byte list, byte list) call" where
  "seal_archive ae plaintext src =
     (if plaintext = [] then (Inl (Err ''backup plaintext is empty''), src)
      else case read_full nonceSize src of
        (Inl e, src1) \<Rightarrow> (Inl (Err ''generate backup nonce''), src1)
      | (Inr nonce, src1) \<Rightarrow> (Inr (archiveHeader @ nonce @ ae_Seal ae nonce plaintext), src1))"

text \<open>\<open>equalBytes\<close>: the differences of all bytes, gathered with \<open>OR\<close>.\<close>

definition equal_bytes :: "byte list \<Rightarrow> byte list \<Rightarrow> bool" where
  "equal_bytes left right \<longleftrightarrow> length left = length right \<and>
     foldl (\<lambda>different (l, r). Bit_Operations.or different (Bit_Operations.xor l r)) 0 (zip left right) = 0"

definition open_archive :: "aead \<Rightarrow> byte list \<Rightarrow> go_error + byte list" where
  "open_archive ae sealed =
     (let prefixSize = length archiveHeader + nonceSize in
      if length sealed < prefixSize + tagSize \<or> \<not> equal_bytes (take (length archiveHeader) sealed) archiveHeader
      then Inl (Err ''backup archive is invalid'')
      else case ae_Open ae (take nonceSize (drop (length archiveHeader) sealed)) (drop prefixSize sealed) of
        None \<Rightarrow> Inl (Err ''backup archive authentication failed'')
      | Some plaintext \<Rightarrow> if plaintext = [] then Inl (Err ''backup archive is empty'') else Inr plaintext)"

section \<open>One backup\<close>

abbreviation maxDumpBytes :: nat where "maxDumpBytes \<equiv> 536870912"

text \<open>\<open>limitedWriter\<close> under the pieces that \<open>pg_dump\<close> writes.\<close>

fun limited_writes :: "nat \<Rightarrow> byte list list \<Rightarrow> byte list option" where
  "limited_writes remaining [] = Some []"
| "limited_writes remaining (piece # pieces) =
     (if remaining < length piece then None
      else map_option (\<lambda>rest. piece @ rest) (limited_writes (remaining - length piece) pieces))"

definition run_dump :: "byte list list \<Rightarrow> bool \<Rightarrow> go_error + byte list" where
  "run_dump pieces succeeded =
     (case limited_writes maxDumpBytes pieces of
        None \<Rightarrow> Inl (Err ''pg_dump failed'')
      | Some dump \<Rightarrow> if succeeded then Inr dump else Inl (Err ''pg_dump failed''))"

fun backup_step_error :: "string \<Rightarrow> go_error \<Rightarrow> go_error" where
  "backup_step_error step e = Err
     (if step = ''create'' then ''create backup temporary file''
      else if step = ''secure'' then ''secure backup temporary file''
      else if step = ''write'' then ''write backup archive''
      else if step = ''sync'' then ''sync backup archive''
      else if step = ''close'' then ''close backup archive''
      else if step = ''rename'' then ''promote backup archive''
      else if step = ''open'' then ''open backup directory''
      else ''sync backup directory'')"

definition sync_backup_directory :: "(disk_state, unit) call" where
  "sync_backup_directory =
     and_then (retelling (backup_step_error ''open'') (syscall (ok ()))) (\<lambda>_.
     retelling (backup_step_error ''sync directory'') (syscall (ok ())))"

definition atomic_write :: "string list \<Rightarrow> byte list \<Rightarrow> go_time \<Rightarrow> (disk_state, unit) call" where
  "atomic_write target content now =
     write_beside backup_step_error ''.backup-'' ''.tmp'' target 384 content now sync_backup_directory"

text \<open>The names that the pattern \<open>vpn-*.dump.enc\<close> matches.\<close>

definition archive_name :: "string \<Rightarrow> bool" where
  "archive_name name \<longleftrightarrow> prefix ''vpn-'' name \<and> suffix ''.dump.enc'' name \<and> 13 \<le> length name"

definition archives_in :: "string list \<Rightarrow> disk \<Rightarrow> string list list" where
  "archives_in directory d =
     sort (filter (\<lambda>p. p \<noteq> [] \<and> butlast p = directory \<and> archive_name (last p)) (map fst d))"

definition inspect_file :: "string list \<Rightarrow> (disk, disk_file) call" where
  "inspect_file p d = (case map_of d p of None \<Rightarrow> Inl ErrNotExist | Some x \<Rightarrow> Inr x, d)"

fun prune_entries :: "go_time \<Rightarrow> string list list \<Rightarrow> (disk_state, unit) call" where
  "prune_entries cutoff [] = ok ()"
| "prune_entries cutoff (p # ps) =
     and_then (retelling (\<lambda>e. Err ''inspect backup archive'') (syscall (inspect_file p))) (\<lambda>info.
     if df_regular info \<and> df_written info < cutoff
     then and_then (retelling (\<lambda>e. Err ''remove expired backup archive'') (syscall (unlink_file p))) (\<lambda>_. prune_entries cutoff ps)
     else prune_entries cutoff ps)"

definition prune_archives :: "string list \<Rightarrow> int \<Rightarrow> go_time \<Rightarrow> (disk_state, unit) call" where
  "prune_archives directory retentionDays now st =
     prune_entries (now - retentionDays * (24 * hour)) (archives_in directory (fst st)) st"

definition create_backup ::
    "aead \<Rightarrow> (go_time \<Rightarrow> string) \<Rightarrow> byte list list \<Rightarrow> bool \<Rightarrow> string list \<Rightarrow> int \<Rightarrow> go_time
       \<Rightarrow> (disk_state \<times> byte list, unit) call" where
  "create_backup ae stamp pieces succeeded directory retention now st =
     (let (s, src) = st in
      case run_dump pieces succeeded of
        Inl e \<Rightarrow> (Inl e, st)
      | Inr dump \<Rightarrow>
     (case seal_archive ae dump src of
        (Inl e, src1) \<Rightarrow> (Inl e, (s, src1))
      | (Inr sealed, src1) \<Rightarrow>
          (let (r, s1) = and_then (atomic_write (directory @ [''vpn-'' @ stamp now @ ''.dump.enc'']) sealed now)
                 (\<lambda>_. if 0 < retention then prune_archives directory retention now else ok ()) s
           in (r, (s1, src1)))))"

text \<open>\<open>retentionForAttempt\<close>: without a valid setting there is no pruning.\<close>

definition retention_for_attempt :: "backup_db \<times> faults \<Rightarrow> (int \<times> bool) \<times> (backup_db \<times> faults)" where
  "retention_for_attempt st =
     (case get_backup st of (Inl e, st1) \<Rightarrow> ((0, False), st1) | (Inr days, st1) \<Rightarrow> ((days, True), st1))"

text \<open>One round of the service: the retention is read, then the backup is made; its error is only logged.\<close>

definition backup_attempt ::
    "aead \<Rightarrow> (go_time \<Rightarrow> string) \<Rightarrow> byte list list \<Rightarrow> bool \<Rightarrow> string list \<Rightarrow> go_time
       \<Rightarrow> (backup_db \<times> faults) \<times> disk_state \<times> byte list \<Rightarrow> (backup_db \<times> faults) \<times> disk_state \<times> byte list" where
  "backup_attempt ae stamp pieces succeeded directory now w =
     (let (b, st) = w; ((retention, enabled), b1) = retention_for_attempt b
      in (b1, snd (create_backup ae stamp pieces succeeded directory retention now st)))"

section \<open>Restoration\<close>

abbreviation maxArchiveBytes :: nat where "maxArchiveBytes \<equiv> 536870912"

definition restore_archive :: "aead \<Rightarrow> string \<Rightarrow> disk \<Rightarrow> go_error + byte list" where
  "restore_archive ae archivePath d =
     (if \<not> is_abs archivePath \<or> path_text (cleaned archivePath) \<noteq> archivePath
      then Inl (Err ''RESTORE_ARCHIVE must be a clean absolute path'')
      else case map_of d (cleaned archivePath) of
        None \<Rightarrow> Inl (Err ''open restore archive'')
      | Some x \<Rightarrow>
          let sealed = take (maxArchiveBytes + 1) (df_content x) in
          if maxArchiveBytes < length sealed then Inl (Err ''read restore archive'')
          else open_archive ae sealed)"

section \<open>Pruning\<close>

lemma prune_entries_effect:
  "prune_entries cutoff ps s = (r, s') \<Longrightarrow>
     map_of (fst s') p = map_of (fst s) p \<or>
     (map_of (fst s') p = None \<and> p \<in> set ps \<and>
      (\<exists>x. map_of (fst s) p = Some x \<and> df_regular x \<and> df_written x < cutoff))"
proof (induction cutoff ps arbitrary: s rule: prune_entries.induct)
  case (1 cutoff)
  then show ?case by simp
next
  case (2 cutoff q ps)
  obtain r1 s1 where look: "retelling (\<lambda>e. Err ''inspect backup archive'') (syscall (inspect_file q)) s = (r1, s1)"
    by (cases "retelling (\<lambda>e. Err ''inspect backup archive'') (syscall (inspect_file q)) s")
  have "fst s1 = fst s" if "syscall (inspect_file q) s = (r, s1)" for r
    using syscall_outcome [OF that] by (auto simp: inspect_file_def)
  with look have s1: "fst s1 = fst s" by (auto elim!: retelling_cases)
  show ?case
  proof (cases r1)
    case (Inl e)
    with 2(3) look s1 show ?thesis by (simp add: and_then_def)
  next
    case (Inr info)
    with look have x: "map_of (fst s) q = Some info"
      by (auto elim!: retelling_cases dest!: syscall_Inr simp: inspect_file_def split: option.splits)
    show ?thesis
    proof (cases "df_regular info \<and> df_written info < cutoff")
      case False
      with 2(3) look Inr have "prune_entries cutoff ps s1 = (r, s')" by (auto simp: and_then_def)
      from 2(2) [OF False this] s1 show ?thesis by auto
    next
      case True
      obtain r2 s2 where del: "retelling (\<lambda>e. Err ''remove expired backup archive'') (syscall (unlink_file q)) s1 = (r2, s2)"
        by (metis surj_pair)
      have s2: "fst s2 = fst s \<or> fst s2 = without q (fst s)"
        using del s1 by (auto elim!: retelling_cases dest!: syscall_outcome simp: unlink_file_def split: option.splits)
      show ?thesis
      proof (cases r2)
        case (Inl e)
        with 2(3) look Inr True del have "s' = s2" by (auto simp: and_then_def)
        with s2 x True show ?thesis by (auto split: if_splits)
      next
        case r2: (Inr u)
        with 2(3) look Inr True del have "prune_entries cutoff ps s2 = (r, s')" by (auto simp: and_then_def)
        from 2(1) [OF True this] s2 x True show ?thesis by (auto split: if_splits)
      qed
    qed
  qed
qed

lemma prune_effect:
  assumes "prune_archives directory days now s = (r, s')"
  shows "map_of (fst s') p = map_of (fst s) p \<or>
     (map_of (fst s') p = None \<and> butlast p = directory \<and> archive_name (last p) \<and>
      (\<exists>x. map_of (fst s) p = Some x \<and> df_regular x \<and> df_written x < now - days * (24 * hour)))"
  using prune_entries_effect [OF assms [unfolded prune_archives_def], of p] by (auto simp: archives_in_def)

section \<open>Archives open to what they were made of\<close>

definition authentic :: "aead \<Rightarrow> bool" where
  "authentic ae \<longleftrightarrow> (\<forall>nonce plaintext. length nonce = nonceSize \<longrightarrow>
     ae_Open ae nonce (ae_Seal ae nonce plaintext) = Some plaintext \<and>
     length (ae_Seal ae nonce plaintext) = length plaintext + tagSize)"

lemma archiveHeader_length [simp]: "length archiveHeader = 15"
  by (simp add: archiveHeader_def text_bytes_def)

lemma equal_bytes_refl [simp]: "equal_bytes bs bs"
proof -
  have "foldl (\<lambda>different (l, r). Bit_Operations.or different (Bit_Operations.xor l r)) 0 (zip bs bs) = 0"
    by (induction bs) simp_all
  then show ?thesis by (simp add: equal_bytes_def)
qed

lemma sealed_opens:
  assumes "authentic ae" and "seal_archive ae plaintext src = (Inr sealed, src')"
  shows "open_archive ae sealed = Inr plaintext" and "length sealed = length plaintext + 43" and "plaintext \<noteq> []"
proof -
  from assms(2) have ne: "plaintext \<noteq> []" by (auto simp: seal_archive_def)
  from assms(2) ne obtain nonce where nonce: "length nonce = nonceSize" "sealed = archiveHeader @ nonce @ ae_Seal ae nonce plaintext"
    by (auto simp: seal_archive_def read_full_def split: if_splits)
  with assms(1) have opened: "ae_Open ae nonce (ae_Seal ae nonce plaintext) = Some plaintext"
    and len: "length (ae_Seal ae nonce plaintext) = length plaintext + tagSize"
    by (simp_all add: authentic_def)
  show "length sealed = length plaintext + 43" using nonce len by simp
  show "open_archive ae sealed = Inr plaintext" using nonce len opened ne by (simp add: open_archive_def Let_def)
  show "plaintext \<noteq> []" by (rule ne)
qed

lemma limited_writes_Some:
  "limited_writes n pieces = Some bytes \<Longrightarrow> bytes = concat pieces \<and> length bytes \<le> n"
  by (induction pieces arbitrary: n bytes) (force split: if_splits)+

lemma atomic_write_outcome:
  assumes "atomic_write target content now s = (r, s')" and "\<not> prefix ''.backup-'' (last target)" "target \<noteq> []"
  shows "map_of (fst s) p \<noteq> None \<Longrightarrow> p \<noteq> target \<Longrightarrow> map_of (fst s') p = map_of (fst s) p"
    and "map_of (fst s') target = map_of (fst s) target \<or> map_of (fst s') target = Some (new_file 384 now content)"
    and "is_ok r \<Longrightarrow> map_of (fst s') target = Some (new_file 384 now content)"
proof -
  have "temporary_name ''.backup-'' ''.tmp'' (fst s) \<noteq> last target"
    using assms(2) unfolding temporary_name_def unused_name_def by (metis append.assoc prefixI)
  then have fresh: "butlast target @ [temporary_name ''.backup-'' ''.tmp'' (fst s)] \<noteq> target" by (metis last_snoc)
  have quiet: "sync_backup_directory s = (r, s') \<Longrightarrow> fst s' = fst s" for s r s'
    by (auto simp: sync_backup_directory_def elim!: and_thenE dest!: quiet_step)
  note run = assms(1) [unfolded atomic_write_def]
  show "map_of (fst s') p = map_of (fst s) p" if "map_of (fst s) p \<noteq> None" "p \<noteq> target"
    using write_beside_written(1) [OF run fresh] quiet that unfolding written_def by metis
  show "map_of (fst s') target = map_of (fst s) target \<or> map_of (fst s') target = Some (new_file 384 now content)"
    using write_beside_written(1) [OF run fresh] quiet unfolding written_def by metis
  show "is_ok r \<Longrightarrow> map_of (fst s') target = Some (new_file 384 now content)"
    using write_beside_written(2) [OF run fresh] quiet by metis
qed

section \<open>What a backup leaves on the disk\<close>

abbreviation archive_path :: "(go_time \<Rightarrow> string) \<Rightarrow> string list \<Rightarrow> go_time \<Rightarrow> string list" where
  "archive_path stamp directory now \<equiv> directory @ [''vpn-'' @ stamp now @ ''.dump.enc'']"

lemma create_backup_outcome:
  assumes "create_backup ae stamp pieces succeeded directory retention now ((d, fs), src) = (r, ((d', fs'), src'))"
  shows "(d' = d \<and> \<not> is_ok r) \<or>
    (\<exists>sealed d1 fs1 w. seal_archive ae (concat pieces) src = (Inr sealed, src') \<and> length (concat pieces) \<le> maxDumpBytes \<and>
       atomic_write (archive_path stamp directory now) sealed now (d, fs) = (w, (d1, fs1)) \<and>
       (if is_ok w \<and> 0 < retention then prune_archives directory retention now (d1, fs1) = (r, (d', fs'))
        else d' = d1 \<and> r = w))"
proof (cases "run_dump pieces succeeded")
  case (Inl e)
  with assms show ?thesis by (auto simp: create_backup_def)
next
  case (Inr dump)
  then have dump: "dump = concat pieces" "length (concat pieces) \<le> maxDumpBytes"
    by (auto simp: run_dump_def split: option.splits if_splits dest!: limited_writes_Some)
  obtain sr src1 where seal: "seal_archive ae dump src = (sr, src1)" by (cases "seal_archive ae dump src")
  show ?thesis
  proof (cases sr)
    case (Inl e)
    with Inr seal assms show ?thesis by (auto simp: create_backup_def)
  next
    case sealed: (Inr sealed)
    obtain w d1 fs1 where stored_as: "atomic_write (archive_path stamp directory now) sealed now (d, fs) = (w, (d1, fs1))"
      by (metis surj_pair)
    from Inr seal sealed stored_as assms have "src' = src1"
      "(if is_ok w \<and> 0 < retention then prune_archives directory retention now (d1, fs1) = (r, (d', fs')) else d' = d1 \<and> r = w)"
      by (cases w; auto simp: create_backup_def and_then_def split: prod.splits)+
    with dump seal sealed stored_as show ?thesis by blast
  qed
qed

lemma archive_path_facts:
  fixes stamp :: "go_time \<Rightarrow> string"
  shows "\<not> prefix ''.backup-'' (last (archive_path stamp directory now))" "archive_path stamp directory now \<noteq> []"
  by simp_all

text \<open>A fresh archive is younger than any cutoff.\<close>

lemma prune_keeps_fresh:
  assumes "prune_archives directory days now s = (r, s')" "map_of (fst s) p = Some (new_file 384 now content)" "0 < days"
  shows "map_of (fst s') p = Some (new_file 384 now content)"
proof -
  have "0 < days * (24 * hour)" using assms(3) by simp
  then have "\<not> df_written (new_file 384 now content) < now - days * (24 * hour)" by (simp add: new_file_def)
  with prune_effect [OF assms(1), of p] assms(2) show ?thesis by auto
qed

text \<open>
  C37. Every backup that reports success can be restored to exactly the bytes that \<open>pg_dump\<close> wrote, if
  it is small enough; but the two limits do not fit. A backup accepts a dump of up to 512 MiB,
  the archive is 43 bytes longer (header, nonce and tag), and the restoration refuses an archive
  of more than 512 MiB: a dump within 43 bytes of the limit is backed up with success and can
  never be restored. The cipher has to open what it sealed and to add its tag.
\<close>

theorem backup_restorable:
  assumes "authentic ae" and "list_all good_element (archive_path stamp directory now)"
    and "create_backup ae stamp pieces succeeded directory retention now ((d, fs), src) = (Inr (), ((d', fs'), src'))"
  shows "length (concat pieces) \<le> maxDumpBytes \<and>
    restore_archive ae (path_text (archive_path stamp directory now)) d' =
      (if length (concat pieces) + 43 \<le> maxArchiveBytes then Inr (concat pieces)
       else Inl (Err ''read restore archive''))"
proof -
  let ?p = "archive_path stamp directory now"
  from create_backup_outcome [OF assms(3)] obtain sealed d1 fs1 w where
      seal: "seal_archive ae (concat pieces) src = (Inr sealed, src')" and len: "length (concat pieces) \<le> maxDumpBytes"
    and stored_as: "atomic_write ?p sealed now (d, fs) = (w, (d1, fs1))"
    and rest: "if is_ok w \<and> 0 < retention then prune_archives directory retention now (d1, fs1) = (Inr (), (d', fs')) else d' = d1 \<and> Inr () = w"
    by auto
  have "is_ok w" using rest by (auto split: if_splits)
  with atomic_write_outcome(3) [OF stored_as archive_path_facts [of directory stamp now]] have "map_of d1 ?p = Some (new_file 384 now sealed)" by simp
  with rest prune_keeps_fresh [of directory retention now "(d1, fs1)" "Inr ()" "(d', fs')" ?p sealed] have
      stored: "map_of d' ?p = Some (new_file 384 now sealed)" by (auto split: if_splits)
  have path: "cleaned (path_text ?p) = ?p" using assms(2) by (rule cleaned_path_text)
  note unsealed = sealed_opens [OF assms(1) seal]
  show ?thesis
  proof (cases "length (concat pieces) + 43 \<le> maxArchiveBytes")
    case True
    with unsealed(2) have "length sealed \<le> maxArchiveBytes" by simp
    then have "take (maxArchiveBytes + 1) sealed = sealed" by simp
    with True unsealed stored path len show ?thesis by (simp add: restore_archive_def new_file_def Let_def)
  next
    case False
    with unsealed(2) have "maxArchiveBytes < length (take (maxArchiveBytes + 1) sealed)" by simp
    with False stored path len show ?thesis by (simp add: restore_archive_def new_file_def Let_def)
  qed
qed


section \<open>A concrete backup\<close>

definition sample_aead :: aead where
  "sample_aead = \<lparr>ae_Seal = (\<lambda>nonce plaintext. plaintext @ replicate tagSize 0),
     ae_Open = (\<lambda>nonce ciphertext. Some (take (length ciphertext - tagSize) ciphertext))\<rparr>"

lemma sample_authentic: "authentic sample_aead"
  by (simp add: authentic_def sample_aead_def)

definition sample_stamp :: "go_time \<Rightarrow> string" where
  "sample_stamp now = ''20260101T000000Z''"

lemma backup_restorable_witness:
  "\<exists>d' fs' src'. create_backup sample_aead sample_stamp [[1], [2, 3]] True [''backups''] 0 second (([], []), replicate 12 7) =
      (Inr (), ((d', fs'), src')) \<and>
    restore_archive sample_aead (path_text (archive_path sample_stamp [''backups''] second)) d' = Inr [1, 2, 3]"
proof -
  have seal: "seal_archive sample_aead [1, 2, 3] (replicate 12 7) =
      (Inr (archiveHeader @ replicate 12 7 @ [1, 2, 3] @ replicate 16 0), [])"
    by (simp add: seal_archive_def read_full_def sample_aead_def)
  have dump: "run_dump [[1], [2, 3]] True = Inr [1, 2, 3]" by (simp add: run_dump_def)
  have "fst (atomic_write (archive_path sample_stamp [''backups''] second) sealed second ([], [])) = Inr ()" for sealed
    by (simp add: atomic_write_def write_beside_def fill_and_move_def retelling_def syscall_def next_fault_def
        open_temporary_def on_file_def move_file_def sync_backup_directory_def and_then_def Let_def)
  then obtain d1 fs1 where stored: "atomic_write (archive_path sample_stamp [''backups''] second)
      (archiveHeader @ replicate 12 7 @ [1, 2, 3] @ replicate 16 0) second ([], []) = (Inr (), (d1, fs1))"
    by (metis prod.collapse)
  have run: "create_backup sample_aead sample_stamp [[1], [2, 3]] True [''backups''] 0 second (([], []), replicate 12 7) =
      (Inr (), ((d1, fs1), []))"
    by (simp only: create_backup_def Let_def prod.case dump sum.case seal and_then_def stored if_False order.irrefl ok_simps)
  have "list_all good_element (archive_path sample_stamp [''backups''] second)"
    by (simp add: good_element_def sample_stamp_def)
  from backup_restorable [OF sample_authentic this run] run show ?thesis by simp
qed


end
