(* ===== verification/Migrations.thy ===== *)
theory Migrations
  imports Database "HOL-Library.List_Lexorder" "HOL-Library.Char_ord"
begin

text \<open>
  The migrations of the schema at start-up (\<open>internal/postgres/migrations.go\<close>). A file is its name
  and its SQL; what the SQL does to a schema is a parameter. PostgreSQL runs the statements of a
  file as one transaction. A migration and its registration are two statements: a start
  that is interrupted between them runs the migration again at the next one.
\<close>

section \<open>The registry\<close>

record 's schema_db =
  sc_registry :: "string list option"
  sc_schema :: 's
  sc_locked :: bool

type_synonym migration = "string \<times> string"

type_synonym 's sql_runner = "string \<Rightarrow> 's \<Rightarrow> go_error + 's"

definition create_registry :: "('s schema_db, unit) call" where
  "create_registry d =
     (Inr (), case sc_registry d of None \<Rightarrow> d\<lparr>sc_registry := Some []\<rparr> | Some _ \<Rightarrow> d)"

definition is_applied :: "string \<Rightarrow> ('s schema_db, bool) call" where
  "is_applied version d =
     (case sc_registry d of
        None \<Rightarrow> Inl (Err ''relation schema_migrations does not exist'')
      | Some versions \<Rightarrow> Inr (version \<in> set versions), d)"

definition run_migration :: "'s sql_runner \<Rightarrow> string \<Rightarrow> ('s schema_db, unit) call" where
  "run_migration exec sql d =
     (case exec sql (sc_schema d) of
        Inl e \<Rightarrow> (Inl e, d)
      | Inr schema \<Rightarrow> (Inr (), d\<lparr>sc_schema := schema\<rparr>))"

definition register_migration :: "string \<Rightarrow> ('s schema_db, unit) call" where
  "register_migration version d =
     (case sc_registry d of
        None \<Rightarrow> (Inl (Err ''relation schema_migrations does not exist''), d)
      | Some versions \<Rightarrow>
          if version \<in> set versions then (Inl (Err ''duplicate key''), d)
          else (Inr (), d\<lparr>sc_registry := Some (versions @ [version])\<rparr>))"

section \<open>Migrating\<close>

fun migrate_files :: "'s sql_runner \<Rightarrow> migration list \<Rightarrow> ('s schema_db \<times> faults, unit) call" where
  "migrate_files exec [] = ok ()"
| "migrate_files exec ((version, sql) # files) =
     and_then (wrapping (''check migration '' @ version) (statement (is_applied version))) (\<lambda>applied.
       if applied then migrate_files exec files
       else
         and_then (wrapping (''apply migration '' @ version) (statement (run_migration exec sql))) (\<lambda>_.
         and_then (wrapping (''record migration '' @ version) (statement (register_migration version))) (\<lambda>_.
         migrate_files exec files)))"

text \<open>\<open>Migrate\<close>; the lock is taken on the connection and released by the deferred statement.\<close>

definition migrate :: "'s sql_runner \<Rightarrow> migration list \<Rightarrow> ('s schema_db \<times> faults, unit) call" where
  "migrate exec files =
     and_then (wrapping ''acquire migration lock'' (statement (\<lambda>d. (Inr (), d\<lparr>sc_locked := True\<rparr>)))) (\<lambda>_ st.
       let (r, st1) = and_then (wrapping ''create migration registry'' (statement create_registry))
                        (\<lambda>_. migrate_files exec (sort_key fst files)) st;
           (u, st2) = wrapping ''release migration lock'' (statement (\<lambda>d. (Inr (), d\<lparr>sc_locked := False\<rparr>))) st1
       in (case errors_join [err_of r, err_of u] of None \<Rightarrow> Inr () | Some e \<Rightarrow> Inl e, st2))"

text \<open>The server started again and again, each time with the connection's faults of that start.\<close>

fun migrate_starts :: "'s sql_runner \<Rightarrow> migration list \<Rightarrow> faults list \<Rightarrow> 's schema_db \<Rightarrow> 's schema_db" where
  "migrate_starts exec files [] d = d"
| "migrate_starts exec files (fs # starts) d = migrate_starts exec files starts (fst (snd (migrate exec files (d, fs))))"

section \<open>What is in place\<close>

fun run_all :: "'s sql_runner \<Rightarrow> migration list \<Rightarrow> 's \<Rightarrow> go_error + 's" where
  "run_all exec [] s = Inr s"
| "run_all exec (f # files) s = (case exec (snd f) s of Inl e \<Rightarrow> Inl e | Inr s1 \<Rightarrow> run_all exec files s1)"

lemma run_all_snoc:
  "run_all exec (files @ [f]) s = (case run_all exec files s of Inl e \<Rightarrow> Inl e | Inr s1 \<Rightarrow> exec (snd f) s1)"
  by (induction files arbitrary: s) (auto split: sum.splits)

text \<open>The first \<open>k\<close> migrations are registered; they, and perhaps the next one, are in the schema.\<close>

definition migrated_to :: "'s sql_runner \<Rightarrow> migration list \<Rightarrow> 's \<Rightarrow> nat \<Rightarrow> 's schema_db \<Rightarrow> bool" where
  "migrated_to exec files s0 k d \<longleftrightarrow> k \<le> length files \<and>
     (sc_registry d = Some (map fst (take k files)) \<or> (sc_registry d = None \<and> k = 0)) \<and>
     (run_all exec (take k files) s0 = Inr (sc_schema d) \<or>
      (k < length files \<and> run_all exec (take (Suc k) files) s0 = Inr (sc_schema d)))"

definition repeatable :: "'s sql_runner \<Rightarrow> migration list \<Rightarrow> bool" where
  "repeatable exec files \<longleftrightarrow> (\<forall>f \<in> set files. \<forall>s s1. exec (snd f) s = Inr s1 \<longrightarrow> exec (snd f) s1 = Inr s1)"

lemma is_applied_either:
  assumes "statement (is_applied v) (d, fs) = (r, (d', fs'))" and "sc_registry d = Some versions"
  shows "d' = d \<and> (r = Inr (v \<in> set versions) \<or> (\<exists>e. r = Inl e))"
  using statement_outcome [OF assms(1)] assms(2) by (auto simp: is_applied_def)

lemma register_either:
  assumes "statement (register_migration v) (d, fs) = (r, (d', fs'))" and "sc_registry d = Some versions" "v \<notin> set versions"
  shows "(d' = d \<and> (\<exists>e. r = Inl e)) \<or> d' = d\<lparr>sc_registry := Some (versions @ [v])\<rparr>"
  using statement_outcome [OF assms(1)] assms(2,3) by (auto simp: register_migration_def)

lemma run_either:
  assumes "statement (run_migration exec sql) (d, fs) = (r, (d', fs'))"
  shows "(d' = d \<and> (\<exists>e. r = Inl e)) \<or> (\<exists>schema. exec sql (sc_schema d) = Inr schema \<and> d' = d\<lparr>sc_schema := schema\<rparr>)"
  using statement_outcome [OF assms] by (auto simp: run_migration_def split: sum.splits)

text \<open>One migration at the front: it runs, again or for the first time, and is registered.\<close>

lemma next_migration:
  assumes "migrated_to exec files s0 k d" and "k < length files" and "repeatable exec files"
    and "exec (snd (files ! k)) (sc_schema d) = Inr schema"
  shows "run_all exec (take (Suc k) files) s0 = Inr schema"
proof -
  from assms(1) consider "run_all exec (take k files) s0 = Inr (sc_schema d)"
    | "run_all exec (take (Suc k) files) s0 = Inr (sc_schema d)"
    by (auto simp: migrated_to_def)
  then show ?thesis
  proof cases
    case 1
    with assms(2,4) show ?thesis by (simp add: take_Suc_conv_app_nth run_all_snoc)
  next
    case 2
    then obtain s1 where "exec (snd (files ! k)) s1 = Inr (sc_schema d)"
      using assms(2) by (auto simp: take_Suc_conv_app_nth run_all_snoc split: sum.splits)
    with assms(2,3) have "exec (snd (files ! k)) (sc_schema d) = Inr (sc_schema d)"
      unfolding repeatable_def by (meson nth_mem)
    with assms(4) 2 show ?thesis by simp
  qed
qed

lemma registered_below:
  assumes "migrated_to exec files s0 k d" "sc_registry d = Some versions" "distinct (map fst files)" "n < length files"
  shows "fst (files ! n) \<in> set versions \<longleftrightarrow> n < k"
proof -
  from assms(1,2) have v: "versions = map fst (take k files)" "k \<le> length files" by (auto simp: migrated_to_def)
  have "set (map fst (take k files)) = (!) (map fst files) ` {0..<k}"
    using nth_image [of k "map fst files"] v(2) by (simp add: take_map [symmetric])
  then have "fst (files ! n) \<in> set (map fst (take k files)) \<longleftrightarrow> (\<exists>m < k. map fst files ! m = map fst files ! n)"
    using assms(4) by (metis (no_types, lifting) atLeastLessThan_iff imageE imageI nth_map zero_le)
  also have "\<dots> \<longleftrightarrow> n < k"
    using assms(3,4) v(2) by (metis length_map nth_eq_iff_index_eq order.strict_trans2)
  finally show ?thesis using v(1) by simp
qed

lemma migrate_files_progress:
  assumes "distinct (map fst files)" "repeatable exec files"
    and "migrated_to exec files s0 k d" "sc_registry d \<noteq> None" "n \<le> k" "n \<le> length files"
    and "migrate_files exec (drop n files) (d, fs) = (r, (d', fs'))"
  shows "\<exists>k'. migrated_to exec files s0 k' d' \<and> sc_registry d' \<noteq> None \<and> (is_ok r \<longrightarrow> k' = length files)"
  using assms(3-)
proof (induction "length files - n" arbitrary: n k d fs)
  case 0
  then have "k = length files" by (auto simp: migrated_to_def)
  with 0 show ?case by auto
next
  case (Suc m)
  then have n: "n < length files" by simp
  obtain version sql where f: "files ! n = (version, sql)" by (cases "files ! n")
  have drop: "drop n files = (version, sql) # drop (Suc n) files" using n f by (simp add: Cons_nth_drop_Suc [symmetric])
  obtain versions where reg: "sc_registry d = Some versions" using Suc.prems(2) by auto
  have known: "version \<in> set versions \<longleftrightarrow> n < k"
    using registered_below [OF Suc.prems(1) reg assms(1) n] f by simp
  obtain r1 d1 fs1 where a: "statement (is_applied version) (d, fs) = (r1, (d1, fs1))" by (metis surj_pair)
  note a' = is_applied_either [OF a reg]
  have m: "m = length files - Suc n" using Suc.hyps(2) by simp
  show ?case
  proof (cases r1)
    case (Inl e)
    with a a' drop Suc.prems show ?thesis by (auto simp: and_then_def wrapping_def)
  next
    case (Inr applied)
    show ?thesis
    proof (cases "n < k")
      case True
      with Inr a a' drop known Suc.prems(5) have "migrate_files exec (drop (Suc n) files) (d, fs1) = (r, (d', fs'))"
        by (simp add: and_then_def wrapping_def)
      from Suc.hyps(1) [OF m Suc.prems(1,2) _ _ this] True n show ?thesis by simp
    next
      case False
      with Suc.prems(3) have k: "k = n" by simp
      obtain r2 d2 fs2 where run: "statement (run_migration exec sql) (d, fs1) = (r2, (d2, fs2))" by (metis surj_pair)
      from run_either [OF run] have d2: "migrated_to exec files s0 k d2 \<and> sc_registry d2 = Some versions \<and>
          (is_ok r2 \<longrightarrow> run_all exec (take (Suc k) files) s0 = Inr (sc_schema d2))"
        using next_migration [OF Suc.prems(1) _ assms(2), unfolded k] Suc.prems(1) n k f reg
        by (auto simp: migrated_to_def)
      show ?thesis
      proof (cases r2)
        case (Inl e)
        with False Inr a a' drop known run Suc.prems(5) d2 show ?thesis by (auto simp: and_then_def wrapping_def)
      next
        case (Inr u)
        obtain r3 d3 fs3 where rec: "statement (register_migration version) (d2, fs2) = (r3, (d3, fs3))" by (metis surj_pair)
        from register_either [OF rec] d2 known k
        have d3: "(d3 = d2 \<and> (\<exists>e. r3 = Inl e)) \<or> d3 = d2\<lparr>sc_registry := Some (versions @ [version])\<rparr>" by simp
        have step: "migrated_to exec files s0 (Suc n) (d2\<lparr>sc_registry := Some (versions @ [version])\<rparr>)"
          using d2 Inr k n f reg Suc.prems(1) by (auto simp: migrated_to_def take_Suc_conv_app_nth)
        show ?thesis
        proof (cases r3)
          case (Inl e)
          from \<open>r1 = Inr applied\<close> \<open>r2 = Inr u\<close> Inl False a a' drop known run rec Suc.prems(5)
          have "d' = d3 \<and> \<not> is_ok r" by (auto simp: and_then_def wrapping_def)
          with d3 d2 step show ?thesis by auto
        next
          case (Inr u3)
          with d3 have "d3 = d2\<lparr>sc_registry := Some (versions @ [version])\<rparr>" by simp
          with step have d3': "migrated_to exec files s0 (Suc n) d3" "sc_registry d3 \<noteq> None" by simp_all
          from \<open>r1 = Inr applied\<close> \<open>r2 = Inr u\<close> Inr False a a' drop known run rec Suc.prems(5)
          have "migrate_files exec (drop (Suc n) files) (d3, fs3) = (r, (d', fs'))" by (simp add: and_then_def wrapping_def)
          from Suc.hyps(1) [OF m d3' _ _ this] n show ?thesis by simp
        qed
      qed
    qed
  qed
qed

lemma run_all_take:
  "run_all exec files s0 = Inr s \<Longrightarrow> \<exists>s1. run_all exec (take k files) s0 = Inr s1"
  by (induction files arbitrary: s0 k) (auto simp: take_Cons' split: sum.splits)

lemma next_runs:
  assumes "migrated_to exec files s0 k d" and "k < length files" and "repeatable exec files"
    and "run_all exec files s0 = Inr s"
  shows "\<exists>schema. exec (snd (files ! k)) (sc_schema d) = Inr schema"
proof -
  obtain s1 s2 where s: "run_all exec (take k files) s0 = Inr s1" "exec (snd (files ! k)) s1 = Inr s2"
      "run_all exec (take (Suc k) files) s0 = Inr s2"
    using run_all_take [OF assms(4), of "Suc k"] assms(2)
    by (auto simp: take_Suc_conv_app_nth run_all_snoc split: sum.splits)
  with assms(1) have "sc_schema d = s1 \<or> sc_schema d = s2" by (auto simp: migrated_to_def)
  with s assms(2,3) show ?thesis unfolding repeatable_def by (metis nth_mem)
qed

lemma migrate_files_undisturbed:
  assumes "distinct (map fst files)" "repeatable exec files" "run_all exec files s0 = Inr s"
    and "migrated_to exec files s0 k d" "sc_registry d \<noteq> None" "n \<le> k" "n \<le> length files"
  shows "\<exists>d'. migrate_files exec (drop n files) (d, []) = (Inr (), (d', []))"
  using assms(4-)
proof (induction "length files - n" arbitrary: n k d)
  case 0
  then show ?case by auto
next
  case (Suc m)
  then have n: "n < length files" by simp
  obtain version sql where f: "files ! n = (version, sql)" by (cases "files ! n")
  have drop: "drop n files = (version, sql) # drop (Suc n) files" using n f by (simp add: Cons_nth_drop_Suc [symmetric])
  obtain versions where reg: "sc_registry d = Some versions" using Suc.prems(2) by auto
  have known: "version \<in> set versions \<longleftrightarrow> n < k"
    using registered_below [OF Suc.prems(1) reg assms(1) n] f by simp
  have m: "m = length files - Suc n" using Suc.hyps(2) by simp
  show ?case
  proof (cases "n < k")
    case True
    with Suc.hyps(1) [OF m Suc.prems(1,2)] n show ?thesis
      using drop reg known by (auto simp: and_then_def wrapping_def is_applied_def)
  next
    case False
    with Suc.prems(3) have k: "k = n" by simp
    from next_runs [OF Suc.prems(1) _ assms(2,3)] n k f obtain schema where
        exec: "exec sql (sc_schema d) = Inr schema" by auto
    let ?d = "d\<lparr>sc_schema := schema, sc_registry := Some (versions @ [version])\<rparr>"
    have "run_all exec (take (Suc n) files) s0 = Inr schema"
      using next_migration [OF Suc.prems(1) _ assms(2)] exec n k f by simp
    moreover have "versions = map fst (take n files)" using Suc.prems(1) reg k by (auto simp: migrated_to_def)
    ultimately have "migrated_to exec files s0 (Suc n) ?d"
      using n f by (auto simp: migrated_to_def take_Suc_conv_app_nth)
    from Suc.hyps(1) [OF m this] n obtain d' where "migrate_files exec (drop (Suc n) files) (?d, []) = (Inr (), (d', []))"
      by auto
    with drop reg known False exec show ?thesis
      by (auto simp: and_then_def wrapping_def is_applied_def run_migration_def register_migration_def)
  qed
qed

lemma create_registry_keeps:
  "create_registry d = (Inr (), d') \<Longrightarrow> migrated_to exec files s0 k d \<Longrightarrow> migrated_to exec files s0 k d' \<and> sc_registry d' \<noteq> None"
  by (auto simp: create_registry_def migrated_to_def split: option.splits)

lemma migrated_locked [simp]: "migrated_to exec files s0 k (d\<lparr>sc_locked := b\<rparr>) = migrated_to exec files s0 k d"
  by (simp add: migrated_to_def)

lemma migrate_keeps:
  assumes "distinct (map fst files)" "repeatable exec files" "migrated_to exec (sort_key fst files) s0 k d"
    and "migrate exec files (d, fs) = (r, (d', fs'))"
  shows "\<exists>k'. migrated_to exec (sort_key fst files) s0 k' d'"
proof -
  let ?files = "sort_key fst files"
  have files: "distinct (map fst ?files)" "repeatable exec ?files"
    using assms(1,2) by (simp_all add: repeatable_def distinct_map)
  obtain r1 d1 fs1 where lock: "statement (\<lambda>d. (Inr (), d\<lparr>sc_locked := True\<rparr>)) (d, fs) = (r1, (d1, fs1))"
    by (metis surj_pair)
  have d1: "migrated_to exec ?files s0 k d1" using statement_outcome [OF lock] assms(3) by auto
  obtain r2 d2 fs2 where create: "statement create_registry (d1, fs1) = (r2, (d2, fs2))" by (metis surj_pair)
  have d2: "migrated_to exec ?files s0 k d2 \<and> (is_ok r2 \<longrightarrow> sc_registry d2 \<noteq> None)"
    using statement_outcome [OF create] create_registry_keeps [of d1 d2 exec ?files s0 k] d1
    by (auto simp: create_registry_def)
  obtain r3 d3 fs3 where files3: "migrate_files exec ?files (d2, fs2) = (r3, (d3, fs3))" by (metis surj_pair)
  have d3: "\<exists>k'. migrated_to exec ?files s0 k' d3" if "is_ok r2"
    using migrate_files_progress [OF files, of s0 k d2 0 fs2 r3 d3 fs3] d2 that files3 by auto
  show ?thesis
  proof (cases "is_ok r1")
    case False
    with assms(4) lock d1 show ?thesis by (auto simp: migrate_def and_then_def wrapping_def is_ok_iff split: sum.splits)
  next
    case True
    define d4 where "d4 = (if is_ok r2 then d3 else d2)"
    have "\<exists>k'. migrated_to exec ?files s0 k' d4" using d2 d3 by (auto simp: d4_def)
    moreover have "\<exists>b. d' = d4 \<or> d' = d4\<lparr>sc_locked := b\<rparr>"
    proof -
      define fs4 where "fs4 = (if is_ok r2 then fs3 else fs2)"
      obtain u d5 fs5 where unlock: "statement (\<lambda>d. (Inr (), d\<lparr>sc_locked := False\<rparr>)) (d4, fs4) = (u, (d5, fs5))"
        by (metis surj_pair)
      have "d' = d5"
        using True assms(4) lock create files3 unlock
        by (auto simp: migrate_def and_then_def wrapping_def is_ok_iff d4_def fs4_def Let_def split: sum.splits prod.splits if_splits)
      with statement_outcome [OF unlock] show ?thesis by auto
    qed
    ultimately show ?thesis by auto
  qed
qed

lemma migrate_starts_keep:
  assumes "distinct (map fst files)" "repeatable exec files"
  shows "migrated_to exec (sort_key fst files) s0 k d \<Longrightarrow>
    \<exists>k'. migrated_to exec (sort_key fst files) s0 k' (migrate_starts exec files starts d)"
proof (induction starts arbitrary: k d)
  case Nil
  then show ?case by auto
next
  case (Cons fs starts)
  obtain r d' fs' where "migrate exec files (d, fs) = (r, (d', fs'))" by (metis surj_pair)
  with migrate_keeps [OF assms Cons.prems this] Cons.IH show ?case by auto
qed

text \<open>
  C39. Migrations survive interrupted starts: whatever statements, and answers to them, the earlier
  starts lost, and whichever first part of the migrations an older version had already registered, one
  undisturbed start takes the database to the schema of a fresh installation, which runs every
  migration once in the order of the names, with all of them registered and the lock released.
  Every migration has to leave a schema it has already been applied to as it is.
\<close>

theorem migrations_converge:
  assumes "distinct (map fst files)" "repeatable exec files"
    and "run_all exec (sort_key fst files) s0 = Inr s"
    and "migrated_to exec (sort_key fst files) s0 k d"
  shows "\<exists>d'. migrate exec files (migrate_starts exec files starts d, []) = (Inr (), (d', [])) \<and>
    sc_schema d' = s \<and> sc_registry d' = Some (sort (map fst files)) \<and> \<not> sc_locked d'"
proof -
  let ?files = "sort_key fst files"
  have files: "distinct (map fst ?files)" "repeatable exec ?files"
    using assms(1,2) by (simp_all add: repeatable_def distinct_map)
  obtain k1 where "migrated_to exec ?files s0 k1 (migrate_starts exec files starts d)"
    using migrate_starts_keep [OF assms(1,2,4)] by blast
  then have k1: "migrated_to exec ?files s0 k1 ((migrate_starts exec files starts d)\<lparr>sc_locked := True\<rparr>)" by simp
  obtain d1 where create: "create_registry ((migrate_starts exec files starts d)\<lparr>sc_locked := True\<rparr>) = (Inr (), d1)"
    by (simp add: create_registry_def)
  from create_registry_keeps [OF create k1] have d1: "migrated_to exec ?files s0 k1 d1" "sc_registry d1 \<noteq> None" by auto
  from migrate_files_undisturbed [OF files assms(3) d1, of 0] obtain d2 where
      run: "migrate_files exec ?files (d1, []) = (Inr (), (d2, []))" by auto
  from migrate_files_progress [OF files d1, of 0 "[]" "Inr ()" d2 "[]"] run have
      d2: "migrated_to exec ?files s0 (length ?files) d2" "sc_registry d2 \<noteq> None" by auto
  from create run have "migrate exec files (migrate_starts exec files starts d, []) = (Inr (), (d2\<lparr>sc_locked := False\<rparr>, []))"
    by (simp add: migrate_def and_then_def wrapping_def errors_join_def)
  moreover have "sc_schema d2 = s" using d2(1) assms(3) by (simp add: migrated_to_def)
  moreover have "sc_registry d2 = Some (map fst ?files)" using d2 by (auto simp: migrated_to_def)
  moreover have "map fst ?files = sort (map fst files)"
    by (rule sorted_distinct_set_unique) (use assms(1) files(1) in simp_all)
  ultimately show ?thesis by simp
qed

text \<open>Two migrations of a schema that is a set of tables; the first start loses the registration of the first.\<close>

definition sample_sql :: "string set sql_runner" where
  "sample_sql sql s = Inr (insert sql s)"

lemma migrations_converge_witness:
  "\<exists>d'. migrate sample_sql [(''002'', ''users''), (''001'', ''administrators'')]
       (migrate_starts sample_sql [(''002'', ''users''), (''001'', ''administrators'')]
          [[Fine, Fine, Fine, Fine, Lost ''connection'']] \<lparr>sc_registry = None, sc_schema = {}, sc_locked = False\<rparr>, []) =
     (Inr (), (d', [])) \<and> sc_schema d' = {''administrators'', ''users''} \<and>
     sc_registry d' = Some [''001'', ''002''] \<and> \<not> sc_locked d'"
proof -
  let ?files = "[(''002'', ''users''), (''001'', ''administrators'')]"
  have sorted: "sort_key fst ?files = [(''001'', ''administrators''), (''002'', ''users'')]"
    "sort (map fst ?files) = [''001'', ''002'']" by code_simp+
  have "run_all sample_sql (sort_key fst ?files) {} = Inr {''administrators'', ''users''}"
    unfolding sorted by (auto simp: sample_sql_def)
  moreover have "repeatable sample_sql ?files" by (simp add: repeatable_def sample_sql_def)
  moreover have "migrated_to sample_sql (sort_key fst ?files) {} 0 \<lparr>sc_registry = None, sc_schema = {}, sc_locked = False\<rparr>"
    by (simp add: migrated_to_def)
  ultimately show ?thesis
    using migrations_converge [of ?files sample_sql "{}" "{''administrators'', ''users''}" 0 _
        "[[Fine, Fine, Fine, Fine, Lost ''connection'']]"] sorted(2) by simp
qed

end
