(* ===== verification/Spec2Isabelle.thy ===== *)
theory Spec2Isabelle
  imports Traffic_Runner Core_Progress Recheck_Scheduler Web_System Quota_Sweep Backups Migrations
begin

text \<open>
  A verification development of the VPN bot: a Go server that hands out VPN access to Telegram
  users who are members of given chats, accounts their traffic, keeps a sing-box core configured
  with exactly the users it is to serve, and is managed by administrators over a web interface
  and the bot. File names below are relative to \<open>internal/\<close> unless they begin with \<open>cmd/\<close>.

  \<^bold>\<open>The program and its model.\<close> Everything lasting is in PostgreSQL. The model of the tables is a
  record (\<open>Auth_Store\<close>: administrators, login codes, sessions; \<open>Vpn_Tables\<close>: users, credential
  bundles, quota windows, traffic health, core actions, settings, rules, audit events), with the
  \<open>CHECK\<close> constraints of \<open>postgres/migrations\<close> written out where a row is stored. \<open>Database\<close> models a
  connection: a list of marks says for each statement, begin and commit whether it is carried out,
  lost, or carried out with its answer lost; \<open>run_in_transaction\<close> is \<open>transaction_runner.go\<close>. A Go
  function that can fail is a \<open>call\<close>: a state to \<open>go_error + 'a\<close> and a state, with every early return
  a branch; errors keep what \<open>errors.Is\<close> and \<open>errors.As\<close> can see (\<open>Prelude\<close>). Interfaces of the Go code
  are functions in a record, or the \<open>fixes\<close> of a locale where several operations share a contract.
  Machine integers are words or \<open>int\<close> with \<open>s64\<close> where a wrap-around matters; times and durations are
  nanoseconds, the zero time is \<open>0\<close>. A clock reading is an argument or a function of the state.

  \<^bold>\<open>Shared parts.\<close> \<open>Prelude\<close> (errors, calls, \<open>int64\<close>, time, lists), \<open>Database\<close> (faults, transactions),
  \<open>Encoding\<close> (base64url, hexadecimal, byte sources), \<open>Addresses\<close> (IP addresses, host and port, decimal
  numbers, blanks), \<open>Paths\<close> (\<open>path/filepath\<close>).

  \<^bold>\<open>Access and quota.\<close> \<open>Access\<close> is \<open>domain/access.go\<close> and the qualification decision: the state machine
  of a user's access, its invariant \<open>wf_account\<close>, the finality of a permanent block and the exact
  answer of the decision. \<open>Quota\<close> is \<open>domain/quota.go\<close> with the accounting of a batch: a run of the
  window against the plain sum of what was observed in the current period. \<open>Credentials\<close> is
  \<open>domain/credentials.go\<close>. \<open>Access_Store\<close> is the transactions around them (\<open>access_store.go\<close>,
  \<open>provisioning_store.go\<close>, \<open>user_management_store.go\<close>), \<open>Management_Settings\<close> the owner's settings and
  what a change of the inactivity threshold and of the quota does to users
  (\<open>management_settings_store.go\<close>). \<open>Vpn_System\<close> puts all operations on the tables together: every
  change of who is served leaves an open core action (\<open>announced\<close>), whatever fails.

  \<^bold>\<open>Traffic.\<close> \<open>Collector\<close>, \<open>Traffic_Batch\<close>, \<open>File_Spool\<close> (\<open>trafficstats\<close>), \<open>Traffic_Store\<close>
  (\<open>traffic_store.go\<close>: batches, due periods, health), \<open>Traffic_Runner\<close> (\<open>trafficrunner\<close>, over the locale
  \<open>traffic_pipeline\<close>), \<open>Quota_Sweep\<close> (\<open>quotasweep\<close>): a batch is accounted exactly once over crashes and
  lost answers, the spool returns what it was given, the sweep keeps up; and the proof that a
  period that rolled over makes later batches fail.

  \<^bold>\<open>The core.\<close> \<open>Generator\<close> (\<open>singbox/generator.go\<close>: the configuration document), \<open>Snapshot\<close>
  (\<open>credential_store.go\<close>, \<open>core_settings_store.go\<close>, \<open>core_settings_management.go\<close>,
  \<open>singbox/snapshot_builder.go\<close>), \<open>Installer\<close>, \<open>File_Deployment\<close> (on a file system with faulty calls),
  \<open>Core_Control\<close> (\<open>corecontrol\<close>: the control socket), \<open>Core_Actions\<close> (\<open>core_action_store.go\<close>),
  \<open>Core_Worker\<close> (\<open>coreworker/worker.go\<close>, with an invariant for any store and installer that keep the
  contract of its locale). \<open>Core_System\<close> is worker, tables and core together: the core runs what the
  tables ask for unless an action is open or held, but for one lost update, which \<open>Core_Progress\<close>
  exhibits beside the theorems that actions take effect. \<open>Subscription\<close> (\<open>subscription\<close>) relates what
  clients are told to what the generated configuration admits.

  \<^bold>\<open>Administrators.\<close> \<open>Auth\<close> (\<open>auth\<close>: roles, codes, sessions), \<open>Auth_Store\<close> (\<open>auth_store.go\<close>; the locales
  \<open>login_code_store\<close> and \<open>session_store\<close>), \<open>Administrator_Store\<close> (role changes), \<open>Login\<close> (what follows on
  the tables), \<open>Login_Limits\<close> (both rate limiters against limiters that forget nothing). The web
  interface: \<open>Web_Request\<close> (source addresses, cookies, CSRF, strict bodies), \<open>Web_Routes\<close> (every
  handler of \<open>httpapi\<close>), \<open>Web_Access\<close> (the access matrix and the outcomes of a login, on the tables),
  \<open>Web_Wiring\<close> (which routes the server's own wiring registers, and which it loses), \<open>Web_System\<close>
  (the handlers with the services of \<open>cmd/server/main.go\<close> on the tables: what any sequence of
  requests keeps, over the locale \<open>web_relation\<close>, and whose requests can change anything).

  \<^bold>\<open>Telegram.\<close> \<open>Telegram\<close> (\<open>telegram/client.go\<close>, the client that can be swapped), \<open>Update_Runner\<close> (the
  polling loop), \<open>Telegram_Commands\<close> (commands, approvals, \<open>vpn/\<close>), \<open>Qualification\<close> (\<open>qualification\<close>: the
  rate-limited membership lookup, events, the paged recheck, rules and their stores),
  \<open>Recheck_Scheduler\<close> (interval and trigger as interleaved steps), \<open>Bot_Settings\<close> (the stored token,
  its rotation and restarts; the backup retention), \<open>Notices\<close> (audit store and the notices of core
  and traffic).

  \<^bold>\<open>TLS and REALITY.\<close> \<open>Tls\<close> (\<open>acme/service.go\<close>, \<open>tlsrunner\<close>, \<open>tls_settings_store.go\<close>), \<open>Reality\<close> (the
  concurrent search for targets, equal to a sequential one whatever the interleaving, and its fair
  sample), \<open>Reality_Health\<close> (the stored health, its monitor and notices).

  \<^bold>\<open>Files and start-up.\<close> \<open>Atomic_Files\<close> (\<open>acme/file_installer.go\<close>: files written beside their place and
  moved into it, and the pair of certificate files), \<open>Backups\<close> (\<open>backup/archive.go\<close>,
  \<open>cmd/backup/main.go\<close>, \<open>cmd/restore/main.go\<close>: archives, retention, and when a backup can be restored),
  \<open>Migrations\<close> (\<open>postgres/migrations.go\<close>: interrupted starts end in the schema of a fresh one).

  \<^bold>\<open>Bounds and fuel.\<close> Loops over data are structural recursions or have a measure. Loops that serve
  until the process ends (\<open>run_monitor\<close>, \<open>run_traffic_service\<close>, \<open>run_sweeper\<close>) take a number of rounds
  and answer \<open>None\<close> when it is used up: the statements about them hold for every number. The recheck
  of all users is a \<open>partial_function\<close>; that it returns is a theorem of its own. The loop of
  \<open>unquote\<close> gets the length of its text, of which every round takes at least one character.
  Concurrency is modelled where the code's correctness rests on it: the recheck scheduler and the
  REALITY search as steps in any order; limiters, stores and the swapped client change under a mutex
  or in one statement and are sequences of operations.

  \<^bold>\<open>Parameters.\<close> What is not this program's code is an argument of the definitions: ciphers and
  digests, the answers of Telegram, of certificate authorities and of probed hosts, parsers of JSON,
  URLs and headers, the wording of messages, random bytes and clocks. Where a theorem needs a law of
  such an argument (a cipher opens what it sealed), it is a named hypothesis.

  \<^bold>\<open>Not modelled.\<close> The processes under \<open>cmd\<close> other than what is named above (they start programs, open
  sockets and read flags and the environment), \<open>config\<close> (the environment), \<open>secrets\<close> (AES-GCM and HMAC of the standard
  library), the gRPC transport of the statistics, the lego client, the TLS prober and the embedded dataset of the REALITY search, static
  files and QR codes. Details and times of audit events are not kept. PostgreSQL itself is modelled
  as far as the statements go: what its planner makes of their text, and the types it infers for
  their parameters, is not.
\<close>

end
